(* ===== verification/Prelude.thy ===== *)
theory Prelude
  imports
    "HOL-Library.Word"
    "HOL-Library.List_Lexorder"
    "HOL-Library.Char_ord"
    "HOL-Library.Product_Lexorder"
    "HOL-Library.AList"
    "HOL-Library.Sublist"
    "HOL-Library.Multiset"
begin

text \<open>
  The vocabulary every component theory shares: the parts of Go's standard library that the
  RillDNS sources call (byte strings and the functions of package \<open>strings\<close>, decimal
  printing, \<open>bufio.Scanner\<close> lines, \<open>time.Time\<close> and civil dates, maps, sorting) and the lemmas
  about them.

  A Go string is a list of bytes.  Case mapping and white space are modelled on the ASCII range;
  bytes from 128 upwards are left alone by \<open>to_lower\<close> and \<open>trim_space\<close>, so Unicode case
  mapping and Unicode spaces are outside the model.  A Go map is an association list with
  distinct keys; iteration runs in list order, which stands for one of the orders Go may choose.
\<close>

section \<open>Collections of simplification rules and names for the model's types\<close>

named_theorems go_strings \<open>rewrite rules for the string functions\<close>
named_theorems norm_rules \<open>idempotence and shape of the normalisation functions\<close>
named_theorems gomap_simps \<open>lookup, length and key rules for Go maps\<close>

type_synonym bytes = string
type_synonym path = string
type_synonym uint32 = "32 word"
type_synonym gotime = int
type_synonym duration = int
type_synonym ('k, 'v) gomap = "('k \<times> 'v) list"

section \<open>Package strings\<close>

definition is_space :: "char \<Rightarrow> bool" where
  "is_space c = (c \<in> {CHR 0x09, CHR 0x0A, CHR 0x0B, CHR 0x0C, CHR 0x0D, CHR '' ''})"

definition lower_char :: "char \<Rightarrow> char" where
  "lower_char c = (if 65 \<le> (of_char c :: nat) \<and> (of_char c :: nat) \<le> 90
                   then char_of (of_char c + 32 :: nat) else c)"

definition upper_char :: "char \<Rightarrow> char" where
  "upper_char c = (if 97 \<le> (of_char c :: nat) \<and> (of_char c :: nat) \<le> 122
                   then char_of (of_char c - 32 :: nat) else c)"

definition to_lower :: "string \<Rightarrow> string" where
  "to_lower s = map lower_char s"

definition to_upper :: "string \<Rightarrow> string" where
  "to_upper s = map upper_char s"

definition trim_by :: "(char \<Rightarrow> bool) \<Rightarrow> string \<Rightarrow> string" where
  "trim_by P s = rev (dropWhile P (rev (dropWhile P s)))"

definition trim_space :: "string \<Rightarrow> string" where
  "trim_space s = trim_by is_space s"

definition has_prefix :: "string \<Rightarrow> string \<Rightarrow> bool" where
  "has_prefix s p = prefix p s"

definition has_suffix :: "string \<Rightarrow> string \<Rightarrow> bool" where
  "has_suffix s p = suffix p s"

definition trim_suffix :: "string \<Rightarrow> string \<Rightarrow> string" where
  "trim_suffix s p = (if suffix p s then take (length s - length p) s else s)"

definition equal_fold :: "string \<Rightarrow> string \<Rightarrow> bool" where
  "equal_fold s t = (to_lower s = to_lower t)"

definition contains_any :: "string \<Rightarrow> string \<Rightarrow> bool" where
  "contains_any s cs = list_ex (\<lambda>c. c \<in> set cs) s"

fun split_by :: "(char \<Rightarrow> bool) \<Rightarrow> string \<Rightarrow> string list" where
  "split_by P [] = [[]]"
| "split_by P (x # xs) =
     (if P x then [] # split_by P xs
      else case split_by P xs of [] \<Rightarrow> [[x]] | y # ys \<Rightarrow> (x # y) # ys)"

definition split_on :: "char \<Rightarrow> string \<Rightarrow> string list" where
  "split_on c s = split_by (\<lambda>x. x = c) s"

fun splitn :: "nat \<Rightarrow> char \<Rightarrow> string \<Rightarrow> string list" where
  "splitn 0 c s = []"
| "splitn (Suc 0) c s = [s]"
| "splitn (Suc (Suc n)) c s =
     (if c \<in> set s
      then takeWhile (\<lambda>x. x \<noteq> c) s # splitn (Suc n) c (tl (dropWhile (\<lambda>x. x \<noteq> c) s))
      else [s])"

definition go_fields :: "string \<Rightarrow> string list" where
  "go_fields s = filter (\<lambda>w. w \<noteq> []) (split_by is_space s)"

fun join :: "string \<Rightarrow> string list \<Rightarrow> string" where
  "join sep [] = []"
| "join sep [x] = x"
| "join sep (x # y # zs) = x @ sep @ join sep (y # zs)"

text \<open>The lines a \<open>bufio.Scanner\<close> delivers: a final empty line is dropped and so is one
  carriage return at the end of a line.\<close>

definition strip_cr :: "string \<Rightarrow> string" where
  "strip_cr l = trim_suffix l [CHR 0x0D]"

definition scan_lines :: "bytes \<Rightarrow> string list" where
  "scan_lines s = (let ls = split_on (CHR 0x0A) s
                   in map strip_cr (if last ls = [] then butlast ls else ls))"

section \<open>Decimal printing\<close>

definition digit_char :: "nat \<Rightarrow> char" where
  "digit_char d = char_of (48 + d)"

fun nat_dec :: "nat \<Rightarrow> string" where
  "nat_dec n = (if n < 10 then [digit_char n] else nat_dec (n div 10) @ [digit_char (n mod 10)])"

declare nat_dec.simps [simp del]

text \<open>\<open>fmt.Sprintf("%05d", n)\<close> for the record types, which have at most five digits.\<close>

definition pad5 :: "nat \<Rightarrow> string" where
  "pad5 n = (let s = nat_dec n in replicate (5 - length s) (CHR ''0'') @ s)"

section \<open>Time\<close>

text \<open>
  A \<open>time.Time\<close> is the number of nanoseconds since the Unix epoch; Go's zero time is the first
  instant of year 1.  \<open>time_sub\<close> saturates at the range of \<open>time.Duration\<close>, as \<open>Time.Sub\<close> does.
\<close>

definition second :: int where "second = 1000000000"
definition minute :: int where "minute = 60 * second"
definition hour :: int where "hour = 60 * minute"

definition zero_time :: gotime where
  "zero_time = -62135596800 * second"

definition is_zero :: "gotime \<Rightarrow> bool" where
  "is_zero t = (t = zero_time)"

definition max_duration :: int where "max_duration = 2 ^ 63 - 1"
definition min_duration :: int where "min_duration = - (2 ^ 63)"

definition time_sub :: "gotime \<Rightarrow> gotime \<Rightarrow> duration" where
  "time_sub t u = max min_duration (min max_duration (t - u))"

definition unix_seconds :: "gotime \<Rightarrow> int" where
  "unix_seconds t = t div second"

text \<open>The proleptic Gregorian date (year, month, day) of a time in UTC.\<close>

definition civil_of_days :: "int \<Rightarrow> int \<times> int \<times> int" where
  "civil_of_days n =
     (let z = n + 719468; era = z div 146097; doe = z mod 146097;
          yoe = (doe - doe div 1460 + doe div 36524 - doe div 146096) div 365;
          doy = doe - (365 * yoe + yoe div 4 - yoe div 100);
          mp = (5 * doy + 2) div 153;
          d = doy - (153 * mp + 2) div 5 + 1;
          m = (if mp < 10 then mp + 3 else mp - 9);
          y = yoe + era * 400 + (if m \<le> 2 then 1 else 0)
      in (y, m, d))"

definition civil_date :: "gotime \<Rightarrow> int \<times> int \<times> int" where
  "civil_date t = civil_of_days (unix_seconds t div 86400)"

section \<open>Maps\<close>

text \<open>\<open>m[k]\<close> with the zero value of the element type for a missing key.\<close>

definition gomap_get :: "'v \<Rightarrow> ('k, 'v) gomap \<Rightarrow> 'k \<Rightarrow> 'v" where
  "gomap_get z m k = (case map_of m k of None \<Rightarrow> z | Some v \<Rightarrow> v)"

abbreviation gomap_wf :: "('k, 'v) gomap \<Rightarrow> bool" where
  "gomap_wf m \<equiv> distinct (map fst m)"

abbreviation gomap_has :: "('k, 'v) gomap \<Rightarrow> 'k \<Rightarrow> bool" where
  "gomap_has m k \<equiv> map_of m k \<noteq> None"

text \<open>A set \<open>map[string]struct{}\<close> as the list of its elements.\<close>

definition goset_add :: "'a \<Rightarrow> 'a list \<Rightarrow> 'a list" where
  "goset_add x xs = (if x \<in> set xs then xs else xs @ [x])"

section \<open>Lemmas on strings\<close>

lemma dropWhile_eq_hd: "xs \<noteq> [] \<Longrightarrow> \<not> P (hd xs) \<Longrightarrow> dropWhile P xs = xs"
  by (cases xs) auto

lemma dropWhile_idem: "dropWhile P (dropWhile P xs) = dropWhile P xs"
  by (induction xs) auto

lemma suffix_dropWhile_last:
  "dropWhile P xs \<noteq> [] \<Longrightarrow> last (dropWhile P xs) = last xs"
  by (induction xs) auto

lemma trim_by_hd: "trim_by P s \<noteq> [] \<Longrightarrow> \<not> P (hd (trim_by P s))"
proof -
  assume ne: "trim_by P s \<noteq> []"
  let ?t = "dropWhile P s"
  have t: "?t \<noteq> []"
  proof
    assume "?t = []"
    then show False using ne by (simp only: trim_by_def rev.simps dropWhile.simps)
  qed
  have "hd (trim_by P s) = last (dropWhile P (rev ?t))"
    using ne by (simp add: trim_by_def hd_rev)
  also have "\<dots> = last (rev ?t)"
    using ne by (simp add: trim_by_def suffix_dropWhile_last)
  also have "\<dots> = hd ?t" using t by (simp add: last_rev)
  finally show ?thesis using hd_dropWhile [OF t] by simp
qed

lemma trim_by_last: "trim_by P s \<noteq> [] \<Longrightarrow> \<not> P (last (trim_by P s))"
  using hd_dropWhile [of P "rev (dropWhile P s)"] by (simp add: trim_by_def last_rev)

lemma trim_by_id: "s = [] \<or> (\<not> P (hd s) \<and> \<not> P (last s)) \<Longrightarrow> trim_by P s = s"
proof (cases "s = []")
  case False
  moreover assume "s = [] \<or> (\<not> P (hd s) \<and> \<not> P (last s))"
  ultimately show ?thesis by (simp add: trim_by_def dropWhile_eq_hd hd_rev)
qed (simp add: trim_by_def)

lemma trim_by_idem [simp]: "trim_by P (trim_by P s) = trim_by P s"
  using trim_by_hd trim_by_last by (intro trim_by_id) blast

lemma trim_space_idem [simp]: "trim_space (trim_space s) = trim_space s"
  by (simp add: trim_space_def)

lemma set_dropWhile_subset: "set (dropWhile P xs) \<subseteq> set xs"
  by (induction xs) auto

lemma set_trim_by: "set (trim_by P s) \<subseteq> set s"
  unfolding trim_by_def using set_dropWhile_subset [of P "rev (dropWhile P s)"]
    set_dropWhile_subset [of P s] by auto

lemma set_trim_space: "set (trim_space s) \<subseteq> set s"
  by (simp add: trim_space_def set_trim_by)

lemma lower_char_range:
  "of_char (lower_char c) = (if 65 \<le> (of_char c :: nat) \<and> (of_char c :: nat) \<le> 90
                             then of_char c + 32 else (of_char c :: nat))"
  by (auto simp: lower_char_def)

lemma lower_char_idem [simp]: "lower_char (lower_char c) = lower_char c"
  using lower_char_range [of c] by (auto simp: lower_char_def split: if_splits)

lemma to_lower_idem [simp]: "to_lower (to_lower s) = to_lower s"
  by (simp add: to_lower_def)

lemma to_lower_append [simp]: "to_lower (s @ t) = to_lower s @ to_lower t"
  by (simp add: to_lower_def)

lemma to_lower_Nil [simp]: "to_lower [] = []" "(to_lower s = []) = (s = [])"
  by (simp_all add: to_lower_def)

lemma length_to_lower [simp]: "length (to_lower s) = length s"
  by (simp add: to_lower_def)

lemma of_char_inj_nat: "(of_char c :: nat) = of_char d \<Longrightarrow> c = d"
  by (metis char_of_char)

text \<open>Lower-casing neither creates nor removes a byte outside the two alphabets.\<close>

definition letter :: "char \<Rightarrow> bool" where
  "letter c = ((65 \<le> (of_char c :: nat) \<and> (of_char c :: nat) \<le> 90) \<or>
               (97 \<le> (of_char c :: nat) \<and> (of_char c :: nat) \<le> 122))"

lemma lower_char_nonletter: "\<not> letter c \<Longrightarrow> lower_char d = c \<longleftrightarrow> d = c"
  using lower_char_range [of d] by (auto simp: letter_def lower_char_def split: if_splits)

lemma is_space_nonletter: "is_space c \<Longrightarrow> \<not> letter c"
  by (auto simp: is_space_def letter_def)

lemma lower_char_space [simp]: "is_space (lower_char c) = is_space c"
proof
  assume "is_space (lower_char c)"
  then show "is_space c" using lower_char_nonletter [OF is_space_nonletter] by metis
next
  assume "is_space c"
  then show "is_space (lower_char c)"
    using lower_char_nonletter [OF is_space_nonletter] by metis
qed

lemma lower_char_dot [simp]: "(lower_char c = CHR ''.'') = (c = CHR ''.'')"
  by (rule lower_char_nonletter) (simp add: letter_def)

lemma lower_char_dot' [simp]: "lower_char (CHR ''.'') = CHR ''.''" "(CHR ''.'' = lower_char c) = (c = CHR ''.'')"
  using lower_char_dot by metis+

lemma dropWhile_map_lower:
  "(\<And>c. P (lower_char c) = P c) \<Longrightarrow> dropWhile P (map lower_char s) = map lower_char (dropWhile P s)"
  by (induction s) auto

lemma trim_space_to_lower: "trim_space (to_lower s) = to_lower (trim_space s)"
proof -
  have "rev (dropWhile is_space (rev (map lower_char t))) =
      map lower_char (rev (dropWhile is_space (rev t)))" for t
    using dropWhile_map_lower [of is_space "rev t"] by (simp add: rev_map)
  then show ?thesis
    by (simp add: trim_space_def trim_by_def to_lower_def dropWhile_map_lower)
qed

lemma suffix_dot_to_lower: "suffix ''.'' (to_lower s) = suffix ''.'' s"
  using lower_char_dot by (cases s rule: rev_cases) (auto simp: to_lower_def)

lemma trim_suffix_dot_to_lower: "trim_suffix (to_lower s) ''.'' = to_lower (trim_suffix s ''.'')"
  by (simp add: trim_suffix_def suffix_dot_to_lower) (simp add: to_lower_def take_map)

lemma trim_suffix_append [simp]: "trim_suffix (s @ p) p = s"
  by (simp add: trim_suffix_def suffix_def)

lemma set_trim_suffix: "set (trim_suffix s p) \<subseteq> set s"
  by (auto simp: trim_suffix_def dest: in_set_takeD)

lemma has_suffix_append [simp]: "has_suffix (s @ p) p"
  by (simp add: has_suffix_def suffix_def)

lemma trim_suffix_not: "\<not> suffix p s \<Longrightarrow> trim_suffix s p = s"
  by (simp add: trim_suffix_def)

lemma equal_fold_refl [simp]: "equal_fold s s"
  by (simp add: equal_fold_def)

section \<open>Lemmas on splitting and joining\<close>

lemma split_by_ne [simp]: "split_by P s \<noteq> []"
  by (induction s) (auto split: list.splits)

lemma split_by_no: "\<forall>x\<in>set s. \<not> P x \<Longrightarrow> split_by P s = [s]"
  by (induction s) auto

lemma split_by_append_sep:
  "\<forall>x\<in>set s. \<not> P x \<Longrightarrow> P c \<Longrightarrow> split_by P (s @ c # t) = s # split_by P t"
  by (induction s) auto

lemma split_by_elems: "w \<in> set (split_by P s) \<Longrightarrow> x \<in> set w \<Longrightarrow> x \<in> set s \<and> \<not> P x"
proof (induction s arbitrary: w)
  case (Cons a s)
  obtain y ys where yy: "split_by P s = y # ys"
    using split_by_ne by (metis neq_Nil_conv)
  show ?case
  proof (cases "P a \<or> w \<noteq> a # y")
    case True
    with Cons.prems yy have "w \<in> set (split_by P s)" by (auto split: if_splits)
    with Cons show ?thesis by auto
  next
    case False
    with Cons.prems(2) Cons.IH [of y] yy show ?thesis by auto
  qed
qed simp

lemma split_on_join:
  "xs \<noteq> [] \<Longrightarrow> \<forall>x\<in>set xs. c \<notin> set x \<Longrightarrow> split_on c (join [c] xs) = xs"
proof (induction "[c]" xs rule: join.induct)
  case (3 x y zs)
  from 3 have "split_by (\<lambda>x. x = c) (x @ c # join [c] (y # zs)) =
      x # split_by (\<lambda>x. x = c) (join [c] (y # zs))"
    by (intro split_by_append_sep) auto
  with 3 show ?case by (simp add: split_on_def)
qed (auto simp: split_on_def intro!: split_by_no)

lemma join_split_on: "join [c] (split_on c s) = s"
proof (induction s)
  case (Cons x s)
  obtain y ys where yy: "split_on c s = y # ys"
    using split_by_ne unfolding split_on_def by (metis neq_Nil_conv)
  show ?case
    using Cons yy by (cases ys) (auto simp: split_on_def)
qed (simp add: split_on_def)

lemma go_fields_elem: "w \<in> set (go_fields s) \<Longrightarrow> w \<noteq> [] \<and> (\<forall>x\<in>set w. \<not> is_space x \<and> x \<in> set s)"
  by (auto simp: go_fields_def dest: split_by_elems)

section \<open>Lemmas on decimal printing\<close>

lemma digit_char_inj: "a < 10 \<Longrightarrow> b < 10 \<Longrightarrow> digit_char a = digit_char b \<Longrightarrow> a = b"
proof -
  assume "a < 10" "b < 10" "digit_char a = digit_char b"
  then have "of_char (digit_char a) = (of_char (digit_char b) :: nat)" by simp
  with \<open>a < 10\<close> \<open>b < 10\<close> show ?thesis by (simp add: digit_char_def)
qed

lemma nat_dec_ne [simp]: "nat_dec n \<noteq> []"
  by (subst nat_dec.simps) simp

lemma nat_dec_inj: "nat_dec m = nat_dec n \<Longrightarrow> m = n"
proof (induction m arbitrary: n rule: nat_dec.induct)
  case (1 m)
  show ?case
  proof (cases "m < 10 \<or> n < 10")
    case True
    then show ?thesis
      using "1.prems" digit_char_inj
      by (auto simp: nat_dec.simps [of m] nat_dec.simps [of n] append_eq_Cons_conv
          Cons_eq_append_conv split: if_splits)
  next
    case False
    with "1.prems" have "nat_dec (m div 10) = nat_dec (n div 10)"
      and d: "digit_char (m mod 10) = digit_char (n mod 10)"
      by (auto simp: nat_dec.simps [of m] nat_dec.simps [of n])
    with "1.IH" False have "m div 10 = n div 10" by blast
    moreover from d have "m mod 10 = n mod 10" by (rule digit_char_inj [rotated 2]) auto
    ultimately show ?thesis by (metis div_mult_mod_eq)
  qed
qed

section \<open>Lemmas on maps and sets\<close>

lemma gomap_get_update [gomap_simps]:
  "gomap_get z (AList.update k v m) k' = (if k' = k then v else gomap_get z m k')"
  by (auto simp: gomap_get_def update_conv')

lemma gomap_length_card: "gomap_wf m \<Longrightarrow> length m = card (dom (map_of m))"
  using distinct_card [of "map fst m"] by (simp add: dom_map_of_conv_image_fst)

lemma gomap_length_update:
  "gomap_wf m \<Longrightarrow> length (AList.update k v m) = (if gomap_has m k then length m else Suc (length m))"
  by (induction m) auto

lemma map_fst_update:
  "map fst (AList.update k v m) = (if k \<in> set (map fst m) then map fst m else map fst m @ [k])"
  by (induction m) auto

lemma set_update_cases: "kv \<in> set (AList.update k v m) \<Longrightarrow> kv = (k, v) \<or> kv \<in> set m"
  by (induction m) (auto split: if_splits)

lemma set_update_wf:
  "gomap_wf m \<Longrightarrow> x \<in> set (AList.update k v m) \<Longrightarrow> x = (k, v) \<or> (x \<in> set m \<and> fst x \<noteq> k)"
proof (induction m)
  case (Cons y m)
  obtain k' v' where y: "y = (k', v')" by fastforce
  show ?case
  proof (cases "k = k'")
    case True
    then show ?thesis using Cons.prems y by (auto simp: image_iff)
  next
    case False
    then show ?thesis using Cons y by auto
  qed
qed simp

lemma map_of_sort_key: "gomap_wf m \<Longrightarrow> map_of (sort_key fst m) = map_of m" for m :: "('k::linorder \<times> 'v) list"
proof -
  assume wf: "gomap_wf m"
  have "mset (map fst (sort_key fst m)) = mset (map fst m)" by simp
  then have "gomap_wf (sort_key fst m)" using wf by (metis mset_eq_imp_distinct_iff)
  then show ?thesis using wf by (intro map_of_eqI) (auto simp: map_of_eq_Some_iff)
qed

lemma map_of_filter_wf:
  "gomap_wf m \<Longrightarrow> map_of (filter (\<lambda>(k, v). P v) m) k = (case map_of m k of Some v \<Rightarrow> if P v then Some v else None | None \<Rightarrow> None)"
proof (induction m)
  case (Cons x m)
  have "map_of m (fst x) = None" using Cons.prems by (simp add: map_of_eq_None_iff)
  then show ?case using Cons by (cases x) auto
qed simp

lemma set_goset_add [simp]: "set (goset_add x xs) = insert x (set xs)"
  by (auto simp: goset_add_def)

lemma distinct_goset_add [simp]: "distinct (goset_add x xs) = distinct xs"
  by (auto simp: goset_add_def)

lemma sorted_distinct_eqI:
  "sorted xs \<Longrightarrow> sorted ys \<Longrightarrow> distinct xs \<Longrightarrow> distinct ys \<Longrightarrow> set xs = set ys \<Longrightarrow> xs = ys"
  for xs ys :: "'a::linorder list"
  by (rule sorted_distinct_set_unique)

section \<open>Lemmas on time\<close>

lemma time_sub_less: "0 < d \<Longrightarrow> d \<le> max_duration \<Longrightarrow> (time_sub t u < d) = (t - u < d)"
  by (auto simp: time_sub_def max_duration_def min_duration_def)

lemma time_sub_le: "0 < d \<Longrightarrow> d < max_duration \<Longrightarrow> (time_sub t u \<le> d) = (t - u \<le> d)"
  by (auto simp: time_sub_def max_duration_def min_duration_def)

end
