(* ===== verification/DnsLib.thy ===== *)
theory DnsLib
  imports Prelude
begin

text \<open>
  The DNS library github.com/miekg/dns is not part of the repository.  Its resource records are
  represented by the fields the RillDNS sources read; its functions are the components of a record
  \<open>dnslib\<close> that every definition using them takes as an argument.  What the sources rely on is
  stated as named predicates on that record, each a documented property of the library.
  \<open>ref_dns\<close> is a small executable library that satisfies them on the names and records of the
  examples.
\<close>

section \<open>Resource records\<close>

text \<open>Record type and class numbers of the IANA registry, under the library's names.\<close>

definition TypeNone :: nat where "TypeNone = 0"
definition TypeA :: nat where "TypeA = 1"
definition TypeNS :: nat where "TypeNS = 2"
definition TypeCNAME :: nat where "TypeCNAME = 5"
definition TypeSOA :: nat where "TypeSOA = 6"
definition TypeAAAA :: nat where "TypeAAAA = 28"
definition TypeRRSIG :: nat where "TypeRRSIG = 46"
definition TypeNSEC :: nat where "TypeNSEC = 47"
definition TypeNSEC3 :: nat where "TypeNSEC3 = 50"
definition TypeIXFR :: nat where "TypeIXFR = 251"
definition TypeAXFR :: nat where "TypeAXFR = 252"
definition TypeANY :: nat where "TypeANY = 255"
definition ClassINET :: nat where "ClassINET = 1"

lemmas type_codes = TypeNone_def TypeA_def TypeNS_def TypeCNAME_def TypeSOA_def TypeAAAA_def
  TypeRRSIG_def TypeNSEC_def TypeNSEC3_def TypeIXFR_def TypeAXFR_def TypeANY_def ClassINET_def

text \<open>The typed part of a record: one constructor per Go type the sources switch on.\<close>

datatype rdata =
    SOA_d uint32 string
  | A_d string
  | AAAA_d string
  | CNAME_d string
  | NS_d string
  | MX_d nat string
  | TXT_d "string list"
  | CAA_d nat string string
  | SRV_d nat nat nat string
  | PTR_d string
  | RRSIG_d uint32
  | Other_d string

record rr =
  rname :: string
  rrtype :: nat
  rclass :: nat
  rttl :: uint32
  rdat :: rdata

definition soa_serial :: "rr \<Rightarrow> uint32 option" where
  "soa_serial r = (case rdat r of SOA_d s _ \<Rightarrow> Some s | _ \<Rightarrow> None)"

abbreviation is_soa :: "rr \<Rightarrow> bool" where
  "is_soa r \<equiv> soa_serial r \<noteq> None"

section \<open>The library's functions\<close>

text \<open>
  \<open>parse_zone origin text\<close> is the loop over \<open>NewZoneParser\<close>, \<open>Next\<close> and \<open>Err\<close>: the records or
  the parse error.  \<open>new_rr\<close> is \<open>NewRR\<close>, which on text that holds no record (a comment, say) returns a nil
  record and no error.
\<close>

datatype parsed_rr = BadRR | NoRR | OneRR rr

record dnslib =
  parse_zone :: "string \<Rightarrow> string \<Rightarrow> string + rr list"
  new_rr :: "string \<Rightarrow> parsed_rr"
  rr_string :: "rr \<Rightarrow> string"
  is_domain_name :: "string \<Rightarrow> bool"
  is_sub_domain :: "string \<Rightarrow> string \<Rightarrow> bool"
  fqdn :: "string \<Rightarrow> string"
  is_fqdn :: "string \<Rightarrow> bool"
  split_domain_name :: "string \<Rightarrow> string list"
  string_to_type :: "string \<Rightarrow> nat option"
  type_to_string :: "nat \<Rightarrow> string"

section \<open>What the sources rely on\<close>

text \<open>\<open>Fqdn\<close> appends the final dot unless the name is already fully qualified; a fully qualified
  name ends in a dot, and letter case does not matter.\<close>

definition fqdn_law :: "dnslib \<Rightarrow> bool" where
  "fqdn_law D \<longleftrightarrow>
     (\<forall>s. fqdn D s = (if is_fqdn D s then s else s @ ''.'')) \<and>
     (\<forall>s. is_fqdn D (fqdn D s)) \<and>
     (\<forall>s. is_fqdn D s \<longrightarrow> suffix ''.'' s) \<and>
     (\<forall>s. is_fqdn D (to_lower s) = is_fqdn D s)"

text \<open>A record is a Go \<open>*dns.SOA\<close> exactly if its header says so.\<close>

definition rr_typed :: "rr \<Rightarrow> bool" where
  "rr_typed r \<longleftrightarrow> (is_soa r \<longleftrightarrow> rrtype r = TypeSOA)"

definition parser_typed :: "dnslib \<Rightarrow> bool" where
  "parser_typed D \<longleftrightarrow> (\<forall>org txt rrs. parse_zone D org txt = Inr rrs \<longrightarrow> (\<forall>r\<in>set rrs. rr_typed r))"

section \<open>A small executable library\<close>

definition type_table :: "(string \<times> nat) list" where
  "type_table = [(''A'', 1), (''NS'', 2), (''CNAME'', 5), (''SOA'', 6), (''TXT'', 16), (''AAAA'', 28),
                 (''AXFR'', 252), (''ANY'', 255)]"

definition ref_type_string :: "nat \<Rightarrow> string" where
  "ref_type_string t = (case map_of (map (\<lambda>(a, b). (b, a)) type_table) t of None \<Rightarrow> [] | Some s \<Rightarrow> s)"

fun dec_nat :: "nat \<Rightarrow> string \<Rightarrow> nat" where
  "dec_nat acc [] = acc"
| "dec_nat acc (c # cs) = dec_nat (10 * acc + (of_char c - 48)) cs"

definition ref_rdata_string :: "rdata \<Rightarrow> string" where
  "ref_rdata_string d =
     (case d of SOA_d s rest \<Rightarrow> rest @ '' '' @ nat_dec (unat s)
      | A_d s \<Rightarrow> s | NS_d s \<Rightarrow> s | CNAME_d s \<Rightarrow> s | Other_d s \<Rightarrow> s | _ \<Rightarrow> [])"

definition ref_rdata :: "nat \<Rightarrow> string \<Rightarrow> rdata" where
  "ref_rdata t s =
     (if t = TypeSOA then
        (case go_fields s of [a, n] \<Rightarrow> SOA_d (of_nat (dec_nat 0 n)) a | _ \<Rightarrow> SOA_d 0 s)
      else if t = TypeA then A_d s else if t = TypeNS then NS_d s
      else if t = TypeCNAME then CNAME_d s else Other_d s)"

definition ref_rr_string :: "rr \<Rightarrow> string" where
  "ref_rr_string r =
     join [CHR 0x09] [rname r, nat_dec (unat (rttl r)), ''IN'', ref_type_string (rrtype r),
                      ref_rdata_string (rdat r)]"

definition ref_make :: "string \<Rightarrow> string \<Rightarrow> string \<Rightarrow> string \<Rightarrow> rr option" where
  "ref_make n ttl ty rd =
     (case map_of type_table ty of
        None \<Rightarrow> None
      | Some t \<Rightarrow> if rd = [] then None
                  else Some \<lparr>rname = n, rrtype = t, rclass = ClassINET,
                             rttl = of_nat (dec_nat 0 ttl), rdat = ref_rdata t rd\<rparr>)"

definition ref_new_rr :: "string \<Rightarrow> parsed_rr" where
  "ref_new_rr s =
     (if s = [] \<or> has_prefix s '';'' then NoRR
      else case go_fields s of
        n # ttl # cls # ty # rest \<Rightarrow>
          (case ref_make n ttl ty (join '' '' rest) of None \<Rightarrow> BadRR | Some r \<Rightarrow> OneRR r)
      | _ \<Rightarrow> BadRR)"

definition ref_line :: "string \<Rightarrow> (string + rr) option" where
  "ref_line l =
     (if l = [] \<or> has_prefix l ''$'' then None
      else case splitn 5 (CHR 0x09) l of
             [n, ttl, cls, ty, rd] \<Rightarrow>
               (case ref_make n ttl ty rd of None \<Rightarrow> Some (Inl l) | Some r \<Rightarrow> Some (Inr r))
           | _ \<Rightarrow> Some (Inl l))"

fun ref_parse_lines :: "string list \<Rightarrow> string + rr list" where
  "ref_parse_lines [] = Inr []"
| "ref_parse_lines (l # ls) =
     (case ref_line l of
        None \<Rightarrow> ref_parse_lines ls
      | Some (Inl e) \<Rightarrow> Inl e
      | Some (Inr r) \<Rightarrow> (case ref_parse_lines ls of Inl e \<Rightarrow> Inl e | Inr rs \<Rightarrow> Inr (r # rs)))"

definition ref_dns :: dnslib where
  "ref_dns =
     \<lparr>parse_zone = (\<lambda>_ s. ref_parse_lines (scan_lines s)),
      new_rr = ref_new_rr,
      rr_string = ref_rr_string,
      is_domain_name = (\<lambda>s. s \<noteq> []),
      is_sub_domain = (\<lambda>parent child. suffix (to_lower parent) (to_lower child)),
      fqdn = (\<lambda>s. if suffix ''.'' s then s else s @ ''.''),
      is_fqdn = (\<lambda>s. suffix ''.'' s),
      split_domain_name = (\<lambda>s. split_on (CHR ''.'') (trim_suffix s ''.'')),
      string_to_type = map_of type_table,
      type_to_string = ref_type_string\<rparr>"

lemma ref_dns_fqdn_law: "fqdn_law ref_dns"
  by (auto simp: fqdn_law_def ref_dns_def suffix_dot_to_lower)

lemma ref_rdata_soa: "(case ref_rdata t x of SOA_d s _ \<Rightarrow> Some s | _ \<Rightarrow> None) \<noteq> None \<longleftrightarrow> t = TypeSOA"
  by (auto simp: ref_rdata_def type_codes split: list.splits)

lemma ref_make_typed: "ref_make n ttl ty rd = Some r \<Longrightarrow> rr_typed r"
  using ref_rdata_soa [of "rrtype r" rd]
  by (auto simp: ref_make_def rr_typed_def soa_serial_def split: option.splits if_splits)

lemma ref_line_typed: "ref_line l = Some (Inr r) \<Longrightarrow> rr_typed r"
  by (auto simp: ref_line_def intro: ref_make_typed split: if_splits list.splits option.splits)

lemma ref_parse_typed: "ref_parse_lines ls = Inr rs \<Longrightarrow> r \<in> set rs \<Longrightarrow> rr_typed r"
  by (induction ls arbitrary: rs)
    (auto dest: ref_line_typed split: option.splits sum.splits)

lemma ref_dns_parser_typed: "parser_typed ref_dns"
  by (auto simp: parser_typed_def ref_dns_def intro: ref_parse_typed)

end
