(* ===== verification/ZoneRecords.thy ===== *)
theory ZoneRecords
  imports DnsLib
begin

text \<open>
  The pure part of internal/zones/store.go: names, validation of a record list, RRset changes,
  grouping, rendering, differences between zone versions and SOA serials.  Every function that
  calls the DNS library takes it as its first argument.
\<close>

section \<open>Data\<close>

text \<open>The sentinel errors of the package with the fixed part of their message; the remaining
  constructors are the errors that wrap no sentinel.\<close>

datatype zerr =
    ErrNotFound
  | ErrAlreadyExists
  | ErrRevisionMismatch
  | ErrInvalidChange string
  | ErrReadOnlyZone
  | ErrParse string
  | ErrIO string
  | ErrNotExist
  | ErrNotPublished string
  | ErrPanic string

record RRset =
  rs_name :: string
  rs_type :: string
  rs_ttl :: uint32
  rs_records :: "string list"

record Change =
  ch_action :: string
  ch_name :: string
  ch_type :: string
  ch_ttl :: uint32
  ch_records :: "string list"

section \<open>Names\<close>

definition canonicalName :: "dnslib \<Rightarrow> string \<Rightarrow> string" where
  "canonicalName D name = to_lower (fqdn D (trim_space name))"

definition ownerName :: "dnslib \<Rightarrow> string \<Rightarrow> string \<Rightarrow> zerr + string" where
  "ownerName D zone owner0 =
     (let owner = trim_space owner0;
          name = (if owner = [] \<or> owner = ''@'' then zone
                  else if is_fqdn D owner then canonicalName D owner
                  else canonicalName D (owner @ ''.'' @ zone))
      in if \<not> is_domain_name D name \<or> \<not> is_sub_domain D zone name
         then Inl (ErrInvalidChange ''owner is outside zone'')
         else Inr name)"

section \<open>Changing an RRset\<close>

definition in_rrset :: "dnslib \<Rightarrow> string \<Rightarrow> nat \<Rightarrow> rr \<Rightarrow> bool" where
  "in_rrset D name code r = (canonicalName D (rname r) = name \<and> rrtype r = code)"

definition presentation :: "string \<Rightarrow> uint32 \<Rightarrow> string \<Rightarrow> string \<Rightarrow> string" where
  "presentation name ttl typeName value =
     name @ '' '' @ nat_dec (unat ttl) @ '' IN '' @ typeName @ '' '' @ trim_space value"

text \<open>The loop over the values of an upsert.  A nil record is appended like any other, and the first
  use of its header, before anything is written, panics: that panic is the error \<open>ErrPanic\<close> here.\<close>

fun parse_values :: "dnslib \<Rightarrow> string \<Rightarrow> uint32 \<Rightarrow> string \<Rightarrow> string list \<Rightarrow> rr list \<Rightarrow> zerr + rr list" where
  "parse_values D name ttl typeName [] acc = Inr acc"
| "parse_values D name ttl typeName (v # vs) acc =
     (case new_rr D (presentation name ttl typeName v) of
        BadRR \<Rightarrow> Inl (ErrInvalidChange ''parse record'')
      | NoRR \<Rightarrow> Inl (ErrPanic ''nil record'')
      | OneRR r \<Rightarrow> parse_values D name ttl typeName vs (acc @ [r]))"

definition applyChange :: "dnslib \<Rightarrow> rr list \<Rightarrow> string \<Rightarrow> Change \<Rightarrow> zerr + rr list" where
  "applyChange D rrs zone change =
     (let action = to_lower (ch_action change);
          typeName = to_upper (trim_space (ch_type change))
      in if action \<noteq> ''upsert'' \<and> action \<noteq> ''delete''
         then Inl (ErrInvalidChange ''action must be upsert or delete'')
         else case string_to_type D typeName of
           None \<Rightarrow> Inl (ErrInvalidChange ''unsupported record type'')
         | Some code \<Rightarrow>
             if code = TypeNone \<or> code = TypeANY \<or> code = TypeAXFR \<or> code = TypeIXFR
             then Inl (ErrInvalidChange ''unsupported record type'')
             else if code = TypeSOA then Inl (ErrInvalidChange ''SOA is managed automatically'')
             else case ownerName D zone (ch_name change) of
               Inl e \<Rightarrow> Inl e
             | Inr name \<Rightarrow>
                 let filtered = filter (\<lambda>r. \<not> in_rrset D name code r) rrs
                 in if action = ''delete''
                    then (if ch_records change \<noteq> []
                          then Inl (ErrInvalidChange ''delete does not accept records'')
                          else Inr filtered)
                    else if ch_records change = []
                    then Inl (ErrInvalidChange ''upsert requires records'')
                    else parse_values D name (ch_ttl change) typeName (ch_records change) filtered)"

fun applyChanges :: "dnslib \<Rightarrow> rr list \<Rightarrow> string \<Rightarrow> Change list \<Rightarrow> zerr + rr list" where
  "applyChanges D rrs zone [] = Inr rrs"
| "applyChanges D rrs zone (c # cs) =
     (case applyChange D rrs zone c of Inl e \<Rightarrow> Inl e | Inr rrs' \<Rightarrow> applyChanges D rrs' zone cs)"

section \<open>Validation\<close>

record vstate =
  v_soa :: nat
  v_ns :: nat
  v_types :: "(string, nat list) gomap"
  v_seen :: "string list"

definition vstate0 :: vstate where
  "vstate0 = \<lparr>v_soa = 0, v_ns = 0, v_types = [], v_seen = []\<rparr>"

definition rr_key :: "dnslib \<Rightarrow> rr \<Rightarrow> string" where
  "rr_key D r = to_lower (rr_string D r)"

definition validate_step :: "dnslib \<Rightarrow> string \<Rightarrow> vstate \<Rightarrow> rr \<Rightarrow> zerr + vstate" where
  "validate_step D zone v r =
     (let name = canonicalName D (rname r); key = rr_key D r
      in if rclass r \<noteq> ClassINET then Inl (ErrInvalidChange ''only IN class is supported'')
         else if \<not> is_sub_domain D zone name then Inl (ErrInvalidChange ''owner is outside zone'')
         else if key \<in> set (v_seen v) then Inl (ErrInvalidChange ''duplicate record'')
         else if rrtype r = TypeSOA \<and> name \<noteq> zone
         then Inl (ErrInvalidChange ''SOA must be at zone apex'')
         else Inr \<lparr>v_soa = (if rrtype r = TypeSOA then Suc (v_soa v) else v_soa v),
                   v_ns = (if rrtype r = TypeNS \<and> name = zone then Suc (v_ns v) else v_ns v),
                   v_types = AList.update name (goset_add (rrtype r) (gomap_get [] (v_types v) name)) (v_types v),
                   v_seen = key # v_seen v\<rparr>)"

fun validate_loop :: "dnslib \<Rightarrow> string \<Rightarrow> vstate \<Rightarrow> rr list \<Rightarrow> zerr + vstate" where
  "validate_loop D zone v [] = Inr v"
| "validate_loop D zone v (r # rs) =
     (case validate_step D zone v r of Inl e \<Rightarrow> Inl e | Inr v' \<Rightarrow> validate_loop D zone v' rs)"

definition cname_companions :: "nat list" where
  "cname_companions = [TypeCNAME, TypeRRSIG, TypeNSEC, TypeNSEC3]"

definition validate :: "dnslib \<Rightarrow> string \<Rightarrow> rr list \<Rightarrow> zerr option" where
  "validate D zone rrs =
     (case validate_loop D zone vstate0 rrs of
        Inl e \<Rightarrow> Some e
      | Inr v \<Rightarrow>
          if v_soa v \<noteq> 1 then Some (ErrInvalidChange ''zone must contain exactly one SOA'')
          else if v_ns v = 0 then Some (ErrInvalidChange ''zone must contain an apex NS record'')
          else if list_ex (\<lambda>(name, types). TypeCNAME \<in> set types \<and>
                            list_ex (\<lambda>t. t \<notin> set cname_companions) types) (v_types v)
          then Some (ErrInvalidChange ''CNAME cannot coexist with other record types'')
          else None)"

section \<open>Grouping records into RRsets\<close>

definition rdata_text :: "dnslib \<Rightarrow> rr \<Rightarrow> string" where
  "rdata_text D r =
     (let parts = splitn 5 (CHR 0x09) (rr_string D r)
      in if length parts = 5 then parts ! 4
         else let fs = go_fields (rr_string D r)
              in if length fs \<le> 4 then [] else join '' '' (drop 4 fs))"

fun group_loop :: "dnslib \<Rightarrow> (string \<times> nat, RRset) gomap \<Rightarrow> rr list \<Rightarrow> (string \<times> nat, RRset) gomap" where
  "group_loop D sets [] = sets"
| "group_loop D sets (r # rs) =
     (let k = (canonicalName D (rname r), rrtype r);
          old = (case map_of sets k of
                   Some s \<Rightarrow> s
                 | None \<Rightarrow> \<lparr>rs_name = fst k, rs_type = type_to_string D (snd k), rs_ttl = rttl r, rs_records = []\<rparr>)
      in group_loop D (AList.update k (old\<lparr>rs_records := rs_records old @ [rdata_text D r]\<rparr>) sets) rs)"

definition groupRRsets :: "dnslib \<Rightarrow> rr list \<Rightarrow> RRset list" where
  "groupRRsets D rrs =
     sort_key (\<lambda>s. (rs_name s, rs_type s))
       (map (\<lambda>(k, s). s\<lparr>rs_records := sort (rs_records s)\<rparr>) (group_loop D [] rrs))"

section \<open>Rendering\<close>

definition rrSortKey :: "dnslib \<Rightarrow> string \<Rightarrow> rr \<Rightarrow> string" where
  "rrSortKey D zone r =
     (let priority = (if rrtype r = TypeSOA then ''0''
                      else if canonicalName D (rname r) = zone \<and> rrtype r = TypeNS then ''1''
                      else ''2'')
      in priority @ canonicalName D (rname r) @ pad5 (rrtype r) @ rr_string D r)"

definition render_order :: "dnslib \<Rightarrow> string \<Rightarrow> rr list \<Rightarrow> rr list" where
  "render_order D zone rrs = sort_key (rrSortKey D zone) rrs"

definition render :: "dnslib \<Rightarrow> string \<Rightarrow> rr list \<Rightarrow> bytes" where
  "render D zone rrs =
     ''$ORIGIN '' @ zone @ [CHR 0x0A] @ ''$TTL 300'' @ [CHR 0x0A, CHR 0x0A] @
     concat (map (\<lambda>r. rr_string D r @ [CHR 0x0A]) (render_order D zone rrs))"

section \<open>Serials\<close>

fun setSOASerial :: "rr list \<Rightarrow> uint32 \<Rightarrow> rr list" where
  "setSOASerial [] serial = []"
| "setSOASerial (r # rs) serial =
     (case rdat r of
        SOA_d _ rest \<Rightarrow> r\<lparr>rdat := SOA_d serial rest\<rparr> # rs
      | _ \<Rightarrow> r # setSOASerial rs serial)"

text \<open>\<open>strconv.ParseUint(s, 10, 32)\<close> on the decimal digits of \<open>n\<close>, its error ignored: a value
  out of range yields the largest uint32, a sign yields 0.\<close>

definition parse_uint32 :: "int \<Rightarrow> uint32" where
  "parse_uint32 n = (if n < 0 then 0 else if n > 4294967295 then 4294967295 else of_int n)"

definition date_serial :: "gotime \<Rightarrow> uint32" where
  "date_serial now = (case civil_date now of (y, m, d) \<Rightarrow> parse_uint32 ((y * 10000 + m * 100 + d) * 100))"

definition nextSerial :: "uint32 \<Rightarrow> gotime \<Rightarrow> zerr + uint32" where
  "nextSerial current now =
     (if current = 4294967295
      then Inl (ErrInvalidChange ''SOA serial has reached uint32 maximum'')
      else let next = current + 1
           in if date_serial now > next then Inr (date_serial now) else Inr next)"

section \<open>Differences between two versions\<close>

definition rs_key :: "RRset \<Rightarrow> string \<times> string" where
  "rs_key s = (rs_name s, rs_type s)"

definition upsert_of :: "RRset \<Rightarrow> Change" where
  "upsert_of s = \<lparr>ch_action = ''upsert'', ch_name = rs_name s, ch_type = rs_type s,
                  ch_ttl = rs_ttl s, ch_records = rs_records s\<rparr>"

definition delete_of :: "RRset \<Rightarrow> Change" where
  "delete_of s = \<lparr>ch_action = ''delete'', ch_name = rs_name s, ch_type = rs_type s,
                  ch_ttl = 0, ch_records = []\<rparr>"

fun diff_upserts :: "(string \<times> string, RRset) gomap \<Rightarrow> RRset list \<Rightarrow>
    Change list \<times> (string \<times> string, RRset) gomap" where
  "diff_upserts existing [] = ([], existing)"
| "diff_upserts existing (s # ss) =
     (let old = map_of existing (rs_key s);
          (cs, rest) = diff_upserts (AList.delete (rs_key s) existing) ss
      in if rs_type s = ''SOA'' \<or>
            (case old of None \<Rightarrow> False | Some o' \<Rightarrow> rs_ttl o' = rs_ttl s \<and> rs_records o' = rs_records s)
         then (cs, rest) else (upsert_of s # cs, rest))"

definition diffRRsets :: "RRset list \<Rightarrow> RRset list \<Rightarrow> Change list" where
  "diffRRsets from to =
     (let existing = fold (\<lambda>s m. AList.update (rs_key s) s m) from [];
          (ups, rest) = diff_upserts existing to
      in ups @ map delete_of (filter (\<lambda>s. gomap_has rest (rs_key s) \<and> rs_type s \<noteq> ''SOA'') from))"

section \<open>Revisions\<close>

definition is_hex :: "char \<Rightarrow> bool" where
  "is_hex c = (c \<in> set ''0123456789abcdefABCDEF'')"

definition validRevision :: "string \<Rightarrow> bool" where
  "validRevision value = (length value = 64 \<and> list_all is_hex value \<and> to_lower value = value)"

section \<open>Lemmas on names\<close>

lemma canonicalName_lower: "to_lower (canonicalName D n) = canonicalName D n"
  by (simp add: canonicalName_def)

lemma canonicalName_dot: "fqdn_law D \<Longrightarrow> suffix ''.'' (canonicalName D n)"
  by (simp add: canonicalName_def fqdn_law_def suffix_dot_to_lower)

lemma fqdn_trimmed: "fqdn_law D \<Longrightarrow> trim_space (fqdn D (trim_space n)) = fqdn D (trim_space n)"
proof -
  assume law: "fqdn_law D"
  let ?t = "trim_space n"
  have "\<not> is_space (last (fqdn D ?t))" "fqdn D ?t \<noteq> []"
    using law by (auto simp: fqdn_law_def suffix_def is_space_def)
  moreover have "\<not> is_space (hd (fqdn D ?t))"
  proof (cases "?t = []")
    case True
    then show ?thesis using law
      by (auto simp: fqdn_law_def suffix_def is_space_def)
  next
    case False
    then show ?thesis using law trim_by_hd [of is_space n]
      by (auto simp: fqdn_law_def trim_space_def)
  qed
  ultimately show ?thesis unfolding trim_space_def by (intro trim_by_id) auto
qed

lemma canonicalName_idem [norm_rules]:
  "fqdn_law D \<Longrightarrow> canonicalName D (canonicalName D n) = canonicalName D n"
proof -
  assume law: "fqdn_law D"
  have "is_fqdn D (to_lower (fqdn D (trim_space n)))"
    using law unfolding fqdn_law_def by blast
  then have "fqdn D (to_lower (fqdn D (trim_space n))) = to_lower (fqdn D (trim_space n))"
    using law by (simp add: fqdn_law_def)
  then show ?thesis
    by (simp add: canonicalName_def trim_space_to_lower fqdn_trimmed [OF law])
qed

section \<open>Validation accepts exactly the well-formed zones\<close>

definition local_ok :: "dnslib \<Rightarrow> string \<Rightarrow> rr \<Rightarrow> bool" where
  "local_ok D zone r \<longleftrightarrow>
     rclass r = ClassINET \<and> is_sub_domain D zone (canonicalName D (rname r)) \<and>
     (rrtype r = TypeSOA \<longrightarrow> canonicalName D (rname r) = zone)"

definition zone_valid :: "dnslib \<Rightarrow> string \<Rightarrow> rr list \<Rightarrow> bool" where
  "zone_valid D zone rrs \<longleftrightarrow>
     (\<forall>r\<in>set rrs. local_ok D zone r) \<and>
     distinct (map (rr_key D) rrs) \<and>
     length (filter (\<lambda>r. rrtype r = TypeSOA) rrs) = 1 \<and>
     (\<exists>r\<in>set rrs. rrtype r = TypeNS \<and> canonicalName D (rname r) = zone) \<and>
     (\<forall>r\<in>set rrs. \<forall>r'\<in>set rrs.
        canonicalName D (rname r) = canonicalName D (rname r') \<longrightarrow> rrtype r = TypeCNAME \<longrightarrow>
        rrtype r' \<in> set cname_companions)"

lemma validate_step_Inr:
  "validate_step D zone v r = Inr v' \<longleftrightarrow>
     local_ok D zone r \<and> rr_key D r \<notin> set (v_seen v) \<and>
     v' = \<lparr>v_soa = v_soa v + (if rrtype r = TypeSOA then 1 else 0),
           v_ns = v_ns v + (if rrtype r = TypeNS \<and> canonicalName D (rname r) = zone then 1 else 0),
           v_types = AList.update (canonicalName D (rname r))
              (goset_add (rrtype r) (gomap_get [] (v_types v) (canonicalName D (rname r)))) (v_types v),
           v_seen = rr_key D r # v_seen v\<rparr>"
  by (auto simp: validate_step_def local_ok_def Let_def)

text \<open>The record types the loop has noted under a name.\<close>

abbreviation noted :: "vstate \<Rightarrow> string \<Rightarrow> nat set" where
  "noted v name \<equiv> set (gomap_get [] (v_types v) name)"

lemma validate_loop_ConsE:
  assumes "validate_loop D zone v (r # rs) = Inr v'"
  obtains v1 where "validate_step D zone v r = Inr v1" "validate_loop D zone v1 rs = Inr v'"
  using assms by (auto split: sum.splits)

lemma validate_loop_local:
  "validate_loop D zone v rs = Inr v' \<Longrightarrow>
     (\<forall>r\<in>set rs. local_ok D zone r) \<and> distinct (map (rr_key D) rs) \<and>
     set (map (rr_key D) rs) \<inter> set (v_seen v) = {}"
proof (induction rs arbitrary: v)
  case (Cons r rs)
  from Cons.prems obtain v1 where s: "validate_step D zone v r = Inr v1"
    and l: "validate_loop D zone v1 rs = Inr v'" by (rule validate_loop_ConsE)
  have "local_ok D zone r" "rr_key D r \<notin> set (v_seen v)" "v_seen v1 = rr_key D r # v_seen v"
    using s by (simp_all add: validate_step_Inr)
  with Cons.IH [OF l] show ?case by auto
qed simp

lemma validate_loop_counts:
  "validate_loop D zone v rs = Inr v' \<Longrightarrow>
     v_soa v' = v_soa v + length (filter (\<lambda>r. rrtype r = TypeSOA) rs) \<and>
     v_ns v' = v_ns v + length (filter (\<lambda>r. rrtype r = TypeNS \<and> canonicalName D (rname r) = zone) rs)"
proof (induction rs arbitrary: v)
  case (Cons r rs)
  from Cons.prems obtain v1 where s: "validate_step D zone v r = Inr v1"
    and l: "validate_loop D zone v1 rs = Inr v'" by (rule validate_loop_ConsE)
  from s Cons.IH [OF l] show ?case by (simp add: validate_step_Inr)
qed simp

lemma validate_loop_noted:
  "validate_loop D zone v rs = Inr v' \<Longrightarrow>
     noted v' name = noted v name \<union> rrtype ` {r \<in> set rs. canonicalName D (rname r) = name}"
proof (induction rs arbitrary: v)
  case (Cons r rs)
  from Cons.prems obtain v1 where s: "validate_step D zone v r = Inr v1"
    and l: "validate_loop D zone v1 rs = Inr v'" by (rule validate_loop_ConsE)
  have "noted v1 name = noted v name \<union> (if canonicalName D (rname r) = name then {rrtype r} else {})"
    using s by (cases "name = canonicalName D (rname r)") (simp_all add: validate_step_Inr gomap_simps)
  moreover have "rrtype ` {r' \<in> set (r # rs). canonicalName D (rname r') = name} =
      (if canonicalName D (rname r) = name then {rrtype r} else {}) \<union>
      rrtype ` {r \<in> set rs. canonicalName D (rname r) = name}"
    by (simp add: Collect_disj_eq conj_disj_distribR Collect_conv_if)
  ultimately show ?case using Cons.IH [OF l] by (simp only: Un_assoc)
qed simp

lemma validate_loop_wf:
  "validate_loop D zone v rs = Inr v' \<Longrightarrow> gomap_wf (v_types v) \<Longrightarrow> gomap_wf (v_types v')"
proof (induction rs arbitrary: v)
  case (Cons r rs)
  from Cons.prems(1) obtain v1 where s: "validate_step D zone v r = Inr v1"
    and l: "validate_loop D zone v1 rs = Inr v'" by (rule validate_loop_ConsE)
  from s Cons.prems(2) Cons.IH [OF l] show ?case by (simp add: validate_step_Inr distinct_update)
qed simp

lemma validate_loop_ok:
  "(\<forall>r\<in>set rs. local_ok D zone r) \<Longrightarrow> distinct (map (rr_key D) rs) \<Longrightarrow>
   set (map (rr_key D) rs) \<inter> set (v_seen v) = {} \<Longrightarrow> \<exists>v'. validate_loop D zone v rs = Inr v'"
proof (induction rs arbitrary: v)
  case (Cons r rs)
  then obtain v1 where s: "validate_step D zone v r = Inr v1"
    by (auto simp: validate_step_Inr)
  then have "v_seen v1 = rr_key D r # v_seen v" by (simp add: validate_step_Inr)
  with Cons.prems Cons.IH [of v1] s show ?case by auto
qed simp

lemma types_cname:
  "gomap_wf m \<Longrightarrow> list_ex (\<lambda>(name, types). P types) m \<longleftrightarrow> (\<exists>name types. map_of m name = Some types \<and> P types)"
  by (auto simp: list_ex_iff)

lemma validate_loop_clash:
  assumes "validate_loop D zone vstate0 rrs = Inr v"
  shows "list_ex (\<lambda>(name, types). TypeCNAME \<in> set types \<and> list_ex (\<lambda>t. t \<notin> set cname_companions) types) (v_types v)
    \<longleftrightarrow> (\<exists>r\<in>set rrs. \<exists>r'\<in>set rrs. canonicalName D (rname r) = canonicalName D (rname r') \<and>
          rrtype r = TypeCNAME \<and> rrtype r' \<notin> set cname_companions)"
proof -
  have wf: "gomap_wf (v_types v)" using validate_loop_wf [OF assms] by (simp add: vstate0_def)
  have "noted vstate0 name = {}" for name by (simp add: vstate0_def gomap_get_def)
  then have n: "noted v name = rrtype ` {r \<in> set rrs. canonicalName D (rname r) = name}" for name
    using validate_loop_noted [OF assms] by simp
  have "(\<exists>name types. map_of (v_types v) name = Some types \<and>
           TypeCNAME \<in> set types \<and> list_ex (\<lambda>t. t \<notin> set cname_companions) types) \<longleftrightarrow>
        (\<exists>name. TypeCNAME \<in> noted v name \<and> (\<exists>t\<in>noted v name. t \<notin> set cname_companions))"
    (is "?L = ?R")
  proof
    assume ?L
    then obtain name types where "map_of (v_types v) name = Some types" "TypeCNAME \<in> set types"
      "\<exists>t\<in>set types. t \<notin> set cname_companions" by (auto simp: list_ex_iff)
    then show ?R by (intro exI [of _ name]) (simp add: gomap_get_def)
  next
    assume ?R
    then obtain name where "TypeCNAME \<in> noted v name" "\<exists>t\<in>noted v name. t \<notin> set cname_companions"
      by blast
    then show ?L by (cases "map_of (v_types v) name") (auto simp: gomap_get_def list_ex_iff)
  qed
  also have "?R \<longleftrightarrow> (\<exists>r\<in>set rrs. \<exists>r'\<in>set rrs. canonicalName D (rname r) = canonicalName D (rname r') \<and>
          rrtype r = TypeCNAME \<and> rrtype r' \<notin> set cname_companions)"
    unfolding n by (auto simp: image_iff) metis+
  finally show ?thesis
    unfolding types_cname [OF wf, of "\<lambda>types. TypeCNAME \<in> set types \<and>
      list_ex (\<lambda>t. t \<notin> set cname_companions) types"] .
qed

lemma validate_iff: "validate D zone rrs = None \<longleftrightarrow> zone_valid D zone rrs"
proof (cases "validate_loop D zone vstate0 rrs")
  case (Inl e)
  then have "\<not> ((\<forall>r\<in>set rrs. local_ok D zone r) \<and> distinct (map (rr_key D) rrs))"
    using validate_loop_ok [of rrs D zone vstate0] by (auto simp: vstate0_def)
  then show ?thesis using Inl by (auto simp: validate_def zone_valid_def)
next
  case (Inr v)
  have "v_ns v = 0 \<longleftrightarrow> \<not> (\<exists>r\<in>set rrs. rrtype r = TypeNS \<and> canonicalName D (rname r) = zone)"
    using validate_loop_counts [OF Inr] by (auto simp: vstate0_def filter_empty_conv)
  moreover have "v_soa v = length (filter (\<lambda>r. rrtype r = TypeSOA) rrs)"
    using validate_loop_counts [OF Inr] by (simp add: vstate0_def)
  moreover have "(validate D zone rrs = None) = (v_soa v = 1 \<and> v_ns v \<noteq> 0 \<and>
      \<not> list_ex (\<lambda>(name, types). TypeCNAME \<in> set types \<and>
                   list_ex (\<lambda>t. t \<notin> set cname_companions) types) (v_types v))"
    using Inr by (simp add: validate_def)
  ultimately have "(validate D zone rrs = None) =
      (length (filter (\<lambda>r. rrtype r = TypeSOA) rrs) = 1 \<and>
       (\<exists>r\<in>set rrs. rrtype r = TypeNS \<and> canonicalName D (rname r) = zone) \<and>
       (\<forall>r\<in>set rrs. \<forall>r'\<in>set rrs.
          canonicalName D (rname r) = canonicalName D (rname r') \<longrightarrow> rrtype r = TypeCNAME \<longrightarrow>
          rrtype r' \<in> set cname_companions))"
    using validate_loop_clash [OF Inr] by (simp only: not_not) blast
  with validate_loop_local [OF Inr] show ?thesis unfolding zone_valid_def by simp
qed

section \<open>A change touches one RRset\<close>

text \<open>
  \<open>NewRR\<close> reads the owner, class and type it is given back out of the presentation text, for the
  given name and type.
\<close>

definition new_rr_law :: "dnslib \<Rightarrow> string \<Rightarrow> string \<Rightarrow> nat \<Rightarrow> bool" where
  "new_rr_law D name typeName code \<longleftrightarrow>
     (\<forall>ttl v r. new_rr D (presentation name ttl typeName v) = OneRR r \<longrightarrow> in_rrset D name code r)"

lemma parse_values_Inr:
  "parse_values D name ttl ty vs acc = Inr out \<Longrightarrow>
   \<exists>new. out = acc @ new \<and> map OneRR new = map (\<lambda>v. new_rr D (presentation name ttl ty v)) vs"
proof (induction vs arbitrary: acc)
  case (Cons v vs)
  then obtain r where r: "new_rr D (presentation name ttl ty v) = OneRR r"
    and p: "parse_values D name ttl ty vs (acc @ [r]) = Inr out"
    by (auto split: parsed_rr.splits)
  from Cons.IH [OF p] obtain new where "out = (acc @ [r]) @ new"
    "map OneRR new = map (\<lambda>v. new_rr D (presentation name ttl ty v)) vs" by blast
  with r show ?case by (intro exI [of _ "r # new"]) simp
qed simp

lemma applyChange_Inr:
  assumes "applyChange D rrs zone c = Inr out"
  obtains name code where
    "ownerName D zone (ch_name c) = Inr name"
    "string_to_type D (to_upper (trim_space (ch_type c))) = Some code"
    "code \<noteq> TypeSOA" "code \<noteq> TypeNone" "code \<noteq> TypeANY" "code \<noteq> TypeAXFR" "code \<noteq> TypeIXFR"
    "if to_lower (ch_action c) = ''delete''
     then ch_records c = [] \<and> out = filter (\<lambda>r. \<not> in_rrset D name code r) rrs
     else to_lower (ch_action c) = ''upsert'' \<and> ch_records c \<noteq> [] \<and>
       parse_values D name (ch_ttl c) (to_upper (trim_space (ch_type c))) (ch_records c)
         (filter (\<lambda>r. \<not> in_rrset D name code r) rrs) = Inr out"
  using assms
  by (auto simp: applyChange_def Let_def split: option.splits if_splits sum.splits)

text \<open>What a change means for the record list: the addressed RRset is replaced by \<open>new\<close>, every
  other record stays, in order.\<close>

definition replaces_rrset :: "dnslib \<Rightarrow> string \<Rightarrow> nat \<Rightarrow> rr list \<Rightarrow> rr list \<Rightarrow> rr list \<Rightarrow> bool" where
  "replaces_rrset D name code new rrs out \<longleftrightarrow>
     filter (in_rrset D name code) out = new \<and>
     filter (\<lambda>r. \<not> in_rrset D name code r) out = filter (\<lambda>r. \<not> in_rrset D name code r) rrs"

lemma applyChange_replaces:
  assumes ok: "applyChange D rrs zone c = Inr out"
    and law: "\<And>name code. ownerName D zone (ch_name c) = Inr name \<Longrightarrow>
        string_to_type D (to_upper (trim_space (ch_type c))) = Some code \<Longrightarrow>
        new_rr_law D name (to_upper (trim_space (ch_type c))) code"
  shows "\<exists>name code new.
     ownerName D zone (ch_name c) = Inr name \<and> code \<noteq> TypeSOA \<and>
     string_to_type D (to_upper (trim_space (ch_type c))) = Some code \<and>
     replaces_rrset D name code new rrs out \<and>
     (if to_lower (ch_action c) = ''delete'' then new = []
      else map OneRR new = map (\<lambda>v. new_rr D (presentation name (ch_ttl c)
             (to_upper (trim_space (ch_type c))) v)) (ch_records c))"
  using ok
proof (rule applyChange_Inr)
  fix name code
  let ?ty = "to_upper (trim_space (ch_type c))"
  let ?keep = "filter (\<lambda>r. \<not> in_rrset D name code r) rrs"
  assume o: "ownerName D zone (ch_name c) = Inr name" and t: "string_to_type D ?ty = Some code"
    and ns: "code \<noteq> TypeSOA"
    and res: "if to_lower (ch_action c) = ''delete'' then ch_records c = [] \<and> out = ?keep
      else to_lower (ch_action c) = ''upsert'' \<and> ch_records c \<noteq> [] \<and>
        parse_values D name (ch_ttl c) ?ty (ch_records c) ?keep = Inr out"
  have keep: "filter (in_rrset D name code) ?keep = []" by (auto simp: filter_empty_conv)
  show ?thesis
  proof (cases "to_lower (ch_action c) = ''delete''")
    case True
    then have "replaces_rrset D name code [] rrs out" using res keep by (simp add: replaces_rrset_def)
    with True o t ns show ?thesis by auto
  next
    case False
    with res parse_values_Inr obtain new where new: "out = ?keep @ new"
      "map OneRR new = map (\<lambda>v. new_rr D (presentation name (ch_ttl c) ?ty v)) (ch_records c)"
      by metis
    have "in_rrset D name code r" if "r \<in> set new" for r
    proof -
      from that have "OneRR r \<in> set (map OneRR new)" by simp
      then show ?thesis using law [OF o t] unfolding new(2) new_rr_law_def by auto
    qed
    then have "filter (in_rrset D name code) new = new" "filter (\<lambda>r. \<not> in_rrset D name code r) new = []"
      by (auto simp: filter_id_conv filter_empty_conv)
    with keep new(1) have "replaces_rrset D name code new rrs out" by (simp add: replaces_rrset_def)
    with False new(2) o t ns show ?thesis by auto
  qed
qed

section \<open>Grouping partitions the records\<close>

text \<open>The RRset of a key, read off the record list directly.\<close>

definition key_of :: "dnslib \<Rightarrow> rr \<Rightarrow> string \<times> nat" where
  "key_of D r = (canonicalName D (rname r), rrtype r)"

definition members :: "dnslib \<Rightarrow> string \<times> nat \<Rightarrow> rr list \<Rightarrow> rr list" where
  "members D k rrs = filter (\<lambda>r. key_of D r = k) rrs"

definition rrset_for :: "dnslib \<Rightarrow> rr list \<Rightarrow> string \<times> nat \<Rightarrow> RRset" where
  "rrset_for D rrs k =
     \<lparr>rs_name = fst k, rs_type = type_to_string D (snd k), rs_ttl = rttl (hd (members D k rrs)),
      rs_records = map (rdata_text D) (members D k rrs)\<rparr>"

lemma group_loop_lookup:
  "map_of (group_loop D sets rs) k =
     (case map_of sets k of
        Some s \<Rightarrow> Some (s\<lparr>rs_records := rs_records s @ map (rdata_text D) (members D k rs)\<rparr>)
      | None \<Rightarrow> if members D k rs = [] then None else Some (rrset_for D rs k))"
proof (induction rs arbitrary: sets k)
  case Nil
  then show ?case by (simp add: members_def split: option.splits)
next
  case (Cons r rs)
  let ?k = "key_of D r"
  show ?case
  proof (cases "k = ?k")
    case True
    then have "members D k (r # rs) = r # members D k rs" by (simp add: members_def)
    with True show ?thesis
      by (cases "map_of sets k") (auto simp: Cons.IH Let_def key_of_def update_conv' rrset_for_def)
  next
    case False
    then have m: "members D k (r # rs) = members D k rs" by (simp add: members_def)
    then have "rrset_for D (r # rs) k = rrset_for D rs k" by (simp add: rrset_for_def)
    with False m show ?thesis
      by (cases "map_of sets k") (auto simp: Cons.IH Let_def key_of_def update_conv')
  qed
qed

lemma group_loop_wf: "gomap_wf sets \<Longrightarrow> gomap_wf (group_loop D sets rs)"
  by (induction rs arbitrary: sets) (simp_all add: Let_def distinct_update)

lemma members_ne: "members D k rrs \<noteq> [] \<longleftrightarrow> k \<in> key_of D ` set rrs"
  by (auto simp: members_def filter_empty_conv)

lemma group_loop_set:
  "set (group_loop D [] rrs) = (\<lambda>k. (k, rrset_for D rrs k)) ` key_of D ` set rrs"
proof -
  have "(k, s) \<in> set (group_loop D [] rrs) \<longleftrightarrow> k \<in> key_of D ` set rrs \<and> s = rrset_for D rrs k" for k s
  proof -
    have "(k, s) \<in> set (group_loop D [] rrs) \<longleftrightarrow> map_of (group_loop D [] rrs) k = Some s"
      using group_loop_wf [of "[]" D rrs] by simp
    also have "\<dots> \<longleftrightarrow> members D k rrs \<noteq> [] \<and> s = rrset_for D rrs k"
      by (auto simp: group_loop_lookup)
    finally show ?thesis by (simp only: members_ne)
  qed
  then show ?thesis by (auto simp: image_iff)
qed

lemma groupRRsets_spec:
  "sorted (map (\<lambda>s. (rs_name s, rs_type s)) (groupRRsets D rrs)) \<and>
   length (groupRRsets D rrs) = card (key_of D ` set rrs) \<and>
   set (groupRRsets D rrs) =
     (\<lambda>k. (rrset_for D rrs k)\<lparr>rs_records := sort (map (rdata_text D) (members D k rrs))\<rparr>) `
       key_of D ` set rrs"
proof -
  have "length (group_loop D [] rrs) = card (dom (map_of (group_loop D [] rrs)))"
    by (intro gomap_length_card group_loop_wf) simp
  also have "dom (map_of (group_loop D [] rrs)) = key_of D ` set rrs"
    by (simp add: dom_map_of_conv_image_fst group_loop_set image_image)
  finally have "length (group_loop D [] rrs) = card (key_of D ` set rrs)" .
  moreover have "(\<lambda>(k, s). s\<lparr>rs_records := sort (rs_records s)\<rparr>) ` set (group_loop D [] rrs) =
     (\<lambda>k. (rrset_for D rrs k)\<lparr>rs_records := sort (map (rdata_text D) (members D k rrs))\<rparr>) `
       key_of D ` set rrs"
    unfolding group_loop_set by (simp add: image_image rrset_for_def)
  ultimately show ?thesis by (simp add: groupRRsets_def)
qed

section \<open>Serials only grow\<close>

lemma nextSerial_grows: "nextSerial current now = Inr serial \<Longrightarrow> current < serial"
proof -
  assume a: "nextSerial current now = Inr serial"
  then have ne: "current \<noteq> 4294967295" by (auto simp: nextSerial_def)
  have "1 + current \<noteq> 0"
  proof
    assume "1 + current = 0"
    then have "current = - 1" by (metis add.commute eq_neg_iff_add_eq_0)
    with ne show False by simp
  qed
  then have "unat (current + 1) = Suc (unat current)" using unatSuc [of current] by (simp add: add.commute)
  then have lt: "current < current + 1" by (simp add: word_less_nat_alt)
  from a have "serial = date_serial now \<and> date_serial now > current + 1 \<or> serial = current + 1"
    by (auto simp: nextSerial_def Let_def split: if_splits)
  with lt show ?thesis by (meson less_trans)
qed

lemma nextSerial_total:
  "nextSerial current now = Inl e \<longleftrightarrow>
     current = 4294967295 \<and> e = ErrInvalidChange ''SOA serial has reached uint32 maximum''"
  by (auto simp: nextSerial_def Let_def)

section \<open>Applying a difference\<close>

text \<open>A zone version as a map from RRset keys to TTL and values, and the effect of a change on it.\<close>

definition rr_state :: "RRset list \<Rightarrow> string \<times> string \<rightharpoonup> uint32 \<times> string list" where
  "rr_state ss k = map_option (\<lambda>s. (rs_ttl s, rs_records s)) (map_of (map (\<lambda>s. (rs_key s, s)) ss) k)"

definition change_state :: "Change \<Rightarrow> (string \<times> string \<rightharpoonup> uint32 \<times> string list) \<Rightarrow>
    (string \<times> string \<rightharpoonup> uint32 \<times> string list)" where
  "change_state c m =
     m((ch_name c, ch_type c) := (if ch_action c = ''upsert'' then Some (ch_ttl c, ch_records c) else None))"

abbreviation by_key :: "RRset list \<Rightarrow> (string \<times> string, RRset) gomap" where
  "by_key ss \<equiv> map (\<lambda>s. (rs_key s, s)) ss"

definition same_set :: "RRset option \<Rightarrow> RRset \<Rightarrow> bool" where
  "same_set old s = (case old of None \<Rightarrow> False | Some o' \<Rightarrow> rs_ttl o' = rs_ttl s \<and> rs_records o' = rs_records s)"

lemma by_key_Some: "distinct (map rs_key ss) \<Longrightarrow> map_of (by_key ss) k = Some s \<longleftrightarrow> s \<in> set ss \<and> rs_key s = k"
  by (subst map_of_eq_Some_iff) (auto simp: comp_def)

lemma by_key_None: "map_of (by_key ss) k = None \<longleftrightarrow> k \<notin> rs_key ` set ss"
  by (auto simp: map_of_eq_None_iff image_image)

lemma fold_existing:
  "distinct (map rs_key ss) \<Longrightarrow> map_of (fold (\<lambda>s m. AList.update (rs_key s) s m) ss m0) k =
     (case map_of (by_key ss) k of Some s \<Rightarrow> Some s | None \<Rightarrow> map_of m0 k)"
proof (induction ss arbitrary: m0)
  case (Cons s ss)
  then have "map_of (by_key ss) (rs_key s) = None" by (simp add: by_key_None)
  with Cons show ?case by (auto simp: update_conv' split: option.splits)
qed simp

lemma diff_upserts_changes:
  "distinct (map rs_key ss) \<Longrightarrow>
   fst (diff_upserts ex ss) =
     map upsert_of (filter (\<lambda>s. rs_type s \<noteq> ''SOA'' \<and> \<not> same_set (map_of ex (rs_key s)) s) ss)"
proof (induction ss arbitrary: ex)
  case (Cons s ss)
  have "filter (\<lambda>t. rs_type t \<noteq> ''SOA'' \<and> \<not> same_set (map_of (AList.delete (rs_key s) ex) (rs_key t)) t) ss =
        filter (\<lambda>t. rs_type t \<noteq> ''SOA'' \<and> \<not> same_set (map_of ex (rs_key t)) t) ss"
  proof (rule filter_cong)
    fix t assume "t \<in> set ss"
    then have "rs_key t \<noteq> rs_key s" using Cons.prems by (metis distinct.simps(2) image_eqI list.map(2) list.set_map)
    then show "(rs_type t \<noteq> ''SOA'' \<and> \<not> same_set (map_of (AList.delete (rs_key s) ex) (rs_key t)) t) =
        (rs_type t \<noteq> ''SOA'' \<and> \<not> same_set (map_of ex (rs_key t)) t)" by (simp add: delete_conv')
  qed simp
  moreover have "fst (diff_upserts ex (s # ss)) =
      (if rs_type s = ''SOA'' \<or> same_set (map_of ex (rs_key s)) s then []
       else [upsert_of s]) @ fst (diff_upserts (AList.delete (rs_key s) ex) ss)"
    by (simp add: Let_def same_set_def case_prod_beta)
  ultimately show ?case using Cons by auto
qed simp

lemma diff_upserts_rest:
  "map_of (snd (diff_upserts ex ss)) k = (if k \<in> rs_key ` set ss then None else map_of ex k)"
proof (induction ss arbitrary: ex)
  case (Cons s ss)
  have "snd (diff_upserts ex (s # ss)) = snd (diff_upserts (AList.delete (rs_key s) ex) ss)"
    by (simp add: Let_def split: prod.splits)
  then show ?case by (simp only: Cons.IH) (simp add: delete_conv')
qed simp

lemma fold_upserts:
  "distinct (map rs_key us) \<Longrightarrow> fold change_state (map upsert_of us) m k =
     (case map_of (by_key us) k of Some s \<Rightarrow> Some (rs_ttl s, rs_records s) | None \<Rightarrow> m k)"
proof (induction us arbitrary: m)
  case (Cons u us)
  then have "map_of (by_key us) (rs_key u) = None" by (simp add: by_key_None)
  with Cons show ?case
    by (auto simp: change_state_def upsert_of_def rs_key_def split: option.splits)
qed simp

lemma fold_deletes:
  "fold change_state (map delete_of ds) m k = (if k \<in> rs_key ` set ds then None else m k)"
  by (induction ds arbitrary: m) (auto simp: change_state_def delete_of_def rs_key_def)

lemma diffRRsets_eq:
  assumes "distinct (map rs_key xs)" "distinct (map rs_key ys)"
  shows "diffRRsets xs ys =
     map upsert_of (filter (\<lambda>s. rs_type s \<noteq> ''SOA'' \<and> \<not> same_set (map_of (by_key xs) (rs_key s)) s) ys) @
     map delete_of (filter (\<lambda>s. rs_key s \<notin> rs_key ` set ys \<and> rs_type s \<noteq> ''SOA'') xs)"
proof -
  let ?ex = "fold (\<lambda>s m. AList.update (rs_key s) s m) xs []"
  have ex: "map_of ?ex = map_of (by_key xs)"
    using fold_existing [OF assms(1), of "[]"] by (auto simp: fun_eq_iff split: option.splits)
  have "filter (\<lambda>s. gomap_has (snd (diff_upserts ?ex ys)) (rs_key s) \<and> rs_type s \<noteq> ''SOA'') xs =
        filter (\<lambda>s. rs_key s \<notin> rs_key ` set ys \<and> rs_type s \<noteq> ''SOA'') xs"
  proof (rule filter_cong)
    fix s assume "s \<in> set xs"
    then have "map_of (by_key xs) (rs_key s) \<noteq> None" by (simp only: by_key_None) simp
    then show "(gomap_has (snd (diff_upserts ?ex ys)) (rs_key s) \<and> rs_type s \<noteq> ''SOA'') =
        (rs_key s \<notin> rs_key ` set ys \<and> rs_type s \<noteq> ''SOA'')" by (simp add: diff_upserts_rest ex)
  qed simp
  then show ?thesis
    using diff_upserts_changes [OF assms(2), of ?ex]
    by (simp add: diffRRsets_def Let_def ex case_prod_beta)
qed

lemma distinct_keys_filter: "distinct (map rs_key ss) \<Longrightarrow> distinct (map rs_key (filter P ss))"
  by (simp add: distinct_map_filter)

lemma diff_reaches_target:
  assumes d: "distinct (map rs_key xs)" "distinct (map rs_key ys)" and soa: "snd k \<noteq> ''SOA''"
  shows "fold change_state (diffRRsets xs ys) (rr_state xs) k = rr_state ys k"
proof -
  let ?U = "filter (\<lambda>s. rs_type s \<noteq> ''SOA'' \<and> \<not> same_set (map_of (by_key xs) (rs_key s)) s) ys"
  let ?X = "filter (\<lambda>s. rs_key s \<notin> rs_key ` set ys \<and> rs_type s \<noteq> ''SOA'') xs"
  let ?m = "fold change_state (map upsert_of ?U) (rr_state xs)"
  have run: "fold change_state (diffRRsets xs ys) (rr_state xs) k = (if k \<in> rs_key ` set ?X then None else ?m k)"
    by (simp add: diffRRsets_eq [OF d] fold_deletes)
  have m: "?m k = (case map_of (by_key ?U) k of Some s \<Rightarrow> Some (rs_ttl s, rs_records s) | None \<Rightarrow> rr_state xs k)"
    by (rule fold_upserts) (rule distinct_keys_filter [OF d(2)])
  show ?thesis
  proof (cases "map_of (by_key ys) k")
    case None
    then have ny: "k \<notin> rs_key ` set ys" by (simp add: by_key_None)
    then have "map_of (by_key ?U) k = None" by (auto simp: by_key_None)
    moreover have "k \<in> rs_key ` set ?X \<longleftrightarrow> k \<in> rs_key ` set xs"
      using ny soa by (auto simp: rs_key_def)
    ultimately show ?thesis
      using None run m by_key_None [of xs k] by (auto simp: rr_state_def)
  next
    case (Some s)
    then have s: "s \<in> set ys" "rs_key s = k" using by_key_Some [OF d(2)] by auto
    then have "k \<in> rs_key ` set ys" by blast
    have nx: "k \<notin> rs_key ` set ?X"
    proof
      assume "k \<in> rs_key ` set ?X"
      then have "k \<notin> rs_key ` set ys" by auto
      with \<open>k \<in> rs_key ` set ys\<close> show False by simp
    qed
    have ty: "rs_type s \<noteq> ''SOA''" using soa s by (auto simp: rs_key_def)
    show ?thesis
    proof (cases "same_set (map_of (by_key xs) k) s")
      case True
      have "k \<notin> rs_key ` set ?U"
      proof
        assume "k \<in> rs_key ` set ?U"
        then obtain t where t: "t \<in> set ys" "rs_key t = k" "\<not> same_set (map_of (by_key xs) k) t" by auto
        then have "map_of (by_key ys) k = Some t" using by_key_Some [OF d(2)] by simp
        with Some t True show False by simp
      qed
      then have "map_of (by_key ?U) k = None" by (simp only: by_key_None) simp
      moreover from True obtain t where "map_of (by_key xs) k = Some t" "rs_ttl t = rs_ttl s"
        "rs_records t = rs_records s" by (auto simp: same_set_def split: option.splits)
      ultimately show ?thesis using run m nx Some by (simp add: rr_state_def)
    next
      case False
      then have "map_of (by_key ?U) k = Some s"
        using s ty by (subst by_key_Some [OF distinct_keys_filter [OF d(2)]]) auto
      then show ?thesis using run m nx Some by (simp add: rr_state_def)
    qed
  qed
qed

lemma diff_no_soa:
  "distinct (map rs_key xs) \<Longrightarrow> distinct (map rs_key ys) \<Longrightarrow> c \<in> set (diffRRsets xs ys) \<Longrightarrow> ch_type c \<noteq> ''SOA''"
  by (auto simp: diffRRsets_eq upsert_of_def delete_of_def)

lemma diff_self: "distinct (map rs_key xs) \<Longrightarrow> diffRRsets xs xs = []"
proof -
  assume d: "distinct (map rs_key xs)"
  then have "same_set (map_of (by_key xs) (rs_key s)) s" if "s \<in> set xs" for s
    using that by_key_Some [OF d, of "rs_key s" s] by (simp add: same_set_def)
  with d show ?thesis by (auto simp: diffRRsets_eq filter_empty_conv)
qed

section \<open>Setting the serial and rendering\<close>

lemma setSOASerial_length [simp]: "length (setSOASerial rrs n) = length rrs"
  by (induction rrs n rule: setSOASerial.induct) (auto split: rdata.splits)

text \<open>Only the typed part of the first SOA changes.\<close>

lemma setSOASerial_header:
  "map (\<lambda>r. (rname r, rrtype r, rclass r, rttl r)) (setSOASerial rrs n) =
   map (\<lambda>r. (rname r, rrtype r, rclass r, rttl r)) rrs"
  by (induction rrs n rule: setSOASerial.induct) (auto split: rdata.splits)

lemma setSOASerial_others: "filter (\<lambda>r. \<not> is_soa r) (setSOASerial rrs n) = filter (\<lambda>r. \<not> is_soa r) rrs"
  by (induction rrs n rule: setSOASerial.induct) (auto simp: soa_serial_def split: rdata.splits)

lemma setSOASerial_serials:
  "List.map_filter soa_serial (setSOASerial rrs n) =
     (case List.map_filter soa_serial rrs of [] \<Rightarrow> [] | _ # ss \<Rightarrow> n # ss)"
  by (induction rrs n rule: setSOASerial.induct)
    (auto simp: soa_serial_def map_filter_simps split: rdata.splits list.splits)

lemma setSOASerial_typed: "\<forall>r\<in>set rrs. rr_typed r \<Longrightarrow> \<forall>r\<in>set (setSOASerial rrs n). rr_typed r"
  by (induction rrs n rule: setSOASerial.induct)
    (auto simp: rr_typed_def soa_serial_def split: rdata.splits)

lemma mset_render_order [simp]: "mset (render_order D zone rrs) = mset rrs"
  by (simp add: render_order_def)

lemma set_render_order [simp]: "set (render_order D zone rrs) = set rrs"
  by (simp add: render_order_def)

text \<open>If records with equal sort keys print alike, the rendering does not depend on the order of
  the records.\<close>

lemma render_perm:
  assumes m: "mset rrs = mset rrs'"
    and key: "\<And>r r'. r \<in> set rrs \<Longrightarrow> r' \<in> set rrs \<Longrightarrow> rrSortKey D zone r = rrSortKey D zone r' \<Longrightarrow>
              rr_string D r = rr_string D r'"
  shows "render D zone rrs = render D zone rrs'"
proof -
  let ?k = "rrSortKey D zone"
  let ?a = "sort_key ?k rrs" and ?b = "sort_key ?k rrs'"
  have set: "set rrs' = set rrs" using m by (metis set_mset_mset)
  have srt: "sort (map ?k xs) = map ?k (sort_key ?k xs)" for xs
    by (rule properties_for_sort) auto
  have "sort (map ?k rrs) = sort (map ?k rrs')"
    by (rule properties_for_sort) (simp_all add: m)
  then have mk: "map ?k ?a = map ?k ?b" by (simp only: srt)
  have len: "length ?a = length ?b" using mset_eq_length [OF m] by simp
  have "map (rr_string D) ?a = map (rr_string D) ?b"
  proof (rule nth_equalityI)
    show "length (map (rr_string D) ?a) = length (map (rr_string D) ?b)" using len by simp
  next
    fix i assume i: "i < length (map (rr_string D) ?a)"
    then have ab: "i < length ?a" "i < length ?b" using len by simp_all
    have "?k (?a ! i) = map ?k ?a ! i" by (rule nth_map [symmetric, OF ab(1)])
    also have "\<dots> = ?k (?b ! i)" unfolding mk by (rule nth_map [OF ab(2)])
    finally have eq: "?k (?a ! i) = ?k (?b ! i)" .
    have "?a ! i \<in> set ?a" "?b ! i \<in> set ?b"
      by (rule nth_mem [OF ab(1)], rule nth_mem [OF ab(2)])
    then have "?a ! i \<in> set rrs" "?b ! i \<in> set rrs" using set by simp_all
    from key [OF this eq] show "map (rr_string D) ?a ! i = map (rr_string D) ?b ! i"
      by (simp only: nth_map [OF ab(1)] nth_map [OF ab(2)])
  qed
  then have "map (\<lambda>s. s @ [CHR 0x0A]) (map (rr_string D) ?a) = map (\<lambda>s. s @ [CHR 0x0A]) (map (rr_string D) ?b)"
    by simp
  then show ?thesis by (simp add: render_def render_order_def comp_def)
qed

end
