(* ===== verification/Disk.thy ===== *)
theory Disk
  imports Prelude
begin

text \<open>
  The file system under the RillDNS services and the protocol by which all of them replace a
  file: create a temporary file in the target directory, fill it, rename it over the target.

  The world holds the disk (a finite map from paths to file contents), the outcomes of the
  system calls still to come (\<open>None\<close>: the call succeeds, \<open>Some k\<close>: it fails, a write after \<open>k\<close>
  bytes; an exhausted list means that no further call fails) and the history of all states the
  disk has been in, which is what a crash or a concurrent reader can see.  Directories and
  permission bits are not represented: a missing directory shows as a failing call.

  The contract of a file replacement is the locale \<open>atomic_writer\<close>; \<open>strict_writer\<close> adds that a
  reported failure leaves the target as it was.
\<close>

section \<open>Files and the world\<close>

text \<open>
  A JSON document is represented by its value (\<open>JTime\<close> is a string holding a marshalled
  \<open>time.Time\<close>, \<open>JBytes\<close> one holding a base64 byte slice), any other content by its bytes, an
  append-only log by its lines.
\<close>

datatype jvalue =
    JNull
  | JBool bool
  | JNum int
  | JStr string
  | JTime gotime
  | JBytes bytes
  | JArr "jvalue list"
  | JObj "(string \<times> jvalue) list"

text \<open>
  Decoding with \<open>encoding/json\<close> into a struct: a missing field or a null leaves the zero value, a
  value of another type is an error (\<open>None\<close>), unknown fields are ignored.
\<close>

definition jget :: "jvalue \<Rightarrow> string \<Rightarrow> jvalue option" where
  "jget j k =
     (case j of
        JObj fs \<Rightarrow> Some (case map_of fs k of None \<Rightarrow> JNull | Some v \<Rightarrow> v)
      | JNull \<Rightarrow> Some JNull
      | _ \<Rightarrow> None)"

definition as_str :: "jvalue \<Rightarrow> string option" where
  "as_str j = (case j of JStr s \<Rightarrow> Some s | JNull \<Rightarrow> Some [] | _ \<Rightarrow> None)"

definition as_bool :: "jvalue \<Rightarrow> bool option" where
  "as_bool j = (case j of JBool b \<Rightarrow> Some b | JNull \<Rightarrow> Some False | _ \<Rightarrow> None)"

definition as_uint64 :: "jvalue \<Rightarrow> nat option" where
  "as_uint64 j = (case j of JNum n \<Rightarrow> if 0 \<le> n \<and> n < 2 ^ 64 then Some (nat n) else None | JNull \<Rightarrow> Some 0 | _ \<Rightarrow> None)"

definition as_int64 :: "jvalue \<Rightarrow> int option" where
  "as_int64 j = (case j of JNum n \<Rightarrow> if - (2 ^ 63) \<le> n \<and> n < 2 ^ 63 then Some n else None | JNull \<Rightarrow> Some 0 | _ \<Rightarrow> None)"

definition as_time :: "jvalue \<Rightarrow> gotime option" where
  "as_time j = (case j of JTime t \<Rightarrow> Some t | JNull \<Rightarrow> Some zero_time | _ \<Rightarrow> None)"

definition as_list :: "(jvalue \<Rightarrow> 'a option) \<Rightarrow> jvalue \<Rightarrow> 'a list option" where
  "as_list f j = (case j of JArr xs \<Rightarrow> those (map f xs) | JNull \<Rightarrow> Some [] | _ \<Rightarrow> None)"

text \<open>A map from strings; later entries win.\<close>

fun as_map_loop :: "(jvalue \<Rightarrow> 'a option) \<Rightarrow> (string \<times> jvalue) list \<Rightarrow> (string, 'a) gomap \<Rightarrow> (string, 'a) gomap option" where
  "as_map_loop f [] m = Some m"
| "as_map_loop f ((k, j) # kvs) m =
     (case f j of None \<Rightarrow> None | Some v \<Rightarrow> as_map_loop f kvs (AList.update k v m))"

definition as_map :: "(jvalue \<Rightarrow> 'a option) \<Rightarrow> jvalue \<Rightarrow> (string, 'a) gomap option" where
  "as_map f j = (case j of JObj kvs \<Rightarrow> as_map_loop f kvs [] | JNull \<Rightarrow> Some [] | _ \<Rightarrow> None)"

text \<open>Encoding a map: the keys come out sorted.\<close>

definition of_map :: "('a \<Rightarrow> jvalue) \<Rightarrow> (string, 'a) gomap \<Rightarrow> jvalue" where
  "of_map f m = JObj (map (\<lambda>(k, v). (k, f v)) (sort_key fst m))"

lemma those_map_Some: "(\<And>x. x \<in> set xs \<Longrightarrow> f (g x) = Some x) \<Longrightarrow> those (map f (map g xs)) = Some xs"
  by (induction xs) auto

lemma as_list_map: "(\<And>x. x \<in> set xs \<Longrightarrow> f (g x) = Some x) \<Longrightarrow> as_list f (JArr (map g xs)) = Some xs"
  by (simp only: as_list_def jvalue.case those_map_Some)

lemma as_map_loop_distinct:
  "(\<And>k v. (k, v) \<in> set m \<Longrightarrow> f (g v) = Some v) \<Longrightarrow> distinct (map fst (acc @ m)) \<Longrightarrow>
   as_map_loop f (map (\<lambda>(k, v). (k, g v)) m) acc = Some (acc @ m)"
proof (induction m arbitrary: acc)
  case (Cons kv m)
  obtain k v where kv: "kv = (k, v)" by fastforce
  have f: "f (g v) = Some v" by (rule Cons.prems(1) [of k]) (simp add: kv)
  have "k \<notin> fst ` set acc" using Cons.prems(2) kv by auto
  then have "AList.update k v acc = acc @ [(k, v)]" by (induction acc) auto
  moreover have "as_map_loop f (map (\<lambda>(k, v). (k, g v)) m) (acc @ [(k, v)]) = Some ((acc @ [(k, v)]) @ m)"
  proof (rule Cons.IH)
    fix k' v' assume "(k', v') \<in> set m"
    then show "f (g v') = Some v'" by (intro Cons.prems(1) [of k']) simp
  qed (use Cons.prems(2) kv in simp)
  ultimately show ?case using kv f by simp
qed simp

lemma as_map_of_map:
  assumes "\<And>k v. (k, v) \<in> set m \<Longrightarrow> f (g v) = Some v" "distinct (map fst m)"
  shows "as_map f (of_map g m) = Some (sort_key fst m)"
proof -
  have "distinct (map fst (sort_key fst m))"
    using assms(2) by (metis mset_map mset_sort mset_eq_imp_distinct_iff)
  then show ?thesis
    using as_map_loop_distinct [of "sort_key fst m" f g "[]"] assms(1) by (simp add: as_map_def of_map_def)
qed

lemma as_map_wf: "as_map f j = Some m \<Longrightarrow> gomap_wf m"
proof -
  have "as_map_loop f kvs acc = Some m \<Longrightarrow> gomap_wf acc \<Longrightarrow> gomap_wf m" for kvs acc
    by (induction kvs arbitrary: acc) (auto simp: distinct_update split: option.splits)
  then show "as_map f j = Some m \<Longrightarrow> gomap_wf m" by (auto simp: as_map_def split: jvalue.splits)
qed

datatype fdata = Text bytes | Json jvalue | Lines "(string + jvalue) list"

type_synonym disk_t = "(path, fdata) gomap"

record world =
  disk :: disk_t
  outcomes :: "nat option list"
  snaps :: "disk_t list"

datatype ioerr = NotExist | IOFault

abbreviation flookup :: "world \<Rightarrow> path \<Rightarrow> fdata option" where
  "flookup w p \<equiv> map_of (disk w) p"

abbreviation calm :: "world \<Rightarrow> bool" where
  "calm w \<equiv> outcomes w = []"

section \<open>System calls\<close>

definition syscall :: "world \<Rightarrow> nat option \<times> world" where
  "syscall w = (case outcomes w of [] \<Rightarrow> (None, w) | r # rs \<Rightarrow> (r, w\<lparr>outcomes := rs\<rparr>))"

definition set_disk :: "disk_t \<Rightarrow> world \<Rightarrow> world" where
  "set_disk d w = w\<lparr>disk := d, snaps := snaps w @ [d]\<rparr>"

definition os_read_file :: "path \<Rightarrow> world \<Rightarrow> (ioerr + fdata) \<times> world" where
  "os_read_file p w =
     (case syscall w of
        (Some _, w1) \<Rightarrow> (Inl IOFault, w1)
      | (None, w1) \<Rightarrow> (case flookup w1 p of None \<Rightarrow> (Inl NotExist, w1) | Some f \<Rightarrow> (Inr f, w1)))"

definition os_stat :: "path \<Rightarrow> world \<Rightarrow> ioerr option \<times> world" where
  "os_stat p w =
     (case os_read_file p w of (Inl e, w1) \<Rightarrow> (Some e, w1) | (Inr _, w1) \<Rightarrow> (None, w1))"

definition os_remove :: "path \<Rightarrow> world \<Rightarrow> ioerr option \<times> world" where
  "os_remove p w =
     (case syscall w of
        (Some _, w1) \<Rightarrow> (Some IOFault, w1)
      | (None, w1) \<Rightarrow> (if flookup w1 p = None then (Some NotExist, w1)
                       else (None, set_disk (AList.delete p (disk w1)) w1)))"

text \<open>\<open>os.MkdirAll\<close>, \<open>os.Chmod\<close> and other calls that only succeed or fail.\<close>

definition os_plain :: "world \<Rightarrow> bool \<times> world" where
  "os_plain w = (case syscall w of (Some _, w1) \<Rightarrow> (False, w1) | (None, w1) \<Rightarrow> (True, w1))"

text \<open>Opening a log for appending (creating it if need be), writing one line, closing it.\<close>

definition append_line :: "path \<Rightarrow> jvalue \<Rightarrow> world \<Rightarrow> bool \<times> world" where
  "append_line p v w =
     (case os_plain w of
        (False, w1) \<Rightarrow> (False, w1)
      | (True, w1) \<Rightarrow>
          (case syscall w1 of
             (Some _, w2) \<Rightarrow> (False, w2)
           | (None, w2) \<Rightarrow>
               let old = (case flookup w2 p of Some (Lines ls) \<Rightarrow> ls
                          | Some (Text s) \<Rightarrow> map Inl (scan_lines s)
                          | Some (Json j) \<Rightarrow> [Inr j] | None \<Rightarrow> [])
               in os_plain (set_disk (AList.update p (Lines (old @ [Inr v])) (disk w2)) w2)))"

section \<open>Replacing a file through a temporary one\<close>

text \<open>
  \<open>filepath.Join\<close> of a directory and a plain file name, \<open>filepath.Dir\<close>, and
  \<open>os.CreateTemp\<close>, whose random suffix is modelled as the least number that makes the name
  unused and different from the target.
\<close>

definition path_join :: "path \<Rightarrow> string \<Rightarrow> path" where
  "path_join d n = d @ ''/'' @ n"

definition path_dir :: "path \<Rightarrow> path" where
  "path_dir p = (if CHR ''/'' \<in> set p then rev (tl (dropWhile (\<lambda>c. c \<noteq> CHR ''/'') (rev p))) else ''.'')"

definition path_base :: "path \<Rightarrow> string" where
  "path_base p = rev (takeWhile (\<lambda>c. c \<noteq> CHR ''/'') (rev p))"

definition temp_path :: "path \<Rightarrow> string \<Rightarrow> nat \<Rightarrow> path" where
  "temp_path d pat n = path_join d (pat @ nat_dec n)"

definition fresh_temp :: "path \<Rightarrow> string \<Rightarrow> disk_t \<Rightarrow> path" where
  "fresh_temp p pat d =
     (let used = p # map fst d
      in hd (filter (\<lambda>q. q \<notin> set used) (map (temp_path (path_dir p) pat) [0..<Suc (length used)])))"

text \<open>\<open>os.ReadDir\<close>: the plain files of a directory, sorted by name.\<close>

definition os_read_dir :: "path \<Rightarrow> world \<Rightarrow> (ioerr + string list) \<times> world" where
  "os_read_dir d w =
     (case os_plain w of
        (False, w1) \<Rightarrow> (Inl IOFault, w1)
      | (True, w1) \<Rightarrow> (Inr (sort (map path_base (filter (\<lambda>p. path_dir p = d) (map fst (disk w1))))), w1))"

text \<open>The fallible calls a writer makes between creating and removing its temporary file.\<close>

datatype wstep =
    SChmod
  | SBuffer      \<comment> \<open>a write into a \<open>bufio.Writer\<close>\<close>
  | SWrite       \<comment> \<open>the bytes reach the temporary file (\<open>Write\<close>, \<open>Encode\<close> or \<open>Flush\<close>)\<close>
  | SSync
  | SClose
  | SRename
  | SOpenDir
  | SSyncDir
  | SCloseDir

definition partial_file :: "nat \<Rightarrow> fdata \<Rightarrow> fdata" where
  "partial_file k f = (case f of Text s \<Rightarrow> Text (take k s) | _ \<Rightarrow> Text [])"

definition step_ok :: "path \<Rightarrow> path \<Rightarrow> fdata \<Rightarrow> wstep \<Rightarrow> world \<Rightarrow> world" where
  "step_ok p tmp c s w =
     (case s of
        SWrite \<Rightarrow> set_disk (AList.update tmp c (disk w)) w
      | SRename \<Rightarrow> (case flookup w tmp of
                      None \<Rightarrow> w
                    | Some f \<Rightarrow> set_disk (AList.update p f (AList.delete tmp (disk w))) w)
      | _ \<Rightarrow> w)"

definition step_fail :: "path \<Rightarrow> fdata \<Rightarrow> wstep \<Rightarrow> nat \<Rightarrow> world \<Rightarrow> world" where
  "step_fail tmp c s k w =
     (case s of
        SWrite \<Rightarrow> set_disk (AList.update tmp (partial_file k c) (disk w)) w
      | SBuffer \<Rightarrow> set_disk (AList.update tmp (partial_file k c) (disk w)) w
      | _ \<Rightarrow> w)"

fun run_steps :: "path \<Rightarrow> path \<Rightarrow> fdata \<Rightarrow> wstep list \<Rightarrow> world \<Rightarrow> bool \<times> world" where
  "run_steps p tmp c [] w = (True, w)"
| "run_steps p tmp c (s # ss) w =
     (case syscall w of
        (Some k, w1) \<Rightarrow> (False, step_fail tmp c s k w1)
      | (None, w1) \<Rightarrow> run_steps p tmp c ss (step_ok p tmp c s w1))"

definition remove_quietly :: "path \<Rightarrow> world \<Rightarrow> world" where
  "remove_quietly p w = snd (os_remove p w)"

definition atomic_write :: "string \<Rightarrow> wstep list \<Rightarrow> path \<Rightarrow> fdata \<Rightarrow> world \<Rightarrow> bool \<times> world" where
  "atomic_write pat steps p c w =
     (case os_plain w of
        (False, w1) \<Rightarrow> (False, w1)
      | (True, w1) \<Rightarrow>
          let tmp = fresh_temp p pat (disk w1);
              w2 = set_disk (AList.update tmp (Text []) (disk w1)) w1
          in case run_steps p tmp c steps w2 of
               (ok, w3) \<Rightarrow> (ok, remove_quietly tmp w3))"

text \<open>Several files written one after the other, stopping at the first failure.\<close>

fun write_files :: "(path \<Rightarrow> 'v \<Rightarrow> world \<Rightarrow> bool \<times> world) \<Rightarrow> (path \<times> 'v) list \<Rightarrow> world \<Rightarrow> bool \<times> world" where
  "write_files put_file [] w = (True, w)"
| "write_files put_file ((p, v) # rest) w =
     (case put_file p v w of (False, w1) \<Rightarrow> (False, w1) | (True, w1) \<Rightarrow> write_files put_file rest w1)"

section \<open>Contract of a file replacement\<close>

text \<open>A name left behind by a writer that could not remove its temporary file ends in a digit.\<close>

definition is_digit :: "char \<Rightarrow> bool" where
  "is_digit c = (48 \<le> (of_char c :: nat) \<and> (of_char c :: nat) \<le> 57)"

definition ends_digit :: "path \<Rightarrow> bool" where
  "ends_digit p = (p \<noteq> [] \<and> is_digit (last p))"

locale atomic_writer =
  fixes put_file :: "path \<Rightarrow> 'v \<Rightarrow> world \<Rightarrow> bool \<times> world"
    and enc :: "'v \<Rightarrow> fdata"
  assumes write_ok: "put_file p v w = (True, w') \<Longrightarrow> flookup w' p = Some (enc v)"
    and write_any: "put_file p v w = (ok, w') \<Longrightarrow> flookup w' p = flookup w p \<or> flookup w' p = Some (enc v)"
    and write_frame: "put_file p v w = (ok, w') \<Longrightarrow> q \<noteq> p \<Longrightarrow>
          flookup w' q = flookup w q \<or> (flookup w q = None \<and> ends_digit q)"
    and write_snaps: "put_file p v w = (ok, w') \<Longrightarrow>
          \<exists>ss. snaps w' = snaps w @ ss \<and>
               (\<forall>s\<in>set ss. (map_of s p = flookup w p \<or> map_of s p = Some (enc v)) \<and>
                 (\<forall>q. q \<noteq> p \<longrightarrow> map_of s q = flookup w q \<or> (flookup w q = None \<and> ends_digit q)))"
    and write_calm: "calm w \<Longrightarrow> \<exists>w'. put_file p v w = (True, w') \<and> calm w'"
    and write_wf: "put_file p v w = (ok, w') \<Longrightarrow> gomap_wf (disk w) \<Longrightarrow> gomap_wf (disk w')"
begin

lemma write_other: "put_file p v w = (ok, w') \<Longrightarrow> q \<noteq> p \<Longrightarrow> \<not> ends_digit q \<Longrightarrow> flookup w' q = flookup w q"
  using write_frame by blast

lemma write_existing: "put_file p v w = (ok, w') \<Longrightarrow> q \<noteq> p \<Longrightarrow> flookup w q = Some f \<Longrightarrow> flookup w' q = Some f"
  using write_frame by fastforce

lemma write_files_other:
  "write_files put_file pvs w = (ok, w') \<Longrightarrow> q \<notin> fst ` set pvs \<Longrightarrow> \<not> ends_digit q \<Longrightarrow>
   flookup w' q = flookup w q"
proof (induction pvs arbitrary: w)
  case (Cons pv rest)
  obtain p v where pv: "pv = (p, v)" by fastforce
  obtain ok1 w1 where w1: "put_file p v w = (ok1, w1)" by fastforce
  with Cons.prems pv have "flookup w1 q = flookup w q" by (auto intro: write_other)
  moreover have "flookup w' q = flookup w1 q"
    using Cons pv w1 by (cases ok1) auto
  ultimately show ?case by simp
qed simp

lemma write_files_ok:
  "write_files put_file pvs w = (True, w') \<Longrightarrow> distinct (map fst pvs) \<Longrightarrow>
   \<forall>(p, v)\<in>set pvs. \<not> ends_digit p \<Longrightarrow> \<forall>(p, v)\<in>set pvs. flookup w' p = Some (enc v)"
proof (induction pvs arbitrary: w)
  case (Cons pv rest)
  obtain p v where pv: "pv = (p, v)" by fastforce
  with Cons.prems obtain w1 where w1: "put_file p v w = (True, w1)"
    and r: "write_files put_file rest w1 = (True, w')"
    by (auto split: prod.splits bool.splits)
  have "\<forall>(p, v)\<in>set rest. flookup w' p = Some (enc v)"
    using Cons.IH [OF r] Cons.prems by auto
  moreover have "flookup w' p = flookup w1 p"
    using write_files_other [OF r, of p] Cons.prems pv by auto
  ultimately show ?case using write_ok [OF w1] pv by simp
qed simp

lemma write_files_calm: "calm w \<Longrightarrow> \<exists>w'. write_files put_file pvs w = (True, w') \<and> calm w'"
proof (induction pvs arbitrary: w)
  case (Cons pv rest)
  obtain p v where pv: "pv = (p, v)" by fastforce
  obtain w1 where "put_file p v w = (True, w1)" "calm w1" using write_calm [OF Cons.prems] by blast
  with Cons.IH [of w1] pv show ?case by simp
qed simp

lemma write_files_wf:
  "write_files put_file pvs w = (ok, w') \<Longrightarrow> gomap_wf (disk w) \<Longrightarrow> gomap_wf (disk w')"
proof (induction pvs arbitrary: w)
  case (Cons pv rest)
  obtain p v where pv: "pv = (p, v)" by fastforce
  obtain ok1 w1 where w1: "put_file p v w = (ok1, w1)" by fastforce
  with Cons pv write_wf [OF w1] show ?case by (cases ok1) auto
qed simp

end

text \<open>\<open>within R w w'\<close>: the disk satisfies \<open>R\<close> at every instant between \<open>w\<close> (excluded) and \<open>w'\<close>.\<close>

definition within :: "(disk_t \<Rightarrow> bool) \<Rightarrow> world \<Rightarrow> world \<Rightarrow> bool" where
  "within R w w' \<longleftrightarrow> R (disk w') \<and> (\<exists>ss. snaps w' = snaps w @ ss \<and> (\<forall>s\<in>set ss. R s))"

text \<open>The disks a replacement of \<open>p\<close> by \<open>f\<close> may leave, or show on its way.\<close>

definition near :: "path \<Rightarrow> fdata \<Rightarrow> world \<Rightarrow> disk_t \<Rightarrow> bool" where
  "near p f w d \<longleftrightarrow> (map_of d p = flookup w p \<or> map_of d p = Some f) \<and>
     (\<forall>q. q \<noteq> p \<longrightarrow> map_of d q = flookup w q \<or> (flookup w q = None \<and> ends_digit q))"

context atomic_writer
begin

lemma write_within: "put_file p v w = (ok, w') \<Longrightarrow> (\<And>d. near p (enc v) w d \<Longrightarrow> R d) \<Longrightarrow> within R w w'"
proof -
  assume wr: "put_file p v w = (ok, w')" and R: "\<And>d. near p (enc v) w d \<Longrightarrow> R d"
  from write_any [OF wr] write_frame [OF wr] have "near p (enc v) w (disk w')"
    by (simp add: near_def)
  moreover from write_snaps [OF wr] obtain ss where ss: "snaps w' = snaps w @ ss"
    "\<forall>s\<in>set ss. near p (enc v) w s"
    by (auto simp: near_def)
  ultimately show ?thesis using R by (auto simp: within_def)
qed

end

locale strict_writer = atomic_writer +
  assumes write_fail: "put_file p v w = (False, w') \<Longrightarrow> flookup w' p = flookup w p"

section \<open>Lemmas on system calls\<close>

lemma within_refl: "disk w' = disk w \<Longrightarrow> snaps w' = snaps w \<Longrightarrow> R (disk w) \<Longrightarrow> within R w w'"
  by (simp add: within_def)

lemma within_trans: "within R w w1 \<Longrightarrow> within R w1 w2 \<Longrightarrow> within R w w2"
  by (auto simp: within_def)

lemma within_final: "within R w w' \<Longrightarrow> R (disk w')"
  by (simp add: within_def)

lemma syscall_frame [simp]:
  "syscall w = (r, w') \<Longrightarrow> disk w' = disk w \<and> snaps w' = snaps w"
  by (auto simp: syscall_def split: list.splits)

lemma syscall_calm [simp]: "calm w \<Longrightarrow> syscall w = (None, w)"
  by (simp add: syscall_def)

lemma set_disk_simps [simp]:
  "disk (set_disk d w) = d" "outcomes (set_disk d w) = outcomes w"
  "snaps (set_disk d w) = snaps w @ [d]"
  by (simp_all add: set_disk_def)

lemma os_plain_frame: "os_plain w = (ok, w') \<Longrightarrow> disk w' = disk w \<and> snaps w' = snaps w"
  by (auto simp: os_plain_def split: prod.splits option.splits)

lemma os_plain_calm [simp]: "calm w \<Longrightarrow> os_plain w = (True, w)"
  by (simp add: os_plain_def)

lemma os_read_file_frame: "os_read_file p w = (r, w') \<Longrightarrow> disk w' = disk w \<and> snaps w' = snaps w"
  by (auto simp: os_read_file_def split: prod.splits option.splits)

lemma os_read_file_calm:
  "calm w \<Longrightarrow> os_read_file p w = ((case flookup w p of None \<Rightarrow> Inl NotExist | Some f \<Rightarrow> Inr f), w)"
  by (simp add: os_read_file_def split: option.splits)

lemma os_read_file_Inr: "os_read_file p w = (Inr f, w') \<Longrightarrow> flookup w p = Some f"
  by (auto simp: os_read_file_def split: prod.splits option.splits dest: syscall_frame)

lemma os_read_file_NotExist: "os_read_file p w = (Inl NotExist, w') \<Longrightarrow> flookup w p = None"
  by (auto simp: os_read_file_def split: prod.splits option.splits dest: syscall_frame)

lemma os_stat_frame: "os_stat p w = (r, w') \<Longrightarrow> disk w' = disk w \<and> snaps w' = snaps w"
  by (auto simp: os_stat_def split: prod.splits sum.splits dest: os_read_file_frame)

text \<open>A step that neither changed the disk nor passed through another state of it.\<close>

definition same_disk :: "world \<Rightarrow> world \<Rightarrow> bool" where
  "same_disk w w' \<longleftrightarrow> disk w' = disk w \<and> snaps w' = snaps w"

lemma same_disk_refl [simp]: "same_disk w w"
  by (simp add: same_disk_def)

lemma same_disk_trans: "same_disk w w1 \<Longrightarrow> same_disk w1 w2 \<Longrightarrow> same_disk w w2"
  by (simp add: same_disk_def)

lemma os_stat_None: "os_stat p w = (None, w') \<Longrightarrow> \<exists>f. flookup w p = Some f"
  by (auto simp: os_stat_def split: prod.splits sum.splits dest: os_read_file_Inr)

lemma os_stat_calm: "calm w \<Longrightarrow>
  os_stat p w = ((case flookup w p of None \<Rightarrow> Some NotExist | Some f \<Rightarrow> None), w)"
  by (simp add: os_stat_def os_read_file_calm split: option.splits)

lemma os_remove_disk:
  "os_remove p w = (r, w') \<Longrightarrow> flookup w' = (if r = None then (flookup w)(p := None) else flookup w)"
  by (auto simp: os_remove_def fun_eq_iff delete_conv' split: prod.splits option.splits if_splits
      dest: syscall_frame)

lemma os_remove_wf: "os_remove p w = (r, w') \<Longrightarrow> gomap_wf (disk w) \<Longrightarrow> gomap_wf (disk w')"
  by (auto simp: os_remove_def distinct_delete split: prod.splits option.splits if_splits
      dest: syscall_frame)

lemma os_remove_calm: "calm w \<Longrightarrow> os_remove p w =
  (if flookup w p = None then (Some NotExist, w) else (None, set_disk (AList.delete p (disk w)) w))"
  by (simp add: os_remove_def)

lemma os_remove_snaps: "os_remove p w = (r, w') \<Longrightarrow>
  snaps w' = snaps w \<or> snaps w' = snaps w @ [AList.delete p (disk w)]"
  by (auto simp: os_remove_def split: prod.splits option.splits if_splits dest: syscall_frame)

lemma append_line_other: "append_line p v w = (ok, w') \<Longrightarrow> q \<noteq> p \<Longrightarrow> flookup w' q = flookup w q"
  by (auto simp: append_line_def Let_def update_conv' split: prod.splits option.splits bool.splits
      dest!: syscall_frame os_plain_frame)

lemma append_line_calm: "calm w \<Longrightarrow> \<exists>w'. append_line p v w = (True, w') \<and> calm w'"
  by (simp add: append_line_def Let_def)

lemma append_line_wf: "append_line p v w = (ok, w') \<Longrightarrow> gomap_wf (disk w) \<Longrightarrow> gomap_wf (disk w')"
  by (auto simp: append_line_def Let_def distinct_update split: prod.splits option.splits bool.splits
      dest!: syscall_frame os_plain_frame)

lemma append_line_within:
  assumes "append_line p v w = (ok, w')" and R: "\<And>d. (\<forall>q. q \<noteq> p \<longrightarrow> map_of d q = flookup w q) \<Longrightarrow> R d"
  shows "within R w w'"
proof -
  obtain ok1 w1 where w1: "os_plain w = (ok1, w1)" by fastforce
  obtain r w2 where w2: "syscall w1 = (r, w2)" by fastforce
  have d2: "disk w2 = disk w" "snaps w2 = snaps w"
    using os_plain_frame [OF w1] syscall_frame [OF w2] by simp_all
  have "disk w' = disk w \<and> snaps w' = snaps w \<or>
        (\<exists>ls. disk w' = AList.update p ls (disk w) \<and> snaps w' = snaps w @ [disk w'])"
    using assms(1) w1 w2 d2 os_plain_frame [OF w1]
    by (auto simp: append_line_def Let_def split: bool.splits option.splits dest!: os_plain_frame)
  then show ?thesis
  proof
    assume "disk w' = disk w \<and> snaps w' = snaps w"
    with R [of "disk w"] show ?thesis by (simp add: within_refl)
  next
    assume "\<exists>ls. disk w' = AList.update p ls (disk w) \<and> snaps w' = snaps w @ [disk w']"
    then obtain ls where ls: "disk w' = AList.update p ls (disk w)" "snaps w' = snaps w @ [disk w']" by blast
    have "R (disk w')" unfolding ls(1) by (rule R) (simp add: update_conv')
    with ls(2) show ?thesis by (auto simp: within_def)
  qed
qed

lemma os_remove_within:
  assumes "os_remove p w = (r, w')" and "R (disk w)" and "R (AList.delete p (disk w))"
  shows "within R w w'"
  using assms by (auto simp: os_remove_def within_def split: prod.splits option.splits if_splits
      dest!: syscall_frame)

section \<open>The temporary-file protocol meets the contract\<close>

lemma temp_path_inj: "temp_path d pat m = temp_path d pat n \<Longrightarrow> m = n"
  by (auto simp: temp_path_def path_join_def dest: nat_dec_inj)

lemma fresh_temp_cands:
  "filter (\<lambda>q. q \<notin> set used) (map (temp_path d pat) [0..<Suc (length used)]) \<noteq> []"
proof
  let ?cs = "map (temp_path d pat) [0..<Suc (length used)]"
  assume "filter (\<lambda>q. q \<notin> set used) ?cs = []"
  then have "set ?cs \<subseteq> set used" by (auto simp: filter_empty_conv simp del: upt_Suc)
  moreover have "inj_on (temp_path d pat) {0..<Suc (length used)}"
    by (auto intro!: inj_onI dest: temp_path_inj)
  then have "card (set ?cs) = Suc (length used)"
    by (simp add: card_image del: upt_Suc)
  ultimately have "Suc (length used) \<le> card (set used)"
    by (metis card_mono finite_set)
  then show False using card_length [of used] by simp
qed

lemma fresh_temp_in:
  "fresh_temp p pat d \<notin> set (p # map fst d) \<and> (\<exists>n. fresh_temp p pat d = temp_path (path_dir p) pat n)"
proof -
  let ?used = "p # map fst d"
  let ?cs = "map (temp_path (path_dir p) pat) [0..<Suc (length ?used)]"
  have "fresh_temp p pat d \<in> set (filter (\<lambda>q. q \<notin> set ?used) ?cs)"
    unfolding fresh_temp_def Let_def by (intro hd_in_set fresh_temp_cands)
  then show ?thesis by (auto simp del: upt_Suc)
qed

lemma fresh_temp_unused: "map_of d (fresh_temp p pat d) = None" "fresh_temp p pat d \<noteq> p"
  using fresh_temp_in [of p pat d] by (auto simp: map_of_eq_None_iff)

lemma digit_char_is_digit: "d < 10 \<Longrightarrow> is_digit (digit_char d)"
  by (simp add: is_digit_def digit_char_def)

lemma last_nat_dec: "is_digit (last (nat_dec n))"
  by (subst nat_dec.simps) (simp add: digit_char_is_digit)

lemma fresh_temp_digit: "ends_digit (fresh_temp p pat d)"
proof -
  obtain n where "fresh_temp p pat d = temp_path (path_dir p) pat n" using fresh_temp_in by blast
  then show ?thesis using last_nat_dec [of n]
    by (simp add: ends_digit_def temp_path_def path_join_def)
qed

lemma run_steps_append:
  "run_steps p tmp c (a @ b) w =
     (case run_steps p tmp c a w of (False, w1) \<Rightarrow> (False, w1) | (True, w1) \<Rightarrow> run_steps p tmp c b w1)"
  by (induction p tmp c a w rule: run_steps.induct) (auto split: option.splits prod.splits)

text \<open>Everything up to the rename touches the temporary file only.\<close>

definition touches_only :: "path \<Rightarrow> world \<Rightarrow> world \<Rightarrow> bool" where
  "touches_only tmp w w' \<longleftrightarrow>
     (\<forall>q. q \<noteq> tmp \<longrightarrow> flookup w' q = flookup w q) \<and>
     (\<exists>ss. snaps w' = snaps w @ ss \<and> (\<forall>s\<in>set ss. \<forall>q. q \<noteq> tmp \<longrightarrow> map_of s q = flookup w q)) \<and>
     (gomap_wf (disk w) \<longrightarrow> gomap_wf (disk w'))"

lemma touches_only_refl: "disk w' = disk w \<Longrightarrow> snaps w' = snaps w \<Longrightarrow> touches_only tmp w w'"
  by (simp add: touches_only_def)

lemma touches_only_trans: "touches_only tmp w w1 \<Longrightarrow> touches_only tmp w1 w2 \<Longrightarrow> touches_only tmp w w2"
  by (auto simp: touches_only_def)

lemma touches_only_syscall: "syscall w = (r, w1) \<Longrightarrow> touches_only tmp w w1"
  using syscall_frame touches_only_refl by blast

lemma touches_only_update: "touches_only tmp w (set_disk (AList.update tmp c (disk w)) w)"
  by (auto simp: touches_only_def update_conv' distinct_update)

lemma touches_only_remove: "touches_only tmp w (remove_quietly tmp w)"
proof -
  obtain r w' where r: "os_remove tmp w = (r, w')" by fastforce
  show ?thesis
    using os_remove_disk [OF r] os_remove_snaps [OF r] os_remove_wf [OF r]
    by (auto simp: touches_only_def remove_quietly_def r delete_conv')
qed

lemma run_pre:
  "SRename \<notin> set ss \<Longrightarrow> run_steps p tmp c ss w = (ok, w') \<Longrightarrow> touches_only tmp w w'"
proof (induction ss arbitrary: w)
  case (Cons s ss)
  obtain r w1 where r: "syscall w = (r, w1)" by fastforce
  note w1 = touches_only_syscall [OF r, of tmp]
  show ?case
  proof (cases r)
    case None
    have "touches_only tmp w1 (step_ok p tmp c s w1)"
      using Cons.prems touches_only_update touches_only_refl
      by (cases s) (auto simp: step_ok_def)
    moreover have "touches_only tmp (step_ok p tmp c s w1) w'"
      using Cons r None by auto
    ultimately show ?thesis using w1 touches_only_trans by blast
  next
    case (Some k)
    then have "w' = step_fail tmp c s k w1" using Cons.prems r by simp
    then have "touches_only tmp w1 w'"
      using touches_only_update touches_only_refl by (cases s) (auto simp: step_fail_def)
    with w1 touches_only_trans show ?thesis by blast
  qed
qed (auto intro: touches_only_refl)

lemma run_pre_content:
  "SRename \<notin> set ss \<Longrightarrow> run_steps p tmp c ss w = (True, w') \<Longrightarrow>
   SWrite \<in> set ss \<or> flookup w tmp = Some c \<Longrightarrow> flookup w' tmp = Some c"
proof (induction ss arbitrary: w)
  case (Cons s ss)
  then obtain w1 where r: "syscall w = (None, w1)"
    and t: "run_steps p tmp c ss (step_ok p tmp c s w1) = (True, w')"
    by (auto split: prod.splits option.splits)
  from Cons.prems syscall_frame [OF r]
  have "SWrite \<in> set ss \<or> flookup (step_ok p tmp c s w1) tmp = Some c"
    by (cases s) (auto simp: step_ok_def update_conv')
  with Cons t show ?case by auto
qed simp

lemma run_post:
  "SRename \<notin> set ss \<Longrightarrow> SWrite \<notin> set ss \<Longrightarrow> SBuffer \<notin> set ss \<Longrightarrow>
   run_steps p tmp c ss w = (ok, w') \<Longrightarrow> disk w' = disk w \<and> snaps w' = snaps w"
proof (induction ss arbitrary: w)
  case (Cons s ss)
  obtain r w1 where r: "syscall w = (r, w1)" by fastforce
  have "step_ok p tmp c s w1 = w1" "step_fail tmp c s k w1 = w1" for k
    using Cons.prems by (cases s; simp add: step_ok_def step_fail_def)+
  with Cons r syscall_frame [OF r] show ?case by (auto split: option.splits)
qed simp

lemma run_steps_calm: "calm w \<Longrightarrow> \<exists>w'. run_steps p tmp c ss w = (True, w') \<and> calm w'"
proof (induction ss arbitrary: w)
  case (Cons s ss)
  have "calm (step_ok p tmp c s w)"
    using Cons.prems by (auto simp: step_ok_def split: wstep.splits option.splits)
  with Cons show ?case by simp
qed simp

lemma remove_quietly_calm: "calm w \<Longrightarrow> calm (remove_quietly p w)"
  by (simp add: remove_quietly_def os_remove_calm)

text \<open>A step list that fills the temporary file, renames it and does nothing but bookkeeping
  afterwards.\<close>

definition rename_steps :: "wstep list \<Rightarrow> wstep list \<Rightarrow> wstep list \<Rightarrow> bool" where
  "rename_steps steps pre post \<longleftrightarrow>
     steps = pre @ SRename # post \<and> SRename \<notin> set pre \<and> SWrite \<in> set pre \<and>
     SRename \<notin> set post \<and> SWrite \<notin> set post \<and> SBuffer \<notin> set post"

text \<open>The target of a replacement: unchanged until the rename, complete from then on.\<close>

definition replaced :: "path \<Rightarrow> path \<Rightarrow> fdata \<Rightarrow> world \<Rightarrow> world \<Rightarrow> bool" where
  "replaced p tmp c w w' \<longleftrightarrow>
     flookup w' p = Some c \<and> flookup w' tmp = None \<and>
     (\<forall>q. q \<noteq> tmp \<longrightarrow> q \<noteq> p \<longrightarrow> flookup w' q = flookup w q) \<and>
     (\<exists>ss. snaps w' = snaps w @ ss \<and>
           (\<forall>s\<in>set ss. (map_of s p = flookup w p \<or> map_of s p = Some c) \<and>
                          (\<forall>q. q \<noteq> tmp \<longrightarrow> q \<noteq> p \<longrightarrow> map_of s q = flookup w q))) \<and>
     (gomap_wf (disk w) \<longrightarrow> gomap_wf (disk w'))"

lemma step_rename_replaced:
  assumes "flookup w tmp = Some c" "tmp \<noteq> p"
  shows "replaced p tmp c w (step_ok p tmp c SRename w)"
  using assms by (auto simp: replaced_def step_ok_def update_conv' delete_conv' distinct_update
      distinct_delete)

text \<open>What a snapshot taken while \<open>p\<close> is replaced may show.\<close>

definition snap_ok :: "path \<Rightarrow> path \<Rightarrow> fdata \<Rightarrow> world \<Rightarrow> disk_t \<Rightarrow> bool" where
  "snap_ok p tmp c w s \<longleftrightarrow> (map_of s p = flookup w p \<or> map_of s p = Some c) \<and>
     (\<forall>q. q \<noteq> tmp \<longrightarrow> q \<noteq> p \<longrightarrow> map_of s q = flookup w q)"

lemma replaced_alt:
  "replaced p tmp c w w' \<longleftrightarrow>
     flookup w' p = Some c \<and> flookup w' tmp = None \<and>
     (\<forall>q. q \<noteq> tmp \<longrightarrow> q \<noteq> p \<longrightarrow> flookup w' q = flookup w q) \<and>
     (\<exists>ss. snaps w' = snaps w @ ss \<and> list_all (snap_ok p tmp c w) ss) \<and>
     (gomap_wf (disk w) \<longrightarrow> gomap_wf (disk w'))"
  by (simp add: replaced_def snap_ok_def list_all_iff)

lemma replaced_after:
  assumes a: "touches_only tmp w w1" and b: "replaced p tmp c w1 w2" and ne: "tmp \<noteq> p"
  shows "replaced p tmp c w w2"
proof -
  from a ne obtain s1 where s1: "snaps w1 = snaps w @ s1" "list_all (snap_ok p tmp c w) s1"
    by (auto simp: touches_only_def list_all_iff snap_ok_def)
  from b obtain s2 where s2: "snaps w2 = snaps w1 @ s2" "list_all (snap_ok p tmp c w1) s2"
    by (auto simp: replaced_alt)
  have "snap_ok p tmp c w = snap_ok p tmp c w1"
    using a ne by (auto simp: fun_eq_iff snap_ok_def touches_only_def)
  with s1 s2 have "snaps w2 = snaps w @ (s1 @ s2)" "list_all (snap_ok p tmp c w) (s1 @ s2)" by simp_all
  then have "\<exists>ss. snaps w2 = snaps w @ ss \<and> list_all (snap_ok p tmp c w) ss" by blast
  with a b ne show ?thesis by (simp add: replaced_alt touches_only_def)
qed

lemma replaced_before:
  assumes a: "replaced p tmp c w w1" and b: "touches_only tmp w1 w2" and ne: "tmp \<noteq> p"
    and gone: "flookup w2 tmp = None"
  shows "replaced p tmp c w w2"
proof -
  from a obtain s1 where s1: "snaps w1 = snaps w @ s1" "list_all (snap_ok p tmp c w) s1"
    by (auto simp: replaced_alt)
  from b obtain s2 where s2: "snaps w2 = snaps w1 @ s2"
    "\<forall>s\<in>set s2. \<forall>q. q \<noteq> tmp \<longrightarrow> map_of s q = flookup w1 q"
    by (auto simp: touches_only_def)
  have "list_all (snap_ok p tmp c w) s2"
    using s2(2) a ne by (auto simp: list_all_iff snap_ok_def replaced_alt)
  with s1 s2 have "snaps w2 = snaps w @ (s1 @ s2)" "list_all (snap_ok p tmp c w) (s1 @ s2)" by simp_all
  then have "\<exists>ss. snaps w2 = snaps w @ ss \<and> list_all (snap_ok p tmp c w) ss" by blast
  with a b gone ne show ?thesis by (simp add: replaced_alt touches_only_def)
qed

lemma run_steps_replaced:
  assumes st: "rename_steps steps pre post" and ne: "tmp \<noteq> p"
    and run: "run_steps p tmp c steps w = (ok, w')"
  shows "touches_only tmp w w' \<and> \<not> ok \<or> (replaced p tmp c w w' \<and> (post = [] \<longrightarrow> ok))"
proof -
  obtain ok1 w1 where pre: "run_steps p tmp c pre w = (ok1, w1)" by fastforce
  from st have w1: "touches_only tmp w w1" using pre by (auto simp: rename_steps_def intro: run_pre)
  show ?thesis
  proof (cases ok1)
    case False
    with st pre run w1 show ?thesis by (auto simp: rename_steps_def run_steps_append)
  next
    case True
    obtain r w2 where r: "syscall w1 = (r, w2)" by fastforce
    have w2: "touches_only tmp w w2" using w1 touches_only_syscall [OF r] touches_only_trans by blast
    show ?thesis
    proof (cases r)
      case (Some k)
      then have "w' = w2" "\<not> ok"
        using st pre run True r by (auto simp: rename_steps_def run_steps_append step_fail_def)
      with w2 show ?thesis by simp
    next
      case None
      have "flookup w2 tmp = Some c"
        using run_pre_content [of pre p tmp c w w1] st pre True syscall_frame [OF r]
        by (simp add: rename_steps_def)
      from step_rename_replaced [OF this ne]
      have "replaced p tmp c w (step_ok p tmp c SRename w2)" (is "replaced p tmp c w ?w3")
        using replaced_after [OF w2 _ ne] by blast
      moreover have "run_steps p tmp c post ?w3 = (ok, w')"
        using st pre run True r None by (simp add: rename_steps_def run_steps_append)
      ultimately show ?thesis
        using st run_post [of post p tmp c ?w3 ok w']
        by (auto simp: rename_steps_def replaced_def)
    qed
  qed
qed

text \<open>The outcome of a whole replacement: either the target is untouched, or it holds the new
  content, and in both cases a leftover temporary file is the only other trace.\<close>

lemma atomic_write_cases:
  assumes st: "rename_steps steps pre post" and wr: "atomic_write pat steps p c w = (ok, w')"
  obtains (untouched) tmp where "ends_digit tmp" "flookup w tmp = None" "tmp \<noteq> p"
      "touches_only tmp w w'" "\<not> ok"
  | (swapped) tmp where "ends_digit tmp" "flookup w tmp = None" "tmp \<noteq> p"
      "replaced p tmp c w w'" "post = [] \<longrightarrow> ok"
proof -
  obtain ok1 w1 where o: "os_plain w = (ok1, w1)" by fastforce
  note f1 = os_plain_frame [OF o]
  let ?tmp = "fresh_temp p pat (disk w1)"
  have tmp: "ends_digit ?tmp" "flookup w ?tmp = None" "?tmp \<noteq> p"
    using fresh_temp_digit fresh_temp_unused [where d = "disk w1" and p = p and pat = pat] f1
    by simp_all
  show ?thesis
  proof (cases ok1)
    case False
    with wr o have "\<not> ok" "w' = w1" by (auto simp: atomic_write_def)
    with untouched [of ?tmp] tmp f1 touches_only_refl show ?thesis by blast
  next
    case True
    let ?w2 = "set_disk (AList.update ?tmp (Text []) (disk w1)) w1"
    obtain w3 where run: "run_steps p ?tmp c steps ?w2 = (ok, w3)" and w': "w' = remove_quietly ?tmp w3"
      using wr o True by (auto simp: atomic_write_def Let_def split: prod.splits)
    have w2: "touches_only ?tmp w ?w2"
      using touches_only_refl [of w1 w ?tmp] f1 touches_only_update [of ?tmp w1] touches_only_trans
      by blast
    have rm: "touches_only ?tmp w3 w'" using w' touches_only_remove by simp
    from run_steps_replaced [OF st tmp(3) run] consider
      "touches_only ?tmp ?w2 w3" "\<not> ok" | "replaced p ?tmp c ?w2 w3" "post = [] \<longrightarrow> ok"
      by blast
    then show ?thesis
    proof cases
      case 1
      with w2 rm touches_only_trans have "touches_only ?tmp w w'" by blast
      with untouched tmp 1 show ?thesis by blast
    next
      case 2
      have "flookup w' ?tmp = None"
      proof -
        obtain r where "os_remove ?tmp w3 = (r, w')" using w' by (metis remove_quietly_def surjective_pairing)
        from os_remove_disk [OF this] 2(1) show ?thesis by (auto simp: replaced_def)
      qed
      then have "replaced p ?tmp c w w'"
        using replaced_before [OF replaced_after [OF w2 2(1) tmp(3)] rm tmp(3)] by blast
      with swapped tmp 2 show ?thesis by blast
    qed
  qed
qed

lemma atomic_write_calm: "calm w \<Longrightarrow> \<exists>w'. atomic_write pat steps p c w = (True, w') \<and> calm w'"
proof -
  assume c: "calm w"
  let ?tmp = "fresh_temp p pat (disk w)"
  let ?w2 = "set_disk (AList.update ?tmp (Text []) (disk w)) w"
  have "calm ?w2" using c by simp
  then obtain w3 where "run_steps p ?tmp c steps ?w2 = (True, w3)" "calm w3"
    using run_steps_calm by blast
  with c remove_quietly_calm show ?thesis by (simp add: atomic_write_def Let_def)
qed

lemma atomic_write_writer:
  assumes st: "rename_steps steps pre post"
  shows "atomic_writer (\<lambda>p v. atomic_write (pat p) steps p (enc v)) enc"
proof (unfold_locales, goal_cases)
  case (1 p v w w')
  then show ?case by (rule atomic_write_cases [OF st]) (auto simp: replaced_def)
next
  case (2 p v w ok w')
  then show ?case by (rule atomic_write_cases [OF st]) (auto simp: replaced_def touches_only_def)
next
  case (3 p v w ok w' q)
  from 3(1) show ?case
  proof (rule atomic_write_cases [OF st])
    fix tmp assume "ends_digit tmp" "flookup w tmp = None" "touches_only tmp w w'"
    then show ?thesis by (cases "q = tmp") (auto simp: touches_only_def)
  next
    fix tmp assume "ends_digit tmp" "flookup w tmp = None" "replaced p tmp (enc v) w w'"
    then show ?thesis using 3(2) by (cases "q = tmp") (auto simp: replaced_def)
  qed
next
  case (4 p v w ok w')
  then show ?case
  proof (rule atomic_write_cases [OF st])
    fix tmp assume t: "ends_digit tmp" "flookup w tmp = None" "tmp \<noteq> p" "touches_only tmp w w'"
    then obtain ss where ss: "snaps w' = snaps w @ ss"
      "\<forall>s\<in>set ss. \<forall>q. q \<noteq> tmp \<longrightarrow> map_of s q = flookup w q" by (auto simp: touches_only_def)
    with t show ?thesis by (intro exI [of _ ss]) metis
  next
    fix tmp assume t: "ends_digit tmp" "flookup w tmp = None" "replaced p tmp (enc v) w w'"
    then obtain ss where ss: "snaps w' = snaps w @ ss" "list_all (snap_ok p tmp (enc v) w) ss"
      by (auto simp: replaced_alt)
    with t show ?thesis by (intro exI [of _ ss]) (auto simp: list_all_iff snap_ok_def, metis+)
  qed
next
  case (5 w p v)
  then show ?case by (rule atomic_write_calm)
next
  case (6 p v w ok w')
  from 6(1) show ?case
    by (rule atomic_write_cases [OF st]) (use 6(2) in \<open>auto simp: replaced_def touches_only_def\<close>)
qed

lemma atomic_write_strict:
  assumes st: "rename_steps steps pre []"
  shows "strict_writer (\<lambda>p v. atomic_write (pat p) steps p (enc v)) enc"
proof -
  have "strict_writer_axioms (\<lambda>p v. atomic_write (pat p) steps p (enc v))"
  proof (unfold_locales, goal_cases)
    case (1 p v w w')
    then show ?case by (rule atomic_write_cases [OF st]) (auto simp: touches_only_def)
  qed
  with atomic_write_writer [OF st] show ?thesis by (simp add: strict_writer_def)
qed

section \<open>Creating the directory first\<close>

definition after_mkdir :: "(path \<Rightarrow> 'v \<Rightarrow> world \<Rightarrow> bool \<times> world) \<Rightarrow> path \<Rightarrow> 'v \<Rightarrow> world \<Rightarrow> bool \<times> world" where
  "after_mkdir put_file p v w =
     (case os_plain w of (False, w1) \<Rightarrow> (False, w1) | (True, w1) \<Rightarrow> put_file p v w1)"

lemma after_mkdir_cases:
  assumes "after_mkdir put_file p v w = (ok, w')"
  obtains (failed) "\<not> ok" "disk w' = disk w" "snaps w' = snaps w"
  | (written) w1 where "disk w1 = disk w" "snaps w1 = snaps w" "put_file p v w1 = (ok, w')"
proof -
  obtain ok1 w1 where w1: "os_plain w = (ok1, w1)" by fastforce
  note f = os_plain_frame [OF w1]
  show thesis
  proof (cases ok1)
    case True
    then show thesis using written assms w1 f by (auto simp: after_mkdir_def)
  next
    case False
    then show thesis using failed assms w1 f by (auto simp: after_mkdir_def)
  qed
qed

lemma after_mkdir_writer:
  assumes "atomic_writer put_file enc" shows "atomic_writer (after_mkdir put_file) enc"
proof (rule atomic_writer.intro, goal_cases)
  case (1 p v w w')
  then show ?case
    by (cases rule: after_mkdir_cases) (use atomic_writer.write_ok [OF assms] in auto)
next
  case (2 p v w ok w')
  then show ?case
    by (cases rule: after_mkdir_cases) (use atomic_writer.write_any [OF assms, of p v] in \<open>fastforce+\<close>)
next
  case (3 p v w ok w' q)
  from 3(1) show ?case
  proof (cases rule: after_mkdir_cases)
    case (written w1)
    then show ?thesis using atomic_writer.write_frame [OF assms written(3) 3(2)] by simp
  qed simp
next
  case (4 p v w ok w')
  then show ?case
  proof (cases rule: after_mkdir_cases)
    case (written w1)
    then show ?thesis using atomic_writer.write_snaps [OF assms written(3)] by simp
  qed simp
next
  case (5 w p v)
  then show ?case using atomic_writer.write_calm [OF assms] by (simp add: after_mkdir_def)
next
  case (6 p v w ok w')
  from 6(1) show ?case
  proof (cases rule: after_mkdir_cases)
    case (written w1)
    then show ?thesis using atomic_writer.write_wf [OF assms written(3)] 6(2) by simp
  qed (use 6(2) in simp)
qed

lemma after_mkdir_strict:
  assumes "strict_writer put_file enc" shows "strict_writer (after_mkdir put_file) enc"
proof -
  have w: "atomic_writer put_file enc" using assms by (simp add: strict_writer_def)
  have "strict_writer_axioms (after_mkdir put_file)"
  proof (rule strict_writer_axioms.intro, goal_cases)
    case (1 p v w w')
    then show ?case
      by (cases rule: after_mkdir_cases) (use strict_writer.write_fail [OF assms] in auto)
  qed
  with after_mkdir_writer [OF w] show ?thesis by (simp add: strict_writer_def)
qed

section \<open>JSON status files\<close>

text \<open>internal/statusfile/statusfile.go: every service publishes its status documents through this.\<close>

definition statusfile_WriteJSON :: "path \<Rightarrow> jvalue \<Rightarrow> world \<Rightarrow> bool \<times> world" where
  "statusfile_WriteJSON =
     after_mkdir (\<lambda>p v. atomic_write (''.'' @ path_base p @ ''-'')
       [SChmod, SWrite, SSync, SClose, SRename] p (Json v))"

interpretation sf: strict_writer statusfile_WriteJSON Json
  unfolding statusfile_WriteJSON_def
  by (rule after_mkdir_strict, rule atomic_write_strict [where pre = "[SChmod, SWrite, SSync, SClose]"])
    (simp add: rename_steps_def)

end
