(* ===== verification/ZoneStore.thy ===== *)
theory ZoneStore
  imports ZoneRecords Disk
begin

text \<open>
  The zone store of internal/zones/store.go: zone files, the role manifest, the history of prior
  versions, the audit log, and the operations \<open>Get\<close>, \<open>List\<close>, \<open>Apply\<close>, \<open>Rollback\<close>, \<open>Create\<close>, \<open>Delete\<close>
  and \<open>Revisions\<close>.  Each operation takes the store's configuration and the world and returns its
  result with the new world.  The store's mutex makes each operation one step.

  A zone file that is not text (a JSON document) is rejected as unparsable.  SHA-256 in
  hexadecimal, the \<open>Verifier\<close> interface and the DNS library are parameters held by the store's
  configuration; the clock reading for the serial and the one for the audit record are fields.
\<close>

section \<open>Configuration and data\<close>

record verifier =
  v_serial :: "string \<Rightarrow> uint32 \<Rightarrow> disk_t \<Rightarrow> string option"
  v_absence :: "string \<Rightarrow> disk_t \<Rightarrow> string option"
  v_notify :: "string \<Rightarrow> disk_t \<Rightarrow> string option"

record store =
  s_dir :: path
  s_history :: path
  s_audit :: path
  s_verifier :: "verifier option"
  s_dns :: dnslib
  s_sha :: "bytes \<Rightarrow> string"
  s_now :: gotime
  s_audit_now :: gotime

record Zone =
  z_name :: string
  z_role :: string
  z_serial :: uint32
  z_revision :: string
  z_rrsets :: "RRset list"
  z_rrs :: "rr list"
  z_content :: bytes

record ChangeRequest =
  cr_expected :: string
  cr_dry_run :: bool
  cr_changes :: "Change list"

record RollbackRequest =
  rb_expected :: string
  rb_target :: string
  rb_dry_run :: bool

record LifecycleRequest =
  lr_role :: string
  lr_zone_text :: string
  lr_expected :: string
  lr_dry_run :: bool

record ChangeResult =
  cres_zone :: string
  cres_rollback_to :: string
  cres_dry_run :: bool
  cres_previous_revision :: string
  cres_revision :: string
  cres_previous_serial :: uint32
  cres_serial :: uint32
  cres_changes :: "Change list"
  cres_published :: bool
  cres_request_id :: string
  cres_warning :: string

record LifecycleResult =
  lres_action :: string
  lres_zone :: string
  lres_role :: string
  lres_revision :: string
  lres_serial :: uint32
  lres_dry_run :: bool
  lres_published :: bool
  lres_request_id :: string
  lres_warning :: string

record Revision =
  rev_revision :: string
  rev_serial :: uint32
  rev_records :: nat
  rev_saved_at :: gotime

text \<open>Go returns a zero result beside an error.\<close>

definition no_change_result :: ChangeResult where
  "no_change_result =
     \<lparr>cres_zone = [], cres_rollback_to = [], cres_dry_run = False, cres_previous_revision = [],
      cres_revision = [], cres_previous_serial = 0, cres_serial = 0, cres_changes = [],
      cres_published = False, cres_request_id = [], cres_warning = []\<rparr>"

definition no_lifecycle_result :: LifecycleResult where
  "no_lifecycle_result =
     \<lparr>lres_action = [], lres_zone = [], lres_role = [], lres_revision = [], lres_serial = 0,
      lres_dry_run = False, lres_published = False, lres_request_id = [], lres_warning = []\<rparr>"

type_synonym ('a) outcome = "('a \<times> zerr option) \<times> world"

definition NewStore :: "path \<Rightarrow> path \<Rightarrow> verifier option \<Rightarrow> dnslib \<Rightarrow> (bytes \<Rightarrow> string) \<Rightarrow> gotime \<Rightarrow> gotime \<Rightarrow> store" where
  "NewStore dir auditPath v D sha now later =
     \<lparr>s_dir = dir, s_history = path_join (path_dir dir) ''history'', s_audit = auditPath,
      s_verifier = v, s_dns = D, s_sha = sha, s_now = now, s_audit_now = later\<rparr>"

section \<open>Files\<close>

definition zones_writeAtomic :: "path \<Rightarrow> fdata \<Rightarrow> world \<Rightarrow> bool \<times> world" where
  "zones_writeAtomic p content w =
     atomic_write ''.rilldns-''
       [SChmod, SBuffer, SWrite, SSync, SClose, SRename, SOpenDir, SSyncDir, SCloseDir] p content w"

definition revision :: "store \<Rightarrow> bytes \<Rightarrow> string" where
  "revision st content = s_sha st content"

definition pathFor :: "store \<Rightarrow> string \<Rightarrow> zerr + (path \<times> string)" where
  "pathFor st name =
     (let canonical = canonicalName (s_dns st) name; trimmed = trim_suffix canonical ''.''
      in if trimmed = [] \<or> contains_any trimmed [CHR ''/'', CHR 0x5C]
         then Inl (ErrInvalidChange ''invalid zone name'')
         else if \<not> is_domain_name (s_dns st) canonical
         then Inl (ErrInvalidChange ''invalid zone name'')
         else Inr (path_join (s_dir st) (trimmed @ ''.zone''), canonical))"

text \<open>The loop of \<open>loadPath\<close> that looks for the SOA: the origin (empty while none was seen) and the
  serial.\<close>

fun find_soa :: "dnslib \<Rightarrow> rr list \<Rightarrow> string \<Rightarrow> uint32 \<Rightarrow> zerr + (string \<times> uint32)" where
  "find_soa D [] origin serial = Inr (origin, serial)"
| "find_soa D (r # rs) origin serial =
     (case soa_serial r of
        None \<Rightarrow> find_soa D rs origin serial
      | Some n \<Rightarrow> if origin \<noteq> [] then Inl (ErrInvalidChange ''multiple SOA records'')
                  else find_soa D rs (canonicalName D (rname r)) n)"

definition zone_of_text :: "store \<Rightarrow> bytes \<Rightarrow> zerr + Zone" where
  "zone_of_text st content =
     (case parse_zone (s_dns st) [] content of
        Inl e \<Rightarrow> Inl (ErrParse e)
      | Inr rrs \<Rightarrow>
          (case find_soa (s_dns st) rrs [] 0 of
             Inl e \<Rightarrow> Inl e
           | Inr (origin, serial) \<Rightarrow>
               if origin = [] then Inl (ErrInvalidChange ''missing SOA'')
               else case validate (s_dns st) origin rrs of
                 Some e \<Rightarrow> Inl e
               | None \<Rightarrow> Inr \<lparr>z_name = origin, z_role = [], z_serial = serial,
                              z_revision = revision st content,
                              z_rrsets = groupRRsets (s_dns st) rrs, z_rrs = rrs,
                              z_content = content\<rparr>))"

definition loadPath :: "store \<Rightarrow> path \<Rightarrow> world \<Rightarrow> (zerr + Zone) \<times> world" where
  "loadPath st p w =
     (case os_read_file p w of
        (Inl NotExist, w1) \<Rightarrow> (Inl ErrNotExist, w1)
      | (Inl IOFault, w1) \<Rightarrow> (Inl (ErrIO ''read zone''), w1)
      | (Inr (Text content), w1) \<Rightarrow> (zone_of_text st content, w1)
      | (Inr (Json _), w1) \<Rightarrow> (Inl (ErrParse ''not a zone file''), w1)
      | (Inr (Lines _), w1) \<Rightarrow> (Inl (ErrParse ''not a zone file''), w1))"

section \<open>Roles\<close>

definition validRole :: "string \<Rightarrow> zerr + string" where
  "validRole role0 =
     (let r = to_lower (trim_space role0); role = (if r = [] then ''primary'' else r)
      in if role \<noteq> ''primary'' \<and> role \<noteq> ''secondary''
         then Inl (ErrInvalidChange ''role must be primary or secondary'') else Inr role)"

definition roleFor :: "(string, string) gomap \<Rightarrow> string \<Rightarrow> string" where
  "roleFor roles zone =
     (let role = gomap_get [] roles zone in if role \<noteq> [] then role else ''secondary'')"

definition roles_path :: "store \<Rightarrow> path" where
  "roles_path st = path_join (s_dir st) ''.roles.json''"

definition enc_roles :: "(string, string) gomap \<Rightarrow> jvalue" where
  "enc_roles roles = JObj [(''roles'', JObj (map (\<lambda>(k, v). (k, JStr v)) (sort_key fst roles)))]"

fun dec_strings :: "(string \<times> jvalue) list \<Rightarrow> (string, string) gomap \<Rightarrow> (string, string) gomap option" where
  "dec_strings [] m = Some m"
| "dec_strings ((k, JStr s) # kvs) m = dec_strings kvs (AList.update k s m)"
| "dec_strings ((k, JNull) # kvs) m = dec_strings kvs (AList.update k [] m)"
| "dec_strings (_ # kvs) m = None"

definition dec_roles :: "jvalue \<Rightarrow> (string, string) gomap option" where
  "dec_roles j =
     (case j of
        JNull \<Rightarrow> Some []
      | JObj fs \<Rightarrow> (case map_of fs ''roles'' of
                     None \<Rightarrow> Some [] | Some JNull \<Rightarrow> Some []
                   | Some (JObj kvs) \<Rightarrow> dec_strings kvs [] | Some _ \<Rightarrow> None)
      | _ \<Rightarrow> None)"

definition loadRoles :: "store \<Rightarrow> world \<Rightarrow> (zerr + (string, string) gomap) \<times> world" where
  "loadRoles st w =
     (case os_read_file (roles_path st) w of
        (Inl NotExist, w1) \<Rightarrow> (Inr [], w1)
      | (Inl IOFault, w1) \<Rightarrow> (Inl (ErrIO ''read roles''), w1)
      | (Inr (Json j), w1) \<Rightarrow> (case dec_roles j of None \<Rightarrow> (Inl (ErrParse ''parse zone role manifest''), w1)
                                | Some m \<Rightarrow> (Inr m, w1))
      | (Inr _, w1) \<Rightarrow> (Inl (ErrParse ''parse zone role manifest''), w1))"

definition saveRoles :: "store \<Rightarrow> (string, string) gomap \<Rightarrow> world \<Rightarrow> bool \<times> world" where
  "saveRoles st roles w = zones_writeAtomic (roles_path st) (Json (enc_roles roles)) w"

section \<open>Reading\<close>

definition zoneGet :: "store \<Rightarrow> string \<Rightarrow> world \<Rightarrow> (zerr + Zone) \<times> world" where
  "zoneGet st name w =
     (case pathFor st name of
        Inl e \<Rightarrow> (Inl e, w)
      | Inr (p, canonical) \<Rightarrow>
          (case loadPath st p w of
             (Inl ErrNotExist, w1) \<Rightarrow> (Inl ErrNotFound, w1)
           | (Inl e, w1) \<Rightarrow> (Inl e, w1)
           | (Inr zone, w1) \<Rightarrow>
               if z_name zone \<noteq> canonical
               then (Inl (ErrInvalidChange ''file origin does not match requested zone''), w1)
               else (case loadRoles st w1 of
                       (Inl e, w2) \<Rightarrow> (Inl e, w2)
                     | (Inr roles, w2) \<Rightarrow> (Inr (zone\<lparr>z_role := roleFor roles (z_name zone)\<rparr>), w2))))"

fun list_loop :: "store \<Rightarrow> (string, string) gomap \<Rightarrow> string list \<Rightarrow> world \<Rightarrow> (zerr + Zone list) \<times> world" where
  "list_loop st roles [] w = (Inr [], w)"
| "list_loop st roles (n # ns) w =
     (if \<not> has_suffix n ''.zone'' then list_loop st roles ns w
      else case loadPath st (path_join (s_dir st) n) w of
        (Inl e, w1) \<Rightarrow> (Inl e, w1)
      | (Inr zone, w1) \<Rightarrow>
          (case list_loop st roles ns w1 of
             (Inl e, w2) \<Rightarrow> (Inl e, w2)
           | (Inr zs, w2) \<Rightarrow>
               (Inr (zone\<lparr>z_rrsets := [], z_role := roleFor roles (z_name zone), z_rrs := [], z_content := []\<rparr> # zs), w2)))"

definition zoneList :: "store \<Rightarrow> world \<Rightarrow> (zerr + Zone list) \<times> world" where
  "zoneList st w =
     (case loadRoles st w of
        (Inl e, w1) \<Rightarrow> (Inl e, w1)
      | (Inr roles, w1) \<Rightarrow>
          (case os_read_dir (s_dir st) w1 of
             (Inl e, w2) \<Rightarrow> (Inl (ErrIO ''read zone directory''), w2)
           | (Inr names, w2) \<Rightarrow>
               (case list_loop st roles names w2 of
                  (Inl e, w3) \<Rightarrow> (Inl e, w3)
                | (Inr zs, w3) \<Rightarrow> (Inr (sort_key z_name zs), w3))))"

section \<open>History and audit\<close>

definition hist_dir :: "store \<Rightarrow> string \<Rightarrow> path" where
  "hist_dir st zone = path_join (s_history st) (trim_suffix zone ''.'')"

definition hist_path :: "store \<Rightarrow> string \<Rightarrow> string \<Rightarrow> path" where
  "hist_path st zone rv = path_join (hist_dir st zone) (rv @ ''.zone'')"

definition saveHistory :: "store \<Rightarrow> Zone \<Rightarrow> world \<Rightarrow> bool \<times> world" where
  "saveHistory st zone w =
     (case os_plain w of
        (False, w1) \<Rightarrow> (False, w1)
      | (True, w1) \<Rightarrow>
          (let p = hist_path st (z_name zone) (z_revision zone)
           in case os_stat p w1 of
                (None, w2) \<Rightarrow> (True, w2)
              | (Some IOFault, w2) \<Rightarrow> (False, w2)
              | (Some NotExist, w2) \<Rightarrow> zones_writeAtomic p (Text (z_content zone)) w2))"

record auditEvent =
  au_timestamp :: gotime
  au_actor :: string
  au_request_id :: string
  au_zone :: string
  au_previous_revision :: string
  au_revision :: string
  au_previous_serial :: uint32
  au_serial :: uint32
  au_changes :: "Change list"
  au_rollback_to :: string

definition enc_change :: "Change \<Rightarrow> jvalue" where
  "enc_change c =
     JObj ([(''action'', JStr (ch_action c)), (''name'', JStr (ch_name c)), (''type'', JStr (ch_type c))] @
           (if ch_ttl c = 0 then [] else [(''ttl'', JNum (uint (ch_ttl c)))]) @
           (if ch_records c = [] then [] else [(''records'', JArr (map JStr (ch_records c)))]))"

definition enc_audit :: "auditEvent \<Rightarrow> jvalue" where
  "enc_audit e =
     JObj ([(''timestamp'', JTime (au_timestamp e)), (''actor'', JStr (au_actor e)),
            (''request_id'', JStr (au_request_id e)), (''zone'', JStr (au_zone e)),
            (''previous_revision'', JStr (au_previous_revision e)), (''revision'', JStr (au_revision e)),
            (''previous_serial'', JNum (uint (au_previous_serial e))), (''serial'', JNum (uint (au_serial e))),
            (''changes'', JArr (map enc_change (au_changes e)))] @
           (if au_rollback_to e = [] then [] else [(''rollback_to'', JStr (au_rollback_to e))]))"

definition appendAudit :: "store \<Rightarrow> auditEvent \<Rightarrow> world \<Rightarrow> bool \<times> world" where
  "appendAudit st e w = (if s_audit st = [] then (True, w) else append_line (s_audit st) (enc_audit e) w)"

section \<open>Changing a zone\<close>

definition zone_path :: "store \<Rightarrow> string \<Rightarrow> path" where
  "zone_path st name = (case pathFor st name of Inl _ \<Rightarrow> [] | Inr (p, _) \<Rightarrow> p)"

text \<open>The verifier's calls, none of which does anything when the store has no verifier.\<close>

definition wait_for_serial :: "store \<Rightarrow> string \<Rightarrow> uint32 \<Rightarrow> world \<Rightarrow> string option" where
  "wait_for_serial st zone serial w =
     (case s_verifier st of None \<Rightarrow> None | Some v \<Rightarrow> v_serial v zone serial (disk w))"

definition wait_for_absence :: "store \<Rightarrow> string \<Rightarrow> world \<Rightarrow> string option" where
  "wait_for_absence st zone w =
     (case s_verifier st of None \<Rightarrow> None | Some v \<Rightarrow> v_absence v zone (disk w))"

definition notify_warning :: "store \<Rightarrow> string \<Rightarrow> world \<Rightarrow> string" where
  "notify_warning st zone w =
     (case s_verifier st of
        None \<Rightarrow> []
      | Some v \<Rightarrow> (case v_notify v zone (disk w) of None \<Rightarrow> [] | Some e \<Rightarrow> ''secondary NOTIFY failed: '' @ e))"

definition commit_result :: "store \<Rightarrow> Zone \<Rightarrow> bytes \<Rightarrow> uint32 \<Rightarrow> Change list \<Rightarrow> bool \<Rightarrow> string \<Rightarrow> string \<Rightarrow> ChangeResult" where
  "commit_result st current content serial changes dryRun rollbackTo requestID =
     \<lparr>cres_zone = z_name current, cres_rollback_to = rollbackTo, cres_dry_run = dryRun,
      cres_previous_revision = z_revision current, cres_revision = revision st content,
      cres_previous_serial = z_serial current, cres_serial = serial, cres_changes = changes,
      cres_published = False, cres_request_id = requestID, cres_warning = []\<rparr>"

definition commit_event :: "store \<Rightarrow> ChangeResult \<Rightarrow> string \<Rightarrow> auditEvent" where
  "commit_event st result actor =
     \<lparr>au_timestamp = s_audit_now st, au_actor = actor, au_request_id = cres_request_id result,
      au_zone = cres_zone result, au_previous_revision = cres_previous_revision result,
      au_revision = cres_revision result, au_previous_serial = cres_previous_serial result,
      au_serial = cres_serial result, au_changes = cres_changes result,
      au_rollback_to = cres_rollback_to result\<rparr>"

text \<open>The second half of \<open>commit\<close>: the zone file is in place and CoreDNS has to pick it up.\<close>

definition await_publication ::
    "store \<Rightarrow> Zone \<Rightarrow> path \<Rightarrow> ChangeResult \<Rightarrow> string \<Rightarrow> world \<Rightarrow> ChangeResult outcome" where
  "await_publication st current p result actor w =
     (case wait_for_serial st (z_name current) (cres_serial result) w of
        Some e \<Rightarrow>
          (case zones_writeAtomic p (Text (z_content current)) w of
             (False, w1) \<Rightarrow> ((no_change_result, Some (ErrNotPublished ''rollback failed'')), w1)
           | (True, w1) \<Rightarrow> ((no_change_result, Some (ErrNotPublished ''prior zone restored'')), w1))
      | None \<Rightarrow>
          (let result' = result\<lparr>cres_published := True,
                                cres_warning := notify_warning st (z_name current) w\<rparr>
           in case appendAudit st (commit_event st result actor) w of
                (False, w1) \<Rightarrow> ((result', Some (ErrIO ''zone published but audit append failed'')), w1)
              | (True, w1) \<Rightarrow> ((result', None), w1)))"

definition commit ::
    "store \<Rightarrow> Zone \<Rightarrow> rr list \<Rightarrow> Change list \<Rightarrow> bool \<Rightarrow> string \<Rightarrow> string \<Rightarrow> string \<Rightarrow> world \<Rightarrow> ChangeResult outcome" where
  "commit st current rrs changes dryRun rollbackTo actor requestID w =
     (case nextSerial (z_serial current) (s_now st) of
        Inl e \<Rightarrow> ((no_change_result, Some e), w)
      | Inr serial \<Rightarrow>
          (let content = render (s_dns st) (z_name current) (setSOASerial rrs serial);
               result = commit_result st current content serial changes dryRun rollbackTo requestID
           in if dryRun then ((result, None), w)
              else case saveHistory st current w of
                (False, w1) \<Rightarrow> ((no_change_result, Some (ErrIO ''save history'')), w1)
              | (True, w1) \<Rightarrow>
                  (case zones_writeAtomic (zone_path st (z_name current)) (Text content) w1 of
                     (False, w2) \<Rightarrow> ((no_change_result, Some (ErrIO ''write zone'')), w2)
                   | (True, w2) \<Rightarrow>
                       await_publication st current (zone_path st (z_name current)) result actor w2)))"

text \<open>The guards \<open>Apply\<close> and \<open>Rollback\<close> share: a primary zone at the revision the caller expects.\<close>

definition current_for_change :: "store \<Rightarrow> string \<Rightarrow> string \<Rightarrow> world \<Rightarrow> (zerr + Zone) \<times> world" where
  "current_for_change st name expected w =
     (case zoneGet st name w of
        (Inl e, w1) \<Rightarrow> (Inl e, w1)
      | (Inr current, w1) \<Rightarrow>
          if z_role current \<noteq> ''primary'' then (Inl ErrReadOnlyZone, w1)
          else if expected = [] \<or> expected \<noteq> z_revision current then (Inl ErrRevisionMismatch, w1)
          else (Inr current, w1))"

definition zoneApply :: "store \<Rightarrow> string \<Rightarrow> ChangeRequest \<Rightarrow> string \<Rightarrow> string \<Rightarrow> world \<Rightarrow> ChangeResult outcome" where
  "zoneApply st name request actor requestID w =
     (case current_for_change st name (cr_expected request) w of
        (Inl e, w1) \<Rightarrow> ((no_change_result, Some e), w1)
      | (Inr current, w1) \<Rightarrow>
          if cr_changes request = []
          then ((no_change_result, Some (ErrInvalidChange ''at least one change is required'')), w1)
          else case applyChanges (s_dns st) (z_rrs current) (z_name current) (cr_changes request) of
            Inl e \<Rightarrow> ((no_change_result, Some e), w1)
          | Inr rrs \<Rightarrow>
              (case validate (s_dns st) (z_name current) rrs of
                 Some e \<Rightarrow> ((no_change_result, Some e), w1)
               | None \<Rightarrow> commit st current rrs (cr_changes request) (cr_dry_run request) [] actor requestID w1))"

definition load_target :: "store \<Rightarrow> Zone \<Rightarrow> string \<Rightarrow> world \<Rightarrow> (zerr + Zone) \<times> world" where
  "load_target st current target w =
     (if \<not> validRevision target
      then (Inl (ErrInvalidChange ''target_revision must be a revision listed in the zone history''), w)
      else if target = z_revision current
      then (Inl (ErrInvalidChange ''target_revision is already the current revision''), w)
      else case loadPath st (hist_path st (z_name current) target) w of
        (Inl ErrNotExist, w1) \<Rightarrow> (Inl ErrNotFound, w1)
      | (Inl e, w1) \<Rightarrow> (Inl e, w1)
      | (Inr z, w1) \<Rightarrow>
          if z_name z \<noteq> z_name current
          then (Inl (ErrInvalidChange ''history revision origin does not match zone''), w1)
          else if revision st (z_content z) \<noteq> target
          then (Inl (ErrInvalidChange ''history file has been modified''), w1)
          else (Inr z, w1))"

definition zoneRollback :: "store \<Rightarrow> string \<Rightarrow> RollbackRequest \<Rightarrow> string \<Rightarrow> string \<Rightarrow> world \<Rightarrow> ChangeResult outcome" where
  "zoneRollback st name request actor requestID w =
     (case current_for_change st name (rb_expected request) w of
        (Inl e, w1) \<Rightarrow> ((no_change_result, Some e), w1)
      | (Inr current, w1) \<Rightarrow>
          (case load_target st current (rb_target request) w1 of
             (Inl e, w2) \<Rightarrow> ((no_change_result, Some e), w2)
           | (Inr target, w2) \<Rightarrow>
               commit st current (z_rrs target) (diffRRsets (z_rrsets current) (z_rrsets target))
                 (rb_dry_run request) (rb_target request) actor requestID w2))"

section \<open>Creating and deleting zones\<close>

text \<open>The last SOA serial seen, as the loop of \<open>parseZoneText\<close> leaves it.\<close>

definition last_serial :: "rr list \<Rightarrow> uint32" where
  "last_serial rrs = fold (\<lambda>r n. case soa_serial r of Some s \<Rightarrow> s | None \<Rightarrow> n) rrs 0"

definition parseZoneText :: "store \<Rightarrow> string \<Rightarrow> string \<Rightarrow> zerr + (Zone \<times> bytes)" where
  "parseZoneText st input expected =
     (case parse_zone (s_dns st) expected input of
        Inl e \<Rightarrow> Inl (ErrInvalidChange (''parse zone: '' @ e))
      | Inr records \<Rightarrow>
          (case validate (s_dns st) expected records of
             Some e \<Rightarrow> Inl e
           | None \<Rightarrow>
               let content = render (s_dns st) expected records
               in Inr (\<lparr>z_name = expected, z_role = [], z_serial = last_serial records,
                        z_revision = revision st content, z_rrsets = [], z_rrs = records,
                        z_content = content\<rparr>, content)))"

definition lifecycle_event :: "store \<Rightarrow> string \<Rightarrow> string \<Rightarrow> string \<Rightarrow> string \<Rightarrow> string \<Rightarrow> uint32 \<Rightarrow> uint32 \<Rightarrow> auditEvent" where
  "lifecycle_event st actor requestID zone prev new prevSerial serial =
     \<lparr>au_timestamp = s_audit_now st, au_actor = actor, au_request_id = requestID, au_zone = zone,
      au_previous_revision = prev, au_revision = new, au_previous_serial = prevSerial,
      au_serial = serial, au_changes = [], au_rollback_to = []\<rparr>"

text \<open>\<open>Create\<close> after its checks: write the zone, classify it, wait for CoreDNS.\<close>

definition install_zone ::
    "store \<Rightarrow> path \<Rightarrow> Zone \<Rightarrow> (string, string) gomap \<Rightarrow> LifecycleResult \<Rightarrow> string \<Rightarrow> world \<Rightarrow> LifecycleResult outcome" where
  "install_zone st p zone roles result actor w =
     (case zones_writeAtomic p (Text (z_content zone)) w of
        (False, w1) \<Rightarrow> ((no_lifecycle_result, Some (ErrIO ''write zone'')), w1)
      | (True, w1) \<Rightarrow>
          (let roles1 = AList.update (z_name zone) (lres_role result) roles
           in case saveRoles st roles1 w1 of
                (False, w2) \<Rightarrow> ((no_lifecycle_result, Some (ErrIO ''save roles'')), remove_quietly p w2)
              | (True, w2) \<Rightarrow>
                  (case wait_for_serial st (z_name zone) (z_serial zone) w2 of
                     Some e \<Rightarrow>
                       ((no_lifecycle_result, Some (ErrNotPublished ''files restored'')),
                        snd (saveRoles st (AList.delete (z_name zone) roles1) (remove_quietly p w2)))
                   | None \<Rightarrow>
                       ((result\<lparr>lres_published := True, lres_warning := notify_warning st (z_name zone) w2\<rparr>, None),
                        snd (appendAudit st (lifecycle_event st actor (lres_request_id result) (z_name zone) []
                               (lres_revision result) 0 (lres_serial result)) w2)))))"

definition zoneCreate :: "store \<Rightarrow> string \<Rightarrow> LifecycleRequest \<Rightarrow> string \<Rightarrow> string \<Rightarrow> world \<Rightarrow> LifecycleResult outcome" where
  "zoneCreate st name request actor requestID w =
     (case pathFor st name of
        Inl e \<Rightarrow> ((no_lifecycle_result, Some e), w)
      | Inr (p, canonical) \<Rightarrow>
          (case os_stat p w of
             (None, w1) \<Rightarrow> ((no_lifecycle_result, Some ErrAlreadyExists), w1)
           | (Some IOFault, w1) \<Rightarrow> ((no_lifecycle_result, Some (ErrIO ''stat zone'')), w1)
           | (Some NotExist, w1) \<Rightarrow>
               (case validRole (lr_role request) of
                  Inl e \<Rightarrow> ((no_lifecycle_result, Some e), w1)
                | Inr role \<Rightarrow>
                    if trim_space (lr_zone_text request) = []
                    then ((no_lifecycle_result, Some (ErrInvalidChange ''zone_text is required'')), w1)
                    else case parseZoneText st (lr_zone_text request) canonical of
                      Inl e \<Rightarrow> ((no_lifecycle_result, Some e), w1)
                    | Inr (zone, content) \<Rightarrow>
                        let result = \<lparr>lres_action = ''create'', lres_zone = canonical, lres_role = role,
                                      lres_revision = revision st content, lres_serial = z_serial zone,
                                      lres_dry_run = lr_dry_run request, lres_published = False,
                                      lres_request_id = requestID, lres_warning = []\<rparr>
                        in if lr_dry_run request then ((result, None), w1)
                           else case loadRoles st w1 of
                             (Inl e, w2) \<Rightarrow> ((no_lifecycle_result, Some e), w2)
                           | (Inr roles, w2) \<Rightarrow> install_zone st p zone roles result actor w2)))"

text \<open>\<open>Delete\<close> after the zone file is gone: unclassify the zone, wait until CoreDNS drops it.\<close>

definition retire_zone ::
    "store \<Rightarrow> path \<Rightarrow> Zone \<Rightarrow> (string, string) gomap \<Rightarrow> LifecycleResult \<Rightarrow> string \<Rightarrow> world \<Rightarrow> LifecycleResult outcome" where
  "retire_zone st p current roles result actor w =
     (let roles1 = AList.delete (z_name current) roles
      in case saveRoles st roles1 w of
           (False, w1) \<Rightarrow>
             ((no_lifecycle_result, Some (ErrIO ''save roles'')),
              snd (zones_writeAtomic p (Text (z_content current)) w1))
         | (True, w1) \<Rightarrow>
             (case wait_for_absence st (z_name current) w1 of
                Some e \<Rightarrow>
                  ((no_lifecycle_result, Some (ErrNotPublished ''files restored'')),
                   snd (saveRoles st (AList.update (z_name current) (z_role current) roles1)
                          (snd (zones_writeAtomic p (Text (z_content current)) w1))))
              | None \<Rightarrow>
                  ((result\<lparr>lres_published := True, lres_warning := notify_warning st (z_name current) w1\<rparr>, None),
                   snd (appendAudit st (lifecycle_event st actor (lres_request_id result) (z_name current)
                          (z_revision current) [] (z_serial current) 0) w1))))"

definition zoneDelete :: "store \<Rightarrow> string \<Rightarrow> LifecycleRequest \<Rightarrow> string \<Rightarrow> string \<Rightarrow> world \<Rightarrow> LifecycleResult outcome" where
  "zoneDelete st name request actor requestID w =
     (case zoneGet st name w of
        (Inl e, w1) \<Rightarrow> ((no_lifecycle_result, Some e), w1)
      | (Inr current, w1) \<Rightarrow>
          if lr_expected request = [] \<or> lr_expected request \<noteq> z_revision current
          then ((no_lifecycle_result, Some ErrRevisionMismatch), w1)
          else let result = \<lparr>lres_action = ''delete'', lres_zone = z_name current, lres_role = z_role current,
                             lres_revision = z_revision current, lres_serial = z_serial current,
                             lres_dry_run = lr_dry_run request, lres_published = False,
                             lres_request_id = requestID, lres_warning = []\<rparr>
            in if lr_dry_run request then ((result, None), w1)
               else case saveHistory st current w1 of
                 (False, w2) \<Rightarrow> ((no_lifecycle_result, Some (ErrIO ''save history'')), w2)
               | (True, w2) \<Rightarrow>
                   (case os_remove (zone_path st (z_name current)) w2 of
                      (Some e, w3) \<Rightarrow> ((no_lifecycle_result, Some (ErrIO ''remove zone'')), w3)
                    | (None, w3) \<Rightarrow>
                        (case loadRoles st w3 of
                           (Inl e, w4) \<Rightarrow> ((no_lifecycle_result, Some e), w4)
                         | (Inr roles, w4) \<Rightarrow>
                             retire_zone st (zone_path st (z_name current)) current roles result actor w4)))"

section \<open>Listing retained revisions\<close>

text \<open>The loop over a history directory.  A file's modification time is the argument \<open>mtime\<close>; a
  file that does not load is left out, and a failing \<open>Info\<close> ends the listing.\<close>

fun revisions_loop :: "store \<Rightarrow> path \<Rightarrow> (path \<Rightarrow> gotime) \<Rightarrow> string list \<Rightarrow> world \<Rightarrow> (zerr + Revision list) \<times> world" where
  "revisions_loop st d mtime [] w = (Inr [], w)"
| "revisions_loop st d mtime (n # ns) w =
     (let i = trim_suffix n ''.zone''
      in if \<not> has_suffix n ''.zone'' \<or> \<not> validRevision i then revisions_loop st d mtime ns w
         else case os_plain w of
           (False, w1) \<Rightarrow> (Inl (ErrIO ''stat history file''), w1)
         | (True, w1) \<Rightarrow>
             (case loadPath st (path_join d n) w1 of
                (Inl e, w2) \<Rightarrow> revisions_loop st d mtime ns w2
              | (Inr zone, w2) \<Rightarrow>
                  (case revisions_loop st d mtime ns w2 of
                     (Inl e, w3) \<Rightarrow> (Inl e, w3)
                   | (Inr rs, w3) \<Rightarrow>
                       (Inr (\<lparr>rev_revision = i, rev_serial = z_serial zone, rev_records = length (z_rrs zone),
                             rev_saved_at = mtime (path_join d n)\<rparr> # rs), w3))))"

definition zoneRevisions :: "store \<Rightarrow> (path \<Rightarrow> gotime) \<Rightarrow> string \<Rightarrow> world \<Rightarrow> (zerr + Revision list) \<times> world" where
  "zoneRevisions st mtime name w =
     (case zoneGet st name w of
        (Inl e, w1) \<Rightarrow> (Inl e, w1)
      | (Inr current, w1) \<Rightarrow>
          (case os_read_dir (hist_dir st (z_name current)) w1 of
             (Inl NotExist, w2) \<Rightarrow> (Inr [], w2)
           | (Inl IOFault, w2) \<Rightarrow> (Inl (ErrIO ''read history''), w2)
           | (Inr names, w2) \<Rightarrow>
               (case revisions_loop st (hist_dir st (z_name current)) mtime names w2 of
                  (Inl e, w3) \<Rightarrow> (Inl e, w3)
                | (Inr rs, w3) \<Rightarrow>
                    (Inr (sort_key (\<lambda>r. (- rev_saved_at r, - int (unat (rev_serial r)))) rs), w3))))"

end
