(* ===== verification/Contracts.thy ===== *)
theory Contracts
  imports Prelude
begin

text \<open>
  Contracts that several components share and that do not mention the file system: optimistic
  concurrency by revisions, and a buffer that keeps the last entries written to it.
\<close>

section \<open>Compare and swap on revisions\<close>

text \<open>
  A store whose writers name the revision they started from: a writer whose revision is not the
  current one is refused and changes nothing.  \<open>put_at k e c s\<close> tries to replace what is kept
  under \<open>k\<close>, expecting revision \<open>e\<close>, and says whether it did.
\<close>

locale revisioned =
  fixes current_rev :: "'s \<Rightarrow> 'k \<Rightarrow> string option"
    and put_at :: "'k \<Rightarrow> string \<Rightarrow> 'c \<Rightarrow> 's \<Rightarrow> bool \<times> 's"
  assumes stale: "current_rev s k \<noteq> Some e \<Longrightarrow>
      \<not> fst (put_at k e c s) \<and> current_rev (snd (put_at k e c s)) k = current_rev s k"
begin

fun put_all :: "'k \<Rightarrow> string \<Rightarrow> 'c list \<Rightarrow> 's \<Rightarrow> bool list" where
  "put_all k e [] s = []"
| "put_all k e (c # cs) s = fst (put_at k e c s) # put_all k e cs (snd (put_at k e c s))"

lemma put_guard: "fst (put_at k e c s) \<Longrightarrow> current_rev s k = Some e"
  using stale by blast

lemma all_stale: "current_rev s k \<noteq> Some e \<Longrightarrow> True \<notin> set (put_all k e cs s)"
proof (induction cs arbitrary: s)
  case (Cons c cs)
  then show ?case using stale [OF Cons.prems, of c] by simp
qed simp

text \<open>Of any number of writers that start from the same revision at most one succeeds, provided a
  success changes the revision.\<close>

lemma at_most_one:
  assumes fresh: "\<And>c s. fst (put_at k e c s) \<Longrightarrow> current_rev (snd (put_at k e c s)) k \<noteq> Some e"
  shows "length (filter (\<lambda>b. b) (put_all k e cs s)) \<le> 1"
proof (induction cs arbitrary: s)
  case (Cons c cs)
  show ?case
  proof (cases "fst (put_at k e c s)")
    case True
    then have "True \<notin> set (put_all k e cs (snd (put_at k e c s)))" by (intro all_stale fresh)
    then have "filter (\<lambda>b. b) (put_all k e cs (snd (put_at k e c s))) = []" by (auto simp: filter_empty_conv)
    then show ?thesis by simp
  next
    case False
    then show ?thesis using Cons.IH by simp
  qed
qed simp

end

section \<open>Keeping the last entries\<close>

definition lastn :: "nat \<Rightarrow> 'a list \<Rightarrow> 'a list" where
  "lastn n xs = drop (length xs - n) xs"

lemma length_lastn [simp]: "length (lastn n xs) = min n (length xs)"
  by (simp add: lastn_def)

lemma lastn_all: "length xs \<le> n \<Longrightarrow> lastn n xs = xs"
  by (simp add: lastn_def)

lemma lastn_append: "lastn n (lastn n xs @ ys) = lastn n (xs @ ys)"
proof (cases "length xs \<le> n")
  case False
  have "drop (length xs - n) xs @ ys = drop (length xs - n) (xs @ ys)" by simp
  then have "lastn n (lastn n xs @ ys) = lastn n (drop (length xs - n) (xs @ ys))" by (simp only: lastn_def)
  also have "\<dots> = lastn n (xs @ ys)" using False by (simp add: lastn_def add.commute)
  finally show ?thesis .
qed (simp add: lastn_all)

text \<open>\<open>view\<close> lists the entries of a buffer, oldest first; \<open>ok\<close> is its representation invariant.\<close>

locale ring_buffer =
  fixes push :: "'e \<Rightarrow> 's \<Rightarrow> 's" and view :: "'s \<Rightarrow> 'e list" and ok :: "'s \<Rightarrow> bool" and cap :: nat
  assumes ok_push: "ok s \<Longrightarrow> ok (push e s)"
    and view_push: "ok s \<Longrightarrow> view (push e s) = lastn cap (view s @ [e])"
    and view_cap: "ok s \<Longrightarrow> length (view s) \<le> cap"
begin

lemma ok_fold: "ok s \<Longrightarrow> ok (fold push es s)"
  by (induction es arbitrary: s) (simp_all add: ok_push)

lemma view_fold: "ok s \<Longrightarrow> view (fold push es s) = lastn cap (view s @ es)"
proof (induction es arbitrary: s)
  case Nil
  then show ?case by (simp add: view_cap lastn_all)
next
  case (Cons e es)
  then show ?case using lastn_append [of cap "view s @ [e]" es] by (simp add: ok_push view_push)
qed

end

text \<open>The representation shared by the buffers of the program: a list that grows to its capacity
  and then is overwritten from index \<open>next\<close> on, wrapping around.\<close>

lemma ring_overwrite:
  assumes "next < length xs"
  shows "drop (Suc next) (xs[next := e]) @ take (Suc next) (xs[next := e]) = tl (drop next xs @ take next xs) @ [e]"
  using assms by (simp add: take_Suc_conv_app_nth drop_Suc [symmetric] Cons_nth_drop_Suc [symmetric])

lemma lastn_full: "length v = n \<Longrightarrow> 0 < n \<Longrightarrow> lastn n (v @ [e]) = tl v @ [e]"
  by (cases v) (simp_all add: lastn_def)

lemma ring_push:
  assumes "next < length xs" "n = length xs"
  shows "(let xs' = xs[next := e]; next' = Suc next mod n in drop next' xs' @ take next' xs')
    = lastn n ((drop next xs @ take next xs) @ [e])"
proof -
  have "lastn n ((drop next xs @ take next xs) @ [e]) = tl (drop next xs @ take next xs) @ [e]"
    using assms by (intro lastn_full) auto
  also have "\<dots> = drop (Suc next) (xs[next := e]) @ take (Suc next) (xs[next := e])"
    using ring_overwrite [OF assms(1), of e] by simp
  also have "\<dots> = (let xs' = xs[next := e]; next' = Suc next mod n in drop next' xs' @ take next' xs')"
    using assms by (cases "Suc next = n") (simp_all add: Let_def)
  finally show ?thesis by simp
qed

end
