(* ===== verification/ZoneProofs.thy ===== *)
theory ZoneProofs
  imports ZoneStore Contracts
begin

text \<open>
  Proofs about the zone store of ZoneStore: where its files lie and that they do not overlap, what
  reading does, what \<open>commit\<close>, \<open>Apply\<close>, \<open>Rollback\<close>, \<open>Create\<close> and \<open>Delete\<close> leave on disk, and the
  invariant that holds at every instant of any sequence of operations under any system call
  failures: history files are never rewritten, carry the hash they are named after, and a zone file
  is always complete.
\<close>

section \<open>The writer\<close>

lemma zones_steps: "rename_steps
  [SChmod, SBuffer, SWrite, SSync, SClose, SRename, SOpenDir, SSyncDir, SCloseDir]
  [SChmod, SBuffer, SWrite, SSync, SClose] [SOpenDir, SSyncDir, SCloseDir]"
  by (simp add: rename_steps_def)

interpretation zw: atomic_writer zones_writeAtomic "\<lambda>f. f"
proof -
  have "zones_writeAtomic = (\<lambda>p v. atomic_write ''.rilldns-''
      [SChmod, SBuffer, SWrite, SSync, SClose, SRename, SOpenDir, SSyncDir, SCloseDir] p v)"
    by (simp add: fun_eq_iff zones_writeAtomic_def)
  then show "atomic_writer zones_writeAtomic (\<lambda>f. f)"
    using atomic_write_writer [OF zones_steps, of "\<lambda>_. ''.rilldns-''" "\<lambda>f. f"] by simp
qed

section \<open>Where the files are\<close>

text \<open>No zone's history directory is the zone directory, and the audit log is neither a zone file
  nor the role manifest.\<close>

definition store_layout :: "store \<Rightarrow> bool" where
  "store_layout st \<longleftrightarrow> (\<forall>z. hist_dir st z \<noteq> s_dir st) \<and>
     \<not> suffix ''.zone'' (s_audit st) \<and> s_audit st \<noteq> roles_path st"

definition sha_law :: "store \<Rightarrow> bool" where
  "sha_law st \<longleftrightarrow> (\<forall>c. validRevision (s_sha st c))"

definition good_store :: "store \<Rightarrow> bool" where
  "good_store st \<longleftrightarrow> store_layout st \<and> sha_law st \<and> fqdn_law (s_dns st)"

lemma path_dir_join: "CHR ''/'' \<notin> set n \<Longrightarrow> path_dir (path_join d n) = d"
proof -
  assume n: "CHR ''/'' \<notin> set n"
  have "dropWhile (\<lambda>c. c \<noteq> CHR ''/'') (rev n @ CHR ''/'' # rev d) = CHR ''/'' # rev d"
    using n by (subst dropWhile_append2) auto
  then show ?thesis by (simp add: path_dir_def path_join_def)
qed

lemma path_base_join: "CHR ''/'' \<notin> set n \<Longrightarrow> path_base (path_join d n) = n"
proof -
  assume n: "CHR ''/'' \<notin> set n"
  have "takeWhile (\<lambda>c. c \<noteq> CHR ''/'') (rev n @ CHR ''/'' # rev d) = rev n"
    using n by (subst takeWhile_append2) auto
  then show ?thesis by (simp add: path_base_def path_join_def)
qed

lemma path_split: "CHR ''/'' \<in> set p \<Longrightarrow> path_join (path_dir p) (path_base p) = p"
proof -
  assume s: "CHR ''/'' \<in> set p"
  let ?Q = "\<lambda>c. c \<noteq> CHR ''/''"
  have ne: "dropWhile ?Q (rev p) \<noteq> []" using s by (auto simp: dropWhile_eq_Nil_conv)
  then have h: "hd (dropWhile ?Q (rev p)) = CHR ''/''" using hd_dropWhile [OF ne] by simp
  have "rev p = takeWhile ?Q (rev p) @ CHR ''/'' # tl (dropWhile ?Q (rev p))"
    using takeWhile_dropWhile_id [of ?Q "rev p"] ne h by (metis list.collapse)
  then have "rev (rev p) = rev (tl (dropWhile ?Q (rev p))) @ [CHR ''/''] @ rev (takeWhile ?Q (rev p))"
    by (metis append.assoc append_Cons append_Nil rev.simps(2) rev_append)
  then show ?thesis using s by (simp add: path_join_def path_dir_def path_base_def)
qed

lemma path_base_no_slash: "CHR ''/'' \<notin> set (path_base p)"
  by (auto simp: path_base_def dest: set_takeWhileD)

text \<open>A store made by \<open>NewStore\<close> on a directory given by a path keeps its files apart.\<close>

lemma NewStore_layout:
  assumes "CHR ''/'' \<in> set dir" "\<not> suffix ''.zone'' audit" "audit \<noteq> path_join dir ''.roles.json''"
  shows "store_layout (NewStore dir audit v D sha now later)"
proof -
  have "path_dir dir @ ''/history/'' @ t \<noteq> dir" for t
  proof
    assume "path_dir dir @ ''/history/'' @ t = dir"
    then have "path_join (path_dir dir) (''history/'' @ t) = path_join (path_dir dir) (path_base dir)"
      using path_split [OF assms(1)] by (simp add: path_join_def)
    then have "path_base dir = ''history/'' @ t" by (simp add: path_join_def)
    then have "CHR ''/'' \<in> set (path_base dir)" by simp
    with path_base_no_slash show False by blast
  qed
  with assms show ?thesis
    by (simp add: store_layout_def NewStore_def hist_dir_def roles_path_def path_join_def)
qed

lemma validRevision_slash: "validRevision rv \<Longrightarrow> CHR ''/'' \<notin> set (rv @ ''.zone'')"
  by (auto simp: validRevision_def list_all_iff is_hex_def)

lemma hist_path_dir: "validRevision rv \<Longrightarrow> path_dir (hist_path st z rv) = hist_dir st z"
  unfolding hist_path_def by (rule path_dir_join) (rule validRevision_slash)

lemma hist_path_base: "validRevision rv \<Longrightarrow> path_base (hist_path st z rv) = rv @ ''.zone''"
  unfolding hist_path_def by (rule path_base_join) (rule validRevision_slash)

lemma hist_path_inj:
  "validRevision rv \<Longrightarrow> validRevision rv' \<Longrightarrow> hist_path st z rv = hist_path st z' rv' \<Longrightarrow> rv = rv'"
  using hist_path_base by (metis append_same_eq)

lemma pathFor_Inr:
  assumes "pathFor st n = Inr (p, c)"
  shows "c = canonicalName (s_dns st) n" "p = path_join (s_dir st) (trim_suffix c ''.'' @ ''.zone'')"
    "CHR ''/'' \<notin> set (trim_suffix c ''.'' @ ''.zone'')"
  using assms by (auto simp: pathFor_def Let_def contains_any_def list_ex_iff split: if_splits)

lemma pathFor_dir: "pathFor st n = Inr (p, c) \<Longrightarrow> path_dir p = s_dir st"
  using pathFor_Inr(2,3) path_dir_join by metis

lemma pathFor_canonical:
  assumes "fqdn_law (s_dns st)" "pathFor st n = Inr (p, c)"
  shows "pathFor st c = Inr (p, c)"
proof -
  from assms have "canonicalName (s_dns st) c = c" using pathFor_Inr(1) norm_rules by metis
  with assms pathFor_Inr(1) [OF assms(2)] show ?thesis by (simp add: pathFor_def)
qed

lemma zone_path_canonical: "fqdn_law (s_dns st) \<Longrightarrow> pathFor st n = Inr (p, c) \<Longrightarrow> zone_path st c = p"
  by (simp add: zone_path_def pathFor_canonical)

lemma pathFor_inj:
  assumes law: "fqdn_law (s_dns st)" and a: "pathFor st n = Inr (p, c)" and b: "pathFor st n' = Inr (p, c')"
  shows "c = c'"
proof -
  have "trim_suffix c ''.'' = trim_suffix c' ''.''"
    using pathFor_Inr(2) [OF a] pathFor_Inr(2) [OF b] by (simp add: path_join_def)
  moreover have "suffix ''.'' c" "suffix ''.'' c'"
    using canonicalName_dot [OF law] pathFor_Inr(1) [OF a] pathFor_Inr(1) [OF b] by simp_all
  then have "trim_suffix c ''.'' @ ''.'' = c" "trim_suffix c' ''.'' @ ''.'' = c'"
    by (auto simp: suffix_def)
  ultimately show ?thesis by metis
qed

lemma zone_hist_apart:
  "store_layout st \<Longrightarrow> pathFor st n = Inr (p, c) \<Longrightarrow> validRevision rv \<Longrightarrow> p \<noteq> hist_path st z rv"
  using pathFor_dir hist_path_dir unfolding store_layout_def by metis

lemma suffix_not_ends_digit: "suffix ''e'' p \<Longrightarrow> \<not> ends_digit p"
  by (auto simp: ends_digit_def suffix_def is_digit_def)

lemma zone_suffixes:
  "pathFor st n = Inr (p, c) \<Longrightarrow> suffix ''.zone'' p" "suffix ''.zone'' (hist_path st z rv)"
proof -
  assume "pathFor st n = Inr (p, c)"
  from pathFor_Inr(2) [OF this] have "p = (s_dir st @ ''/'' @ trim_suffix c ''.'') @ ''.zone''"
    by (simp add: path_join_def)
  then show "suffix ''.zone'' p" unfolding suffix_def by blast
next
  have "hist_path st z rv = (hist_dir st z @ ''/'' @ rv) @ ''.zone''" by (simp add: hist_path_def path_join_def)
  then show "suffix ''.zone'' (hist_path st z rv)" unfolding suffix_def by blast
qed

lemma zone_not_digit: "suffix ''.zone'' p \<Longrightarrow> \<not> ends_digit p"
  by (rule suffix_not_ends_digit) (auto simp: suffix_def)

lemma roles_not_zone: "\<not> suffix ''.zone'' (roles_path st)"
proof
  assume "suffix ''.zone'' (roles_path st)"
  then have "last (roles_path st) = CHR ''e''" by (auto simp: suffix_def)
  then show False by (simp add: roles_path_def path_join_def)
qed

lemma roles_not_digit: "\<not> ends_digit (roles_path st)"
  by (simp add: ends_digit_def roles_path_def path_join_def is_digit_def)

section \<open>Reading changes nothing\<close>

lemma loadPath_frame: "loadPath st p w = (r, w') \<Longrightarrow> disk w' = disk w \<and> snaps w' = snaps w"
  by (auto simp: loadPath_def split: prod.splits sum.splits ioerr.splits fdata.splits dest: os_read_file_frame)

lemma loadRoles_frame: "loadRoles st w = (r, w') \<Longrightarrow> disk w' = disk w \<and> snaps w' = snaps w"
  by (auto simp: loadRoles_def split: prod.splits sum.splits ioerr.splits fdata.splits option.splits
      dest: os_read_file_frame)

lemma zoneGet_frame: "zoneGet st n w = (r, w') \<Longrightarrow> disk w' = disk w \<and> snaps w' = snaps w"
  by (auto simp: zoneGet_def split: prod.splits sum.splits zerr.splits if_splits
      dest!: loadPath_frame loadRoles_frame)

lemma loadPath_Inr:
  assumes "loadPath st p w = (Inr z, w')"
  obtains c where "flookup w p = Some (Text c)" "zone_of_text st c = Inr z"
  using assms by (auto simp: loadPath_def split: prod.splits sum.splits ioerr.splits fdata.splits
      dest!: os_read_file_Inr)

text \<open>What a zone value says about the text it was read from.\<close>

lemma zone_of_text_Inr:
  assumes "zone_of_text st c = Inr z"
  shows "z_content z = c" "z_revision z = s_sha st c" "parse_zone (s_dns st) [] c = Inr (z_rrs z)"
    "zone_valid (s_dns st) (z_name z) (z_rrs z)" "z_rrsets z = groupRRsets (s_dns st) (z_rrs z)"
    "find_soa (s_dns st) (z_rrs z) [] 0 = Inr (z_name z, z_serial z)"
  using assms by (auto simp: zone_of_text_def revision_def validate_iff [symmetric]
      split: sum.splits prod.splits if_splits option.splits)

lemma zoneGet_Inr:
  assumes "zoneGet st n w = (Inr z, w')"
  obtains p z0 where "pathFor st n = Inr (p, z_name z)" "flookup w p = Some (Text (z_content z))"
    "zone_of_text st (z_content z) = Inr z0" "z = z0\<lparr>z_role := z_role z\<rparr>"
proof -
  from assms obtain p z0 w1 where p: "pathFor st n = Inr (p, z_name z0)"
    and l: "loadPath st p w = (Inr z0, w1)" and z: "\<exists>r. z = z0\<lparr>z_role := r\<rparr>"
    by (auto simp: zoneGet_def split: prod.splits sum.splits zerr.splits if_splits)
  from l obtain c where c: "flookup w p = Some (Text c)" "zone_of_text st c = Inr z0"
    by (rule loadPath_Inr)
  have "z_content z0 = c" using zone_of_text_Inr(1) [OF c(2)] .
  with p c z that [of p z0] show thesis by auto
qed

section \<open>The invariant\<close>

text \<open>A zone text the store may publish: the rendering of a valid record list, with the serial of
  its SOA possibly replaced.\<close>

definition published_text :: "store \<Rightarrow> string \<Rightarrow> bytes \<Rightarrow> bool" where
  "published_text st z c \<longleftrightarrow>
     (\<exists>rrs. zone_valid (s_dns st) z rrs \<and>
        (c = render (s_dns st) z rrs \<or> (\<exists>n. c = render (s_dns st) z (setSOASerial rrs n))))"

definition history_kept :: "store \<Rightarrow> disk_t \<Rightarrow> disk_t \<Rightarrow> bool" where
  "history_kept st d0 d \<longleftrightarrow>
     (\<forall>z rv f. validRevision rv \<longrightarrow> map_of d0 (hist_path st z rv) = Some f \<longrightarrow>
        map_of d (hist_path st z rv) = Some f)"

definition history_true :: "store \<Rightarrow> disk_t \<Rightarrow> disk_t \<Rightarrow> bool" where
  "history_true st d0 d \<longleftrightarrow>
     (\<forall>z rv f. validRevision rv \<longrightarrow> map_of d (hist_path st z rv) = Some f \<longrightarrow>
        map_of d0 (hist_path st z rv) = Some f \<or> (\<exists>c. f = Text c \<and> s_sha st c = rv))"

definition zones_true :: "store \<Rightarrow> disk_t \<Rightarrow> disk_t \<Rightarrow> bool" where
  "zones_true st d0 d \<longleftrightarrow>
     (\<forall>n p z f. pathFor st n = Inr (p, z) \<longrightarrow> map_of d p = Some f \<longrightarrow>
        map_of d0 p = Some f \<or> (\<exists>c. f = Text c \<and> published_text st z c))"

definition store_inv :: "store \<Rightarrow> disk_t \<Rightarrow> disk_t \<Rightarrow> bool" where
  "store_inv st d0 d \<longleftrightarrow> history_kept st d0 d \<and> history_true st d0 d \<and> zones_true st d0 d"

lemma store_invI:
  assumes inv: "store_inv st d0 d"
    and hist: "\<And>z rv. validRevision rv \<Longrightarrow> map_of d' (hist_path st z rv) = map_of d (hist_path st z rv) \<or>
      (map_of d (hist_path st z rv) = None \<and> (\<exists>c. map_of d' (hist_path st z rv) = Some (Text c) \<and> s_sha st c = rv))"
    and zone: "\<And>n p z f. pathFor st n = Inr (p, z) \<Longrightarrow> map_of d' p = Some f \<Longrightarrow>
      map_of d p = Some f \<or> map_of d0 p = Some f \<or> (\<exists>c. f = Text c \<and> published_text st z c)"
  shows "store_inv st d0 d'"
  unfolding store_inv_def
proof (intro conjI)
  show "history_kept st d0 d'" unfolding history_kept_def
  proof (intro allI impI)
    fix z rv f assume "validRevision rv" "map_of d0 (hist_path st z rv) = Some f"
    then show "map_of d' (hist_path st z rv) = Some f"
      using inv hist [of rv z] by (simp add: store_inv_def history_kept_def)
  qed
  show "history_true st d0 d'" unfolding history_true_def
  proof (intro allI impI)
    fix z rv f assume a: "validRevision rv" "map_of d' (hist_path st z rv) = Some f"
    from hist [OF a(1), of z] show "map_of d0 (hist_path st z rv) = Some f \<or> (\<exists>c. f = Text c \<and> s_sha st c = rv)"
    proof
      assume "map_of d' (hist_path st z rv) = map_of d (hist_path st z rv)"
      with a have "map_of d (hist_path st z rv) = Some f" by simp
      with a(1) inv show ?thesis unfolding store_inv_def history_true_def by blast
    qed (use a in auto)
  qed
  show "zones_true st d0 d'" unfolding zones_true_def
  proof (intro allI impI)
    fix n p z f assume a: "pathFor st n = Inr (p, z)" "map_of d' p = Some f"
    from zone [OF this] show "map_of d0 p = Some f \<or> (\<exists>c. f = Text c \<and> published_text st z c)"
    proof
      assume "map_of d p = Some f"
      with a(1) inv show ?thesis unfolding store_inv_def zones_true_def by blast
    qed
  qed
qed

lemma store_inv_refl: "store_inv st d d"
  by (simp add: store_inv_def history_kept_def history_true_def zones_true_def)

text \<open>The invariant speaks about \<open>.zone\<close> files only.\<close>

lemma store_inv_cong:
  assumes "store_inv st d0 d" "\<And>q. suffix ''.zone'' q \<Longrightarrow> map_of d' q = map_of d q"
  shows "store_inv st d0 d'"
proof (rule store_invI [OF assms(1)])
  fix n p z f assume "pathFor st n = Inr (p, z)" "map_of d' p = Some f"
  then show "map_of d p = Some f \<or> map_of d0 p = Some f \<or> (\<exists>c. f = Text c \<and> published_text st z c)"
    using assms(2) [of p] zone_suffixes(1) [of st n p z] by simp
qed (simp add: assms(2) zone_suffixes(2))

text \<open>The zone and history files the store may write in a given world.\<close>

definition may_write :: "store \<Rightarrow> disk_t \<Rightarrow> path \<Rightarrow> fdata \<Rightarrow> world \<Rightarrow> bool" where
  "may_write st d0 p f w \<longleftrightarrow>
     (\<exists>z c. p = hist_path st z (s_sha st c) \<and> f = Text c \<and> flookup w p = None) \<or>
     (\<exists>n z. pathFor st n = Inr (p, z) \<and> (map_of d0 p = Some f \<or> (\<exists>c. f = Text c \<and> published_text st z c)))"

lemma near_zone: "near p f w d \<Longrightarrow> q \<noteq> p \<Longrightarrow> suffix ''.zone'' q \<Longrightarrow> map_of d q = flookup w q"
  using zone_not_digit by (auto simp: near_def)

lemma near_hist:
  assumes g: "good_store st" and inv: "store_inv st d0 (disk w)"
    and p: "p = hist_path st z0 (s_sha st c)" and none: "flookup w p = None" and n: "near p (Text c) w d"
  shows "store_inv st d0 d"
proof (rule store_invI [OF inv])
  have sha: "validRevision (s_sha st c)" and lay: "store_layout st"
    using g by (auto simp: good_store_def sha_law_def)
  {
    fix z rv assume rv: "validRevision rv"
    show "map_of d (hist_path st z rv) = flookup w (hist_path st z rv) \<or>
      (flookup w (hist_path st z rv) = None \<and> (\<exists>c. map_of d (hist_path st z rv) = Some (Text c) \<and> s_sha st c = rv))"
    proof (cases "hist_path st z rv = p")
      case True
      then have "rv = s_sha st c" using hist_path_inj [OF rv sha] p by simp
      with True n none show ?thesis by (auto simp: near_def)
    next
      case False
      then show ?thesis using near_zone [OF n False zone_suffixes(2)] by simp
    qed
  next
    fix m q z f assume q: "pathFor st m = Inr (q, z)" and "map_of d q = Some f"
    moreover have "map_of d q = flookup w q"
      using near_zone [OF n _ zone_suffixes(1) [OF q]] zone_hist_apart [OF lay q sha] p by simp
    ultimately show "flookup w q = Some f \<or> map_of d0 q = Some f \<or> (\<exists>c. f = Text c \<and> published_text st z c)"
      by simp
  }
qed

lemma near_pathFor:
  assumes g: "good_store st" and inv: "store_inv st d0 (disk w)" and p: "pathFor st n = Inr (p, z)"
    and f: "map_of d0 p = Some f \<or> (\<exists>c. f = Text c \<and> published_text st z c)" and near: "near p f w d"
  shows "store_inv st d0 d"
proof (rule store_invI [OF inv])
  have lay: "store_layout st" and law: "fqdn_law (s_dns st)" using g by (auto simp: good_store_def)
  {
    fix y rv assume rv: "validRevision rv"
    have "hist_path st y rv \<noteq> p" using zone_hist_apart [OF lay p rv, of y] by simp
    from near_zone [OF near this zone_suffixes(2)]
    show "map_of d (hist_path st y rv) = flookup w (hist_path st y rv) \<or>
      (flookup w (hist_path st y rv) = None \<and> (\<exists>c. map_of d (hist_path st y rv) = Some (Text c) \<and> s_sha st c = rv))"
      by simp
  next
    fix m q y g assume q: "pathFor st m = Inr (q, y)" and dq: "map_of d q = Some g"
    show "flookup w q = Some g \<or> map_of d0 q = Some g \<or> (\<exists>c. g = Text c \<and> published_text st y c)"
    proof (cases "q = p")
      case False
      then show ?thesis using near_zone [OF near False zone_suffixes(1) [OF q]] dq by simp
    next
      case True
      then have "y = z" using pathFor_inj [OF law q] p by simp
      with True f near dq show ?thesis by (auto simp: near_def)
    qed
  }
qed

lemma write_inv:
  assumes g: "good_store st" and inv: "store_inv st d0 (disk w)" and m: "may_write st d0 p f w"
    and wr: "zones_writeAtomic p f w = (ok, w')"
  shows "within (store_inv st d0) w w'"
proof (rule zw.write_within [OF wr])
  fix d assume n: "near p f w d"
  from m consider z c where "p = hist_path st z (s_sha st c)" "f = Text c" "flookup w p = None"
    | n z where "pathFor st n = Inr (p, z)" "map_of d0 p = Some f \<or> (\<exists>c. f = Text c \<and> published_text st z c)"
    unfolding may_write_def by blast
  then show "store_inv st d0 d"
  proof cases
    case 1
    with near_hist [OF g inv] n show ?thesis by blast
  next
    case 2
    with near_pathFor [OF g inv] n show ?thesis by blast
  qed
qed

lemma within_frame: "store_inv st d0 (disk w) \<Longrightarrow> disk w' = disk w \<and> snaps w' = snaps w \<Longrightarrow>
    within (store_inv st d0) w w'"
  by (simp add: within_refl)

lemma saveRoles_inv:
  "store_inv st d0 (disk w) \<Longrightarrow> saveRoles st roles w = (ok, w') \<Longrightarrow> within (store_inv st d0) w w'"
  unfolding saveRoles_def
proof (erule zw.write_within)
  fix d assume "store_inv st d0 (disk w)" "near (roles_path st) (Json (enc_roles roles)) w d"
  then show "store_inv st d0 d"
    using roles_not_zone [of st] by (intro store_inv_cong [of st d0 "disk w" d]) (auto intro!: near_zone)
qed

lemma appendAudit_inv:
  assumes "store_layout st" "store_inv st d0 (disk w)" "appendAudit st e w = (ok, w')"
  shows "within (store_inv st d0) w w'"
proof (cases "s_audit st = []")
  case True
  then show ?thesis using assms by (simp add: appendAudit_def within_refl)
next
  case False
  then have "append_line (s_audit st) (enc_audit e) w = (ok, w')" using assms by (simp add: appendAudit_def)
  then show ?thesis
  proof (rule append_line_within)
    fix d assume "\<forall>q. q \<noteq> s_audit st \<longrightarrow> map_of d q = flookup w q"
    then show "store_inv st d0 d"
      using assms(1) by (intro store_inv_cong [OF assms(2)]) (auto simp: store_layout_def)
  qed
qed

lemma remove_inv:
  assumes g: "good_store st" and inv: "store_inv st d0 (disk w)" and p: "pathFor st n = Inr (p, z)"
    and rm: "os_remove p w = (r, w')"
  shows "within (store_inv st d0) w w'"
proof (rule os_remove_within [of p w r w' "store_inv st d0", OF rm inv])
  have lay: "store_layout st" using g by (auto simp: good_store_def)
  show "store_inv st d0 (AList.delete p (disk w))"
  proof (rule store_invI [OF inv])
    fix y rv assume "validRevision rv"
    then have "hist_path st y rv \<noteq> p" using zone_hist_apart [OF lay p, of rv y] by simp
    then show "map_of (AList.delete p (disk w)) (hist_path st y rv) = flookup w (hist_path st y rv) \<or>
      (flookup w (hist_path st y rv) = None \<and>
       (\<exists>c. map_of (AList.delete p (disk w)) (hist_path st y rv) = Some (Text c) \<and> s_sha st c = rv))"
      by (simp add: delete_conv')
  qed (simp add: delete_conv' split: if_splits)
qed

section \<open>Every operation keeps the invariant at every instant\<close>

text \<open>A zone value that was read from its file, and the file's place.\<close>

definition loaded :: "store \<Rightarrow> disk_t \<Rightarrow> Zone \<Rightarrow> path \<Rightarrow> bool" where
  "loaded st d z p \<longleftrightarrow>
     pathFor st (z_name z) = Inr (p, z_name z) \<and> zone_path st (z_name z) = p \<and>
     map_of d p = Some (Text (z_content z)) \<and> z_revision z = s_sha st (z_content z) \<and>
     zone_valid (s_dns st) (z_name z) (z_rrs z)"

lemma zoneGet_loaded:
  assumes law: "fqdn_law (s_dns st)" and get: "zoneGet st n w = (Inr z, w')"
  obtains p where "pathFor st n = Inr (p, z_name z)" "loaded st (disk w) z p"
proof -
  from get obtain p z0 where p: "pathFor st n = Inr (p, z_name z)" and c: "flookup w p = Some (Text (z_content z))"
    and t: "zone_of_text st (z_content z) = Inr z0" and z: "z = z0\<lparr>z_role := z_role z\<rparr>"
    by (rule zoneGet_Inr)
  have "z_revision z = z_revision z0" "z_rrs z = z_rrs z0" "z_name z = z_name z0" by (subst z, simp)+
  with zone_of_text_Inr [OF t] p c pathFor_canonical [OF law p] zone_path_canonical [OF law p]
  have "loaded st (disk w) z p" by (simp add: loaded_def)
  with p that show thesis by blast
qed

lemma loaded_source:
  assumes "store_inv st d0 d" "loaded st d z p"
  shows "map_of d0 p = Some (Text (z_content z)) \<or> published_text st (z_name z) (z_content z)"
proof -
  from assms have "pathFor st (z_name z) = Inr (p, z_name z)" "map_of d p = Some (Text (z_content z))"
    by (simp_all add: loaded_def)
  with assms(1) have "map_of d0 p = Some (Text (z_content z)) \<or>
      (\<exists>c. Text (z_content z) = Text c \<and> published_text st (z_name z) c)"
    unfolding store_inv_def zones_true_def by blast
  then show ?thesis by simp
qed

text \<open>Writing back the content a zone was loaded with.\<close>

lemma restore_inv:
  assumes g: "good_store st" and inv: "store_inv st d0 (disk w)"
    and src: "map_of d0 p = Some (Text c) \<or> published_text st z c"
    and p: "pathFor st z = Inr (p, z)" and wr: "zones_writeAtomic p (Text c) w = (ok, w')"
  shows "within (store_inv st d0) w w'"
proof (rule write_inv [OF g inv _ wr])
  show "may_write st d0 p (Text c) w"
    unfolding may_write_def by (rule disjI2, intro exI conjI, rule p) (use src in auto)
qed

lemma saveHistory_inv:
  assumes g: "good_store st" and inv: "store_inv st d0 (disk w)" and z: "z_revision z = s_sha st (z_content z)"
    and sv: "saveHistory st z w = (ok, w')"
  shows "within (store_inv st d0) w w'"
proof -
  obtain ok1 w1 where w1: "os_plain w = (ok1, w1)" by fastforce
  let ?p = "hist_path st (z_name z) (z_revision z)"
  obtain r w2 where w2: "os_stat ?p w1 = (r, w2)" by fastforce
  have f1: "disk w1 = disk w" "snaps w1 = snaps w" using os_plain_frame [OF w1] by simp_all
  have f2: "disk w2 = disk w" "snaps w2 = snaps w" using os_stat_frame [OF w2] f1 by simp_all
  show ?thesis
  proof (cases "ok1 \<and> r = Some NotExist")
    case False
    then have "w' = w1 \<or> w' = w2"
      using sv w1 w2 by (auto simp: saveHistory_def Let_def split: bool.splits option.splits ioerr.splits)
    with inv f1 f2 show ?thesis by (auto intro: within_refl)
  next
    case True
    then have wr: "zones_writeAtomic ?p (Text (z_content z)) w2 = (ok, w')"
      using sv w1 w2 by (simp add: saveHistory_def Let_def)
    have "flookup w2 ?p = None"
      using w2 True f1 f2 by (auto simp: os_stat_def split: prod.splits sum.splits dest!: os_read_file_NotExist)
    then have "may_write st d0 ?p (Text (z_content z)) w2"
      unfolding may_write_def using z by (intro disjI1 exI [of _ "z_name z"] exI [of _ "z_content z"]) simp
    from write_inv [OF g _ this wr] inv f2 have "within (store_inv st d0) w2 w'" by simp
    then show ?thesis using f2 by (simp add: within_def)
  qed
qed

lemma saveHistory_keeps:
  assumes g: "good_store st" and z: "z_revision z = s_sha st (z_content z)"
    and p: "pathFor st n = Inr (p, c)" and sv: "saveHistory st z w = (ok, w')"
  shows "flookup w' p = flookup w p"
proof -
  have ne: "p \<noteq> hist_path st (z_name z) (z_revision z)"
    using g z by (intro zone_hist_apart [OF _ p]) (auto simp: good_store_def sha_law_def)
  show ?thesis
    using sv ne zone_not_digit [OF zone_suffixes(1) [OF p]]
    by (auto simp: saveHistory_def Let_def split: prod.splits bool.splits option.splits ioerr.splits
        dest!: os_plain_frame os_stat_frame zw.write_other [where q = p])
qed

text \<open>After \<open>saveHistory\<close> succeeds there is a file under the zone's revision.\<close>

lemma saveHistory_ok:
  assumes "saveHistory st z w = (True, w')"
  obtains f where "flookup w' (hist_path st (z_name z) (z_revision z)) = Some f"
proof -
  let ?p = "hist_path st (z_name z) (z_revision z)"
  from assms obtain w1 r w2 where w1: "os_plain w = (True, w1)" and w2: "os_stat ?p w1 = (r, w2)"
    and c: "(case r of None \<Rightarrow> (True, w2) | Some IOFault \<Rightarrow> (False, w2)
            | Some NotExist \<Rightarrow> zones_writeAtomic ?p (Text (z_content z)) w2) = (True, w')"
    by (auto simp: saveHistory_def Let_def split: prod.splits bool.splits)
  show thesis
  proof (cases r)
    case None
    then obtain f where "flookup w1 ?p = Some f" using os_stat_None w2 by blast
    then show thesis using that None c os_stat_frame [OF w2] by simp
  next
    case (Some e)
    with c have "zones_writeAtomic ?p (Text (z_content z)) w2 = (True, w')" by (cases e) auto
    from zw.write_ok [OF this] that show thesis by blast
  qed
qed

lemma await_inv:
  assumes g: "good_store st" and inv: "store_inv st d0 (disk w)"
    and p: "pathFor st (z_name cur) = Inr (p, z_name cur)"
    and src: "map_of d0 p = Some (Text (z_content cur)) \<or> published_text st (z_name cur) (z_content cur)"
    and run: "await_publication st cur p result actor w = (r, w')"
  shows "within (store_inv st d0) w w'"
proof (cases "wait_for_serial st (z_name cur) (cres_serial result) w")
  case None
  then have "\<exists>ok. appendAudit st (commit_event st result actor) w = (ok, w')"
    using run by (auto simp: await_publication_def Let_def split: prod.splits bool.splits)
  then show ?thesis using appendAudit_inv g inv by (auto simp: good_store_def)
next
  case (Some e)
  then have "\<exists>ok. zones_writeAtomic p (Text (z_content cur)) w = (ok, w')"
    using run by (auto simp: await_publication_def split: prod.splits bool.splits)
  then show ?thesis using restore_inv [OF g inv src p] by blast
qed

lemma commit_inv:
  assumes g: "good_store st" and inv: "store_inv st d0 (disk w)" and l: "loaded st (disk w) cur p"
    and v: "zone_valid (s_dns st) (z_name cur) rrs"
    and run: "commit st cur rrs changes dry to actor rid w = (r, w')"
  shows "within (store_inv st d0) w w'"
proof -
  note src = loaded_source [OF inv l]
  have p: "pathFor st (z_name cur) = Inr (p, z_name cur)" and zp: "zone_path st (z_name cur) = p"
    and rv: "z_revision cur = s_sha st (z_content cur)" using l by (auto simp: loaded_def)
  show ?thesis
  proof (cases "nextSerial (z_serial cur) (s_now st)")
    case (Inl e)
    then show ?thesis using run inv by (simp add: commit_def within_refl)
  next
    case (Inr serial)
    let ?c = "render (s_dns st) (z_name cur) (setSOASerial rrs serial)"
    let ?res = "commit_result st cur ?c serial changes dry to rid"
    obtain ok1 w1 where w1: "saveHistory st cur w = (ok1, w1)" by fastforce
    have i1: "within (store_inv st d0) w w1" by (rule saveHistory_inv [OF g inv rv w1])
    obtain ok2 w2 where w2: "zones_writeAtomic p (Text ?c) w1 = (ok2, w2)" by fastforce
    have pub: "published_text st (z_name cur) ?c" using v unfolding published_text_def by blast
    have i2: "within (store_inv st d0) w w2"
      using within_trans [OF i1 restore_inv [OF g within_final [OF i1] _ p w2]] pub by blast
    have "w' = w \<or> w' = w1 \<or> w' = w2 \<or> await_publication st cur p ?res actor w2 = (r, w')"
      using run Inr w1 w2 zp by (auto simp: commit_def Let_def split: if_splits bool.splits)
    then show ?thesis
    proof (elim disjE)
      assume "await_publication st cur p ?res actor w2 = (r, w')"
      from within_trans [OF i2 await_inv [OF g within_final [OF i2] p src this]] show ?thesis .
    qed (use i1 i2 inv in \<open>simp_all add: within_refl\<close>)
  qed
qed

lemma current_for_change_Inr:
  assumes "current_for_change st n e w = (Inr cur, w1)"
  shows "zoneGet st n w = (Inr cur, w1)" "z_role cur = ''primary''" "e = z_revision cur" "e \<noteq> []"
  using assms by (auto simp: current_for_change_def split: prod.splits sum.splits if_splits)

lemma current_for_change_frame:
  "current_for_change st n e w = (r, w1) \<Longrightarrow> disk w1 = disk w \<and> snaps w1 = snaps w"
  by (auto simp: current_for_change_def split: prod.splits sum.splits if_splits dest!: zoneGet_frame)

text \<open>An \<open>Apply\<close> either stops before touching the disk or reaches \<open>commit\<close> with a valid record
  list.\<close>

lemma zoneApply_cases:
  assumes law: "fqdn_law (s_dns st)" and run: "zoneApply st n req actor rid w = (r, w')"
  obtains (rejected) e where "r = (no_change_result, Some e)" "disk w' = disk w" "snaps w' = snaps w"
  | (committed) cur p w1 rrs where "zoneGet st n w = (Inr cur, w1)" "disk w1 = disk w" "snaps w1 = snaps w"
      "z_role cur = ''primary''" "cr_expected req = z_revision cur" "loaded st (disk w) cur p"
      "pathFor st n = Inr (p, z_name cur)"
      "applyChanges (s_dns st) (z_rrs cur) (z_name cur) (cr_changes req) = Inr rrs"
      "zone_valid (s_dns st) (z_name cur) rrs"
      "commit st cur rrs (cr_changes req) (cr_dry_run req) [] actor rid w1 = (r, w')"
proof -
  obtain c w1 where c: "current_for_change st n (cr_expected req) w = (c, w1)" by fastforce
  note f = current_for_change_frame [OF c]
  show thesis
  proof (cases c)
    case (Inl e)
    with run c have "r = (no_change_result, Some e)" "w' = w1" by (simp_all add: zoneApply_def)
    with rejected f show thesis by blast
  next
    case (Inr cur)
    note cur = current_for_change_Inr [OF c [unfolded Inr]]
    obtain p where p: "pathFor st n = Inr (p, z_name cur)" "loaded st (disk w) cur p"
      using zoneGet_loaded [OF law cur(1)] by blast
    let ?a = "applyChanges (s_dns st) (z_rrs cur) (z_name cur) (cr_changes req)"
    show thesis
    proof (cases "\<exists>rrs. cr_changes req \<noteq> [] \<and> ?a = Inr rrs \<and> validate (s_dns st) (z_name cur) rrs = None")
      case True
      then obtain rrs where rrs: "cr_changes req \<noteq> []" "?a = Inr rrs" "validate (s_dns st) (z_name cur) rrs = None"
        by blast
      then have "commit st cur rrs (cr_changes req) (cr_dry_run req) [] actor rid w1 = (r, w')"
        using run c Inr by (simp add: zoneApply_def)
      then show thesis using committed [OF cur(1) _ _ cur(2,3) p(2,1) rrs(2)] rrs(3) f
        by (simp add: validate_iff)
    next
      case False
      then have "\<exists>e. r = (no_change_result, Some e)" "w' = w1"
        using run c Inr by (auto simp: zoneApply_def split: if_splits sum.splits option.splits)
      with rejected f show thesis by blast
    qed
  qed
qed

lemma load_target_Inr:
  assumes "load_target st cur t w = (Inr z, w1)"
  shows "z_name z = z_name cur" "z_revision z = t" "zone_valid (s_dns st) (z_name cur) (z_rrs z)"
    "validRevision t" "flookup w (hist_path st (z_name cur) t) = Some (Text (z_content z))"
    "z_rrsets z = groupRRsets (s_dns st) (z_rrs z)" "disk w1 = disk w \<and> snaps w1 = snaps w"
proof -
  from assms have l: "loadPath st (hist_path st (z_name cur) t) w = (Inr z, w1)"
    and n: "z_name z = z_name cur" and v: "validRevision t" and rv: "s_sha st (z_content z) = t"
    by (auto simp: load_target_def revision_def split: if_splits prod.splits sum.splits zerr.splits)
  from l obtain c where c: "flookup w (hist_path st (z_name cur) t) = Some (Text c)" "zone_of_text st c = Inr z"
    by (rule loadPath_Inr)
  note t = zone_of_text_Inr [OF c(2)]
  show "z_name z = z_name cur" "z_revision z = t" "zone_valid (s_dns st) (z_name cur) (z_rrs z)"
    "validRevision t" "flookup w (hist_path st (z_name cur) t) = Some (Text (z_content z))"
    "z_rrsets z = groupRRsets (s_dns st) (z_rrs z)" "disk w1 = disk w \<and> snaps w1 = snaps w"
    using n v rv c t loadPath_frame [OF l] by simp_all
qed

lemma load_target_frame: "load_target st cur t w = (r, w1) \<Longrightarrow> disk w1 = disk w \<and> snaps w1 = snaps w"
  by (auto simp: load_target_def split: if_splits prod.splits sum.splits zerr.splits dest!: loadPath_frame)

lemma zoneRollback_cases:
  assumes law: "fqdn_law (s_dns st)" and run: "zoneRollback st n req actor rid w = (r, w')"
  obtains (rejected) e where "r = (no_change_result, Some e)" "disk w' = disk w" "snaps w' = snaps w"
  | (committed) cur p w1 target w2 where "zoneGet st n w = (Inr cur, w1)"
      "z_role cur = ''primary''" "rb_expected req = z_revision cur" "loaded st (disk w) cur p"
      "pathFor st n = Inr (p, z_name cur)"
      "load_target st cur (rb_target req) w1 = (Inr target, w2)" "disk w2 = disk w" "snaps w2 = snaps w"
      "commit st cur (z_rrs target) (diffRRsets (z_rrsets cur) (z_rrsets target))
         (rb_dry_run req) (rb_target req) actor rid w2 = (r, w')"
proof -
  obtain c w1 where c: "current_for_change st n (rb_expected req) w = (c, w1)" by fastforce
  note f = current_for_change_frame [OF c]
  show thesis
  proof (cases c)
    case (Inl e)
    with run c have "r = (no_change_result, Some e)" "w' = w1" by (simp_all add: zoneRollback_def)
    with rejected f show thesis by blast
  next
    case (Inr cur)
    note cur = current_for_change_Inr [OF c [unfolded Inr]]
    obtain p where p: "pathFor st n = Inr (p, z_name cur)" "loaded st (disk w) cur p"
      using zoneGet_loaded [OF law cur(1)] by blast
    obtain t w2 where t: "load_target st cur (rb_target req) w1 = (t, w2)" by fastforce
    have f2: "disk w2 = disk w" "snaps w2 = snaps w" using load_target_frame [OF t] f by simp_all
    show thesis
    proof (cases t)
      case (Inl e)
      with run c Inr t have "r = (no_change_result, Some e)" "w' = w2" by (simp_all add: zoneRollback_def)
      with rejected f2 show thesis by blast
    next
      case (Inr target)
      with run c \<open>c = Inr cur\<close> t
      have "commit st cur (z_rrs target) (diffRRsets (z_rrsets cur) (z_rrsets target))
         (rb_dry_run req) (rb_target req) actor rid w2 = (r, w')" by (simp add: zoneRollback_def)
      with committed [OF cur(1) cur(2,3) p(2,1)] t Inr f2 show thesis by blast
    qed
  qed
qed

lemma zoneApply_inv:
  assumes g: "good_store st" and inv: "store_inv st d0 (disk w)" and run: "zoneApply st n req actor rid w = (r, w')"
  shows "within (store_inv st d0) w w'"
proof -
  have law: "fqdn_law (s_dns st)" using g by (simp add: good_store_def)
  show ?thesis
    using law run
  proof (cases rule: zoneApply_cases)
    case rejected
    then show ?thesis using inv by (simp add: within_refl)
  next
    case (committed cur p w1 rrs)
    have "within (store_inv st d0) w1 w'"
      by (rule commit_inv [OF g _ _ committed(9,10)]) (use committed inv in simp_all)
    then show ?thesis using committed(2,3) by (simp add: within_def)
  qed
qed

lemma zoneRollback_inv:
  assumes g: "good_store st" and inv: "store_inv st d0 (disk w)" and run: "zoneRollback st n req actor rid w = (r, w')"
  shows "within (store_inv st d0) w w'"
proof -
  have law: "fqdn_law (s_dns st)" using g by (simp add: good_store_def)
  show ?thesis
    using law run
  proof (cases rule: zoneRollback_cases)
    case rejected
    then show ?thesis using inv by (simp add: within_refl)
  next
    case (committed cur p w1 target w2)
    have "within (store_inv st d0) w2 w'"
      by (rule commit_inv [OF g _ _ load_target_Inr(3) [OF committed(6)] committed(9)])
        (use committed inv in simp_all)
    then show ?thesis using committed(7,8) by (simp add: within_def)
  qed
qed

lemma parseZoneText_Inr:
  assumes "parseZoneText st input z = Inr (zone, content)"
  shows "z_name zone = z" "z_content zone = content" "zone_valid (s_dns st) z (z_rrs zone)"
    "content = render (s_dns st) z (z_rrs zone)" "z_serial zone = last_serial (z_rrs zone)"
    "parse_zone (s_dns st) z input = Inr (z_rrs zone)" "z_revision zone = s_sha st content"
  using assms by (auto simp: parseZoneText_def Let_def revision_def validate_iff [symmetric]
      split: sum.splits option.splits)

lemma remove_quietly_inv:
  assumes "good_store st" "store_inv st d0 (disk w)" "pathFor st n = Inr (p, z)"
  shows "within (store_inv st d0) w (remove_quietly p w)"
  unfolding remove_quietly_def using remove_inv [OF assms] by (metis surjective_pairing)

lemma saveRoles_inv':
  "store_inv st d0 (disk w) \<Longrightarrow> within (store_inv st d0) w (snd (saveRoles st roles w))"
  using saveRoles_inv by (metis surjective_pairing)

lemma appendAudit_inv':
  "good_store st \<Longrightarrow> store_inv st d0 (disk w) \<Longrightarrow> within (store_inv st d0) w (snd (appendAudit st e w))"
  using appendAudit_inv by (metis surjective_pairing good_store_def)

lemma restore_inv':
  assumes "good_store st" "store_inv st d0 (disk w)" "map_of d0 p = Some (Text c) \<or> published_text st z c"
    "pathFor st z = Inr (p, z)"
  shows "within (store_inv st d0) w (snd (zones_writeAtomic p (Text c) w))"
  using restore_inv [OF assms] by (metis surjective_pairing)

lemma install_zone_inv:
  assumes g: "good_store st" and inv: "store_inv st d0 (disk w)"
    and p: "pathFor st (z_name zone) = Inr (p, z_name zone)"
    and pub: "published_text st (z_name zone) (z_content zone)"
    and run: "install_zone st p zone roles result actor w = (r, w')"
  shows "within (store_inv st d0) w w'"
proof -
  obtain ok1 w1 where w1: "zones_writeAtomic p (Text (z_content zone)) w = (ok1, w1)" by fastforce
  have i1: "within (store_inv st d0) w w1" by (rule restore_inv [OF g inv _ p w1]) (use pub in simp)
  let ?roles = "AList.update (z_name zone) (lres_role result) roles"
  obtain ok2 w2 where w2: "saveRoles st ?roles w1 = (ok2, w2)" by fastforce
  have i2: "within (store_inv st d0) w w2"
    using within_trans [OF i1 saveRoles_inv [OF within_final [OF i1] w2]] .
  let ?w3 = "remove_quietly p w2"
  have i3: "within (store_inv st d0) w ?w3"
    using within_trans [OF i2 remove_quietly_inv [OF g within_final [OF i2] p]] .
  consider "w' = w1" | "w' = ?w3" | rs where "w' = snd (saveRoles st rs ?w3)" | e where "w' = snd (appendAudit st e w2)"
    using run w1 w2 by (auto simp: install_zone_def Let_def split: bool.splits option.splits)
  then show ?thesis
  proof cases
    case 3
    then show ?thesis using within_trans [OF i3 saveRoles_inv' [OF within_final [OF i3]]] by simp
  next
    case 4
    then show ?thesis using within_trans [OF i2 appendAudit_inv' [OF g within_final [OF i2]]] by simp
  qed (use i1 i3 in simp_all)
qed

lemma zoneCreate_cases:
  assumes run: "zoneCreate st n req actor rid w = (r, w')"
  obtains (stopped) "disk w' = disk w" "snaps w' = snaps w" "(\<exists>e. r = (no_lifecycle_result, Some e)) \<or> lr_dry_run req"
  | (installed) p z role zone content roles w1 where "pathFor st n = Inr (p, z)" "flookup w p = None"
      "validRole (lr_role req) = Inr role" "parseZoneText st (lr_zone_text req) z = Inr (zone, content)"
      "\<not> lr_dry_run req" "disk w1 = disk w" "snaps w1 = snaps w" "calm w \<Longrightarrow> w1 = w"
      "\<exists>w0. loadRoles st w0 = (Inr roles, w1) \<and> disk w0 = disk w \<and> (calm w \<longrightarrow> w0 = w)"
      "install_zone st p zone roles
         \<lparr>lres_action = ''create'', lres_zone = z, lres_role = role, lres_revision = revision st content,
          lres_serial = z_serial zone, lres_dry_run = False, lres_published = False,
          lres_request_id = rid, lres_warning = []\<rparr> actor w1 = (r, w')"
proof (cases "pathFor st n")
  case (Inl e)
  then show thesis using stopped run by (auto simp: zoneCreate_def)
next
  case (Inr pz)
  obtain p z where pz: "pathFor st n = Inr (p, z)" using Inr by (cases pz) simp
  obtain s w0 where s: "os_stat p w = (s, w0)" by fastforce
  have f0: "disk w0 = disk w" "snaps w0 = snaps w" using os_stat_frame [OF s] by simp_all
  have c0: "calm w \<Longrightarrow> w0 = w" using s os_stat_calm by auto
  show thesis
  proof (cases "s = Some NotExist \<and> (\<exists>role zone content. validRole (lr_role req) = Inr role \<and>
       trim_space (lr_zone_text req) \<noteq> [] \<and>
       parseZoneText st (lr_zone_text req) z = Inr (zone, content)) \<and> \<not> lr_dry_run req")
    case False
    then have "w' = w0" "(\<exists>e. r = (no_lifecycle_result, Some e)) \<or> lr_dry_run req"
      using run pz s by (auto simp: zoneCreate_def Let_def split: option.splits ioerr.splits sum.splits if_splits)
    with f0 stopped show thesis by simp
  next
    case True
    then obtain role zone content where t: "s = Some NotExist" "validRole (lr_role req) = Inr role"
      "trim_space (lr_zone_text req) \<noteq> []" "parseZoneText st (lr_zone_text req) z = Inr (zone, content)"
      "\<not> lr_dry_run req" by blast
    have none: "flookup w p = None"
      using s t(1) by (auto simp: os_stat_def split: prod.splits sum.splits dest!: os_read_file_NotExist)
    obtain lr w1 where l: "loadRoles st w0 = (lr, w1)" by fastforce
    note f1 = loadRoles_frame [OF l]
    show thesis
    proof (cases lr)
      case (Inl e)
      then show thesis using stopped run pz s t l f0 f1 by (auto simp: zoneCreate_def Let_def)
    next
      case (Inr roles)
      have "calm w \<Longrightarrow> w1 = w"
        using l c0 by (auto simp: loadRoles_def os_read_file_calm split: option.splits fdata.splits)
      moreover have "install_zone st p zone roles
         \<lparr>lres_action = ''create'', lres_zone = z, lres_role = role, lres_revision = revision st content,
          lres_serial = z_serial zone, lres_dry_run = False, lres_published = False,
          lres_request_id = rid, lres_warning = []\<rparr> actor w1 = (r, w')"
        using run pz s t l Inr by (simp add: zoneCreate_def Let_def)
      ultimately show thesis using installed [OF pz none t(2,4,5)] f0 f1 l Inr c0 by auto
    qed
  qed
qed

lemma zoneCreate_inv:
  assumes g: "good_store st" and inv: "store_inv st d0 (disk w)" and run: "zoneCreate st n req actor rid w = (r, w')"
  shows "within (store_inv st d0) w w'"
  using run
proof (cases rule: zoneCreate_cases)
  case stopped
  then show ?thesis using inv by (simp add: within_refl)
next
  case (installed p z role zone content roles w1)
  have law: "fqdn_law (s_dns st)" using g by (simp add: good_store_def)
  note pt = parseZoneText_Inr [OF installed(4)]
  have "published_text st (z_name zone) (z_content zone)"
    using pt unfolding published_text_def by blast
  moreover have "pathFor st (z_name zone) = Inr (p, z_name zone)"
    using pathFor_canonical [OF law installed(1)] pt(1) by simp
  ultimately have "within (store_inv st d0) w1 w'"
    using install_zone_inv [OF g _ _ _ installed(10)] inv installed(6) by simp
  then show ?thesis using installed(6,7) by (simp add: within_def)
qed

lemma retire_zone_inv:
  assumes g: "good_store st" and inv: "store_inv st d0 (disk w)"
    and p: "pathFor st (z_name cur) = Inr (p, z_name cur)"
    and src: "map_of d0 p = Some (Text (z_content cur)) \<or> published_text st (z_name cur) (z_content cur)"
    and run: "retire_zone st p cur roles result actor w = (r, w')"
  shows "within (store_inv st d0) w w'"
proof -
  let ?roles = "AList.delete (z_name cur) roles"
  obtain ok1 w1 where w1: "saveRoles st ?roles w = (ok1, w1)" by fastforce
  have i1: "within (store_inv st d0) w w1" by (rule saveRoles_inv [OF inv w1])
  let ?w2 = "snd (zones_writeAtomic p (Text (z_content cur)) w1)"
  have i2: "within (store_inv st d0) w ?w2"
    using within_trans [OF i1 restore_inv' [OF g within_final [OF i1] src p]] .
  consider "w' = ?w2" | rs where "w' = snd (saveRoles st rs ?w2)" | e where "w' = snd (appendAudit st e w1)"
    using run w1 by (auto simp: retire_zone_def Let_def split: bool.splits option.splits)
  then show ?thesis
  proof cases
    case 2
    then show ?thesis using within_trans [OF i2 saveRoles_inv' [OF within_final [OF i2]]] by simp
  next
    case 3
    then show ?thesis using within_trans [OF i1 appendAudit_inv' [OF g within_final [OF i1]]] by simp
  qed (use i2 in simp)
qed

lemma zoneDelete_inv:
  assumes g: "good_store st" and inv: "store_inv st d0 (disk w)" and run: "zoneDelete st n req actor rid w = (r, w')"
  shows "within (store_inv st d0) w w'"
proof -
  have law: "fqdn_law (s_dns st)" using g by (simp add: good_store_def)
  obtain c w1 where c: "zoneGet st n w = (c, w1)" by fastforce
  have f1: "disk w1 = disk w" "snaps w1 = snaps w" using zoneGet_frame [OF c] by simp_all
  show ?thesis
  proof (cases "\<exists>cur. c = Inr cur \<and> lr_expected req = z_revision cur \<and> lr_expected req \<noteq> [] \<and> \<not> lr_dry_run req")
    case False
    then have "w' = w1" using run c
      by (auto simp: zoneDelete_def Let_def split: sum.splits if_splits)
    then show ?thesis using f1 inv by (simp add: within_refl)
  next
    case True
    then obtain cur where cur: "c = Inr cur" "lr_expected req = z_revision cur" "lr_expected req \<noteq> []" "\<not> lr_dry_run req"
      by blast
    obtain p where l: "loaded st (disk w) cur p" using zoneGet_loaded [OF law c [unfolded cur(1)]] by blast
    have p: "pathFor st (z_name cur) = Inr (p, z_name cur)" and zp: "zone_path st (z_name cur) = p"
      and rv: "z_revision cur = s_sha st (z_content cur)" using l by (auto simp: loaded_def)
    note src = loaded_source [OF inv l]
    obtain ok2 w2 where w2: "saveHistory st cur w1 = (ok2, w2)" by fastforce
    have i2: "within (store_inv st d0) w w2"
      using saveHistory_inv [OF g _ rv w2] inv f1 by (simp add: within_def)
    obtain e3 w3 where w3: "os_remove p w2 = (e3, w3)" by fastforce
    have i3: "within (store_inv st d0) w w3"
      using within_trans [OF i2 remove_inv [OF g within_final [OF i2] p w3]] .
    obtain lr w4 where w4: "loadRoles st w3 = (lr, w4)" by fastforce
    have i4: "within (store_inv st d0) w w4"
      using within_trans [OF i3 within_frame [OF within_final [OF i3] loadRoles_frame [OF w4]]] .
    have "w' = w2 \<or> w' = w3 \<or> w' = w4 \<or> (\<exists>roles result. retire_zone st p cur roles result actor w4 = (r, w'))"
      using run c cur w2 w3 w4 zp
      by (auto simp: zoneDelete_def Let_def split: bool.splits option.splits sum.splits)
    then show ?thesis
    proof (elim disjE exE)
      fix roles result assume "retire_zone st p cur roles result actor w4 = (r, w')"
      from within_trans [OF i4 retire_zone_inv [OF g within_final [OF i4] p src this]] show ?thesis .
    qed (use i2 i3 i4 in simp_all)
  qed
qed

section \<open>Sequences of operations\<close>

text \<open>The requests a running store serves.  The mutex serialises them; the clocks and the failures
  of system calls are free at every step.\<close>

datatype zop =
    OpApply string ChangeRequest string string
  | OpRollback string RollbackRequest string string
  | OpCreate string LifecycleRequest string string
  | OpDelete string LifecycleRequest string string

fun run_zop :: "store \<Rightarrow> zop \<Rightarrow> world \<Rightarrow> world" where
  "run_zop st (OpApply n req actor rid) w = snd (zoneApply st n req actor rid w)"
| "run_zop st (OpRollback n req actor rid) w = snd (zoneRollback st n req actor rid w)"
| "run_zop st (OpCreate n req actor rid) w = snd (zoneCreate st n req actor rid w)"
| "run_zop st (OpDelete n req actor rid) w = snd (zoneDelete st n req actor rid w)"

definition store_at :: "store \<Rightarrow> gotime \<Rightarrow> gotime \<Rightarrow> verifier option \<Rightarrow> store" where
  "store_at st t t' v = st\<lparr>s_now := t, s_audit_now := t', s_verifier := v\<rparr>"

inductive zone_steps :: "store \<Rightarrow> world \<Rightarrow> world \<Rightarrow> bool" for st where
  stay: "zone_steps st w w"
| step: "zone_steps st w w1 \<Longrightarrow> zone_steps st w (run_zop (store_at st t t' v) opn (w1\<lparr>outcomes := os\<rparr>))"

lemma store_at_fields [simp]:
  "s_dir (store_at st t t' v) = s_dir st" "s_history (store_at st t t' v) = s_history st"
  "s_audit (store_at st t t' v) = s_audit st" "s_dns (store_at st t t' v) = s_dns st"
  "s_sha (store_at st t t' v) = s_sha st" "s_verifier (store_at st t t' v) = v"
  "s_now (store_at st t t' v) = t" "s_audit_now (store_at st t t' v) = t'"
  by (simp_all add: store_at_def)

lemma store_at_paths [simp]:
  "hist_path (store_at st t t' v) = hist_path st" "pathFor (store_at st t t' v) = pathFor st"
  "roles_path (store_at st t t' v) = roles_path st" "hist_dir (store_at st t t' v) = hist_dir st"
  by (simp_all add: fun_eq_iff hist_path_def hist_dir_def pathFor_def roles_path_def Let_def)

lemma store_at_inv [simp]: "store_inv (store_at st t t' v) = store_inv st"
  by (simp add: fun_eq_iff store_inv_def history_kept_def history_true_def zones_true_def published_text_def)

lemma store_at_good [simp]: "good_store (store_at st t t' v) = good_store st"
  by (simp add: good_store_def store_layout_def sha_law_def)

lemma run_zop_inv:
  assumes "good_store st" "store_inv st d0 (disk w)"
  shows "within (store_inv st d0) w (run_zop st opn w)"
  using zoneApply_inv [OF assms] zoneRollback_inv [OF assms] zoneCreate_inv [OF assms] zoneDelete_inv [OF assms]
  by (cases opn) (metis run_zop.simps surjective_pairing)+

lemma zone_steps_inv:
  assumes "zone_steps st w w'" "good_store st"
  shows "within (store_inv st (disk w)) w w'"
  using assms(1)
proof induction
  case (stay w)
  then show ?case by (simp add: within_refl store_inv_refl)
next
  case (step w w1 t t' v opn os)
  let ?w = "w1\<lparr>outcomes := os\<rparr>"
  have "within (store_inv (store_at st t t' v) (disk w)) ?w (run_zop (store_at st t t' v) opn ?w)"
    by (rule run_zop_inv) (use assms(2) within_final [OF step.IH] in simp_all)
  then have "within (store_inv st (disk w)) w1 (run_zop (store_at st t t' v) opn ?w)"
    by (simp add: within_def)
  with step.IH show ?case by (rule within_trans)
qed

section \<open>What a change leaves behind\<close>

lemma commit_published:
  assumes g: "good_store st" and l: "loaded st (disk w) cur p"
    and run: "commit st cur rrs changes False to actor rid w = ((res, err), w')" and pub: "cres_published res"
  obtains serial where "nextSerial (z_serial cur) (s_now st) = Inr serial"
    "flookup w' p = Some (Text (render (s_dns st) (z_name cur) (setSOASerial rrs serial)))"
    "flookup w' (hist_path st (z_name cur) (z_revision cur)) \<noteq> None"
    "cres_serial res = serial" "cres_previous_serial res = z_serial cur"
    "cres_revision res = s_sha st (render (s_dns st) (z_name cur) (setSOASerial rrs serial))"
    "cres_previous_revision res = z_revision cur" "cres_zone res = z_name cur"
proof -
  have p: "pathFor st (z_name cur) = Inr (p, z_name cur)" and zp: "zone_path st (z_name cur) = p"
    and rv: "z_revision cur = s_sha st (z_content cur)" using l by (auto simp: loaded_def)
  have lay: "store_layout st" and shal: "validRevision (z_revision cur)"
    using g rv by (auto simp: good_store_def sha_law_def)
  let ?h = "hist_path st (z_name cur) (z_revision cur)"
  have npub: "res \<noteq> no_change_result" using pub by (auto simp: no_change_result_def)
  obtain serial where s: "nextSerial (z_serial cur) (s_now st) = Inr serial"
    using run npub by (cases "nextSerial (z_serial cur) (s_now st)") (auto simp: commit_def)
  let ?c = "render (s_dns st) (z_name cur) (setSOASerial rrs serial)"
  let ?res = "commit_result st cur ?c serial changes False to rid"
  obtain w1 where w1: "saveHistory st cur w = (True, w1)"
    using run npub s by (auto simp: commit_def Let_def split: prod.splits bool.splits)
  obtain w2 where w2: "zones_writeAtomic p (Text ?c) w1 = (True, w2)"
    and aw: "await_publication st cur p ?res actor w2 = ((res, err), w')"
    using run npub s w1 zp by (auto simp: commit_def Let_def split: prod.splits bool.splits)
  obtain ok where ap: "appendAudit st (commit_event st ?res actor) w2 = (ok, w')"
    and res: "res = ?res\<lparr>cres_published := True, cres_warning := notify_warning st (z_name cur) w2\<rparr>"
    using aw npub by (auto simp: await_publication_def Let_def split: option.splits prod.splits bool.splits)
  have keep: "flookup w' q = flookup w2 q" if "suffix ''.zone'' q" for q
    using ap that lay append_line_other
    by (auto simp: appendAudit_def store_layout_def split: if_splits)
  obtain f where f: "flookup w1 ?h = Some f" using saveHistory_ok [OF w1] .
  have "flookup w2 ?h = Some f"
    using zw.write_existing [OF w2 _ f] zone_hist_apart [OF lay p shal] by metis
  then have h: "flookup w' ?h \<noteq> None" using keep [OF zone_suffixes(2)] by simp
  have "flookup w' p = Some (Text ?c)" using keep [OF zone_suffixes(1) [OF p]] zw.write_ok [OF w2] by simp
  with that s h res show thesis by (simp add: commit_result_def revision_def)
qed

text \<open>At every instant of a commit the zone file holds the old text or the complete new one, and a
  new one only after the old text's revision is in the history.\<close>

definition old_or_new :: "path \<Rightarrow> path \<Rightarrow> bytes \<Rightarrow> bytes \<Rightarrow> disk_t \<Rightarrow> bool" where
  "old_or_new p h old new d \<longleftrightarrow>
     map_of d p = Some (Text old) \<or> (map_of d p = Some (Text new) \<and> map_of d h \<noteq> None)"

definition filed :: "path \<Rightarrow> path \<Rightarrow> bytes \<Rightarrow> bytes \<Rightarrow> disk_t \<Rightarrow> bool" where
  "filed p h old new d \<longleftrightarrow>
     (map_of d p = Some (Text old) \<or> map_of d p = Some (Text new)) \<and> map_of d h \<noteq> None"

lemma filed_old_or_new: "filed p h old new d \<Longrightarrow> old_or_new p h old new d"
  by (auto simp: filed_def old_or_new_def)

lemma within_mono: "within R w w' \<Longrightarrow> (\<And>d. R d \<Longrightarrow> S d) \<Longrightarrow> within S w w'"
  by (auto simp: within_def)

lemma write_zone_filed:
  assumes "filed p h old new (disk w)" "p \<noteq> h" "c = old \<or> c = new"
    "zones_writeAtomic p (Text c) w = (ok, w')"
  shows "within (filed p h old new) w w'"
proof (rule zw.write_within [OF assms(4)])
  fix d assume "near p (Text c) w d"
  then have "map_of d p = flookup w p \<or> map_of d p = Some (Text c)"
    "map_of d h = flookup w h \<or> flookup w h = None" using assms(2) by (auto simp: near_def)
  with assms(1,3) show "filed p h old new d" by (auto simp: filed_def)
qed

lemma saveHistory_keeps_snaps:
  assumes g: "good_store st" and z: "z_revision z = s_sha st (z_content z)"
    and p: "pathFor st n = Inr (p, c)" and sv: "saveHistory st z w = (ok, w')" and f: "flookup w p = Some f"
  shows "within (\<lambda>d. map_of d p = Some f) w w'"
proof -
  have ne: "p \<noteq> hist_path st (z_name z) (z_revision z)"
    using g z by (intro zone_hist_apart [OF _ p]) (auto simp: good_store_def sha_law_def)
  obtain ok1 w1 where w1: "os_plain w = (ok1, w1)" by fastforce
  let ?h = "hist_path st (z_name z) (z_revision z)"
  obtain r w2 where w2: "os_stat ?h w1 = (r, w2)" by fastforce
  have f2: "disk w1 = disk w" "snaps w1 = snaps w" "disk w2 = disk w" "snaps w2 = snaps w"
    using os_plain_frame [OF w1] os_stat_frame [OF w2] by simp_all
  have "w' = w1 \<or> w' = w2 \<or> zones_writeAtomic ?h (Text (z_content z)) w2 = (ok, w')"
    using sv w1 w2 by (auto simp: saveHistory_def Let_def split: bool.splits option.splits ioerr.splits)
  then show ?thesis
  proof (elim disjE)
    assume "zones_writeAtomic ?h (Text (z_content z)) w2 = (ok, w')"
    from this have "within (\<lambda>d. map_of d p = Some f) w2 w'"
      by (rule zw.write_within) (use ne f f2 in \<open>auto simp: near_def\<close>)
    then show ?thesis using f2 by (simp add: within_def)
  qed (use f f2 in \<open>auto simp: within_def\<close>)
qed

lemma await_filed:
  assumes lay: "store_layout st" and p: "suffix ''.zone'' p" "suffix ''.zone'' h" "p \<noteq> h"
    and f: "filed p h (z_content cur) new (disk w)"
    and run: "await_publication st cur p res actor w = (r, w')"
  shows "within (filed p h (z_content cur) new) w w'"
proof (cases "wait_for_serial st (z_name cur) (cres_serial res) w")
  case (Some e)
  then obtain ok where "zones_writeAtomic p (Text (z_content cur)) w = (ok, w')"
    using run by (auto simp: await_publication_def split: prod.splits bool.splits)
  then show ?thesis by (rule write_zone_filed [OF f p(3), rotated]) simp
next
  case None
  then obtain ok where ap: "appendAudit st (commit_event st res actor) w = (ok, w')"
    using run by (auto simp: await_publication_def Let_def split: prod.splits bool.splits)
  show ?thesis
  proof (cases "s_audit st = []")
    case True
    then show ?thesis using ap f by (simp add: appendAudit_def within_refl)
  next
    case False
    then have "append_line (s_audit st) (enc_audit (commit_event st res actor)) w = (ok, w')"
      using ap by (simp add: appendAudit_def)
    then show ?thesis
      by (rule append_line_within) (use lay p f in \<open>auto simp: filed_def store_layout_def\<close>)
  qed
qed

lemma commit_old_or_new:
  assumes g: "good_store st" and l: "loaded st (disk w) cur p"
    and run: "commit st cur rrs changes dry to actor rid w = (r, w')"
  shows "\<exists>serial. within (old_or_new p (hist_path st (z_name cur) (z_revision cur)) (z_content cur)
      (render (s_dns st) (z_name cur) (setSOASerial rrs serial))) w w'"
proof -
  have p: "pathFor st (z_name cur) = Inr (p, z_name cur)" and zp: "zone_path st (z_name cur) = p"
    and rv: "z_revision cur = s_sha st (z_content cur)" and c: "flookup w p = Some (Text (z_content cur))"
    using l by (auto simp: loaded_def)
  let ?h = "hist_path st (z_name cur) (z_revision cur)"
  have lay: "store_layout st" and ne: "p \<noteq> ?h"
    using g rv zone_hist_apart [OF _ p] by (auto simp: good_store_def sha_law_def)
  let ?new = "\<lambda>serial. render (s_dns st) (z_name cur) (setSOASerial rrs serial)"
  have start: "old_or_new p ?h (z_content cur) (?new n) (disk w)" for n using c by (simp add: old_or_new_def)
  show ?thesis
  proof (cases "nextSerial (z_serial cur) (s_now st)")
    case (Inl e)
    then have "w' = w" using run by (simp add: commit_def)
    then show ?thesis using start by (auto intro: within_refl)
  next
    case (Inr n)
    obtain ok1 w1 where w1: "saveHistory st cur w = (ok1, w1)" by fastforce
    have h1: "within (\<lambda>d. map_of d p = Some (Text (z_content cur))) w w1"
      by (rule saveHistory_keeps_snaps [OF g rv p w1 c])
    then have i1: "within (old_or_new p ?h (z_content cur) (?new n)) w w1"
      by (rule within_mono) (simp add: old_or_new_def)
    have "within (old_or_new p ?h (z_content cur) (?new n)) w w'"
    proof (cases "dry \<or> \<not> ok1")
      case True
      then have "w' = w \<or> w' = w1" using run Inr w1 by (auto simp: commit_def Let_def split: if_splits)
      then show ?thesis using i1 start by (auto intro: within_refl)
    next
      case False
      then have "saveHistory st cur w = (True, w1)" using w1 by simp
      then obtain fh where "flookup w1 ?h = Some fh" by (rule saveHistory_ok)
      then have f1: "filed p ?h (z_content cur) (?new n) (disk w1)"
        using within_final [OF h1] by (simp add: filed_def)
      obtain ok2 w2 where w2: "zones_writeAtomic p (Text (?new n)) w1 = (ok2, w2)" by fastforce
      have f2: "within (filed p ?h (z_content cur) (?new n)) w1 w2"
        by (rule write_zone_filed [OF f1 ne _ w2]) simp
      have "within (filed p ?h (z_content cur) (?new n)) w1 w'"
      proof (cases ok2)
        case True
        then have aw: "\<exists>res. await_publication st cur p res actor w2 = (r, w')"
          using run Inr w1 w2 False zp by (auto simp: commit_def Let_def)
        then show ?thesis
          using within_trans [OF f2] await_filed [OF lay zone_suffixes(1) [OF p] zone_suffixes(2) ne within_final [OF f2]]
          by blast
      next
        case False
        then have "w' = w2" using run Inr w1 w2 \<open>\<not> (dry \<or> \<not> ok1)\<close> zp by (auto simp: commit_def Let_def)
        with f2 show ?thesis by simp
      qed
      then show ?thesis using within_trans [OF i1] within_mono filed_old_or_new by blast
    qed
    then show ?thesis by blast
  qed
qed

text \<open>With no system call failing, a version CoreDNS does not serve is taken back.\<close>

lemma saveHistory_calm: "calm w \<Longrightarrow> \<exists>w'. saveHistory st z w = (True, w') \<and> calm w'"
  using zw.write_calm [of w "hist_path st (z_name z) (z_revision z)" "Text (z_content z)"]
  by (auto simp: saveHistory_def Let_def os_stat_calm split: option.splits)

lemma commit_restores:
  assumes g: "good_store st" and l: "loaded st (disk w) cur p" and c: "calm w"
    and v: "s_verifier st = Some v" and bad: "\<And>n d. v_serial v (z_name cur) n d \<noteq> None"
    and run: "commit st cur rrs changes False to actor rid w = ((res, err), w')"
  shows "flookup w' p = Some (Text (z_content cur)) \<and> \<not> cres_published res \<and> err \<noteq> None"
proof (cases "nextSerial (z_serial cur) (s_now st)")
  case (Inl e)
  then show ?thesis using run l by (auto simp: commit_def loaded_def no_change_result_def)
next
  case (Inr n)
  have zp: "zone_path st (z_name cur) = p" using l by (simp add: loaded_def)
  obtain w1 where w1: "saveHistory st cur w = (True, w1)" "calm w1" using saveHistory_calm [OF c] by blast
  let ?c = "render (s_dns st) (z_name cur) (setSOASerial rrs n)"
  obtain w2 where w2: "zones_writeAtomic p (Text ?c) w1 = (True, w2)" "calm w2" using zw.write_calm [OF w1(2)] by blast
  obtain w3 where w3: "zones_writeAtomic p (Text (z_content cur)) w2 = (True, w3)" using zw.write_calm [OF w2(2)] by blast
  obtain e where e: "v_serial v (z_name cur) n (disk w2) = Some e" using bad by fastforce
  have "wait_for_serial st (z_name cur) n w2 = Some e" using v e by (simp add: wait_for_serial_def)
  then have "res = no_change_result \<and> err \<noteq> None \<and> w' = w3"
    using run Inr w1 w2 w3 zp
    by (auto simp: commit_def Let_def await_publication_def commit_result_def)
  then show ?thesis using zw.write_ok [OF w3] by (simp add: no_change_result_def)
qed

section \<open>Reading back what was published\<close>

text \<open>The serial and origin the loader finds in a valid record list.\<close>

lemma find_soa_none: "\<forall>r\<in>set rs. \<not> is_soa r \<Longrightarrow> find_soa D rs origin serial = Inr (origin, serial)"
  by (induction rs) auto

lemma one_element_split:
  assumes "length (filter P xs) = 1"
  obtains a x b where "xs = a @ x # b" "P x" "\<forall>y\<in>set a. \<not> P y" "\<forall>y\<in>set b. \<not> P y"
proof -
  from assms obtain x where f: "filter P xs = [x]" by (auto simp: length_Suc_conv)
  then obtain a b where "xs = a @ x # b" "\<forall>y\<in>set a. \<not> P y" "P x" "[] = filter P b"
    by (auto simp: filter_eq_Cons_iff)
  with that show thesis by (metis filter_empty_conv)
qed

lemma find_soa_valid:
  assumes v: "zone_valid D z rrs" and t: "\<forall>r\<in>set rrs. rr_typed r" and z: "z \<noteq> []"
  obtains r s where "r \<in> set rrs" "soa_serial r = Some s" "find_soa D rrs [] 0 = Inr (z, s)"
proof -
  have "length (filter (\<lambda>r. rrtype r = TypeSOA) rrs) = 1" using v by (simp add: zone_valid_def)
  then obtain a r b where rrs: "rrs = a @ r # b" and r: "rrtype r = TypeSOA"
    and a: "\<forall>y\<in>set a. rrtype y \<noteq> TypeSOA" and b: "\<forall>y\<in>set b. rrtype y \<noteq> TypeSOA"
    by (rule one_element_split)
  from r t rrs obtain s where s: "soa_serial r = Some s" by (auto simp: rr_typed_def)
  have na: "\<forall>y\<in>set a. \<not> is_soa y" and nb: "\<forall>y\<in>set b. \<not> is_soa y"
    using a b t rrs by (auto simp: rr_typed_def)
  have "canonicalName D (rname r) = z" using v rrs r by (auto simp: zone_valid_def local_ok_def)
  then have "find_soa D (r # b) [] 0 = Inr (z, s)" using s find_soa_none [OF nb] by simp
  moreover have "find_soa D (a @ r # b) [] 0 = find_soa D (r # b) [] 0" using na by (induction a) auto
  ultimately show thesis using that [of r s] rrs s by simp
qed

lemma zone_valid_mset:
  assumes "mset rrs = mset rrs'" shows "zone_valid D z rrs = zone_valid D z rrs'"
proof -
  have s: "set rrs = set rrs'" using assms by (metis set_mset_mset)
  have "mset (map (rr_key D) rrs) = mset (map (rr_key D) rrs')" using assms by simp
  then have d: "distinct (map (rr_key D) rrs) = distinct (map (rr_key D) rrs')" by (metis mset_eq_imp_distinct_iff)
  have "mset (filter (\<lambda>r. rrtype r = TypeSOA) rrs) = mset (filter (\<lambda>r. rrtype r = TypeSOA) rrs')"
    using assms by simp
  then have "length (filter (\<lambda>r. rrtype r = TypeSOA) rrs) = length (filter (\<lambda>r. rrtype r = TypeSOA) rrs')"
    by (metis mset_eq_length)
  with s d show ?thesis by (simp add: zone_valid_def)
qed

text \<open>The library prints a record list so that parsing the print gives the records back.\<close>

definition print_parse :: "dnslib \<Rightarrow> string \<Rightarrow> rr list \<Rightarrow> bool" where
  "print_parse D z rrs \<longleftrightarrow> parse_zone D [] (render D z rrs) = Inr (render_order D z rrs)"

lemma zone_of_render:
  assumes pp: "print_parse (s_dns st) z rrs" and ty: "parser_typed (s_dns st)"
    and v: "zone_valid (s_dns st) z rrs" and z: "z \<noteq> []"
  obtains zone r where "zone_of_text st (render (s_dns st) z rrs) = Inr zone" "z_name zone = z"
    "z_rrs zone = render_order (s_dns st) z rrs" "z_revision zone = s_sha st (render (s_dns st) z rrs)"
    "r \<in> set rrs" "soa_serial r = Some (z_serial zone)"
proof -
  let ?D = "s_dns st" and ?o = "render_order (s_dns st) z rrs"
  have v': "zone_valid ?D z ?o" using v zone_valid_mset [of rrs ?o ?D z] by simp
  have "\<forall>r\<in>set ?o. rr_typed r" using pp ty unfolding print_parse_def parser_typed_def by blast
  then obtain r s where r: "r \<in> set ?o" "soa_serial r = Some s" "find_soa ?D ?o [] 0 = Inr (z, s)"
    using find_soa_valid [OF v' _ z] by blast
  let ?zone = "\<lparr>z_name = z, z_role = [], z_serial = s, z_revision = revision st (render ?D z rrs),
      z_rrsets = groupRRsets ?D ?o, z_rrs = ?o, z_content = render ?D z rrs\<rparr>"
  have "validate ?D z ?o = None" using v' by (simp only: validate_iff)
  then have "zone_of_text st (render ?D z rrs) = Inr ?zone"
    using pp r z by (simp add: zone_of_text_def print_parse_def)
  with that [of ?zone r] r show thesis by (simp add: revision_def)
qed

lemma setSOASerial_valid:
  assumes v: "zone_valid D z rrs" and d: "distinct (map (rr_key D) (setSOASerial rrs n))"
  shows "zone_valid D z (setSOASerial rrs n)"
proof -
  let ?h = "\<lambda>r. (rname r, rrtype r, rclass r, rttl r)"
  note hdr = setSOASerial_header [of rrs n]
  have set: "?h ` set (setSOASerial rrs n) = ?h ` set rrs" by (simp only: set_map [symmetric] hdr)
  have via: "(\<forall>r\<in>set (setSOASerial rrs n). Q (?h r)) = (\<forall>r\<in>set rrs. Q (?h r))" for Q
  proof -
    have e: "(\<forall>r\<in>set xs. Q (?h r)) = (\<forall>h\<in>?h ` set xs. Q h)" for xs by simp
    show ?thesis unfolding e [of rrs] e [of "setSOASerial rrs n"] set ..
  qed
  have l: "length (filter (\<lambda>r. rrtype r = TypeSOA) xs) = length (filter (\<lambda>h. fst (snd h) = TypeSOA) (map ?h xs))" for xs
    by (induction xs) auto
  have cnt: "length (filter (\<lambda>r. rrtype r = TypeSOA) (setSOASerial rrs n)) =
      length (filter (\<lambda>r. rrtype r = TypeSOA) rrs)" by (simp only: l hdr)
  have loc: "\<forall>r\<in>set (setSOASerial rrs n). local_ok D z r"
    using v via [of "\<lambda>h. fst (snd (snd h)) = ClassINET \<and> is_sub_domain D z (canonicalName D (fst h)) \<and>
      (fst (snd h) = TypeSOA \<longrightarrow> canonicalName D (fst h) = z)"]
    unfolding zone_valid_def local_ok_def fst_conv snd_conv by blast
  have ns: "\<exists>r\<in>set (setSOASerial rrs n). rrtype r = TypeNS \<and> canonicalName D (rname r) = z"
    using v via [of "\<lambda>h. \<not> (fst (snd h) = TypeNS \<and> canonicalName D (fst h) = z)"]
    unfolding zone_valid_def fst_conv snd_conv by blast
  let ?C = "\<lambda>h h'. canonicalName D (fst h) = canonicalName D (fst h') \<longrightarrow> fst (snd h) = TypeCNAME \<longrightarrow>
      fst (snd h') \<in> set cname_companions"
  have "\<forall>r\<in>set rrs. \<forall>r'\<in>set rrs. ?C (?h r) (?h r')"
    using v unfolding zone_valid_def fst_conv snd_conv by blast
  then have 1: "\<forall>r\<in>set (setSOASerial rrs n). \<forall>r'\<in>set rrs. ?C (?h r) (?h r')"
    by (rule iffD2 [OF via [of "\<lambda>h. \<forall>r'\<in>set rrs. ?C h (?h r')"]])
  have "\<forall>r\<in>set (setSOASerial rrs n). \<forall>r'\<in>set (setSOASerial rrs n). ?C (?h r) (?h r')"
  proof
    fix r assume "r \<in> set (setSOASerial rrs n)"
    with 1 have "\<forall>r'\<in>set rrs. ?C (?h r) (?h r')" by (rule bspec)
    then show "\<forall>r'\<in>set (setSOASerial rrs n). ?C (?h r) (?h r')"
      by (rule iffD2 [OF via [of "\<lambda>h'. ?C (?h r) h'"]])
  qed
  with loc d cnt ns v show ?thesis unfolding zone_valid_def fst_conv snd_conv by simp
qed

section \<open>Compare and swap on revisions\<close>

text \<open>One \<open>Apply\<close> by one of several clients: the request with its actor and identifier, and the
  clock, verifier and system call outcomes it meets.\<close>

type_synonym zone_attempt = "ChangeRequest \<times> string \<times> string \<times> nat option list \<times> gotime \<times> gotime \<times> verifier option"

definition zone_rev :: "store \<Rightarrow> world \<Rightarrow> string \<Rightarrow> string option" where
  "zone_rev st w n =
     (case pathFor st n of
        Inl _ \<Rightarrow> None
      | Inr (p, z) \<Rightarrow> (case flookup w p of Some (Text c) \<Rightarrow> Some (s_sha st c) | _ \<Rightarrow> None))"

definition zone_put :: "store \<Rightarrow> string \<Rightarrow> string \<Rightarrow> zone_attempt \<Rightarrow> world \<Rightarrow> bool \<times> world" where
  "zone_put st n e a w =
     (case a of (req, actor, rid, os, t, t', v) \<Rightarrow>
        case zoneApply (store_at st t t' v) n (req\<lparr>cr_expected := e\<rparr>) actor rid (w\<lparr>outcomes := os\<rparr>) of
          ((res, err), w') \<Rightarrow> (cres_published res, w'))"

lemma zoneApply_stale:
  assumes "zone_rev st w n \<noteq> Some (cr_expected req)" "zoneApply st n req actor rid w = ((res, err), w')"
  shows "\<not> cres_published res \<and> err \<noteq> None \<and> disk w' = disk w \<and> snaps w' = snaps w"
proof -
  obtain c w1 where c: "current_for_change st n (cr_expected req) w = (c, w1)" by fastforce
  show ?thesis
  proof (cases c)
    case (Inl e)
    then show ?thesis
      using assms(2) c current_for_change_frame [OF c] by (auto simp: zoneApply_def no_change_result_def)
  next
    case (Inr cur)
    note cur = current_for_change_Inr [OF c [unfolded Inr]]
    from cur(1) obtain p z0 where "pathFor st n = Inr (p, z_name cur)" "flookup w p = Some (Text (z_content cur))"
      "zone_of_text st (z_content cur) = Inr z0" and z: "cur = z0\<lparr>z_role := z_role cur\<rparr>" by (rule zoneGet_Inr)
    moreover have "z_revision cur = z_revision z0" by (subst z) simp
    ultimately have "zone_rev st w n = Some (z_revision cur)"
      using zone_of_text_Inr(2) by (simp add: zone_rev_def)
    with cur(3) assms(1) show ?thesis by simp
  qed
qed

lemma zone_rev_disk: "disk w' = disk w \<Longrightarrow> zone_rev st w' n = zone_rev st w n"
  by (auto simp: zone_rev_def split: sum.split option.split fdata.split)

lemma zone_rev_store_at [simp]: "zone_rev (store_at st t t' v) = zone_rev st"
  by (auto simp: fun_eq_iff zone_rev_def split: sum.split option.split fdata.split)

interpretation zr: revisioned "zone_rev st" "zone_put st" for st
proof (unfold_locales, goal_cases)
  case (1 w n e a)
  obtain req actor rid os t t' v where a: "a = (req, actor, rid, os, t, t', v)" by (cases a)
  obtain res err w' where r: "zoneApply (store_at st t t' v) n (req\<lparr>cr_expected := e\<rparr>) actor rid
      (w\<lparr>outcomes := os\<rparr>) = ((res, err), w')" by (metis prod.collapse)
  have "\<not> cres_published res \<and> err \<noteq> None \<and> disk w' = disk w \<and> snaps w' = snaps w"
    using zoneApply_stale [OF _ r] 1 zone_rev_disk [of "w\<lparr>outcomes := os\<rparr>" w st n] by simp
  then show ?case using a r zone_rev_disk [of w' w st n] by (simp add: zone_put_def)
qed

section \<open>Publication by Apply\<close>

lemma zoneGet_primary:
  assumes "zoneGet st n w = (Inr z, w')" "z_role z = ''primary''"
  shows "\<exists>j roles. flookup w (roles_path st) = Some (Json j) \<and> dec_roles j = Some roles \<and>
     map_of roles (z_name z) = Some ''primary''"
proof -
  from assms(1) obtain p w1 z0 roles where l: "loadPath st p w = (Inr z0, w1)"
    and r: "loadRoles st w1 = (Inr roles, w')" and z: "z = z0\<lparr>z_role := roleFor roles (z_name z0)\<rparr>"
    by (auto simp: zoneGet_def split: prod.splits sum.splits zerr.splits if_splits)
  have "gomap_get [] roles (z_name z) = ''primary''"
    using assms(2) z by (auto simp: roleFor_def Let_def split: if_splits)
  then have m: "map_of roles (z_name z) = Some ''primary''" by (auto simp: gomap_get_def split: option.splits)
  obtain o1 w2 where o1: "os_read_file (roles_path st) w1 = (o1, w2)" by fastforce
  have "disk w1 = disk w" using loadPath_frame [OF l] by simp
  with o1 r m show ?thesis
    by (auto simp: loadRoles_def split: sum.splits ioerr.splits fdata.splits option.splits dest!: os_read_file_Inr)
qed

lemma commit_dry: "cres_published (fst (fst (commit st cur rrs cs True to actor rid w))) = False"
  by (simp add: commit_def commit_result_def no_change_result_def Let_def split: sum.split)

lemma published_apply:
  assumes g: "good_store st" and run: "zoneApply st n req actor rid w = ((res, err), w')" and pub: "cres_published res"
  shows "\<exists>p z old rrs0 rrs. pathFor st n = Inr (p, z) \<and> flookup w p = Some (Text old) \<and>
     cr_expected req = s_sha st old \<and>
     parse_zone (s_dns st) [] old = Inr rrs0 \<and>
     applyChanges (s_dns st) rrs0 z (cr_changes req) = Inr rrs \<and> zone_valid (s_dns st) z rrs \<and>
     cres_previous_serial res < cres_serial res \<and>
     flookup w' p = Some (Text (render (s_dns st) z (setSOASerial rrs (cres_serial res)))) \<and>
     cres_revision res = s_sha st (render (s_dns st) z (setSOASerial rrs (cres_serial res))) \<and>
     flookup w' (hist_path st z (s_sha st old)) \<noteq> None \<and>
     (\<exists>j roles. flookup w (roles_path st) = Some (Json j) \<and> dec_roles j = Some roles \<and>
        map_of roles z = Some ''primary'')"
proof -
  have "fqdn_law (s_dns st)" using g by (simp add: good_store_def)
  then show ?thesis using run
  proof (cases rule: zoneApply_cases)
    case rejected
    then show ?thesis using pub by (auto simp: no_change_result_def)
  next
    case (committed cur p w1 rrs)
    have dry: "\<not> cr_dry_run req"
    proof
      assume "cr_dry_run req"
      with committed(10) have "fst (fst (commit st cur rrs (cr_changes req) True [] actor rid w1)) = res" by simp
      with commit_dry pub show False by metis
    qed
    have l: "loaded st (disk w1) cur p" using committed(2,6) by simp
    have c: "commit st cur rrs (cr_changes req) False [] actor rid w1 = ((res, err), w')"
      using committed(10) dry by simp
    obtain serial where s: "nextSerial (z_serial cur) (s_now st) = Inr serial"
      "flookup w' p = Some (Text (render (s_dns st) (z_name cur) (setSOASerial rrs serial)))"
      "flookup w' (hist_path st (z_name cur) (z_revision cur)) \<noteq> None"
      "cres_serial res = serial" "cres_previous_serial res = z_serial cur"
      "cres_revision res = s_sha st (render (s_dns st) (z_name cur) (setSOASerial rrs serial))"
      using commit_published [OF g l c pub] by metis
    obtain z0 where z0: "zone_of_text st (z_content cur) = Inr z0" "cur = z0\<lparr>z_role := z_role cur\<rparr>"
      using committed(1) by (rule zoneGet_Inr)
    have "z_rrs cur = z_rrs z0" by (subst z0(2)) simp
    then have parse: "parse_zone (s_dns st) [] (z_content cur) = Inr (z_rrs cur)"
      using zone_of_text_Inr(3) [OF z0(1)] by simp
    have rv: "z_revision cur = s_sha st (z_content cur)" "flookup w p = Some (Text (z_content cur))"
      using committed(6) by (simp_all add: loaded_def)
    have gt: "cres_previous_serial res < cres_serial res" using nextSerial_grows [OF s(1)] s by simp
    note role = zoneGet_primary [OF committed(1,4)]
    show ?thesis
      by (intro exI [of _ p] exI [of _ "z_name cur"] exI [of _ "z_content cur"] exI [of _ "z_rrs cur"] exI [of _ rrs])
        (use committed parse rv s gt role in simp)
  qed
qed

section \<open>Reading after publishing\<close>

lemma soa_serial_unique:
  assumes v: "zone_valid D z (setSOASerial rrs n)" and t: "\<forall>r\<in>set (setSOASerial rrs n). rr_typed r"
    and r: "r \<in> set (setSOASerial rrs n)" "soa_serial r = Some s"
  shows "s = n"
proof -
  have mf: "length (List.map_filter soa_serial xs) = length (filter is_soa xs)" for xs :: "rr list"
    by (induction xs) (auto simp: map_filter_simps split: option.splits)
  have "filter is_soa (setSOASerial rrs n) = filter (\<lambda>r. rrtype r = TypeSOA) (setSOASerial rrs n)"
    using t by (intro filter_cong) (auto simp: rr_typed_def)
  then have one: "length (List.map_filter soa_serial (setSOASerial rrs n)) = 1"
    using v mf by (simp add: zone_valid_def)
  moreover have "s \<in> set (List.map_filter soa_serial (setSOASerial rrs n))"
    using r by (force simp: map_filter_def)
  ultimately show ?thesis
    using setSOASerial_serials [of rrs n] by (auto split: list.splits)
qed

lemma loadRoles_calm:
  "calm w \<Longrightarrow> loadRoles st w =
     ((case flookup w (roles_path st) of
         None \<Rightarrow> Inr [] | Some (Json j) \<Rightarrow>
           (case dec_roles j of None \<Rightarrow> Inl (ErrParse ''parse zone role manifest'') | Some m \<Rightarrow> Inr m)
       | Some _ \<Rightarrow> Inl (ErrParse ''parse zone role manifest'')), w)"
  by (auto simp: loadRoles_def os_read_file_calm split: option.splits fdata.splits)

lemma zoneGet_calm:
  assumes "calm w" "pathFor st n = Inr (p, z)" "flookup w p = Some (Text c)" "zone_of_text st c = Inr zone"
    "z_name zone = z" "flookup w (roles_path st) = Some (Json j)" "dec_roles j = Some roles"
  shows "zoneGet st n w = (Inr (zone\<lparr>z_role := roleFor roles z\<rparr>), w)"
  using assms by (simp add: zoneGet_def loadPath_def os_read_file_calm loadRoles_calm)

lemma commit_roles:
  assumes g: "good_store st" and l: "loaded st (disk w) cur p"
    and run: "commit st cur rrs cs dry to actor rid w = (r, w')"
  shows "flookup w' (roles_path st) = flookup w (roles_path st)"
proof -
  let ?R = "roles_path st"
  have zp: "zone_path st (z_name cur) = p" and p: "pathFor st (z_name cur) = Inr (p, z_name cur)"
    using l by (simp_all add: loaded_def)
  have pr: "p \<noteq> ?R" using zone_suffixes(1) [OF p] roles_not_zone by metis
  have hr: "hist_path st y rv \<noteq> ?R" for y rv using zone_suffixes(2) roles_not_zone by metis
  have ar: "s_audit st \<noteq> ?R" using g by (simp add: good_store_def store_layout_def)
  have wr: "flookup w2 ?R = flookup w1 ?R" if "zones_writeAtomic q f w1 = (ok, w2)" "q \<noteq> ?R" for q f w1 ok w2
    by (rule zw.write_other [OF that(1)]) (use that(2) roles_not_digit in auto)
  have sh: "flookup w2 ?R = flookup w1 ?R" if "saveHistory st cur w1 = (ok, w2)" for w1 ok w2
    using that hr wr by (auto simp: saveHistory_def Let_def split: prod.splits bool.splits option.splits ioerr.splits
        dest!: os_plain_frame os_stat_frame)
  have ap: "flookup w2 ?R = flookup w1 ?R" if "appendAudit st e w1 = (ok, w2)" for e w1 ok w2
    using that ar append_line_other by (auto simp: appendAudit_def split: if_splits)
  have aw: "flookup w2 ?R = flookup w1 ?R" if "await_publication st cur p res actor w1 = (r, w2)" for res w1 w2
    using that wr [OF _ pr] ap
    by (auto simp: await_publication_def Let_def split: option.splits prod.splits bool.splits)
  show ?thesis
  proof (cases "nextSerial (z_serial cur) (s_now st)")
    case (Inl e)
    then show ?thesis using run by (simp add: commit_def)
  next
    case (Inr n)
    let ?c = "render (s_dns st) (z_name cur) (setSOASerial rrs n)"
    obtain ok1 w1 where w1: "saveHistory st cur w = (ok1, w1)" by fastforce
    obtain ok2 w2 where w2: "zones_writeAtomic p (Text ?c) w1 = (ok2, w2)" by fastforce
    note e1 = sh [OF w1] and e2 = wr [OF w2 pr]
    have "w' = w \<or> w' = w1 \<or> w' = w2 \<or> (\<exists>res. await_publication st cur p res actor w2 = (r, w'))"
      using run Inr w1 w2 zp by (auto simp: commit_def Let_def split: if_splits bool.splits)
    then show ?thesis using e1 e2 aw by metis
  qed
qed

lemma apply_then_get:
  assumes g: "good_store st" and ty: "parser_typed (s_dns st)"
    and run: "zoneApply st n req actor rid w = ((res, err), w')" and pub: "cres_published res"
    and lib: "\<And>p z old rrs0 rrs. pathFor st n = Inr (p, z) \<Longrightarrow> flookup w p = Some (Text old) \<Longrightarrow>
        parse_zone (s_dns st) [] old = Inr rrs0 \<Longrightarrow>
        applyChanges (s_dns st) rrs0 z (cr_changes req) = Inr rrs \<Longrightarrow>
        print_parse (s_dns st) z (setSOASerial rrs (cres_serial res)) \<and>
        distinct (map (rr_key (s_dns st)) (setSOASerial rrs (cres_serial res)))"
  shows "\<exists>zone. zoneGet st n (w'\<lparr>outcomes := []\<rparr>) = (Inr zone, w'\<lparr>outcomes := []\<rparr>) \<and>
     z_serial zone = cres_serial res \<and> z_revision zone = cres_revision res \<and> z_role zone = ''primary''"
proof -
  from published_apply [OF g run pub] obtain p z old rrs0 rrs j roles where
    p: "pathFor st n = Inr (p, z)" and old: "flookup w p = Some (Text old)" "parse_zone (s_dns st) [] old = Inr rrs0"
    and ac: "applyChanges (s_dns st) rrs0 z (cr_changes req) = Inr rrs"
    and v: "zone_valid (s_dns st) z rrs"
    and f: "flookup w' p = Some (Text (render (s_dns st) z (setSOASerial rrs (cres_serial res))))"
    and rv: "cres_revision res = s_sha st (render (s_dns st) z (setSOASerial rrs (cres_serial res)))"
    and j: "flookup w (roles_path st) = Some (Json j)" "dec_roles j = Some roles" "map_of roles z = Some ''primary''"
    by blast
  let ?rrs = "setSOASerial rrs (cres_serial res)"
  have pp: "print_parse (s_dns st) z ?rrs" and d: "distinct (map (rr_key (s_dns st)) ?rrs)" using lib [OF p old ac] by auto
  have v': "zone_valid (s_dns st) z ?rrs" by (rule setSOASerial_valid [OF v d])
  have law: "fqdn_law (s_dns st)" using g by (simp add: good_store_def)
  have "z \<noteq> []" using pathFor_Inr(1) [OF p] canonicalName_dot [OF law, of n] by auto
  then obtain zone r where z: "zone_of_text st (render (s_dns st) z ?rrs) = Inr zone" "z_name zone = z"
    "z_revision zone = s_sha st (render (s_dns st) z ?rrs)" "r \<in> set ?rrs" "soa_serial r = Some (z_serial zone)"
    using zone_of_render [OF pp ty v'] by metis
  have "\<forall>r\<in>set ?rrs. rr_typed r"
    using pp ty unfolding print_parse_def parser_typed_def by (metis set_render_order)
  then have ser: "z_serial zone = cres_serial res" using soa_serial_unique [OF v' _ z(4,5)] by simp
  have "flookup w' (roles_path st) = flookup w (roles_path st)"
    using law run
  proof (cases rule: zoneApply_cases)
    case rejected
    then show ?thesis by simp
  next
    case (committed cur q w1 rr)
    then show ?thesis using commit_roles [OF g _ committed(10), of q] by simp
  qed
  then have r': "flookup (w'\<lparr>outcomes := []\<rparr>) (roles_path st) = Some (Json j)" using j by simp
  have "zoneGet st n (w'\<lparr>outcomes := []\<rparr>) = (Inr (zone\<lparr>z_role := roleFor roles z\<rparr>), w'\<lparr>outcomes := []\<rparr>)"
    by (rule zoneGet_calm [OF _ p _ z(1,2) r' j(2)]) (use f in simp_all)
  moreover have "roleFor roles z = ''primary''" using j(3) by (simp add: roleFor_def gomap_get_def)
  ultimately show ?thesis using ser z(3) rv by auto
qed

section \<open>Rollback, Create and Delete\<close>

lemma load_target_parse:
  assumes "load_target st cur t w = (Inr z, w1)"
  shows "z_name z = z_name cur" "s_sha st (z_content z) = t" "parse_zone (s_dns st) [] (z_content z) = Inr (z_rrs z)"
    "zone_valid (s_dns st) (z_name cur) (z_rrs z)"
    "flookup w (hist_path st (z_name cur) t) = Some (Text (z_content z))"
proof -
  from assms have l: "loadPath st (hist_path st (z_name cur) t) w = (Inr z, w1)"
    by (auto simp: load_target_def split: if_splits prod.splits sum.splits zerr.splits)
  from l obtain c where "flookup w (hist_path st (z_name cur) t) = Some (Text c)" "zone_of_text st c = Inr z"
    by (rule loadPath_Inr)
  with load_target_Inr [OF assms] zone_of_text_Inr
  show "z_name z = z_name cur" "s_sha st (z_content z) = t" "parse_zone (s_dns st) [] (z_content z) = Inr (z_rrs z)"
    "zone_valid (s_dns st) (z_name cur) (z_rrs z)"
    "flookup w (hist_path st (z_name cur) t) = Some (Text (z_content z))"
    by auto
qed

lemma create_dry_unpublished:
  assumes "zoneCreate st n req actor rid w = ((res, err), w')" "lr_dry_run req"
  shows "\<not> lres_published res"
  using assms by (auto simp: zoneCreate_def Let_def no_lifecycle_result_def
      split: sum.splits prod.splits option.splits ioerr.splits if_splits)

text \<open>The audit log is neither a zone file, a history file nor the manifest.\<close>

lemma appendAudit_keeps:
  assumes "good_store st" "suffix ''.zone'' q \<or> q = roles_path st"
  shows "flookup (snd (appendAudit st e w)) q = flookup w q"
  using assms append_line_other [of "s_audit st" "enc_audit e" w]
  by (auto simp: appendAudit_def good_store_def store_layout_def) (metis prod.collapse)+

lemma saveRoles_keeps:
  "saveRoles st roles w = (ok, w') \<Longrightarrow> suffix ''.zone'' q \<Longrightarrow> flookup w' q = flookup w q"
  unfolding saveRoles_def by (rule zw.write_other) (use roles_not_zone zone_not_digit in auto)

lemma install_zone_published:
  assumes g: "good_store st" and p: "pathFor st (z_name zone) = Inr (p, z_name zone)"
    and run: "install_zone st p zone roles result actor w = ((res, err), w')" and pub: "lres_published res"
  shows "flookup w' p = Some (Text (z_content zone))"
    "flookup w' (roles_path st) = Some (Json (enc_roles (AList.update (z_name zone) (lres_role result) roles)))"
    "lres_role res = lres_role result" "lres_revision res = lres_revision result" "lres_serial res = lres_serial result"
proof -
  let ?roles = "AList.update (z_name zone) (lres_role result) roles"
  have np: "res \<noteq> no_lifecycle_result" using pub by (auto simp: no_lifecycle_result_def)
  obtain w1 where w1: "zones_writeAtomic p (Text (z_content zone)) w = (True, w1)"
    using run np by (auto simp: install_zone_def split: prod.splits bool.splits)
  obtain w2 where w2: "saveRoles st ?roles w1 = (True, w2)"
    using run np w1 by (auto simp: install_zone_def Let_def split: prod.splits bool.splits)
  obtain e where w': "w' = snd (appendAudit st e w2)"
    and res: "res = result\<lparr>lres_published := True, lres_warning := notify_warning st (z_name zone) w2\<rparr>"
    using run np w1 w2 by (auto simp: install_zone_def Let_def split: option.splits)
  note sfx = zone_suffixes(1) [OF p]
  show "flookup w' p = Some (Text (z_content zone))"
    using w' appendAudit_keeps [OF g] sfx saveRoles_keeps [OF w2 sfx] zw.write_ok [OF w1] by simp
  show "flookup w' (roles_path st) = Some (Json (enc_roles ?roles))"
    using w' appendAudit_keeps [OF g] zw.write_ok [OF w2 [unfolded saveRoles_def]] by simp
  show "lres_role res = lres_role result" "lres_revision res = lres_revision result" "lres_serial res = lres_serial result"
    using res by simp_all
qed

lemma delete_published:
  assumes g: "good_store st" and run: "zoneDelete st n req actor rid w = ((res, err), w')" and pub: "lres_published res"
  shows "\<exists>p z old roles. pathFor st n = Inr (p, z) \<and> flookup w p = Some (Text old) \<and>
     lr_expected req = s_sha st old \<and> flookup w' p = None \<and>
     flookup w' (hist_path st z (s_sha st old)) \<noteq> None \<and>
     flookup w' (roles_path st) = Some (Json (enc_roles roles)) \<and> map_of roles z = None"
proof -
  have law: "fqdn_law (s_dns st)" and lay: "store_layout st" using g by (simp_all add: good_store_def)
  have np: "res \<noteq> no_lifecycle_result" using pub by (auto simp: no_lifecycle_result_def)
  obtain c w1 where c: "zoneGet st n w = (c, w1)" by fastforce
  have f1: "disk w1 = disk w" using zoneGet_frame [OF c] by simp
  obtain cur where cur: "c = Inr cur" "lr_expected req = z_revision cur" "\<not> lr_dry_run req"
    using run c pub np by (cases c) (auto simp: zoneDelete_def Let_def split: if_splits)
  obtain p where p0: "pathFor st n = Inr (p, z_name cur)" and l: "loaded st (disk w) cur p"
    using zoneGet_loaded [OF law c [unfolded cur(1)]] by blast
  have p: "pathFor st (z_name cur) = Inr (p, z_name cur)" and zp: "zone_path st (z_name cur) = p"
    and rv: "z_revision cur = s_sha st (z_content cur)" and fl: "flookup w p = Some (Text (z_content cur))"
    using l by (auto simp: loaded_def)
  let ?h = "hist_path st (z_name cur) (z_revision cur)"
  have hp: "?h \<noteq> p" using zone_hist_apart [OF lay p, of "z_revision cur" "z_name cur"] g rv
    by (auto simp: good_store_def sha_law_def)
  obtain w2 where w2: "saveHistory st cur w1 = (True, w2)"
    using run c cur np by (auto simp: zoneDelete_def Let_def split: prod.splits bool.splits if_splits)
  obtain w3 where w3: "os_remove p w2 = (None, w3)"
    using run c cur np w2 zp by (auto simp: zoneDelete_def Let_def split: prod.splits option.splits if_splits)
  obtain roles w4 where w4: "loadRoles st w3 = (Inr roles, w4)"
    using run c cur np w2 w3 zp by (auto simp: zoneDelete_def Let_def split: prod.splits sum.splits if_splits)
  let ?roles = "AList.delete (z_name cur) roles"
  obtain w5 e where w5: "saveRoles st ?roles w4 = (True, w5)" and w': "w' = snd (appendAudit st e w5)"
    using run c cur np w2 w3 w4 zp
    by (auto simp: zoneDelete_def retire_zone_def Let_def split: prod.splits bool.splits option.splits if_splits)
  have d4: "disk w4 = disk w3" using loadRoles_frame [OF w4] by simp
  have keep: "flookup w' q = flookup w3 q" if "suffix ''.zone'' q" for q
    using w' appendAudit_keeps [OF g] that saveRoles_keeps [OF w5 that] d4 by simp
  obtain f where "flookup w2 ?h = Some f" using saveHistory_ok [OF w2] .
  then have "flookup w' ?h \<noteq> None" using keep [OF zone_suffixes(2)] os_remove_disk [OF w3] hp by simp
  moreover have "flookup w' p = None" using keep [OF zone_suffixes(1) [OF p]] os_remove_disk [OF w3] by simp
  moreover have "flookup w' (roles_path st) = Some (Json (enc_roles ?roles))"
    using w' appendAudit_keeps [OF g] zw.write_ok [OF w5 [unfolded saveRoles_def]] by simp
  moreover have "map_of ?roles (z_name cur) = None" by (simp add: delete_conv')
  ultimately show ?thesis using p0 fl cur rv by metis
qed

end
