(* ===== verification/ZoneTheorems.thy ===== *)
theory ZoneTheorems
  imports ZoneProofs "HOL-Library.Code_Target_Nat"
begin

text \<open>
  The properties of the zone store, each stated over the definitions of ZoneRecords and ZoneStore
  and proved from the lemmas of ZoneRecords and ZoneProofs, and the concrete store on which their
  hypotheses are shown to hold: a zone of three records under a DNS library whose zone text is one
  character per record.
\<close>

section \<open>A concrete store\<close>

definition tiny_rr :: "char \<Rightarrow> rr" where
  "tiny_rr c =
     \<lparr>rname = ''a.'',
      rrtype = (if c = CHR ''*'' \<or> c = CHR ''&'' then 6 else if c = CHR ''%'' then 2 else 16),
      rclass = 1, rttl = 0,
      rdat = (if c = CHR ''*'' then SOA_d 5 [] else if c = CHR ''&'' then SOA_d 2023111400 []
              else Other_d [c])\<rparr>"

definition tiny_string :: "rr \<Rightarrow> string" where
  "tiny_string r = (case rdat r of SOA_d n _ \<Rightarrow> (if n = 5 then ''*'' else ''&'') | Other_d s \<Rightarrow> s | _ \<Rightarrow> [])"

definition tiny_dns :: dnslib where
  "tiny_dns = ref_dns\<lparr>
      parse_zone := (\<lambda>_ s. Inr (map tiny_rr (filter (\<lambda>c. c \<in> set ''*&%xy'') s))),
      new_rr := (\<lambda>s. OneRR (tiny_rr (last s))),
      rr_string := tiny_string\<rparr>"

definition demo_text :: bytes where "demo_text = ''*%x''"

definition demo_sha :: "bytes \<Rightarrow> string" where
  "demo_sha c = replicate 64 (if c = demo_text then CHR ''a'' else CHR ''b'')"

definition demo_store :: store where
  "demo_store = NewStore ''/z'' [] None tiny_dns demo_sha 1700000000000000000 1700000000000000000"

definition demo_world :: world where
  "demo_world = \<lparr>disk = [(''/z/a.zone'', Text demo_text),
     (''/z/.roles.json'', Json (enc_roles [(''a.'', ''primary'')]))], outcomes = [], snaps = []\<rparr>"

definition demo_req :: ChangeRequest where
  "demo_req = \<lparr>cr_expected = replicate 64 (CHR ''a''), cr_dry_run = False,
     cr_changes = [\<lparr>ch_action = ''upsert'', ch_name = [], ch_type = ''TXT'', ch_ttl = 0, ch_records = [''y'']\<rparr>]\<rparr>"

lemma tiny_fields [simp]:
  "fqdn tiny_dns = fqdn ref_dns" "is_fqdn tiny_dns = is_fqdn ref_dns"
  by (simp_all add: tiny_dns_def)

lemma demo_fields [simp]: "s_dns demo_store = tiny_dns" "s_sha demo_store = demo_sha" "s_verifier demo_store = None"
  by (simp_all add: demo_store_def NewStore_def)

lemma demo_good: "good_store demo_store"
proof -
  have "store_layout demo_store"
    unfolding demo_store_def by (rule NewStore_layout) (simp_all add: path_join_def)
  moreover have "validRevision (replicate 64 (CHR ''a''))" "validRevision (replicate 64 (CHR ''b''))"
    by code_simp+
  then have "sha_law demo_store" by (simp add: sha_law_def demo_sha_def)
  moreover have "fqdn_law tiny_dns" using ref_dns_fqdn_law unfolding fqdn_law_def tiny_fields .
  ultimately show ?thesis by (simp add: good_store_def)
qed

lemma tiny_typed: "parser_typed tiny_dns"
  by (auto simp: parser_typed_def tiny_dns_def rr_typed_def tiny_rr_def soa_serial_def type_codes)

lemma demo_path: "pathFor demo_store ''a'' = Inr (''/z/a.zone'', ''a.'')"
  by code_simp

lemma demo_published: "cres_published (fst (fst (zoneApply demo_store ''a'' demo_req ''me'' ''r1'' demo_world)))"
  by code_simp

section \<open>Any sequence of operations\<close>

text \<open>C1. Take any sequence of Apply, Rollback, Create and Delete requests, at any times, with any
  verifier and with any system calls failing.  At every instant (so also after a crash) every
  history file that existed before is still there unchanged, every new history file holds exactly
  the text its name is the SHA-256 of, and every zone file either is as it was or is the complete
  rendering of a valid record list.\<close>

theorem zone_files_sound_at_every_instant:
  assumes "good_store st" and "zone_steps st w w'"
  shows "\<exists>ss. snaps w' = snaps w @ ss \<and>
     (\<forall>d\<in>set (ss @ [disk w']).
        history_kept st (disk w) d \<and> history_true st (disk w) d \<and> zones_true st (disk w) d)"
  using zone_steps_inv [OF assms(2,1)] by (auto simp: within_def store_inv_def)

theorem zone_files_sound_at_every_instant_witness:
  "\<exists>ss. snaps (run_zop (store_at demo_store 0 0 None) (OpApply ''a'' demo_req ''me'' ''r1'')
            (demo_world\<lparr>outcomes := [None]\<rparr>)) = snaps demo_world @ ss \<and>
     (\<forall>d\<in>set (ss @ [disk (run_zop (store_at demo_store 0 0 None) (OpApply ''a'' demo_req ''me'' ''r1'')
            (demo_world\<lparr>outcomes := [None]\<rparr>))]).
        history_kept demo_store (disk demo_world) d \<and> history_true demo_store (disk demo_world) d \<and>
        zones_true demo_store (disk demo_world) d)"
  by (rule zone_files_sound_at_every_instant [OF demo_good]) (intro zone_steps.intros)

section \<open>Apply\<close>

text \<open>C2. When Apply reports a publication, the zone is classified primary in the role manifest, the
  caller named the revision of the text that was on disk, the requested changes applied to that
  text's records give a valid record list, the zone file now holds the rendering of that list under
  a strictly greater serial (serial and revision being the ones reported), and the replaced
  revision is in the history.\<close>

theorem apply_publishes_requested_change:
  assumes "good_store st"
    and "zoneApply st n req actor rid w = ((res, err), w')"
    and "cres_published res"
  shows "\<exists>p z old rrs0 rrs. pathFor st n = Inr (p, z) \<and> flookup w p = Some (Text old) \<and>
     cr_expected req = s_sha st old \<and>
     parse_zone (s_dns st) [] old = Inr rrs0 \<and>
     applyChanges (s_dns st) rrs0 z (cr_changes req) = Inr rrs \<and> zone_valid (s_dns st) z rrs \<and>
     cres_previous_serial res < cres_serial res \<and>
     flookup w' p = Some (Text (render (s_dns st) z (setSOASerial rrs (cres_serial res)))) \<and>
     cres_revision res = s_sha st (render (s_dns st) z (setSOASerial rrs (cres_serial res))) \<and>
     flookup w' (hist_path st z (s_sha st old)) \<noteq> None \<and>
     (\<exists>j roles. flookup w (roles_path st) = Some (Json j) \<and> dec_roles j = Some roles \<and>
        map_of roles z = Some ''primary'')"
  using published_apply [OF assms] .

theorem apply_publishes_requested_change_witness:
  "\<exists>p z old rrs0 rrs. pathFor demo_store ''a'' = Inr (p, z) \<and> flookup demo_world p = Some (Text old) \<and>
     cr_expected demo_req = demo_sha old \<and>
     parse_zone tiny_dns [] old = Inr rrs0 \<and>
     applyChanges tiny_dns rrs0 z (cr_changes demo_req) = Inr rrs \<and> zone_valid tiny_dns z rrs"
proof -
  obtain res err w' where run: "zoneApply demo_store ''a'' demo_req ''me'' ''r1'' demo_world = ((res, err), w')"
    by (metis prod.collapse)
  then have "cres_published res" using demo_published by simp
  from apply_publishes_requested_change [OF demo_good run this] show ?thesis by auto
qed



text \<open>A request that is a dry run, that names another revision than the one on disk, or that is
  made for a zone whose manifest entry is missing or not primary publishes nothing and leaves the
  disk as it was at every instant.\<close>

lemma apply_refuses_without_effect:
  assumes "fqdn_law (s_dns st)" and "zoneApply st n req actor rid w = ((res, err), w')"
    and "cr_dry_run req \<or> zone_rev st w n \<noteq> Some (cr_expected req) \<or>
         (\<forall>j roles z. flookup w (roles_path st) = Some (Json j) \<longrightarrow> dec_roles j = Some roles \<longrightarrow>
            map_of roles z \<noteq> Some ''primary'')"
  shows "\<not> cres_published res \<and> disk w' = disk w \<and> snaps w' = snaps w \<and> (cr_dry_run req \<or> err \<noteq> None)"
  using assms(1,2)
proof (cases rule: zoneApply_cases)
  case (rejected e)
  then show ?thesis by (auto simp: no_change_result_def)
next
  case (committed cur p w1 rrs)
  have "zone_rev st w n = Some (cr_expected req)"
    using committed(5,6,7) by (simp add: zone_rev_def loaded_def)
  moreover note zoneGet_primary [OF committed(1,4)]
  ultimately have dry: "cr_dry_run req" using assms(3) by blast
  then have "commit st cur rrs (cr_changes req) True [] actor rid w1 = ((res, err), w')"
    using committed(10) by simp
  then have "w' = w1" "\<not> cres_published res"
    using commit_dry [of st cur rrs "cr_changes req" "[]" actor rid w1]
    by (auto simp: commit_def Let_def split: sum.splits)
  with committed(2,3) dry show ?thesis by simp
qed

lemma apply_refuses_without_effect_example:
  "disk (snd (zoneApply demo_store ''a'' (demo_req\<lparr>cr_dry_run := True\<rparr>) ''me'' ''r1'' demo_world)) = disk demo_world"
proof -
  obtain res err w' where run: "zoneApply demo_store ''a'' (demo_req\<lparr>cr_dry_run := True\<rparr>) ''me'' ''r1'' demo_world
      = ((res, err), w')" by (metis prod.collapse)
  have "fqdn_law (s_dns demo_store)" using demo_good unfolding good_store_def by blast
  from apply_refuses_without_effect [OF this run] show ?thesis using run by simp
qed



text \<open>C6. With the file system working, if CoreDNS does not come to serve the new serial the old zone
  text is back in place, nothing is reported as published and an error is returned.\<close>

theorem apply_restores_unpublished_zone:
  assumes "good_store st" and "calm w" and "s_verifier st = Some v"
    and "\<And>z n d. v_serial v z n d \<noteq> None"
    and "pathFor st name = Inr (p, z)" and "flookup w p = Some (Text old)"
    and "zoneApply st name req actor rid w = ((res, err), w')" and "\<not> cr_dry_run req"
  shows "flookup w' p = Some (Text old) \<and> \<not> cres_published res \<and> err \<noteq> None"
proof -
  have "fqdn_law (s_dns st)" using assms(1) by (simp add: good_store_def)
  then show ?thesis using assms(7)
  proof (cases rule: zoneApply_cases)
    case rejected
    then show ?thesis using assms(6) by (auto simp: no_change_result_def)
  next
    case (committed cur q w1 rrs)
    have q: "q = p" "z_content cur = old" using committed(6,7) assms(5,6) by (auto simp: loaded_def)
    have c1: "calm w1"
    proof -
      obtain c where "loadPath st p w = (c, w)" using assms(2,6)
        by (simp add: loadPath_def os_read_file_calm)
      moreover obtain r where "loadRoles st w = (r, w)" using loadRoles_calm [OF assms(2)] by blast
      ultimately have "w1 = w" using committed(1) assms(5)
        by (auto simp: zoneGet_def split: sum.splits zerr.splits if_splits)
      then show ?thesis using assms(2) by simp
    qed
    show ?thesis
      using commit_restores [OF assms(1) _ c1 assms(3,4), of cur q rrs "cr_changes req" "[]" actor rid res err w']
        committed(2,6,10) assms(8) q by simp
  qed
qed

definition deaf :: verifier where
  "deaf = \<lparr>v_serial = (\<lambda>_ _ _. Some ''timeout''), v_absence = (\<lambda>_ _. Some ''timeout''), v_notify = (\<lambda>_ _. None)\<rparr>"

theorem apply_restores_unpublished_zone_witness:
  "flookup (snd (zoneApply (store_at demo_store 0 0 (Some deaf)) ''a'' demo_req ''me'' ''r1'' demo_world)) ''/z/a.zone''
     = Some (Text demo_text)"
proof -
  let ?st = "store_at demo_store 0 0 (Some deaf)"
  obtain res err w' where run: "zoneApply ?st ''a'' demo_req ''me'' ''r1'' demo_world = ((res, err), w')"
    by (metis prod.collapse)
  have "good_store ?st" "s_verifier ?st = Some deaf" "pathFor ?st ''a'' = Inr (''/z/a.zone'', ''a.'')"
    "v_serial deaf z n d \<noteq> None" for z n d
    using demo_good demo_path by (simp_all add: deaf_def)
  from apply_restores_unpublished_zone [OF this(1) _ this(2,4,3) _ run] show ?thesis
    using run by (simp add: demo_world_def demo_req_def)
qed

lemma demo_serial: "cres_serial (fst (fst (zoneApply demo_store ''a'' demo_req ''me'' ''r1'' demo_world))) = 2023111400"
  by code_simp

lemma demo_revision:
  "cres_revision (fst (fst (zoneApply demo_store ''a'' demo_req ''me'' ''r1'' demo_world))) = replicate 64 (CHR ''b'')"
  "snd (fst (zoneApply demo_store ''a'' demo_req ''me'' ''r1'' demo_world)) = None"
  by code_simp+

lemma demo_changes: "applyChanges tiny_dns (map tiny_rr ''*%x'') ''a.'' (cr_changes demo_req) = Inr (map tiny_rr ''*%y'')"
  by code_simp

lemma demo_new_text: "parse_zone tiny_dns [] (render tiny_dns ''a.'' (map tiny_rr ''&%y'')) =
    Inr (render_order tiny_dns ''a.'' (map tiny_rr ''&%y''))"
  "distinct (map (rr_key tiny_dns) (map tiny_rr ''&%y''))"
  by code_simp+

text \<open>What the tiny library prints for the demonstration change, it reads back.\<close>

lemma demo_lib:
  assumes a: "pathFor demo_store ''a'' = Inr (p, z)" "flookup demo_world p = Some (Text old)"
    "parse_zone (s_dns demo_store) [] old = Inr rrs0"
    "applyChanges (s_dns demo_store) rrs0 z (cr_changes demo_req) = Inr rrs"
  shows "print_parse (s_dns demo_store) z (setSOASerial rrs 2023111400) \<and>
    distinct (map (rr_key (s_dns demo_store)) (setSOASerial rrs 2023111400))"
proof -
  have tx: "parse_zone tiny_dns [] demo_text = Inr (map tiny_rr ''*%x'')"
    by (simp add: tiny_dns_def demo_text_def)
  have pz: "p = ''/z/a.zone''" "z = ''a.''" using a(1) demo_path by simp_all
  then have "old = demo_text" using a(2) by (simp add: demo_world_def)
  then have "rrs0 = map tiny_rr ''*%x''" using a(3) tx by (simp only: demo_fields sum.inject)
  then have "rrs = map tiny_rr ''*%y''" using a(4) pz demo_changes by (simp only: demo_fields sum.inject)
  then have r: "setSOASerial rrs 2023111400 = map tiny_rr ''&%y''" by (simp add: tiny_rr_def)
  show ?thesis unfolding r pz(2) demo_fields print_parse_def using demo_new_text by (rule conjI)
qed

section \<open>Rollback\<close>

text \<open>C8. When Rollback reports a publication, the caller named the current revision, the target is a
  file of the zone's history that still hashes to its name, and the zone file now holds exactly the
  target's records, the SOA apart, under a serial greater than the one it replaces; the replaced
  revision is in the history.\<close>

theorem rollback_republishes_target:
  assumes "good_store st" and "zoneRollback st n req actor rid w = ((res, err), w')"
    and "cres_published res"
  shows "\<exists>p z old t rrs rrs'. pathFor st n = Inr (p, z) \<and> flookup w p = Some (Text old) \<and>
     rb_expected req = s_sha st old \<and>
     flookup w (hist_path st z (rb_target req)) = Some (Text t) \<and> s_sha st t = rb_target req \<and>
     parse_zone (s_dns st) [] t = Inr rrs \<and> zone_valid (s_dns st) z rrs \<and>
     flookup w' p = Some (Text (render (s_dns st) z rrs')) \<and>
     rrs' = setSOASerial rrs (cres_serial res) \<and>
     filter (\<lambda>r. \<not> is_soa r) rrs' = filter (\<lambda>r. \<not> is_soa r) rrs \<and>
     cres_previous_serial res < cres_serial res \<and>
     flookup w' (hist_path st z (s_sha st old)) \<noteq> None"
proof -
  have "fqdn_law (s_dns st)" using assms(1) by (simp add: good_store_def)
  then show ?thesis using assms(2)
  proof (cases rule: zoneRollback_cases)
    case rejected
    then show ?thesis using assms(3) by (auto simp: no_change_result_def)
  next
    case (committed cur p w1 target w2)
    have dry: "\<not> rb_dry_run req"
    proof
      assume "rb_dry_run req"
      with committed(9) have "fst (fst (commit st cur (z_rrs target) (diffRRsets (z_rrsets cur) (z_rrsets target))
          True (rb_target req) actor rid w2)) = res" by simp
      with commit_dry assms(3) show False by metis
    qed
    have l: "loaded st (disk w2) cur p" using committed(4,7) by simp
    have c: "commit st cur (z_rrs target) (diffRRsets (z_rrsets cur) (z_rrsets target)) False
        (rb_target req) actor rid w2 = ((res, err), w')" using committed(9) dry by simp
    obtain serial where s: "nextSerial (z_serial cur) (s_now st) = Inr serial"
      "flookup w' p = Some (Text (render (s_dns st) (z_name cur) (setSOASerial (z_rrs target) serial)))"
      "flookup w' (hist_path st (z_name cur) (z_revision cur)) \<noteq> None"
      "cres_serial res = serial" "cres_previous_serial res = z_serial cur"
      using commit_published [OF assms(1) l c assms(3)] by metis
    note t = load_target_parse [OF committed(6)]
    have d1: "disk w1 = disk w" using zoneGet_frame [OF committed(1)] by simp
    have rv: "z_revision cur = s_sha st (z_content cur)" "flookup w p = Some (Text (z_content cur))"
      using committed(4) by (simp_all add: loaded_def)
    have gt: "cres_previous_serial res < cres_serial res" using nextSerial_grows [OF s(1)] s by simp
    show ?thesis
      by (intro exI [of _ p] exI [of _ "z_name cur"] exI [of _ "z_content cur"] exI [of _ "z_content target"]
          exI [of _ "z_rrs target"] exI [of _ "setSOASerial (z_rrs target) serial"])
        (use committed t d1 rv s gt setSOASerial_others in simp)
  qed
qed

definition demo_back :: world where
  "demo_back = \<lparr>disk = (''/history/a/'' @ replicate 64 (CHR ''b'') @ ''.zone'', Text ''*%y'') # disk demo_world,
     outcomes = [], snaps = []\<rparr>"

definition demo_rollback :: RollbackRequest where
  "demo_rollback = \<lparr>rb_expected = replicate 64 (CHR ''a''), rb_target = replicate 64 (CHR ''b''), rb_dry_run = False\<rparr>"

theorem rollback_republishes_target_witness:
  "\<exists>p z t rrs. pathFor demo_store ''a'' = Inr (p, z) \<and>
     flookup demo_back (hist_path demo_store z (rb_target demo_rollback)) = Some (Text t) \<and>
     parse_zone tiny_dns [] t = Inr rrs \<and> zone_valid tiny_dns z rrs"
proof -
  obtain res err w' where run: "zoneRollback demo_store ''a'' demo_rollback ''me'' ''r1'' demo_back = ((res, err), w')"
    by (metis prod.collapse)
  have "cres_published (fst (fst (zoneRollback demo_store ''a'' demo_rollback ''me'' ''r1'' demo_back)))"
    by code_simp
  then have "cres_published res" using run by simp
  from rollback_republishes_target [OF demo_good run this] show ?thesis by auto
qed

section \<open>Create and Delete\<close>

text \<open>C9. When Create reports a publication, the zone had no file before; its file now holds the
  rendering of the valid record list the submitted text parses to, revision and serial are those of
  that text, and the role manifest classifies the zone as requested (primary when no role was given).\<close>

theorem create_installs_zone:
  assumes "good_store st" and "zoneCreate st n req actor rid w = ((res, err), w')" and "lres_published res"
  shows "\<exists>p z rrs role roles. pathFor st n = Inr (p, z) \<and> flookup w p = None \<and>
     parse_zone (s_dns st) z (lr_zone_text req) = Inr rrs \<and> zone_valid (s_dns st) z rrs \<and>
     flookup w' p = Some (Text (render (s_dns st) z rrs)) \<and>
     lres_revision res = s_sha st (render (s_dns st) z rrs) \<and> lres_serial res = last_serial rrs \<and>
     validRole (lr_role req) = Inr role \<and> lres_role res = role \<and>
     flookup w' (roles_path st) = Some (Json (enc_roles roles)) \<and> map_of roles z = Some role"
  using assms(2)
proof (cases rule: zoneCreate_cases)
  case stopped
  then show ?thesis using assms(2,3) create_dry_unpublished [OF assms(2)]
    by (auto simp: no_lifecycle_result_def)
next
  case (installed p z role zone content roles w1)
  let ?r = "\<lparr>lres_action = ''create'', lres_zone = z, lres_role = role, lres_revision = revision st content,
      lres_serial = z_serial zone, lres_dry_run = False, lres_published = False,
      lres_request_id = rid, lres_warning = []\<rparr>"
  note pt = parseZoneText_Inr [OF installed(4)]
  have law: "fqdn_law (s_dns st)" using assms(1) by (simp add: good_store_def)
  have p: "pathFor st (z_name zone) = Inr (p, z_name zone)"
    using pathFor_canonical [OF law installed(1)] pt(1) by simp
  note i = install_zone_published [OF assms(1) p installed(10) assms(3)]
  have "map_of (AList.update z role roles) z = Some role" by (simp add: update_conv')
  then show ?thesis
    by (intro exI [of _ p] exI [of _ z] exI [of _ "z_rrs zone"] exI [of _ role]
        exI [of _ "AList.update z role roles"]) (use i pt installed(1-3) in \<open>simp add: revision_def\<close>)
qed

definition demo_create :: LifecycleRequest where
  "demo_create = \<lparr>lr_role = [], lr_zone_text = ''*%x'', lr_expected = [], lr_dry_run = False\<rparr>"

definition empty_world :: world where
  "empty_world = \<lparr>disk = [], outcomes = [], snaps = []\<rparr>"

theorem create_installs_zone_witness:
  "\<exists>p z rrs. pathFor demo_store ''a'' = Inr (p, z) \<and> parse_zone tiny_dns z (lr_zone_text demo_create) = Inr rrs \<and>
     flookup (snd (zoneCreate demo_store ''a'' demo_create ''me'' ''r1'' empty_world)) p
       = Some (Text (render tiny_dns z rrs))"
proof -
  obtain res err w' where run: "zoneCreate demo_store ''a'' demo_create ''me'' ''r1'' empty_world = ((res, err), w')"
    by (metis prod.collapse)
  have "lres_published (fst (fst (zoneCreate demo_store ''a'' demo_create ''me'' ''r1'' empty_world)))"
    by code_simp
  then have "lres_published res" using run by simp
  from create_installs_zone [OF demo_good run this] show ?thesis using run by auto
qed

text \<open>C10. When Delete reports a publication, the caller named the revision of the zone text that was
  there, the zone file is gone, its revision is in the history and the role manifest no longer
  classifies the zone.\<close>

theorem delete_retires_zone:
  assumes "good_store st" and "zoneDelete st n req actor rid w = ((res, err), w')" and "lres_published res"
  shows "\<exists>p z old roles. pathFor st n = Inr (p, z) \<and> flookup w p = Some (Text old) \<and>
     lr_expected req = s_sha st old \<and> flookup w' p = None \<and>
     flookup w' (hist_path st z (s_sha st old)) \<noteq> None \<and>
     flookup w' (roles_path st) = Some (Json (enc_roles roles)) \<and> map_of roles z = None"
  using delete_published [OF assms] .

definition demo_delete :: LifecycleRequest where
  "demo_delete = \<lparr>lr_role = [], lr_zone_text = [], lr_expected = replicate 64 (CHR ''a''), lr_dry_run = False\<rparr>"

theorem delete_retires_zone_witness:
  "\<exists>p z. pathFor demo_store ''a'' = Inr (p, z) \<and>
     flookup (snd (zoneDelete demo_store ''a'' demo_delete ''me'' ''r1'' demo_world)) p = None"
proof -
  obtain res err w' where run: "zoneDelete demo_store ''a'' demo_delete ''me'' ''r1'' demo_world = ((res, err), w')"
    by (metis prod.collapse)
  have "lres_published (fst (fst (zoneDelete demo_store ''a'' demo_delete ''me'' ''r1'' demo_world)))"
    by code_simp
  then have "lres_published res" using run by simp
  from delete_retires_zone [OF demo_good run this] show ?thesis using run by auto
qed

section \<open>Records\<close>

text \<open>C11. Validation accepts exactly the record lists in which every record is of class IN and below
  the zone's name, no two print alike up to case, exactly one is an SOA and it is at the apex, some
  NS record is at the apex, and a name with a CNAME carries nothing but CNAME, RRSIG, NSEC and
  NSEC3 records.\<close>

theorem validate_accepts_exactly_valid_zones: "validate D zone rrs = None \<longleftrightarrow> zone_valid D zone rrs"
  by (rule validate_iff)

text \<open>C12. A change that is accepted replaces the one RRset it names, never the SOA, by the records its
  values parse to (none for a delete) and keeps every other record in its order.\<close>

theorem accepted_change_replaces_one_rrset:
  assumes "applyChange D rrs zone c = Inr out"
    and "\<And>name code. ownerName D zone (ch_name c) = Inr name \<Longrightarrow>
        string_to_type D (to_upper (trim_space (ch_type c))) = Some code \<Longrightarrow>
        new_rr_law D name (to_upper (trim_space (ch_type c))) code"
  shows "\<exists>name code new.
     ownerName D zone (ch_name c) = Inr name \<and> code \<noteq> TypeSOA \<and>
     string_to_type D (to_upper (trim_space (ch_type c))) = Some code \<and>
     filter (in_rrset D name code) out = new \<and>
     filter (\<lambda>r. \<not> in_rrset D name code r) out = filter (\<lambda>r. \<not> in_rrset D name code r) rrs \<and>
     (if to_lower (ch_action c) = ''delete'' then new = []
      else map OneRR new = map (\<lambda>v. new_rr D (presentation name (ch_ttl c)
             (to_upper (trim_space (ch_type c))) v)) (ch_records c))"
  using applyChange_replaces [OF assms] unfolding replaces_rrset_def by blast

definition demo_delete_change :: Change where
  "demo_delete_change = \<lparr>ch_action = ''delete'', ch_name = ''@'', ch_type = ''TXT'', ch_ttl = 0, ch_records = []\<rparr>"

definition one_txt_dns :: dnslib where
  "one_txt_dns = tiny_dns\<lparr>new_rr := (\<lambda>s. OneRR (tiny_rr (CHR ''y'')))\<rparr>"

theorem accepted_change_replaces_one_rrset_witness:
  "\<exists>name code. ownerName one_txt_dns ''a.'' ''@'' = Inr name \<and>
     filter (in_rrset one_txt_dns name code) (map tiny_rr ''*%'') = []"
proof -
  have ok: "applyChange one_txt_dns (map tiny_rr ''*%x'') ''a.'' demo_delete_change = Inr (map tiny_rr ''*%'')"
    by code_simp
  have "ownerName one_txt_dns ''a.'' (ch_name demo_delete_change) = Inr ''a.''" by code_simp
  moreover have "string_to_type one_txt_dns (to_upper (trim_space (ch_type demo_delete_change))) = Some 16"
    by code_simp
  moreover have "in_rrset one_txt_dns ''a.'' 16 (tiny_rr (CHR ''y''))" by code_simp
  ultimately have "new_rr_law one_txt_dns name (to_upper (trim_space (ch_type demo_delete_change))) code"
    if "ownerName one_txt_dns ''a.'' (ch_name demo_delete_change) = Inr name"
      "string_to_type one_txt_dns (to_upper (trim_space (ch_type demo_delete_change))) = Some code" for name code
    using that by (simp add: new_rr_law_def one_txt_dns_def)
  from accepted_change_replaces_one_rrset [OF ok this] obtain name code new where
    "ownerName one_txt_dns ''a.'' (ch_name demo_delete_change) = Inr name"
    "filter (in_rrset one_txt_dns name code) (map tiny_rr ''*%'') = new"
    "to_lower (ch_action demo_delete_change) = ''delete'' \<longrightarrow> new = []" by metis
  moreover have "to_lower (ch_action demo_delete_change) = ''delete''" "ch_name demo_delete_change = ''@''"
    by code_simp+
  ultimately show ?thesis by metis
qed

text \<open>The serial a change gets is strictly greater than the current one as an unsigned 32-bit
  number, so it never wraps, and the only serial from which there is none is the largest.\<close>

lemma next_serial_strictly_grows:
  "(case nextSerial current now of Inr serial \<Rightarrow> current < serial | Inl e \<Rightarrow> current = 4294967295) \<and>
   ((\<exists>e. nextSerial current now = Inl e) \<longleftrightarrow> current = 4294967295)"
  using nextSerial_grows [of current now] nextSerial_total [of current now]
  by (cases "nextSerial current now") auto

text \<open>The changes a rollback reports, applied to the current RRsets, give the target's RRsets for
  every name and type but the SOA, which they never mention.\<close>

lemma reported_difference_reaches_target:
  assumes "distinct (map rs_key from)" and "distinct (map rs_key to)" and "snd k \<noteq> ''SOA''"
  shows "fold change_state (diffRRsets from to) (rr_state from) k = rr_state to k \<and>
     (\<forall>c\<in>set (diffRRsets from to). ch_type c \<noteq> ''SOA'') \<and> diffRRsets from from = []"
  using diff_reaches_target [OF assms] diff_no_soa [OF assms(1,2)] diff_self [OF assms(1)] by blast

text \<open>Grouping partitions the records of a zone: sorted by name and type there is one RRset per
  owner and type that occurs, holding the sorted values of exactly its records.\<close>

lemma grouping_partitions_records:
  "sorted (map (\<lambda>s. (rs_name s, rs_type s)) (groupRRsets D rrs)) \<and>
   length (groupRRsets D rrs) = card (key_of D ` set rrs) \<and>
   set (groupRRsets D rrs) =
     (\<lambda>k. (rrset_for D rrs k)\<lparr>rs_records := sort (map (rdata_text D) (members D k rrs))\<rparr>) `
       key_of D ` set rrs"
  by (rule groupRRsets_spec)

end
