(* ===== verification/Analytics.thy ===== *)
theory Analytics
  imports Disk Contracts
begin

text \<open>
  Query analytics (internal/querytelemetry/analytics.go): five-minute buckets of bounded counters,
  a ring of recent queries, their snapshot, checkpoint and restore.

  Counters are unbounded natural numbers where the code has uint64.  A percentage is kept as its
  numerator and denominator.  The clock is an argument of every operation that reads it, and a nil
  \<open>*Analytics\<close> is \<open>None\<close> where a nil receiver is allowed for.
\<close>

section \<open>Data\<close>

definition bucketWidth :: duration where "bucketWidth = 5 * minute"
definition analyticsVersion :: int where "analyticsVersion = 1"
definition maxDomainSlots :: int where "maxDomainSlots = 2000000"
definition maxClientSlots :: int where "maxClientSlots = 500000"

record AnalyticsConfig =
  ac_mode :: string
  ac_retention :: duration
  ac_max_domains :: int
  ac_max_clients :: int
  ac_recent :: int

record Observation =
  o_time :: gotime
  o_domain :: string
  o_client :: string
  o_type :: string
  o_protocol :: string
  o_blocked :: bool

record RankedItem =
  ri_name :: string
  ri_queries :: nat
  ri_blocked :: nat
  ri_percent :: "nat \<times> nat"

record Snapshot =
  sn_enabled :: bool
  sn_mode :: string
  sn_range :: string
  sn_start :: gotime
  sn_end :: gotime
  sn_retention_hours :: int
  sn_queries :: nat
  sn_blocked :: nat
  sn_blocked_percent :: "nat \<times> nat"
  sn_tracked_domains :: nat
  sn_tracked_clients :: nat
  sn_truncated :: bool
  sn_top_domains :: "RankedItem list"
  sn_top_blocked :: "RankedItem list"
  sn_top_clients :: "RankedItem list"
  sn_types :: "RankedItem list"
  sn_recent :: "Observation list"

type_synonym counts = "(string, nat) gomap"

record analyticsBucket =
  b_start :: gotime
  b_queries :: nat
  b_blocked :: nat
  b_domains :: counts
  b_blocked_domains :: counts
  b_clients :: counts
  b_blocked_clients :: counts
  b_types :: counts
  b_domains_truncated :: bool
  b_clients_truncated :: bool
  b_types_truncated :: bool

record Analytics =
  a_config :: AnalyticsConfig
  a_buckets :: "(int, analyticsBucket) gomap"
  a_recent :: "Observation list"
  a_next :: nat

section \<open>Configuration\<close>

definition default_to :: "int \<Rightarrow> int \<Rightarrow> int" where
  "default_to d n = (if n = 0 then d else n)"

definition fill_config :: "AnalyticsConfig \<Rightarrow> AnalyticsConfig" where
  "fill_config c =
     (let mode = to_lower (trim_space (ac_mode c))
      in \<lparr>ac_mode = (if mode = [] then ''aggregate'' else mode),
          ac_retention = default_to (7 * 24 * hour) (ac_retention c),
          ac_max_domains = default_to 512 (ac_max_domains c),
          ac_max_clients = default_to 128 (ac_max_clients c),
          ac_recent = default_to 1000 (ac_recent c)\<rparr>)"

definition NewAnalytics :: "AnalyticsConfig \<Rightarrow> string + Analytics" where
  "NewAnalytics config =
     (let c = fill_config config; buckets = ac_retention c div bucketWidth + 1
      in if ac_mode c \<notin> {''aggregate'', ''statistics'', ''detailed''} then Inl ''analytics mode''
         else if ac_retention c < hour \<or> ac_retention c > 31 * 24 * hour then Inl ''analytics retention''
         else if ac_max_domains c < 16 \<or> ac_max_domains c > 10000 then Inl ''analytics max domains''
         else if ac_max_clients c < 8 \<or> ac_max_clients c > 4096 then Inl ''analytics max clients''
         else if ac_recent c < 1 \<or> ac_recent c > 10000 then Inl ''analytics recent query limit''
         else if ac_max_domains c * buckets > maxDomainSlots then Inl ''analytics domain capacity''
         else if ac_max_clients c * buckets > maxClientSlots then Inl ''analytics client capacity''
         else Inr \<lparr>a_config = c, a_buckets = [], a_recent = [], a_next = 0\<rparr>)"

definition Enabled :: "Analytics option \<Rightarrow> bool" where
  "Enabled a = (case a of None \<Rightarrow> False | Some x \<Rightarrow> ac_mode (a_config x) \<noteq> ''aggregate'')"

section \<open>Bounded counters\<close>

definition incrementBounded :: "counts \<Rightarrow> string \<Rightarrow> int \<Rightarrow> counts \<times> bool" where
  "incrementBounded values key limit =
     (case map_of values key of
        Some n \<Rightarrow> (AList.update key (Suc n) values, False)
      | None \<Rightarrow>
          if int (length values) < limit then (AList.update key 1 values, False)
          else (map (\<lambda>(k, c). (k, c - 1)) (filter (\<lambda>(k, c). \<not> c \<le> 1) values), True))"

definition mergeCounts :: "counts \<Rightarrow> counts \<Rightarrow> counts" where
  "mergeCounts target source = fold (\<lambda>(name, count) t. AList.update name (gomap_get 0 t name + count) t) source target"

definition rank_item :: "counts option \<Rightarrow> nat \<Rightarrow> string \<times> nat \<Rightarrow> RankedItem" where
  "rank_item blocked whole nq =
     \<lparr>ri_name = fst nq, ri_queries = snd nq,
      ri_blocked = (case blocked of None \<Rightarrow> 0 | Some b \<Rightarrow> gomap_get 0 b (fst nq)),
      ri_percent = (if whole > 0 then (snd nq * 100, whole) else (0, 1))\<rparr>"

definition rank :: "counts \<Rightarrow> counts option \<Rightarrow> nat \<Rightarrow> int \<Rightarrow> RankedItem list" where
  "rank values blocked whole limit =
     take (nat limit) (sort_key (\<lambda>i. (- int (ri_queries i), ri_name i)) (map (rank_item blocked whole) values))"

definition trimCounts :: "counts \<Rightarrow> int \<Rightarrow> counts" where
  "trimCounts values limit =
     (if int (length values) \<le> limit then values
      else map (\<lambda>i. (ri_name i, ri_queries i)) (rank values None 0 limit))"

section \<open>Recent queries\<close>

definition addRecent :: "AnalyticsConfig \<Rightarrow> Observation \<Rightarrow> Observation list \<times> nat \<Rightarrow> Observation list \<times> nat" where
  "addRecent c event r =
     (let (recent, next) = r
      in if int (length recent) < ac_recent c then (recent @ [event], next)
         else (recent[next := event], (next + 1) mod length recent))"

definition orderedRecent :: "AnalyticsConfig \<Rightarrow> Observation list \<times> nat \<Rightarrow> Observation list" where
  "orderedRecent c r =
     (let (recent, next) = r
      in if int (length recent) < ac_recent c \<or> next = 0 then recent
         else drop next recent @ take next recent)"

section \<open>Recording\<close>

definition prune :: "gotime \<Rightarrow> Analytics \<Rightarrow> Analytics" where
  "prune now a =
     a\<lparr>a_buckets := filter (\<lambda>(key, b). now - ac_retention (a_config a) < b_start b + bucketWidth) (a_buckets a)\<rparr>"

text \<open>\<open>Time.Truncate\<close> counts from Go's zero time.\<close>

definition truncate :: "gotime \<Rightarrow> duration \<Rightarrow> gotime" where
  "truncate t d = t - (t - zero_time) mod d"

definition empty_bucket :: "gotime \<Rightarrow> analyticsBucket" where
  "empty_bucket start =
     \<lparr>b_start = start, b_queries = 0, b_blocked = 0, b_domains = [], b_blocked_domains = [], b_clients = [],
      b_blocked_clients = [], b_types = [], b_domains_truncated = False, b_clients_truncated = False,
      b_types_truncated = False\<rparr>"

definition count_query :: "AnalyticsConfig \<Rightarrow> Observation \<Rightarrow> analyticsBucket \<Rightarrow> analyticsBucket" where
  "count_query c obs b =
     (let (ds, dt) = incrementBounded (b_domains b) (o_domain obs) (ac_max_domains c);
          (cs, ct) = incrementBounded (b_clients b) (o_client obs) (ac_max_clients c);
          (ts, tt) = incrementBounded (b_types b) (o_type obs) 64
      in b\<lparr>b_queries := Suc (b_queries b),
           b_domains := ds, b_domains_truncated := dt \<or> b_domains_truncated b,
           b_clients := cs, b_clients_truncated := ct \<or> b_clients_truncated b,
           b_types := ts, b_types_truncated := tt \<or> b_types_truncated b\<rparr>)"

definition count_blocked :: "AnalyticsConfig \<Rightarrow> Observation \<Rightarrow> analyticsBucket \<Rightarrow> analyticsBucket" where
  "count_blocked c obs b =
     (let (ds, dt) = incrementBounded (b_blocked_domains b) (o_domain obs) (ac_max_domains c);
          (cs, ct) = incrementBounded (b_blocked_clients b) (o_client obs) (ac_max_clients c)
      in b\<lparr>b_blocked := Suc (b_blocked b),
           b_blocked_domains := ds, b_domains_truncated := dt \<or> b_domains_truncated b,
           b_blocked_clients := cs, b_clients_truncated := ct \<or> b_clients_truncated b\<rparr>)"

definition or_else :: "string \<Rightarrow> string \<Rightarrow> string" where
  "or_else d s = (let t = trim_space s in if t = [] then d else t)"

definition clean_observation :: "gotime \<Rightarrow> Observation \<Rightarrow> Observation" where
  "clean_observation now obs =
     \<lparr>o_time = (if is_zero (o_time obs) then now else o_time obs),
      o_domain = to_lower (trim_suffix (trim_space (o_domain obs)) ''.''),
      o_client = or_else ''unknown'' (o_client obs),
      o_type = or_else ''OTHER'' (o_type obs),
      o_protocol = or_else ''UNKNOWN'' (o_protocol obs),
      o_blocked = o_blocked obs\<rparr>"

definition too_old_or_new :: "AnalyticsConfig \<Rightarrow> gotime \<Rightarrow> gotime \<Rightarrow> bool" where
  "too_old_or_new c now t = (\<not> now - ac_retention c < t + bucketWidth \<or> now + bucketWidth < t)"

definition Record :: "gotime \<Rightarrow> Observation \<Rightarrow> Analytics \<Rightarrow> Analytics" where
  "Record now observation a =
     (if \<not> Enabled (Some a) then a
      else let obs = clean_observation now observation; c = a_config a
        in if too_old_or_new c now (o_time obs) \<or> o_domain obs = [] then a
           else let a1 = prune now a;
                    start = truncate (o_time obs) bucketWidth;
                    key = unix_seconds start;
                    b0 = (case map_of (a_buckets a1) key of None \<Rightarrow> empty_bucket start | Some b \<Rightarrow> b);
                    b1 = count_query c obs b0;
                    b2 = (if o_blocked obs then count_blocked c obs b1 else b1);
                    r = (if ac_mode c = ''detailed'' then addRecent c obs (a_recent a1, a_next a1)
                         else (a_recent a1, a_next a1))
             in a1\<lparr>a_buckets := AList.update key b2 (a_buckets a1), a_recent := fst r, a_next := snd r\<rparr>)"

section \<open>Snapshot\<close>

definition analyticsRange :: "string \<Rightarrow> (duration \<times> string) option" where
  "analyticsRange value =
     (if value = ''1h'' then Some (hour, ''1h'')
      else if value = [] \<or> value = ''6h'' then Some (6 * hour, ''6h'')
      else if value = ''24h'' then Some (24 * hour, ''24h'')
      else if value = ''7d'' then Some (7 * 24 * hour, ''7d'')
      else None)"

definition defaultRange :: "string \<Rightarrow> string" where
  "defaultRange value = (case analyticsRange value of None \<Rightarrow> value | Some (d, n) \<Rightarrow> n)"

definition in_window :: "gotime \<Rightarrow> gotime \<Rightarrow> analyticsBucket \<Rightarrow> bool" where
  "in_window start now b = (start < b_start b + bucketWidth \<and> \<not> now < b_start b)"

definition merged :: "(analyticsBucket \<Rightarrow> counts) \<Rightarrow> analyticsBucket list \<Rightarrow> counts" where
  "merged f bs = fold (\<lambda>b t. mergeCounts t (f b)) bs []"

definition empty_snapshot :: "string \<Rightarrow> string \<Rightarrow> Snapshot" where
  "empty_snapshot mode rname =
     \<lparr>sn_enabled = False, sn_mode = mode, sn_range = rname, sn_start = zero_time, sn_end = zero_time,
      sn_retention_hours = 0, sn_queries = 0, sn_blocked = 0, sn_blocked_percent = (0, 1),
      sn_tracked_domains = 0, sn_tracked_clients = 0, sn_truncated = False, sn_top_domains = [],
      sn_top_blocked = [], sn_top_clients = [], sn_types = [], sn_recent = []\<rparr>"

definition fill_snapshot :: "Analytics \<Rightarrow> gotime \<Rightarrow> gotime \<Rightarrow> int \<Rightarrow> int \<Rightarrow> Snapshot \<Rightarrow> Snapshot" where
  "fill_snapshot a start now limit recentLimit s =
     (let bs = filter (in_window start now) (map snd (a_buckets a));
          queries = sum_list (map b_queries bs);
          blocked = sum_list (map b_blocked bs);
          domains = merged b_domains bs;
          blockedDomains = merged b_blocked_domains bs;
          clients = merged b_clients bs;
          recent = orderedRecent (a_config a) (a_recent a, a_next a)
      in s\<lparr>sn_queries := queries, sn_blocked := blocked,
           sn_truncated := list_ex (\<lambda>b. b_domains_truncated b \<or> b_clients_truncated b \<or> b_types_truncated b) bs,
           sn_blocked_percent := (if queries > 0 then (blocked * 100, queries) else (0, 1)),
           sn_tracked_domains := length domains, sn_tracked_clients := length clients,
           sn_top_domains := rank domains (Some blockedDomains) queries limit,
           sn_top_blocked := rank blockedDomains (Some blockedDomains) blocked limit,
           sn_top_clients := rank clients (Some (merged b_blocked_clients bs)) queries limit,
           sn_types := rank (merged b_types bs) None queries limit,
           sn_recent := (if ac_mode (a_config a) = ''detailed'' \<and> 0 < recentLimit
                         then take (nat recentLimit) (filter (\<lambda>e. start < o_time e \<and> \<not> now < o_time e) (rev recent))
                         else [])\<rparr>)"

definition takeSnapshot :: "Analytics option \<Rightarrow> gotime \<Rightarrow> string \<Rightarrow> int \<Rightarrow> int \<Rightarrow> (string + Snapshot) \<times> Analytics option" where
  "takeSnapshot ma now rangeName limit0 recentLimit =
     (case ma of
        None \<Rightarrow> (Inr (empty_snapshot ''aggregate'' (defaultRange rangeName)), None)
      | Some a \<Rightarrow>
          (case analyticsRange rangeName of
             None \<Rightarrow> (Inl ''range must be one of 1h, 6h, 24h, or 7d'', ma)
           | Some (dur, rname) \<Rightarrow>
               let limit = (if limit0 = 0 then 10 else limit0); start = now - dur;
                   s = (empty_snapshot (ac_mode (a_config a)) rname)
                         \<lparr>sn_enabled := Enabled ma, sn_start := start, sn_end := now,
                          sn_retention_hours := ac_retention (a_config a) div hour\<rparr>
               in if limit < 1 \<or> limit > 100 then (Inl ''limit must be between 1 and 100'', ma)
                  else if recentLimit < 0 \<or> recentLimit > 1000
                  then (Inl ''recent limit must be between 0 and 1000'', ma)
                  else if \<not> Enabled ma then (Inr s, ma)
                  else let a1 = prune now a in (Inr (fill_snapshot a1 start now limit recentLimit s), Some a1)))"

section \<open>Checkpoint\<close>

definition enc_counts :: "counts \<Rightarrow> jvalue" where
  "enc_counts m = of_map (\<lambda>n. JNum (int n)) m"

definition omit_false :: "string \<Rightarrow> bool \<Rightarrow> (string \<times> jvalue) list" where
  "omit_false k b = (if b then [(k, JBool True)] else [])"

definition enc_bucket :: "analyticsBucket \<Rightarrow> jvalue" where
  "enc_bucket b =
     JObj ([(''start'', JTime (b_start b)), (''queries'', JNum (int (b_queries b))),
            (''blocked'', JNum (int (b_blocked b))), (''domains'', enc_counts (b_domains b)),
            (''blocked_domains'', enc_counts (b_blocked_domains b)), (''clients'', enc_counts (b_clients b)),
            (''blocked_clients'', enc_counts (b_blocked_clients b)), (''types'', enc_counts (b_types b))] @
           omit_false ''domains_truncated'' (b_domains_truncated b) @
           omit_false ''clients_truncated'' (b_clients_truncated b) @
           omit_false ''types_truncated'' (b_types_truncated b))"

definition enc_event :: "Observation \<Rightarrow> jvalue" where
  "enc_event e =
     JObj [(''time'', JTime (o_time e)), (''domain'', JStr (o_domain e)), (''client'', JStr (o_client e)),
           (''type'', JStr (o_type e)), (''protocol'', JStr (o_protocol e)), (''blocked'', JBool (o_blocked e))]"

definition enc_analytics :: "analyticsBucket list \<Rightarrow> Observation list \<Rightarrow> jvalue" where
  "enc_analytics bs recent =
     JObj ([(''version'', JNum analyticsVersion),
            (''buckets'', if bs = [] then JNull else JArr (map enc_bucket bs))] @
           (if recent = [] then [] else [(''recent_queries'', JArr (map enc_event recent))]))"

definition Save :: "Analytics option \<Rightarrow> gotime \<Rightarrow> path \<Rightarrow> world \<Rightarrow> bool \<times> Analytics option \<times> world" where
  "Save ma now p w =
     (case ma of
        None \<Rightarrow> (True, ma, w)
      | Some a \<Rightarrow>
          if \<not> Enabled ma \<or> trim_space p = [] then (True, ma, w)
          else let a1 = prune now a;
                   state = enc_analytics (map snd (sort_key fst (a_buckets a1)))
                             (orderedRecent (a_config a1) (a_recent a1, a_next a1));
                   (ok, w1) = statusfile_WriteJSON p state w
               in (ok, Some a1, w1))"

section \<open>Restore\<close>

definition dec_field :: "(jvalue \<Rightarrow> 'a option) \<Rightarrow> jvalue \<Rightarrow> string \<Rightarrow> 'a option" where
  "dec_field f j k = Option.bind (jget j k) f"

definition dec_counts :: "jvalue \<Rightarrow> counts option" where
  "dec_counts j = as_map as_uint64 j"

definition dec_bucket :: "jvalue \<Rightarrow> analyticsBucket option" where
  "dec_bucket j =
     (case (dec_field as_time j ''start'', dec_field as_uint64 j ''queries'', dec_field as_uint64 j ''blocked'',
            dec_field dec_counts j ''domains'', dec_field dec_counts j ''blocked_domains'',
            dec_field dec_counts j ''clients'', dec_field dec_counts j ''blocked_clients'',
            dec_field dec_counts j ''types'', dec_field as_bool j ''domains_truncated'',
            dec_field as_bool j ''clients_truncated'', dec_field as_bool j ''types_truncated'') of
        (Some st, Some q, Some bl, Some d, Some bd, Some c, Some bc, Some t, Some dt, Some ct, Some tt) \<Rightarrow>
          Some \<lparr>b_start = st, b_queries = q, b_blocked = bl, b_domains = d, b_blocked_domains = bd,
                b_clients = c, b_blocked_clients = bc, b_types = t, b_domains_truncated = dt,
                b_clients_truncated = ct, b_types_truncated = tt\<rparr>
      | _ \<Rightarrow> None)"

text \<open>A null in the list of buckets is a nil pointer.\<close>

definition dec_bucket_ptr :: "jvalue \<Rightarrow> analyticsBucket option option" where
  "dec_bucket_ptr j = (if j = JNull then Some None else map_option Some (dec_bucket j))"

definition dec_event :: "jvalue \<Rightarrow> Observation option" where
  "dec_event j =
     (case (dec_field as_time j ''time'', dec_field as_str j ''domain'', dec_field as_str j ''client'',
            dec_field as_str j ''type'', dec_field as_str j ''protocol'', dec_field as_bool j ''blocked'') of
        (Some t, Some d, Some c, Some ty, Some p, Some b) \<Rightarrow>
          Some \<lparr>o_time = t, o_domain = d, o_client = c, o_type = ty, o_protocol = p, o_blocked = b\<rparr>
      | _ \<Rightarrow> None)"

definition restore_bucket :: "AnalyticsConfig \<Rightarrow> analyticsBucket \<Rightarrow> analyticsBucket" where
  "restore_bucket c b =
     b\<lparr>b_start := truncate (b_start b) bucketWidth,
       b_domains := trimCounts (b_domains b) (ac_max_domains c),
       b_blocked_domains := trimCounts (b_blocked_domains b) (ac_max_domains c),
       b_clients := trimCounts (b_clients b) (ac_max_clients c),
       b_blocked_clients := trimCounts (b_blocked_clients b) (ac_max_clients c),
       b_types := trimCounts (b_types b) 256\<rparr>"

definition stale_bucket :: "AnalyticsConfig \<Rightarrow> gotime \<Rightarrow> analyticsBucket \<Rightarrow> bool" where
  "stale_bucket c now b =
     (is_zero (b_start b) \<or> now + bucketWidth < b_start b \<or> \<not> now - ac_retention c < b_start b + bucketWidth)"

definition load_buckets :: "AnalyticsConfig \<Rightarrow> gotime \<Rightarrow> analyticsBucket option list \<Rightarrow> (int, analyticsBucket) gomap" where
  "load_buckets c now bs =
     fold (\<lambda>mb m. case mb of
             None \<Rightarrow> m
           | Some b \<Rightarrow> if stale_bucket c now b then m
                       else let b' = restore_bucket c b in AList.update (unix_seconds (b_start b')) b' m) bs []"

definition load_recent :: "AnalyticsConfig \<Rightarrow> gotime \<Rightarrow> Observation list \<Rightarrow> Observation list \<times> nat" where
  "load_recent c now es =
     (if ac_mode c = ''detailed''
      then fold (addRecent c)
             (filter (\<lambda>e. now - ac_retention c < o_time e \<and> \<not> now < o_time e)
               (drop (length es - nat (ac_recent c)) es)) ([], 0)
      else ([], 0))"

text \<open>\<open>Load\<close>; \<open>oversized\<close> says whether the file exceeds 64 MiB.\<close>

definition Load :: "Analytics option \<Rightarrow> gotime \<Rightarrow> (fdata \<Rightarrow> bool) \<Rightarrow> path \<Rightarrow> world \<Rightarrow> string option \<times> Analytics option \<times> world" where
  "Load ma now oversized p w =
     (case ma of
        None \<Rightarrow> (None, ma, w)
      | Some a \<Rightarrow>
          if \<not> Enabled ma \<or> trim_space p = [] then (None, ma, w)
          else case os_read_file p w of
            (Inl _, w1) \<Rightarrow> (Some ''open'', ma, w1)
          | (Inr f, w1) \<Rightarrow>
              if oversized f then (Some ''analytics state exceeds limit'', ma, w1)
              else case f of
                Json j \<Rightarrow>
                  (case (dec_field as_int64 j ''version'', dec_field (as_list dec_bucket_ptr) j ''buckets'',
                         dec_field (as_list dec_event) j ''recent_queries'') of
                     (Some v, Some bs, Some es) \<Rightarrow>
                       if v \<noteq> analyticsVersion then (Some ''unsupported analytics state version'', ma, w1)
                       else let r = load_recent (a_config a) now es
                            in (None, Some (a\<lparr>a_buckets := load_buckets (a_config a) now bs,
                                              a_recent := fst r, a_next := snd r\<rparr>), w1)
                   | _ \<Rightarrow> (Some ''decode analytics state'', ma, w1))
              | _ \<Rightarrow> (Some ''decode analytics state'', ma, w1))"

section \<open>The counters over- and undercount by a bounded amount\<close>

text \<open>A map of at most \<open>L\<close> counters after the keys \<open>ks\<close>, \<open>t\<close> of which hit the bound.\<close>

definition mg_inv :: "nat \<Rightarrow> string list \<Rightarrow> nat \<Rightarrow> counts \<Rightarrow> bool" where
  "mg_inv L ks t m \<longleftrightarrow>
     gomap_wf m \<and> length m \<le> L \<and> (\<forall>(k, c)\<in>set m. 1 \<le> c) \<and>
     (\<forall>k. gomap_get 0 m k \<le> count_list ks k \<and> count_list ks k \<le> gomap_get 0 m k + t) \<and>
     sum_list (map snd m) + t * Suc L = length ks"

definition counts_ok :: "int \<Rightarrow> counts \<Rightarrow> bool" where
  "counts_ok L m \<longleftrightarrow> gomap_wf m \<and> int (length m) \<le> L"

definition decrement :: "counts \<Rightarrow> counts" where
  "decrement m = map (\<lambda>(k, c). (k, c - 1)) (filter (\<lambda>(k, c). \<not> c \<le> 1) m)"

lemma fst_decrement: "map fst (decrement m) = map fst (filter (\<lambda>(k, c). \<not> c \<le> 1) m)"
  by (simp add: decrement_def comp_def case_prod_beta)

lemma decrement_wf: "gomap_wf m \<Longrightarrow> gomap_wf (decrement m)"
  unfolding fst_decrement by (rule distinct_map_filter)

lemma map_of_decrement:
  "gomap_wf m \<Longrightarrow> map_of (decrement m) k = (case map_of m k of None \<Rightarrow> None | Some c \<Rightarrow> if c \<le> 1 then None else Some (c - 1))"
proof (induction m)
  case (Cons kc m)
  obtain k' c where kc: "kc = (k', c)" by fastforce
  with Cons.prems have "map_of m k' = None" by (simp add: map_of_eq_None_iff)
  with Cons kc show ?case by (auto simp: decrement_def split: option.splits)
qed (simp add: decrement_def)

lemma gomap_get_decrement: "gomap_wf m \<Longrightarrow> gomap_get 0 (decrement m) k = gomap_get 0 m k - 1"
  by (simp add: gomap_get_def map_of_decrement split: option.split)

lemma sum_decrement: "\<forall>(k, c)\<in>set m. 1 \<le> c \<Longrightarrow> sum_list (map snd (decrement m)) + length m = sum_list (map snd m)"
proof (induction m)
  case (Cons kc m)
  then show ?case by (cases kc) (auto simp: decrement_def)
qed (simp add: decrement_def)

lemma length_decrement: "length (decrement m) \<le> length m"
  by (simp add: decrement_def)

lemma decrement_pos: "\<forall>(k, c)\<in>set (decrement m). 1 \<le> c"
  by (auto simp: decrement_def)

lemma sum_update:
  "gomap_wf m \<Longrightarrow> sum_list (map snd (AList.update k v m)) + gomap_get 0 m k = sum_list (map snd m) + (v :: nat)"
proof (induction m)
  case (Cons kc m)
  then show ?case by (cases kc) (auto simp: gomap_get_def map_of_eq_None_iff split: option.splits)
qed (simp add: gomap_get_def)

lemma update_pos: "\<forall>(k, c)\<in>set m. 1 \<le> c \<Longrightarrow> 1 \<le> (v :: nat) \<Longrightarrow> \<forall>(k, c)\<in>set (AList.update k v m). 1 \<le> c"
  by (induction m) (auto split: if_splits)

text \<open>The three outcomes of an increment.\<close>

lemma incrementBounded_cases:
  assumes "gomap_wf m"
  obtains (counted) "incrementBounded m k L = (AList.update k (Suc (gomap_get 0 m k)) m, False)"
      "gomap_has m k \<or> int (length m) < L"
  | (dropped) "incrementBounded m k L = (decrement m, True)" "map_of m k = None" "\<not> int (length m) < L"
proof (cases "map_of m k")
  case (Some n)
  then show thesis using counted by (simp add: incrementBounded_def gomap_get_def)
next
  case None
  then show thesis using counted dropped
    by (cases "int (length m) < L") (simp_all add: incrementBounded_def decrement_def gomap_get_def)
qed

lemma incrementBounded_ok: "counts_ok B m \<Longrightarrow> L \<le> B \<Longrightarrow> counts_ok B (fst (incrementBounded m k L))"
proof -
  assume ok: "counts_ok B m" "L \<le> B"
  then have wf: "gomap_wf m" by (simp add: counts_ok_def)
  then show ?thesis
  proof (cases rule: incrementBounded_cases [where k = k and L = L])
    case counted
    then show ?thesis using ok by (auto simp: counts_ok_def gomap_length_update distinct_update)
  next
    case dropped
    then show ?thesis using ok decrement_wf length_decrement [of m] by (auto simp: counts_ok_def)
  qed
qed

lemma mg_step:
  assumes inv: "mg_inv L ks t m"
  shows "\<exists>t'. mg_inv L (ks @ [k]) t' (fst (incrementBounded m k (int L)))"
proof -
  have wf: "gomap_wf m" and len: "length m \<le> L" and pos: "\<forall>(k, c)\<in>set m. 1 \<le> c"
    and est: "gomap_get 0 m x \<le> count_list ks x" "count_list ks x \<le> gomap_get 0 m x + t"
    and sm: "sum_list (map snd m) + t * Suc L = length ks" for x
    using inv by (simp_all add: mg_inv_def)
  from wf show ?thesis
  proof (cases rule: incrementBounded_cases [where k = k and L = "int L"])
    case counted
    let ?m = "AList.update k (Suc (gomap_get 0 m k)) m"
    have "sum_list (map snd ?m) = Suc (sum_list (map snd m))"
      using sum_update [OF wf, of k "Suc (gomap_get 0 m k)"] by simp
    moreover have "length ?m \<le> L" using counted(2) len by (auto simp: gomap_length_update [OF wf])
    moreover have "\<forall>(k, c)\<in>set ?m. 1 \<le> c" by (rule update_pos [OF pos]) simp
    moreover have "gomap_get 0 ?m x \<le> count_list (ks @ [k]) x \<and> count_list (ks @ [k]) x \<le> gomap_get 0 ?m x + t" for x
      using est [of x] by (auto simp: gomap_simps)
    ultimately have "mg_inv L (ks @ [k]) t ?m"
      using wf sm by (simp add: mg_inv_def distinct_update)
    then show ?thesis using counted(1) by auto
  next
    case dropped
    have "length m = L" using dropped(3) len by simp
    then have "sum_list (map snd (decrement m)) + Suc t * Suc L = length (ks @ [k])"
      using sum_decrement [OF pos] sm by simp
    moreover have g0: "gomap_get 0 m k = 0" using dropped(2) by (simp add: gomap_get_def)
    have "gomap_get 0 (decrement m) x \<le> count_list (ks @ [k]) x \<and>
        count_list (ks @ [k]) x \<le> gomap_get 0 (decrement m) x + Suc t" for x
      using est [of x] g0 by (cases "x = k") (auto simp: gomap_get_decrement [OF wf])
    ultimately have "mg_inv L (ks @ [k]) (Suc t) (decrement m)"
      using wf decrement_wf length_decrement [of m] decrement_pos len by (simp add: mg_inv_def)
    then show ?thesis using dropped(1) by auto
  qed
qed

definition count_all :: "nat \<Rightarrow> string list \<Rightarrow> counts" where
  "count_all L ks = fold (\<lambda>k m. fst (incrementBounded m k (int L))) ks []"

lemma count_all_inv: "\<exists>t. mg_inv L ks t (count_all L ks)"
proof (induction ks rule: rev_induct)
  case Nil
  show ?case by (rule exI [of _ 0]) (simp add: mg_inv_def count_all_def gomap_get_def)
next
  case (snoc k ks)
  then obtain t where "mg_inv L ks t (count_all L ks)" by blast
  from mg_step [OF this] show ?case by (simp add: count_all_def)
qed

lemma count_all_exact:
  assumes "card (set ks) \<le> L" shows "gomap_get 0 (count_all L ks) k = count_list ks k"
proof -
  have "mg_inv L ks 0 (count_all L ks) \<and> set (map fst (count_all L ks)) \<subseteq> set ks"
    using assms
  proof (induction ks rule: rev_induct)
    case Nil
    then show ?case by (simp add: mg_inv_def count_all_def gomap_get_def)
  next
    case (snoc k ks)
    let ?m = "count_all L ks"
    have "card (set ks) \<le> card (set (ks @ [k]))" by (intro card_mono) auto
    then have "card (set ks) \<le> L" using snoc.prems by simp
    then have inv: "mg_inv L ks 0 ?m" and keys: "set (map fst ?m) \<subseteq> set ks" using snoc.IH by blast+
    have wf: "gomap_wf ?m" using inv by (simp add: mg_inv_def)
    have room: "gomap_has ?m k \<or> length ?m < L"
    proof (rule disjCI)
      assume "\<not> length ?m < L"
      then have len: "card (set (map fst ?m)) = L" using inv distinct_card [OF wf] by (simp add: mg_inv_def)
      show "gomap_has ?m k"
      proof
        assume "map_of ?m k = None"
        then have k: "k \<notin> set (map fst ?m)" by (simp add: map_of_eq_None_iff)
        have "insert k (set (map fst ?m)) \<subseteq> set (ks @ [k])" using keys by auto
        then have "card (insert k (set (map fst ?m))) \<le> L"
          using card_mono [OF finite_set] snoc.prems by (metis le_trans)
        with k len show False by simp
      qed
    qed
    have eq: "incrementBounded ?m k (int L) = (AList.update k (Suc (gomap_get 0 ?m k)) ?m, False)"
      using room by (auto simp: incrementBounded_def gomap_get_def split: option.splits)
    let ?m' = "AList.update k (Suc (gomap_get 0 ?m k)) ?m"
    have m': "count_all L (ks @ [k]) = ?m'" using eq by (simp add: count_all_def)
    have "set (map fst ?m') \<subseteq> set (ks @ [k])" using keys by (auto simp: map_fst_update)
    moreover obtain t where t: "mg_inv L (ks @ [k]) t ?m'" using mg_step [OF inv, of k] eq by auto
    moreover have "t = 0"
    proof -
      have "sum_list (map snd ?m') = Suc (sum_list (map snd ?m))"
        using sum_update [OF wf, of k "Suc (gomap_get 0 ?m k)"] by simp
      then show ?thesis using t inv by (simp add: mg_inv_def)
    qed
    ultimately show ?case using m' by simp
  qed
  then have "gomap_get 0 (count_all L ks) k \<le> count_list ks k \<and> count_list ks k \<le> gomap_get 0 (count_all L ks) k"
    unfolding mg_inv_def by (metis add.right_neutral)
  then show ?thesis by simp
qed

section \<open>The ring of recent queries\<close>

definition recent_ok :: "AnalyticsConfig \<Rightarrow> Observation list \<times> nat \<Rightarrow> bool" where
  "recent_ok c r \<longleftrightarrow> 0 < ac_recent c \<and> int (length (fst r)) \<le> ac_recent c \<and>
     (if int (length (fst r)) < ac_recent c then snd r = 0 else snd r < length (fst r))"

interpretation rq: ring_buffer "addRecent c" "orderedRecent c" "recent_ok c" "nat (ac_recent c)" for c
proof (unfold_locales, goal_cases)
  case (1 r e)
  then show ?case
    by (cases r) (auto simp: recent_ok_def addRecent_def mod_less_divisor split: if_splits
        intro!: mod_less_divisor)
next
  case (2 r e)
  obtain xs n where r: "r = (xs, n)" by fastforce
  show ?case
  proof (cases "int (length xs) < ac_recent c")
    case True
    then have "n = 0" using 2 r by (simp add: recent_ok_def)
    then have "orderedRecent c (addRecent c e r) = xs @ [e]" using True r by (auto simp: addRecent_def orderedRecent_def)
    moreover have "lastn (nat (ac_recent c)) (xs @ [e]) = xs @ [e]" using True by (intro lastn_all) auto
    ultimately show ?thesis using True r by (simp add: orderedRecent_def)
  next
    case False
    then have n: "n < length xs" "nat (ac_recent c) = length xs" using 2 r by (auto simp: recent_ok_def)
    have view: "orderedRecent c (ys, k) = drop k ys @ take k ys" if "length ys = length xs" for ys k
      using that False by (auto simp: orderedRecent_def)
    have "addRecent c e r = (xs[n := e], Suc n mod length xs)" using False r by (simp add: addRecent_def)
    then show ?thesis
      using ring_push [OF n, of e] view [of "xs[n := e]"] view [of xs n] r by (simp add: Let_def n(2))
  qed
next
  case (3 r)
  then show ?case by (cases r) (auto simp: recent_ok_def orderedRecent_def)
qed

section \<open>Ranking\<close>

definition rank_before :: "RankedItem \<Rightarrow> RankedItem \<Rightarrow> bool" where
  "rank_before i j \<longleftrightarrow> ri_queries j < ri_queries i \<or> (ri_queries i = ri_queries j \<and> ri_name i \<le> ri_name j)"

lemma rank_before_key: "rank_before i j \<longleftrightarrow> (- int (ri_queries i), ri_name i) \<le> (- int (ri_queries j), ri_name j)"
  by (auto simp: rank_before_def less_eq_prod_simp)

definition ranking :: "counts option \<Rightarrow> nat \<Rightarrow> counts \<Rightarrow> RankedItem list" where
  "ranking bl n m = sort_key (\<lambda>i. (- int (ri_queries i), ri_name i)) (map (rank_item bl n) m)"

lemma rank_ranking: "rank m bl n limit = take (nat limit) (ranking bl n m)"
  by (simp add: rank_def ranking_def)

lemma ranking_sorted: "sorted_wrt rank_before (ranking bl n m)"
proof -
  let ?k = "\<lambda>i. (- int (ri_queries i), ri_name i)"
  have "sorted (map ?k (ranking bl n m))" by (simp add: ranking_def)
  then have "sorted_wrt (\<lambda>i j. ?k i \<le> ?k j) (ranking bl n m)" by (simp only: sorted_map)
  then show ?thesis by (rule sorted_wrt_mono_rel [rotated]) (simp only: rank_before_key)
qed

lemma set_ranking [simp]: "set (ranking bl n m) = rank_item bl n ` set m"
  by (simp add: ranking_def)

lemma length_ranking [simp]: "length (ranking bl n m) = length m"
  by (simp add: ranking_def)

lemma rank_spec:
  shows "length (rank m bl n limit) = min (nat limit) (length m)"
    "sorted_wrt rank_before (rank m bl n limit)"
    "set (rank m bl n limit) \<subseteq> rank_item bl n ` set m"
  using set_take_subset [of "nat limit" "ranking bl n m"] ranking_sorted [of bl n m]
  by (simp_all add: rank_ranking sorted_wrt_take)

lemma rank_omitted:
  assumes "x \<in> set m"
  shows "rank_item bl n x \<in> set (rank m bl n limit) \<or>
     (\<forall>i\<in>set (rank m bl n limit). rank_before i (rank_item bl n x))"
proof -
  let ?t = "take (nat limit) (ranking bl n m)" and ?d = "drop (nat limit) (ranking bl n m)"
  have "rank_item bl n x \<in> set (?t @ ?d)" using assms by (simp only: append_take_drop_id set_ranking imageI)
  moreover have "sorted_wrt rank_before (?t @ ?d)" by (simp only: append_take_drop_id ranking_sorted)
  ultimately show ?thesis unfolding rank_ranking sorted_wrt_append set_append by blast
qed

lemma rank_distinct: "gomap_wf m \<Longrightarrow> distinct (map ri_name (rank m bl n limit))"
proof -
  assume wf: "gomap_wf m"
  have "mset (map ri_name (ranking bl n m)) = mset (map (ri_name \<circ> rank_item bl n) m)"
    by (simp add: ranking_def multiset.map_comp)
  also have "ri_name \<circ> rank_item bl n = fst" by (simp add: fun_eq_iff rank_item_def)
  finally have "distinct (map ri_name (ranking bl n m))" using wf by (metis mset_eq_imp_distinct_iff)
  then have "distinct (take (nat limit) (map ri_name (ranking bl n m)))" by (rule distinct_take)
  then show ?thesis by (simp add: rank_ranking take_map)
qed

lemma trimCounts_ok: "gomap_wf m \<Longrightarrow> 0 \<le> L \<Longrightarrow> counts_ok L (trimCounts m L)"
proof -
  assume wf: "gomap_wf m" and L: "0 \<le> L"
  have "map fst (map (\<lambda>i. (ri_name i, ri_queries i)) xs) = map ri_name xs" for xs by simp
  then show ?thesis
    using wf L rank_distinct [OF wf, of None 0 L] rank_spec(1) [of m None 0 L]
    by (auto simp: counts_ok_def trimCounts_def comp_def)
qed

lemma trimCounts_id: "counts_ok L m \<Longrightarrow> trimCounts m L = m"
  by (simp add: trimCounts_def counts_ok_def)

section \<open>The state stays bounded\<close>

definition config_ok :: "AnalyticsConfig \<Rightarrow> bool" where
  "config_ok c \<longleftrightarrow> hour \<le> ac_retention c \<and> 16 \<le> ac_max_domains c \<and> 8 \<le> ac_max_clients c \<and> 1 \<le> ac_recent c"

definition bucket_ok :: "AnalyticsConfig \<Rightarrow> analyticsBucket \<Rightarrow> bool" where
  "bucket_ok c b \<longleftrightarrow>
     counts_ok (ac_max_domains c) (b_domains b) \<and> counts_ok (ac_max_domains c) (b_blocked_domains b) \<and>
     counts_ok (ac_max_clients c) (b_clients b) \<and> counts_ok (ac_max_clients c) (b_blocked_clients b) \<and>
     counts_ok 256 (b_types b) \<and> (b_start b - zero_time) mod bucketWidth = 0"

definition state_ok :: "Analytics \<Rightarrow> bool" where
  "state_ok a \<longleftrightarrow>
     config_ok (a_config a) \<and> gomap_wf (a_buckets a) \<and>
     (\<forall>(k, b)\<in>set (a_buckets a). k = unix_seconds (b_start b) \<and> bucket_ok (a_config a) b) \<and>
     recent_ok (a_config a) (a_recent a, a_next a)"

lemma truncate_aligned: "(truncate t bucketWidth - zero_time) mod bucketWidth = 0"
proof -
  have "truncate t bucketWidth - zero_time = bucketWidth * ((t - zero_time) div bucketWidth)"
    by (simp add: truncate_def minus_mod_eq_mult_div [symmetric])
  then show ?thesis by simp
qed

lemma truncate_id: "(t - zero_time) mod bucketWidth = 0 \<Longrightarrow> truncate t bucketWidth = t"
  by (simp add: truncate_def)

lemma count_query_ok: "bucket_ok c b \<Longrightarrow> bucket_ok c (count_query c obs b)"
  by (auto simp: bucket_ok_def count_query_def Let_def case_prod_beta intro: incrementBounded_ok)

lemma count_blocked_ok: "bucket_ok c b \<Longrightarrow> bucket_ok c (count_blocked c obs b)"
  by (auto simp: bucket_ok_def count_blocked_def Let_def case_prod_beta intro: incrementBounded_ok)

lemma count_start [simp]: "b_start (count_query c obs b) = b_start b" "b_start (count_blocked c obs b) = b_start b"
  by (simp_all add: count_query_def count_blocked_def Let_def case_prod_beta)

lemma empty_bucket_ok: "config_ok c \<Longrightarrow> bucket_ok c (empty_bucket (truncate t bucketWidth))"
  by (simp add: bucket_ok_def empty_bucket_def counts_ok_def config_ok_def truncate_aligned)

lemma prune_ok: "state_ok a \<Longrightarrow> state_ok (prune now a)"
  by (auto simp: state_ok_def prune_def distinct_map_filter)

text \<open>Aligned starts are determined by their bucket key.\<close>

lemma aligned_key:
  assumes "(t - zero_time) mod bucketWidth = 0" "(u - zero_time) mod bucketWidth = 0" "unix_seconds t = unix_seconds u"
  shows "t = u"
proof -
  have al: "v mod second = 0" if "(v - zero_time) mod bucketWidth = 0" for v
  proof -
    have "bucketWidth dvd v - zero_time" using that by (simp add: mod_eq_0_iff_dvd)
    moreover have "second dvd bucketWidth" by (simp add: bucketWidth_def minute_def)
    ultimately have "second dvd v - zero_time" by (rule dvd_trans [rotated])
    moreover have "second dvd zero_time" by (simp add: zero_time_def)
    ultimately show ?thesis by (metis diff_add_cancel dvd_add mod_eq_0_iff_dvd)
  qed
  have "v = second * unix_seconds v" if "(v - zero_time) mod bucketWidth = 0" for v
    using al [OF that] mult_div_mod_eq [of second v] by (simp add: unix_seconds_def)
  with assms show ?thesis by metis
qed

lemma truncate_near: "truncate t bucketWidth \<le> t" "t < truncate t bucketWidth + bucketWidth"
  by (simp_all add: truncate_def bucketWidth_def minute_def second_def)

text \<open>The bucket an observation is counted in.\<close>

definition counted_bucket :: "gotime \<Rightarrow> Observation \<Rightarrow> Analytics \<Rightarrow> analyticsBucket" where
  "counted_bucket now obs a =
     (let start = truncate (o_time obs) bucketWidth;
          b0 = (case map_of (a_buckets (prune now a)) (unix_seconds start) of None \<Rightarrow> empty_bucket start | Some b \<Rightarrow> b);
          b1 = count_query (a_config a) obs b0
      in if o_blocked obs then count_blocked (a_config a) obs b1 else b1)"

lemma state_ok_bucket:
  assumes "state_ok a" "(k, b) \<in> set (a_buckets a)"
  shows "k = unix_seconds (b_start b)" "bucket_ok (a_config a) b"
  using assms unfolding state_ok_def by blast+

lemma prune_config [simp]: "a_config (prune now a) = a_config a" "a_recent (prune now a) = a_recent a" "a_next (prune now a) = a_next a"
  by (simp_all add: prune_def)

lemma looked_up_bucket_ok:
  assumes ok: "state_ok a" and start: "(start - zero_time) mod bucketWidth = 0"
    and look: "map_of (a_buckets a) (unix_seconds start) = Some b"
  shows "bucket_ok (a_config a) b \<and> b_start b = start"
proof -
  note b = state_ok_bucket [OF ok map_of_SomeD [OF look]]
  have "(b_start b - zero_time) mod bucketWidth = 0" using b(2) unfolding bucket_ok_def by blast
  from aligned_key [OF this start b(1) [symmetric]] b(2) show ?thesis by blast
qed

lemma counted_bucket_ok:
  assumes "state_ok a"
  shows "bucket_ok (a_config a) (counted_bucket now obs a) \<and>
    b_start (counted_bucket now obs a) = truncate (o_time obs) bucketWidth"
proof -
  define start where "start = truncate (o_time obs) bucketWidth"
  define b0 where "b0 = (case map_of (a_buckets (prune now a)) (unix_seconds start) of None \<Rightarrow> empty_bucket start | Some b \<Rightarrow> b)"
  have al: "(start - zero_time) mod bucketWidth = 0" unfolding start_def by (rule truncate_aligned)
  have cfg: "config_ok (a_config a)" using assms unfolding state_ok_def by blast
  have "bucket_ok (a_config a) b0 \<and> b_start b0 = start"
  proof (cases "map_of (a_buckets (prune now a)) (unix_seconds start)")
    case None
    then have b0: "b0 = empty_bucket start" by (simp add: b0_def)
    have "bucket_ok (a_config a) b0" unfolding b0 start_def by (rule empty_bucket_ok [OF cfg])
    moreover have "b_start b0 = start" unfolding b0 empty_bucket_def by simp
    ultimately show ?thesis by blast
  next
    case (Some b)
    then have "b0 = b" by (simp add: b0_def)
    with looked_up_bucket_ok [OF prune_ok [OF assms] al Some] show ?thesis by simp
  qed
  moreover have "counted_bucket now obs a =
      (if o_blocked obs then count_blocked (a_config a) obs (count_query (a_config a) obs b0)
       else count_query (a_config a) obs b0)"
    unfolding counted_bucket_def b0_def start_def Let_def by (rule refl)
  ultimately show ?thesis unfolding start_def [symmetric]
    by (simp add: count_query_ok count_blocked_ok)
qed

lemma Record_eq:
  "Record now obs a =
     (let ob = clean_observation now obs; c = a_config a; a1 = prune now a
      in if \<not> Enabled (Some a) \<or> too_old_or_new c now (o_time ob) \<or> o_domain ob = [] then a
         else let r = (if ac_mode c = ''detailed'' then addRecent c ob (a_recent a, a_next a) else (a_recent a, a_next a));
                  b = counted_bucket now ob a
              in a1\<lparr>a_buckets := AList.update (unix_seconds (truncate (o_time ob) bucketWidth)) b (a_buckets a1),
                    a_recent := fst r, a_next := snd r\<rparr>)"
  by (simp add: Record_def counted_bucket_def Let_def prune_def)

lemma Record_config [simp]: "a_config (Record now obs a) = a_config a"
  by (simp add: Record_eq Let_def)

lemma Record_ok: "state_ok a \<Longrightarrow> state_ok (Record now obs a)"
proof -
  assume ok: "state_ok a"
  let ?ob = "clean_observation now obs"
  let ?r = "if ac_mode (a_config a) = ''detailed'' then addRecent (a_config a) ?ob (a_recent a, a_next a)
            else (a_recent a, a_next a)"
  let ?b = "counted_bucket now ?ob a" and ?a = "prune now a"
  have p: "state_ok ?a" by (rule prune_ok [OF ok])
  have c: "a_config ?a = a_config a" by (simp add: prune_def)
  have r: "recent_ok (a_config a) ?r" using ok rq.ok_push by (simp add: state_ok_def)
  have b: "bucket_ok (a_config a) ?b" "b_start ?b = truncate (o_time ?ob) bucketWidth"
    using counted_bucket_ok [OF ok, of now ?ob] by blast+
  have "state_ok (?a\<lparr>a_buckets := AList.update (unix_seconds (truncate (o_time ?ob) bucketWidth)) ?b (a_buckets ?a),
                    a_recent := fst ?r, a_next := snd ?r\<rparr>)"
    using p c r b by (auto simp: state_ok_def distinct_update dest!: set_update_cases)
  then show ?thesis using ok by (simp add: Record_eq Let_def)
qed

lemma Record_retention:
  assumes "state_ok a" "Record now obs a \<noteq> a" "(k, b) \<in> set (a_buckets (Record now obs a))"
  shows "now - ac_retention (a_config a) - bucketWidth < b_start b + bucketWidth"
proof -
  let ?ob = "clean_observation now obs"
  have en: "\<not> too_old_or_new (a_config a) now (o_time ?ob)"
    and kb: "(k, b) \<in> set (AList.update (unix_seconds (truncate (o_time ?ob) bucketWidth)) (counted_bucket now ?ob a)
        (a_buckets (prune now a)))"
    using assms(2,3) by (auto simp: Record_eq Let_def split: if_splits)
  have w: "0 < bucketWidth" by (simp add: bucketWidth_def minute_def second_def)
  from set_update_cases [OF kb] show ?thesis
  proof
    assume "(k, b) = (unix_seconds (truncate (o_time ?ob) bucketWidth), counted_bucket now ?ob a)"
    then have "b_start b = truncate (o_time ?ob) bucketWidth" using counted_bucket_ok [OF assms(1)] by simp
    then show ?thesis using en truncate_near(2) [of "o_time ?ob"] by (simp add: too_old_or_new_def)
  next
    assume "(k, b) \<in> set (a_buckets (prune now a))"
    then show ?thesis using w by (auto simp: prune_def)
  qed
qed

lemma NewAnalytics_ok: "NewAnalytics cfg = Inr a \<Longrightarrow> state_ok a"
  by (auto simp: NewAnalytics_def Let_def state_ok_def config_ok_def recent_ok_def split: if_splits)

section \<open>Checkpoint and restore\<close>

definition fits :: "counts \<Rightarrow> bool" where
  "fits m \<longleftrightarrow> (\<forall>(k, c)\<in>set m. c < 2 ^ 64)"

definition bucket_fits :: "analyticsBucket \<Rightarrow> bool" where
  "bucket_fits b \<longleftrightarrow> b_queries b < 2 ^ 64 \<and> b_blocked b < 2 ^ 64 \<and> fits (b_domains b) \<and> fits (b_blocked_domains b) \<and>
     fits (b_clients b) \<and> fits (b_blocked_clients b) \<and> fits (b_types b)"

text \<open>A bucket with its maps in key order, which is how a checkpoint lists them.\<close>

definition in_order :: "analyticsBucket \<Rightarrow> analyticsBucket" where
  "in_order b = b\<lparr>b_domains := sort_key fst (b_domains b), b_blocked_domains := sort_key fst (b_blocked_domains b),
     b_clients := sort_key fst (b_clients b), b_blocked_clients := sort_key fst (b_blocked_clients b),
     b_types := sort_key fst (b_types b)\<rparr>"

lemma dec_enc_counts: "gomap_wf m \<Longrightarrow> fits m \<Longrightarrow> dec_counts (enc_counts m) = Some (sort_key fst m)"
  unfolding dec_counts_def enc_counts_def
  by (rule as_map_of_map) (auto simp: fits_def as_uint64_def)

lemma counts_ok_sort: "counts_ok L m \<Longrightarrow> counts_ok L (sort_key fst m)"
proof -
  assume "counts_ok L m"
  moreover have "mset (map fst (sort_key fst m)) = mset (map fst m)" by simp
  then have "distinct (map fst (sort_key fst m)) = distinct (map fst m)" by (metis mset_eq_imp_distinct_iff)
  ultimately show ?thesis by (simp add: counts_ok_def)
qed

lemma dec_omit_false: "as_bool (case map_of (omit_false k b) k of None \<Rightarrow> JNull | Some v \<Rightarrow> v) = Some b"
  by (simp add: omit_false_def as_bool_def)

lemma dec_enc_bucket:
  assumes ok: "bucket_ok c b" and f: "bucket_fits b"
  shows "dec_bucket (enc_bucket b) = Some (in_order b)"
proof -
  have d: "dec_counts (enc_counts m) = Some (sort_key fst m)" if "counts_ok L m" "fits m" for L m
    using dec_enc_counts that by (simp add: counts_ok_def)
  have "dec_field as_time (enc_bucket b) ''start'' = Some (b_start b)"
    "dec_field as_uint64 (enc_bucket b) ''queries'' = Some (b_queries b)"
    "dec_field as_uint64 (enc_bucket b) ''blocked'' = Some (b_blocked b)"
    using f by (simp_all add: dec_field_def jget_def enc_bucket_def as_time_def as_uint64_def bucket_fits_def)
  moreover have "dec_field dec_counts (enc_bucket b) ''domains'' = Some (sort_key fst (b_domains b))"
    "dec_field dec_counts (enc_bucket b) ''blocked_domains'' = Some (sort_key fst (b_blocked_domains b))"
    "dec_field dec_counts (enc_bucket b) ''clients'' = Some (sort_key fst (b_clients b))"
    "dec_field dec_counts (enc_bucket b) ''blocked_clients'' = Some (sort_key fst (b_blocked_clients b))"
    "dec_field dec_counts (enc_bucket b) ''types'' = Some (sort_key fst (b_types b))"
    using ok f d by (auto simp: dec_field_def jget_def enc_bucket_def bucket_ok_def bucket_fits_def)
  moreover have "dec_field as_bool (enc_bucket b) ''domains_truncated'' = Some (b_domains_truncated b)"
    "dec_field as_bool (enc_bucket b) ''clients_truncated'' = Some (b_clients_truncated b)"
    "dec_field as_bool (enc_bucket b) ''types_truncated'' = Some (b_types_truncated b)"
    by (simp_all add: dec_field_def jget_def enc_bucket_def omit_false_def as_bool_def)
  ultimately show ?thesis by (simp add: dec_bucket_def in_order_def)
qed

lemma dec_enc_event: "dec_event (enc_event e) = Some e"
  by (simp add: dec_event_def enc_event_def dec_field_def jget_def as_time_def as_str_def as_bool_def)

lemma restore_in_order: "bucket_ok c b \<Longrightarrow> restore_bucket c (in_order b) = in_order b"
  by (simp add: restore_bucket_def in_order_def bucket_ok_def trimCounts_id counts_ok_sort truncate_id)

lemma fold_update_distinct:
  "distinct (map fst (acc @ kvs)) \<Longrightarrow> fold (\<lambda>(k, v) m. AList.update k v m) kvs acc = acc @ kvs"
proof (induction kvs arbitrary: acc)
  case (Cons kv kvs)
  obtain k v where kv: "kv = (k, v)" by fastforce
  have "k \<notin> fst ` set acc" using Cons.prems kv by auto
  then have "AList.update k v acc = acc @ [(k, v)]" by (induction acc) auto
  then show ?case using Cons.IH [of "acc @ [(k, v)]"] Cons.prems kv by simp
qed simp

lemma load_buckets_saved:
  assumes ok: "\<forall>(k, b)\<in>set kvs. k = unix_seconds (b_start b) \<and> bucket_ok c b \<and> \<not> stale_bucket c now b"
    and d: "distinct (map fst kvs)"
  shows "load_buckets c now (map (\<lambda>(k, b). Some (in_order b)) kvs) = map (\<lambda>(k, b). (k, in_order b)) kvs"
proof -
  let ?f = "\<lambda>mb m. case mb of None \<Rightarrow> m
     | Some b \<Rightarrow> if stale_bucket c now b then m
                 else let b' = restore_bucket c b in AList.update (unix_seconds (b_start b')) b' m"
  have "fold ?f (map (\<lambda>(k, b). Some (in_order b)) kvs) acc = fold (\<lambda>(k, v) m. AList.update k v m) (map (\<lambda>(k, b). (k, in_order b)) kvs) acc" for acc
    using ok
  proof (induction kvs arbitrary: acc)
    case (Cons kv kvs)
    obtain k b where kv: "kv = (k, b)" by fastforce
    have b: "k = unix_seconds (b_start b)" "restore_bucket c (in_order b) = in_order b" "\<not> stale_bucket c now (in_order b)"
      "b_start (in_order b) = b_start b"
      using Cons.prems kv restore_in_order by (auto simp: stale_bucket_def in_order_def)
    have "?f (Some (in_order b)) acc = AList.update k (in_order b) acc" using b by (simp add: Let_def)
    then show ?case using Cons kv by simp
  qed simp
  moreover have "map fst (map (\<lambda>(k, b). (k, in_order b)) kvs) = map fst kvs"
    by (simp add: case_prod_beta comp_def)
  then have "distinct (map fst ([] @ map (\<lambda>(k, b). (k, in_order b)) kvs))" using d by (simp only: append_Nil)
  ultimately show ?thesis
    unfolding load_buckets_def using fold_update_distinct [of "[]" "map (\<lambda>(k, b). (k, in_order b)) kvs"] by simp
qed

text \<open>What two states must agree on to be the same to every operation.\<close>

definition bucket_view where
  "bucket_view b = (b_start b, b_queries b, b_blocked b, map_of (b_domains b), map_of (b_blocked_domains b),
     map_of (b_clients b), map_of (b_blocked_clients b), map_of (b_types b), b_domains_truncated b,
     b_clients_truncated b, b_types_truncated b)"

lemma in_order_view: "bucket_ok c b \<Longrightarrow> bucket_view (in_order b) = bucket_view b"
  by (simp add: bucket_view_def in_order_def bucket_ok_def counts_ok_def map_of_sort_key)

lemma dec_saved_buckets:
  assumes "\<forall>b\<in>set bs. bucket_ok c b \<and> bucket_fits b"
  shows "as_list dec_bucket_ptr (if bs = [] then JNull else JArr (map enc_bucket bs)) = Some (map (\<lambda>b. Some (in_order b)) bs)"
proof -
  have "dec_bucket_ptr (enc_bucket b) = Some (Some (in_order b))" if "b \<in> set bs" for b
  proof -
    have "dec_bucket (enc_bucket b) = Some (in_order b)" using assms that dec_enc_bucket by blast
    moreover have "enc_bucket b \<noteq> JNull" by (simp add: enc_bucket_def)
    ultimately show ?thesis by (simp add: dec_bucket_ptr_def)
  qed
  then have "those (map dec_bucket_ptr (map enc_bucket bs)) = Some (map (\<lambda>b. Some (in_order b)) bs)"
    by (induction bs) auto
  then show ?thesis by (simp add: as_list_def)
qed

lemma dec_saved_recent: "as_list dec_event (JArr (map enc_event es)) = Some es"
  by (rule as_list_map) (rule dec_enc_event)

lemma dec_enc_analytics:
  assumes "\<forall>b\<in>set bs. bucket_ok c b \<and> bucket_fits b"
  shows "dec_field as_int64 (enc_analytics bs es) ''version'' = Some analyticsVersion"
    "dec_field (as_list dec_bucket_ptr) (enc_analytics bs es) ''buckets'' = Some (map (\<lambda>b. Some (in_order b)) bs)"
    "dec_field (as_list dec_event) (enc_analytics bs es) ''recent_queries'' = Some es"
  using dec_saved_buckets [OF assms] dec_saved_recent [of es]
  by (auto simp: dec_field_def jget_def enc_analytics_def as_int64_def analyticsVersion_def as_list_def)

lemma load_recent_saved:
  assumes ok: "recent_ok c (xs, n)" and det: "ac_mode c = ''detailed'' \<or> xs = []"
    and fresh: "\<forall>e\<in>set xs. now - ac_retention c < o_time e \<and> o_time e \<le> now"
  shows "recent_ok c (load_recent c now (orderedRecent c (xs, n))) \<and>
     orderedRecent c (load_recent c now (orderedRecent c (xs, n))) = orderedRecent c (xs, n)"
proof -
  let ?es = "orderedRecent c (xs, n)"
  have len: "length ?es \<le> nat (ac_recent c)" by (rule rq.view_cap [OF ok])
  have empty_ok: "recent_ok c ([], 0)" using ok by (auto simp: recent_ok_def)
  have "set ?es \<subseteq> set xs" by (auto simp: orderedRecent_def dest: in_set_takeD in_set_dropD)
  then have f: "filter (\<lambda>e. now - ac_retention c < o_time e \<and> \<not> now < o_time e) ?es = ?es"
    using fresh by (auto simp: filter_id_conv not_less)
  have "load_recent c now ?es = fold (addRecent c) ?es ([], 0)"
  proof (cases "ac_mode c = ''detailed''")
    case True
    then show ?thesis using f len by (simp add: load_recent_def)
  next
    case False
    then have "?es = []" using det by (auto simp: orderedRecent_def)
    then show ?thesis using False by (simp add: load_recent_def)
  qed
  moreover have "orderedRecent c ([], 0) = []" by (simp add: orderedRecent_def)
  ultimately show ?thesis
    using rq.ok_fold [OF empty_ok, of ?es] rq.view_fold [OF empty_ok, of ?es] len by (simp add: lastn_all)
qed

text \<open>A checkpoint written by \<open>Save\<close> and read back by \<open>Load\<close> at the same instant.\<close>

lemma save_then_load:
  assumes ok: "state_ok a" and en: "Enabled (Some a)" and p: "trim_space p \<noteq> []"
    and fit: "\<forall>(k, b)\<in>set (a_buckets a). bucket_fits b \<and> b_start b \<le> now + bucketWidth \<and> \<not> is_zero (b_start b)"
    and rec: "ac_mode (a_config a) = ''detailed'' \<or> a_recent a = []"
    and fresh: "\<forall>e\<in>set (a_recent a). now - ac_retention (a_config a) < o_time e \<and> o_time e \<le> now"
    and big: "\<not> oversized (Json (enc_analytics (map snd (sort_key fst (a_buckets (prune now a))))
        (orderedRecent (a_config a) (a_recent a, a_next a))))"
    and save: "Save (Some a) now p w = (True, Some a1, w1)"
  shows "\<exists>a2 w2. Load (Some a) now oversized p (w1\<lparr>outcomes := []\<rparr>) = (None, Some a2, w2) \<and>
     a_config a2 = a_config a1 \<and>
     (\<forall>k. map_option bucket_view (map_of (a_buckets a2) k) = map_option bucket_view (map_of (a_buckets a1) k)) \<and>
     orderedRecent (a_config a2) (a_recent a2, a_next a2) = orderedRecent (a_config a1) (a_recent a1, a_next a1)"
proof -
  let ?c = "a_config a" and ?kvs = "sort_key fst (a_buckets (prune now a))"
  let ?es = "orderedRecent ?c (a_recent a, a_next a)" and ?r = "load_recent ?c now (orderedRecent ?c (a_recent a, a_next a))"
  let ?j = "enc_analytics (map snd ?kvs) ?es"
  have a1: "a1 = prune now a" and wr: "statusfile_WriteJSON p ?j w = (True, w1)"
    using save en p by (auto simp: Save_def Let_def split: prod.splits)
  have f: "flookup w1 p = Some (Json ?j)" by (rule sf.write_ok [OF wr])
  have pok: "state_ok (prune now a)" by (rule prune_ok [OF ok])
  have keys: "\<forall>(k, b)\<in>set ?kvs. k = unix_seconds (b_start b) \<and> bucket_ok ?c b \<and> \<not> stale_bucket ?c now b"
    using pok fit by (auto simp: state_ok_def stale_bucket_def prune_def)
  have wf: "gomap_wf (a_buckets (prune now a))" using pok by (simp add: state_ok_def)
  have d: "distinct (map fst ?kvs)"
  proof -
    have "mset (map fst ?kvs) = mset (map fst (a_buckets (prune now a)))" by simp
    then show ?thesis using wf by (metis mset_eq_imp_distinct_iff)
  qed
  have bs: "\<forall>b\<in>set (map snd ?kvs). bucket_ok ?c b \<and> bucket_fits b"
    using keys fit by (auto simp: prune_def)
  have "map (\<lambda>b. Some (in_order b)) (map snd ?kvs) = map (\<lambda>(k, b). Some (in_order b)) ?kvs"
    by (simp add: case_prod_beta comp_def)
  then have lb: "load_buckets ?c now (map (\<lambda>b. Some (in_order b)) (map snd ?kvs)) = map (\<lambda>(k, b). (k, in_order b)) ?kvs"
    using load_buckets_saved [OF keys d] by (simp only:)
  let ?a2 = "a\<lparr>a_buckets := map (\<lambda>(k, b). (k, in_order b)) ?kvs, a_recent := fst ?r, a_next := snd ?r\<rparr>"
  have ld: "Load (Some a) now oversized p (w1\<lparr>outcomes := []\<rparr>) = (None, Some ?a2, w1\<lparr>outcomes := []\<rparr>)"
    using en p f big dec_enc_analytics [OF bs, of ?es] lb
    by (simp add: Load_def os_read_file_calm Let_def del: map_map)
  have bv: "map_option bucket_view (map_of (map (\<lambda>(k, b). (k, in_order b)) ?kvs) k) =
      map_option bucket_view (map_of (a_buckets (prune now a)) k)" for k
  proof -
    have "map_of (map (\<lambda>(k, b). (k, in_order b)) ?kvs) k = map_option in_order (map_of ?kvs k)" by (simp add: map_of_map)
    also have "map_of ?kvs k = map_of (a_buckets (prune now a)) k" using map_of_sort_key [OF wf] by simp
    finally show ?thesis using state_ok_bucket(2) [OF pok map_of_SomeD] in_order_view
      by (cases "map_of (a_buckets (prune now a)) k") auto
  qed
  have "recent_ok ?c (a_recent a, a_next a)" using ok by (simp add: state_ok_def)
  note lr = load_recent_saved [OF this rec fresh]
  show ?thesis
    by (rule exI [of _ ?a2], rule exI [of _ "w1\<lparr>outcomes := []\<rparr>"]) (use ld a1 lr bv in simp)
qed

section \<open>Reachable states\<close>

lemma dec_counts_wf: "dec_field dec_counts j k = Some m \<Longrightarrow> gomap_wf m"
  by (auto simp: dec_field_def dec_counts_def bind_eq_Some_conv dest: as_map_wf)

lemma dec_bucket_wf:
  assumes "dec_bucket j = Some b"
  shows "gomap_wf (b_domains b)" "gomap_wf (b_blocked_domains b)" "gomap_wf (b_clients b)"
    "gomap_wf (b_blocked_clients b)" "gomap_wf (b_types b)"
  using assms by (auto simp: dec_bucket_def split: option.splits dest: dec_counts_wf)

lemma restore_bucket_ok:
  "config_ok c \<Longrightarrow> dec_bucket j = Some b \<Longrightarrow> bucket_ok c (restore_bucket c b)"
  using dec_bucket_wf [of j b]
  by (simp add: bucket_ok_def restore_bucket_def trimCounts_ok truncate_aligned config_ok_def)

lemma those_mem: "those xs = Some ys \<Longrightarrow> y \<in> set ys \<Longrightarrow> Some y \<in> set xs"
  by (induction xs arbitrary: ys) (auto split: option.splits)

lemma load_buckets_ok:
  assumes "config_ok c" "\<And>b. Some b \<in> set bs \<Longrightarrow> \<exists>j. dec_bucket j = Some b"
  shows "gomap_wf (load_buckets c now bs) \<and>
    (\<forall>(k, b)\<in>set (load_buckets c now bs). k = unix_seconds (b_start b) \<and> bucket_ok c b)"
proof -
  let ?ok = "\<lambda>m. gomap_wf m \<and> (\<forall>(k, b)\<in>set m. k = unix_seconds (b_start b) \<and> bucket_ok c b)"
  let ?f = "\<lambda>mb m. case mb of None \<Rightarrow> m
     | Some b \<Rightarrow> if stale_bucket c now b then m
                 else let b' = restore_bucket c b in AList.update (unix_seconds (b_start b')) b' m"
  have step: "?ok (?f mb m)" if m: "?ok m" and mb: "mb \<in> set bs" for mb m
  proof (cases mb)
    case None
    then show ?thesis using m by simp
  next
    case (Some b)
    then obtain j where "dec_bucket j = Some b" using assms(2) mb by blast
    then have "bucket_ok c (restore_bucket c b)" using restore_bucket_ok [OF assms(1)] by blast
    then show ?thesis using m Some by (auto simp: Let_def distinct_update dest!: set_update_cases)
  qed
  have all: "set xs \<subseteq> set bs \<Longrightarrow> ?ok m \<Longrightarrow> ?ok (fold ?f xs m)" for xs m
  proof (induction xs arbitrary: m)
    case (Cons x xs)
    have x: "x \<in> set bs" "set xs \<subseteq> set bs" using Cons.prems by auto
    have "?ok (fold ?f xs (?f x m))" by (rule Cons.IH [OF x(2) step [OF Cons.prems(2) x(1)]])
    then show ?case by simp
  qed simp
  show ?thesis unfolding load_buckets_def by (rule all) simp_all
qed

lemma load_recent_ok: "config_ok c \<Longrightarrow> recent_ok c (load_recent c now es)"
proof -
  assume "config_ok c"
  then have e: "recent_ok c ([], 0)" by (simp add: recent_ok_def config_ok_def)
  show ?thesis using rq.ok_fold [OF e] e unfolding load_recent_def by (cases "ac_mode c = ''detailed''") simp_all
qed

lemma Load_ok:
  assumes ok: "state_ok a" and ld: "Load (Some a) now big p w = (e, Some a', w')"
  shows "state_ok a'"
proof -
  have cfg: "config_ok (a_config a)" using ok by (simp add: state_ok_def)
  have "a' = a \<or> (\<exists>j bs es. as_list dec_bucket_ptr j = Some bs \<and>
      a' = a\<lparr>a_buckets := load_buckets (a_config a) now bs, a_recent := fst (load_recent (a_config a) now es),
             a_next := snd (load_recent (a_config a) now es)\<rparr>)"
    using ld unfolding Load_def dec_field_def
    by (auto simp: Let_def bind_eq_Some_conv split: if_splits prod.splits sum.splits fdata.splits option.splits)
  then show ?thesis
  proof (elim disjE exE conjE)
    fix j bs es assume bs: "as_list dec_bucket_ptr j = Some bs"
      and a': "a' = a\<lparr>a_buckets := load_buckets (a_config a) now bs, a_recent := fst (load_recent (a_config a) now es),
             a_next := snd (load_recent (a_config a) now es)\<rparr>"
    have "\<exists>j'. dec_bucket j' = Some b" if mem: "Some b \<in> set bs" for b
    proof -
      obtain xs where "those (map dec_bucket_ptr xs) = Some bs"
        using bs mem by (cases j) (auto simp: as_list_def)
      from those_mem [OF this mem] obtain x where "dec_bucket_ptr x = Some (Some b)" by auto
      then show ?thesis by (auto simp: dec_bucket_ptr_def split: if_splits)
    qed
    from load_buckets_ok [OF cfg this] load_recent_ok [OF cfg] show ?thesis
      using cfg a' by (simp add: state_ok_def)
  qed (use ok in simp)
qed

inductive analytics_reach :: "Analytics \<Rightarrow> bool" where
  created: "NewAnalytics cfg = Inr a \<Longrightarrow> analytics_reach a"
| recorded: "analytics_reach a \<Longrightarrow> analytics_reach (Record now obs a)"
| snapshotted: "analytics_reach a \<Longrightarrow> takeSnapshot (Some a) now r l rl = (res, Some a') \<Longrightarrow> analytics_reach a'"
| saved: "analytics_reach a \<Longrightarrow> Save (Some a) now p w = (ok, Some a', w') \<Longrightarrow> analytics_reach a'"
| loaded: "analytics_reach a \<Longrightarrow> Load (Some a) now big p w = (e, Some a', w') \<Longrightarrow> analytics_reach a'"

lemma reach_state_ok: "analytics_reach a \<Longrightarrow> state_ok a"
proof (induction rule: analytics_reach.induct)
  case (created cfg a)
  then show ?case by (rule NewAnalytics_ok)
next
  case (recorded a now obs)
  then show ?case by (intro Record_ok)
next
  case (snapshotted a now r l rl res a')
  then have "a' = a \<or> a' = prune now a"
    by (auto simp: takeSnapshot_def Let_def split: option.splits prod.splits if_splits)
  with snapshotted prune_ok show ?case by auto
next
  case (saved a now p w ok a' w')
  then have "a' = a \<or> a' = prune now a"
    by (auto simp: Save_def Let_def split: prod.splits if_splits)
  with saved prune_ok show ?case by auto
next
  case (loaded a now big p w e a' w')
  then show ?case using Load_ok by blast
qed

end
