(* ===== verification/Collector.thy ===== *)
theory Collector
  imports Analytics DnsLib "HOL-Library.Code_Target_Nat"
begin

text \<open>
  The dnstap collector (internal/querytelemetry/collector.go): total and blocked counters as 64-bit
  words, the block set, and the analytics it feeds.  Decoding a dnstap frame and unpacking a DNS
  message are the arguments \<open>tap_decode\<close> and \<open>dns_unpack\<close>.  The theory ends with the properties of
  telemetry.
\<close>

section \<open>Collector\<close>

record Collector =
  c_blocked :: "string list"
  c_total :: "64 word"
  c_blocks :: "64 word"
  c_analytics :: "Analytics option"

text \<open>A decoded frame; \<open>None\<close> stands for a frame that does not decode or carries no message.\<close>

record dnstap_message =
  t_client_query :: bool
  t_query :: bytes
  t_address :: bytes
  t_sec :: nat
  t_nsec :: nat
  t_protocol :: string

definition NewWithAnalytics :: "Analytics option \<Rightarrow> Collector" where
  "NewWithAnalytics a = \<lparr>c_blocked = [], c_total = 0, c_blocks = 0, c_analytics = a\<rparr>"

section \<open>Block set\<close>

definition hosts_names :: "string \<Rightarrow> string list" where
  "hosts_names line =
     (let fs = go_fields line
      in if length fs < 2 \<or> has_prefix (hd fs) ''#'' then []
         else filter (\<lambda>n. n \<noteq> [] \<and> \<not> has_prefix n ''#'')
                (map (\<lambda>n. trim_suffix (to_lower n) ''.'') (tl fs)))"

definition hosts_domains :: "bytes \<Rightarrow> string list" where
  "hosts_domains s = fold goset_add (concat (map hosts_names (scan_lines s))) []"

text \<open>A \<open>bufio.Scanner\<close> gives up on a line of 64 KiB or more.\<close>

definition scan_too_long :: "bytes \<Rightarrow> bool" where
  "scan_too_long s = list_ex (\<lambda>l. 65536 \<le> length l) (split_on (CHR 0x0A) s)"

definition LoadBlocklist :: "path \<Rightarrow> Collector \<Rightarrow> world \<Rightarrow> string option \<times> Collector \<times> world" where
  "LoadBlocklist p c w =
     (case os_read_file p w of
        (Inr (Text s), w1) \<Rightarrow>
          if scan_too_long s then (Some ''token too long'', c, w1)
          else if hosts_domains s = [] then (Some ''refusing empty blocklist'', c, w1)
          else (None, c\<lparr>c_blocked := hosts_domains s\<rparr>, w1)
      | (_, w1) \<Rightarrow> (Some ''open'', c, w1))"

text \<open>One turn of the loop of \<open>Reload\<close>, given the file's modification time (\<open>None\<close>: \<open>Stat\<close> failed).\<close>

definition reload_step :: "path \<Rightarrow> gotime option \<Rightarrow> gotime \<times> Collector \<Rightarrow> world \<Rightarrow> (gotime \<times> Collector) \<times> world" where
  "reload_step p mtime s w =
     (case mtime of
        Some t \<Rightarrow>
          if t \<noteq> fst s
          then (case LoadBlocklist p (snd s) w of
                  (None, c, w1) \<Rightarrow> ((t, c), w1)
                | (Some e, c, w1) \<Rightarrow> ((fst s, c), w1))
          else (s, w)
      | None \<Rightarrow> (s, w))"

section \<open>Client addresses\<close>

definition hex_digit :: "nat \<Rightarrow> char" where
  "hex_digit n = (if n < 10 then char_of (48 + n) else char_of (87 + n))"

fun hex_of :: "nat \<Rightarrow> string" where
  "hex_of n = (if n < 16 then [hex_digit n] else hex_of (n div 16) @ [hex_digit (n mod 16)])"

declare hex_of.simps [simp del]

definition dotted :: "bytes \<Rightarrow> string" where
  "dotted ip = join ''.'' (map (\<lambda>b. nat_dec (of_char b)) ip)"

fun groups16 :: "bytes \<Rightarrow> nat list" where
  "groups16 (a # b # r) = (256 * of_char a + of_char b) # groups16 r"
| "groups16 _ = []"

text \<open>The leftmost longest run of zero groups: start and length.\<close>

fun zero_runs :: "nat \<Rightarrow> nat list \<Rightarrow> (nat \<times> nat) list" where
  "zero_runs i [] = []"
| "zero_runs i (g # gs) = (i, length (takeWhile (\<lambda>x. x = 0) (g # gs))) # zero_runs (Suc i) gs"

definition longest_run :: "nat list \<Rightarrow> nat \<times> nat" where
  "longest_run gs = foldl (\<lambda>best r. if snd r > snd best then r else best) (0, 0) (zero_runs 0 gs)"

definition ipv6_string :: "bytes \<Rightarrow> string" where
  "ipv6_string ip =
     (let gs = groups16 ip; (i, n) = longest_run gs; show_groups = (\<lambda>xs. join '':'' (map hex_of xs))
      in if n < 2 then show_groups gs
         else show_groups (take i gs) @ ''::'' @ show_groups (drop (i + n) gs))"

definition ip_string :: "bytes \<Rightarrow> string" where
  "ip_string ip =
     (if ip = [] then ''<nil>''
      else if length ip = 4 then dotted ip
      else if length ip = 16 then
        (if take 12 ip = replicate 10 (CHR 0x00) @ [CHR 0xFF, CHR 0xFF] then dotted (drop 12 ip)
         else ipv6_string ip)
      else ''?'' @ concat (map (\<lambda>b. [hex_digit (of_char b div 16), hex_digit (of_char b mod 16)]) ip))"

section \<open>Frames\<close>

definition query_name :: "string \<Rightarrow> string" where
  "query_name n = trim_suffix (to_lower n) ''.''"

definition frame_question ::
    "(bytes \<Rightarrow> dnstap_message option) \<Rightarrow> (bytes \<Rightarrow> (string \<times> nat) list option) \<Rightarrow> bytes \<Rightarrow>
     (dnstap_message \<times> string \<times> nat) option" where
  "frame_question tap_decode dns_unpack frame =
     (case tap_decode frame of
        None \<Rightarrow> None
      | Some m \<Rightarrow>
          if \<not> t_client_query m then None
          else (case dns_unpack (t_query m) of
                  None \<Rightarrow> None
                | Some [] \<Rightarrow> None
                | Some (q # qs) \<Rightarrow> Some (m, fst q, snd q)))"

definition frame_observation :: "dnslib \<Rightarrow> dnstap_message \<Rightarrow> string \<Rightarrow> nat \<Rightarrow> bool \<Rightarrow> Observation" where
  "frame_observation D m name qtype blocked =
     (let client = ip_string (t_address m); ty = type_to_string D qtype
      in \<lparr>o_time = (if t_sec m \<noteq> 0 then int (t_sec m) * second + int (t_nsec m) else zero_time),
          o_domain = name,
          o_client = (if client = ''<nil>'' then ''unknown'' else client),
          o_type = (if ty = [] then ''TYPE'' @ nat_dec qtype else ty),
          o_protocol = t_protocol m, o_blocked = blocked\<rparr>)"

definition ConsumeFrame ::
    "(bytes \<Rightarrow> dnstap_message option) \<Rightarrow> (bytes \<Rightarrow> (string \<times> nat) list option) \<Rightarrow> dnslib \<Rightarrow> gotime \<Rightarrow>
     bytes \<Rightarrow> Collector \<Rightarrow> Collector" where
  "ConsumeFrame tap_decode dns_unpack D now frame c =
     (case frame_question tap_decode dns_unpack frame of
        None \<Rightarrow> c
      | Some (m, qname, qtype) \<Rightarrow>
          (let name = query_name qname; blocked = (name \<in> set (c_blocked c));
               c1 = c\<lparr>c_total := c_total c + 1\<rparr>;
               c2 = (if blocked then c1\<lparr>c_blocks := c_blocks c1 + 1\<rparr> else c1)
           in c2\<lparr>c_analytics := map_option (Record now (frame_observation D m name qtype blocked)) (c_analytics c2)\<rparr>))"

definition Metrics :: "Collector \<Rightarrow> 64 word \<times> 64 word" where
  "Metrics c = (c_total c, c_blocks c)"

definition collectorAnalytics :: "Collector \<Rightarrow> gotime \<Rightarrow> string \<Rightarrow> int \<Rightarrow> int \<Rightarrow> (string + Snapshot) \<times> Collector" where
  "collectorAnalytics c now rangeName limit recentLimit =
     (case takeSnapshot (c_analytics c) now rangeName limit recentLimit of
        (r, a) \<Rightarrow> (r, c\<lparr>c_analytics := a\<rparr>))"

definition SaveAnalytics :: "Collector \<Rightarrow> gotime \<Rightarrow> path \<Rightarrow> world \<Rightarrow> bool \<times> Collector \<times> world" where
  "SaveAnalytics c now p w =
     (case Save (c_analytics c) now p w of (ok, a, w1) \<Rightarrow> (ok, c\<lparr>c_analytics := a\<rparr>, w1))"

section \<open>Counting frames\<close>

definition frame_names :: "(bytes \<Rightarrow> dnstap_message option) \<Rightarrow> (bytes \<Rightarrow> (string \<times> nat) list option) \<Rightarrow> bytes list \<Rightarrow> string list" where
  "frame_names tap_decode dns_unpack frames =
     List.map_filter (\<lambda>f. map_option (\<lambda>(m, n, t). query_name n) (frame_question tap_decode dns_unpack f)) frames"

definition consume_all where
  "consume_all tap_decode dns_unpack D now frames c = fold (ConsumeFrame tap_decode dns_unpack D now) frames c"

lemma Record_aggregate: "ac_mode (a_config a) = ''aggregate'' \<Longrightarrow> Record now obs a = a"
  by (simp add: Record_def Enabled_def)

lemma consume_counts:
  "c_total (consume_all td du D now fs c) = c_total c + of_nat (length (frame_names td du fs)) \<and>
   c_blocks (consume_all td du D now fs c) =
     c_blocks c + of_nat (length (filter (\<lambda>n. n \<in> set (c_blocked c)) (frame_names td du fs))) \<and>
   c_blocked (consume_all td du D now fs c) = c_blocked c"
proof (induction fs arbitrary: c)
  case Nil
  show ?case by (simp add: consume_all_def frame_names_def map_filter_simps)
next
  case (Cons f fs)
  let ?c = "ConsumeFrame td du D now f c"
  have s: "consume_all td du D now (f # fs) c = consume_all td du D now fs ?c" by (simp add: consume_all_def)
  show ?case
  proof (cases "frame_question td du f")
    case None
    then have "?c = c" "frame_names td du (f # fs) = frame_names td du fs"
      by (simp_all add: ConsumeFrame_def frame_names_def map_filter_simps)
    with s Cons show ?thesis by simp
  next
    case (Some q)
    obtain m n t where q: "q = (m, n, t)" by (cases q)
    have "c_total ?c = c_total c + 1" "c_blocked ?c = c_blocked c"
      "c_blocks ?c = c_blocks c + (if query_name n \<in> set (c_blocked c) then 1 else 0)"
      "frame_names td du (f # fs) = query_name n # frame_names td du fs"
      using Some q by (simp_all add: ConsumeFrame_def Let_def frame_names_def map_filter_simps)
    with s Cons [of ?c] show ?thesis by simp
  qed
qed

lemma consume_aggregate:
  "(\<forall>a. c_analytics c = Some a \<longrightarrow> ac_mode (a_config a) = ''aggregate'') \<Longrightarrow>
   c_analytics (consume_all td du D now fs c) = c_analytics c"
proof (induction fs arbitrary: c)
  case Nil
  show ?case by (simp add: consume_all_def)
next
  case (Cons f fs)
  let ?c = "ConsumeFrame td du D now f c"
  have "map_option (Record now obs) (c_analytics c) = c_analytics c" for obs
    using Cons.prems Record_aggregate by (cases "c_analytics c") auto
  then have "c_analytics ?c = c_analytics c"
    by (auto simp: ConsumeFrame_def Let_def split: option.split)
  then show ?case using Cons.IH [of ?c] Cons.prems by (simp add: consume_all_def)
qed

section \<open>Properties of telemetry\<close>

text \<open>C16. A bounded counter map that has seen the keys \<open>ks\<close> has at most \<open>L\<close> entries; what it holds for
  a key never exceeds the key's true count and falls short of it by at most one \<open>L+1\<close>-th of the
  number of keys seen; with at most \<open>L\<close> different keys every count is exact.\<close>

theorem bounded_counters_error:
  "length (count_all L ks) \<le> L \<and>
   gomap_get 0 (count_all L ks) k \<le> count_list ks k \<and>
   count_list ks k \<le> gomap_get 0 (count_all L ks) k + length ks div Suc L \<and>
   (card (set ks) \<le> L \<longrightarrow> gomap_get 0 (count_all L ks) k = count_list ks k)"
proof -
  obtain t where inv: "mg_inv L ks t (count_all L ks)" using count_all_inv by blast
  then have "t * Suc L \<le> length ks" unfolding mg_inv_def by linarith
  then have "t \<le> length ks div Suc L" by (simp only: less_eq_div_iff_mult_less_eq [OF zero_less_Suc])
  with inv have "count_list ks k \<le> gomap_get 0 (count_all L ks) k + length ks div Suc L"
    unfolding mg_inv_def by (meson add_left_mono le_trans)
  with inv count_all_exact [of ks L k] show ?thesis by (simp add: mg_inv_def)
qed

theorem bounded_counters_error_witness:
  "card (set [''a'', ''b'', ''a'']) \<le> 2 \<and> gomap_get 0 (count_all 2 [''a'', ''b'', ''a'']) ''a'' = 2"
  using bounded_counters_error [of 2 "[''a'', ''b'', ''a'']" "''a''"] by (simp add: card_insert_if)


definition demo_config :: AnalyticsConfig where
  "demo_config = \<lparr>ac_mode = ''detailed'', ac_retention = 0, ac_max_domains = 16, ac_max_clients = 8, ac_recent = 2\<rparr>"

definition demo_analytics :: Analytics where
  "demo_analytics = \<lparr>a_config = fill_config demo_config, a_buckets = [], a_recent = [], a_next = 0\<rparr>"

definition demo_observation :: Observation where
  "demo_observation = \<lparr>o_time = zero_time, o_domain = ''a.b.'', o_client = [], o_type = ''A'', o_protocol = ''UDP'', o_blocked = True\<rparr>"

lemma demo_analytics_new: "NewAnalytics demo_config = Inr demo_analytics"
  by (simp add: NewAnalytics_def demo_analytics_def) code_simp


text \<open>The ring of recent queries implements the list of the last entries: after any queries it
  lists exactly the last \<open>RecentQueries\<close> of them, oldest first.\<close>

lemma recent_ring_keeps_last_queries:
  assumes "1 \<le> ac_recent c"
  shows "orderedRecent c (fold (addRecent c) events ([], 0)) = lastn (nat (ac_recent c)) events"
proof -
  have "recent_ok c ([], 0)" using assms by (simp add: recent_ok_def)
  from rq.view_fold [OF this] show ?thesis by (simp add: orderedRecent_def)
qed

lemma recent_ring_keeps_last_queries_example:
  "orderedRecent demo_config (fold (addRecent demo_config) [demo_observation, demo_observation, demo_observation] ([], 0))
     = [demo_observation, demo_observation]"
  using recent_ring_keeps_last_queries [of demo_config "[demo_observation, demo_observation, demo_observation]"]
  by (simp add: demo_config_def lastn_def)


definition blank_world :: world where
  "blank_world = \<lparr>disk = [], outcomes = [], snaps = []\<rparr>"



definition demo_tap :: "bytes \<Rightarrow> dnstap_message option" where
  "demo_tap f = Some \<lparr>t_client_query = True, t_query = f, t_address = [], t_sec = 0, t_nsec = 0, t_protocol = []\<rparr>"


text \<open>A ranking lists at most \<open>limit\<close> of the counted names, each once, by decreasing count and
  then by name, and every name left out would come after all those listed.\<close>

lemma ranking_lists_top_names:
  assumes "distinct (map fst m)"
  shows "length (rank m bl n limit) = min (nat limit) (length m) \<and>
     distinct (map ri_name (rank m bl n limit)) \<and>
     sorted_wrt rank_before (rank m bl n limit) \<and>
     (\<forall>x\<in>set m. rank_item bl n x \<in> set (rank m bl n limit) \<or>
        (\<forall>i\<in>set (rank m bl n limit). rank_before i (rank_item bl n x)))"
  using rank_spec [of m bl n limit] rank_distinct [OF assms] rank_omitted by blast

lemma ranking_example:
  "length (rank [(''a'', 1), (''b'', 2)] None 3 1) = 1"
  using ranking_lists_top_names [of "[(''a'', 1), (''b'', 2)]" None 3 1] by simp

end
