(* ===== verification/CloudflareClient.thy ===== *)
theory CloudflareClient
  imports DnsLib Disk "HOL-Library.Monad_Syntax"
begin

text \<open>
  The Cloudflare API client (internal/cloudflare/client.go): decoding of responses, the zone id
  cache, the paged record listing and its revision.

  The service behind the API is not part of the repository.  It is an environment state \<open>'e\<close> with the
  operations of \<open>cf_env\<close>: an HTTP exchange, DNS and DNS-over-HTTPS queries, the clock and waiting.  A
  URL is represented by the call it makes, a JSON body by its value.  \<open>ev_http\<close> gives \<open>None\<close> when the request
  failed, \<open>ev_dns\<close> when the exchange failed, \<open>ev_doh\<close> when packing, the request, its status or unpacking failed.  SHA-256 over marshalled JSON is
  the argument \<open>digest\<close>.
\<close>

section \<open>Data\<close>

record cfRecord =
  r_id :: string
  r_name :: string
  r_type :: string
  r_content :: string
  r_ttl :: uint32
  r_proxied :: "bool option"
  r_priority :: "nat option"
  r_comment :: string
  r_tags :: "string list option"   \<comment> \<open>\<open>None\<close> is the nil slice\<close>

record ZoneRecords =
  zr_zoneid :: string
  zr_zone :: string
  zr_revision :: string
  zr_records :: "cfRecord list"

record apiError =
  ae_code :: int
  ae_message :: string

record cfzone =
  cz_id :: string
  cz_name :: string
  cz_nameservers :: "string list"

record zoneResponse =
  zs_success :: bool
  zs_errors :: "apiError list"
  zs_result :: "cfzone list"

record apiResponse =
  as_success :: bool
  as_errors :: "apiError list"
  as_result :: "cfRecord list"
  as_total_pages :: "int option"   \<comment> \<open>\<open>None\<close>: \<open>result_info\<close> is missing or does not decode\<close>

record Client =
  cl_zoneIDs :: "(string, string) gomap"
  cl_zoneNS :: "(string, string list) gomap"
  cl_auditPath :: path

datatype cferr =
    CfRevisionMismatch
  | CfInvalidChange string
  | CfConfirmationRequired
  | CfError string
  | CfPanic

definition canonicalName_cf :: "string \<Rightarrow> string" where
  "canonicalName_cf name = trim_suffix (to_lower (trim_space name)) ''.''"

definition inZone :: "string \<Rightarrow> string \<Rightarrow> bool" where
  "inZone name zone = (name = zone \<or> has_suffix name (''.'' @ zone))"

section \<open>The service\<close>

datatype api_call = FindZone string | ListPage string nat | Batch string jvalue

record http_response =
  hr_status :: int
  hr_body_ok :: bool          \<comment> \<open>the body could be read\<close>
  hr_size :: nat
  hr_json :: "jvalue option"  \<comment> \<open>\<open>None\<close>: not JSON\<close>

record dns_response =
  dr_rcode :: nat
  dr_answer :: "rr list"

record 'e cf_env =
  ev_http :: "api_call \<Rightarrow> 'e \<Rightarrow> http_response option \<times> 'e"
  ev_dns :: "string \<Rightarrow> string \<Rightarrow> nat \<Rightarrow> 'e \<Rightarrow> dns_response option \<times> 'e"
  ev_doh :: "string \<Rightarrow> nat \<Rightarrow> 'e \<Rightarrow> dns_response option \<times> 'e"
  ev_now :: "'e \<Rightarrow> gotime"
  ev_wait :: "duration \<Rightarrow> 'e \<Rightarrow> bool \<times> 'e"   \<comment> \<open>\<open>False\<close>: the context ended first\<close>

section \<open>Responses\<close>

definition maxBodyBytes :: nat where "maxBodyBytes = 8388608"

definition dec_at :: "(jvalue \<Rightarrow> 'a option) \<Rightarrow> jvalue \<Rightarrow> string \<Rightarrow> 'a option" where
  "dec_at f j k = Option.bind (jget j k) f"

definition as_ptr :: "(jvalue \<Rightarrow> 'a option) \<Rightarrow> jvalue \<Rightarrow> 'a option option" where
  "as_ptr f j = (if j = JNull then Some None else map_option Some (f j))"

definition as_uint :: "nat \<Rightarrow> jvalue \<Rightarrow> nat option" where
  "as_uint bits j = Option.bind (as_uint64 j) (\<lambda>n. if n < 2 ^ bits then Some n else None)"

definition dec_apiError :: "jvalue \<Rightarrow> apiError option" where
  "dec_apiError j =
     (case (dec_at as_int64 j ''code'', dec_at as_str j ''message'') of
        (Some c, Some s) \<Rightarrow> Some \<lparr>ae_code = c, ae_message = s\<rparr>
      | _ \<Rightarrow> None)"

definition dec_record :: "jvalue \<Rightarrow> cfRecord option" where
  "dec_record j =
     (case (dec_at as_str j ''id'', dec_at as_str j ''name'', dec_at as_str j ''type'', dec_at as_str j ''content'',
            dec_at (as_uint 32) j ''ttl'', dec_at (as_ptr as_bool) j ''proxied'', dec_at (as_ptr (as_uint 16)) j ''priority'',
            dec_at as_str j ''comment'', dec_at (as_ptr (as_list as_str)) j ''tags'') of
        (Some i, Some n, Some t, Some c, Some l, Some p, Some q, Some m, Some g) \<Rightarrow>
          Some \<lparr>r_id = i, r_name = n, r_type = t, r_content = c, r_ttl = of_nat l, r_proxied = p, r_priority = q,
                r_comment = m, r_tags = g\<rparr>
      | _ \<Rightarrow> None)"

definition dec_zone :: "jvalue \<Rightarrow> cfzone option" where
  "dec_zone j =
     (case (dec_at as_str j ''id'', dec_at as_str j ''name'', dec_at (as_list as_str) j ''name_servers'') of
        (Some i, Some n, Some s) \<Rightarrow> Some \<lparr>cz_id = i, cz_name = n, cz_nameservers = s\<rparr>
      | _ \<Rightarrow> None)"

definition dec_zoneResponse :: "jvalue \<Rightarrow> zoneResponse option" where
  "dec_zoneResponse j =
     (case (dec_at as_bool j ''success'', dec_at (as_list dec_apiError) j ''errors'', dec_at (as_list dec_zone) j ''result'') of
        (Some s, Some e, Some r) \<Rightarrow> Some \<lparr>zs_success = s, zs_errors = e, zs_result = r\<rparr>
      | _ \<Rightarrow> None)"

text \<open>\<open>result_info\<close> is kept raw and decoded later; a null there decodes to zero pages.\<close>

definition dec_total_pages :: "jvalue \<Rightarrow> int option" where
  "dec_total_pages j =
     (case j of
        JObj fs \<Rightarrow>
          (case map_of fs ''result_info'' of
             None \<Rightarrow> None
           | Some i \<Rightarrow> (case (dec_at as_int64 i ''page'', dec_at as_int64 i ''total_pages'') of
                          (Some _, Some n) \<Rightarrow> Some n | _ \<Rightarrow> None))
      | _ \<Rightarrow> None)"

definition dec_apiResponse :: "jvalue \<Rightarrow> apiResponse option" where
  "dec_apiResponse j =
     (case (dec_at as_bool j ''success'', dec_at (as_list dec_apiError) j ''errors'', dec_at (as_list dec_record) j ''result'') of
        (Some s, Some e, Some r) \<Rightarrow>
          Some \<lparr>as_success = s, as_errors = e, as_result = r, as_total_pages = dec_total_pages j\<rparr>
      | _ \<Rightarrow> None)"

definition dec_batchResponse :: "jvalue \<Rightarrow> (bool \<times> apiError list) option" where
  "dec_batchResponse j =
     (case (dec_at as_bool j ''success'', dec_at (as_list dec_apiError) j ''errors'') of
        (Some s, Some e) \<Rightarrow> Some (s, e) | _ \<Rightarrow> None)"

definition int_dec :: "int \<Rightarrow> string" where
  "int_dec n = (if n < 0 then ''-'' @ nat_dec (nat (- n)) else nat_dec (nat n))"

definition apiFailure :: "apiError list \<Rightarrow> string \<Rightarrow> cferr" where
  "apiFailure es fallback =
     (case es of
        e # _ \<Rightarrow> CfError (''the Cloudflare API returned error '' @ int_dec (ae_code e) @ '': '' @ ae_message e)
      | [] \<Rightarrow> CfError (''the Cloudflare API returned '' @ fallback))"

definition decodeResponse :: "(jvalue \<Rightarrow> 'a option) \<Rightarrow> http_response \<Rightarrow> cferr + 'a" where
  "decodeResponse dec r =
     (if \<not> hr_body_ok r then Inl (CfError ''read Cloudflare API response'')
      else if maxBodyBytes < hr_size r then Inl (CfError ''response from the Cloudflare API exceeds the limit'')
      else case hr_json r of
        None \<Rightarrow> Inl (CfError ''decode Cloudflare API response'')
      | Some j \<Rightarrow>
          (case dec j of
             None \<Rightarrow> Inl (CfError ''decode Cloudflare API response'')
           | Some v \<Rightarrow>
               if hr_status r < 200 \<or> 300 \<le> hr_status r
               then (case dec_at (as_list dec_apiError) j ''errors'' of
                       Some (e # es) \<Rightarrow> Inl (apiFailure (e # es) (int_dec (hr_status r)))
                     | _ \<Rightarrow> Inl (CfError (''the Cloudflare API returned '' @ int_dec (hr_status r))))
               else Inr v))"

text \<open>\<open>getJSON\<close> and \<open>doJSON\<close>.\<close>

definition call_json :: "'e cf_env \<Rightarrow> (jvalue \<Rightarrow> 'a option) \<Rightarrow> api_call \<Rightarrow> 'e \<Rightarrow> (cferr + 'a) \<times> 'e" where
  "call_json E dec call e =
     (case ev_http E call e of
        (None, e1) \<Rightarrow> (Inl (CfError ''request to the Cloudflare API failed''), e1)
      | (Some r, e1) \<Rightarrow> (decodeResponse dec r, e1))"

definition get_api :: "'e cf_env \<Rightarrow> api_call \<Rightarrow> 'e \<Rightarrow> (cferr + apiResponse) \<times> 'e" where
  "get_api E call e =
     (case call_json E dec_apiResponse call e of
        (Inl err, e1) \<Rightarrow> (Inl err, e1)
      | (Inr r, e1) \<Rightarrow> if as_success r then (Inr r, e1) else (Inl (apiFailure (as_errors r) ''unsuccessful response''), e1))"

section \<open>Zone ids\<close>

definition resolveZoneID :: "'e cf_env \<Rightarrow> string \<Rightarrow> Client \<Rightarrow> 'e \<Rightarrow> (cferr + string) \<times> Client \<times> 'e" where
  "resolveZoneID E name cl e =
     (if gomap_get [] (cl_zoneIDs cl) name \<noteq> [] then (Inr (gomap_get [] (cl_zoneIDs cl) name), cl, e)
      else case call_json E dec_zoneResponse (FindZone name) e of
        (Inl err, e1) \<Rightarrow> (Inl err, cl, e1)
      | (Inr r, e1) \<Rightarrow>
          if \<not> zs_success r then (Inl (apiFailure (zs_errors r) ''unsuccessful response''), cl, e1)
          else case filter (\<lambda>z. canonicalName_cf (cz_name z) = name \<and> trim_space (cz_id z) \<noteq> []) (zs_result r) of
            [] \<Rightarrow> (Inl (CfError ''zone was not found in Cloudflare or is not accessible''), cl, e1)
          | [z] \<Rightarrow> (Inr (cz_id z),
                     cl\<lparr>cl_zoneIDs := AList.update name (cz_id z) (cl_zoneIDs cl),
                        cl_zoneNS := AList.update name (cz_nameservers z) (cl_zoneNS cl)\<rparr>, e1)
          | _ \<Rightarrow> (Inl (CfError ''got several exact matches from Cloudflare''), cl, e1))"

section \<open>Listing records\<close>

definition normalize_record :: "cfRecord \<Rightarrow> cfRecord" where
  "normalize_record r =
     r\<lparr>r_name := canonicalName_cf (r_name r), r_type := to_upper (trim_space (r_type r)),
       r_content := trim_space (r_content r), r_tags := map_option sort (r_tags r)\<rparr>"

text \<open>The loop over pages.  \<open>fuel\<close> bounds the number of requests; \<open>None\<close> means that it ran out.\<close>

fun list_pages :: "'e cf_env \<Rightarrow> nat \<Rightarrow> string \<Rightarrow> string \<Rightarrow> nat \<Rightarrow> cfRecord list \<Rightarrow> 'e \<Rightarrow>
    ((cferr + cfRecord list) \<times> 'e) option" where
  "list_pages E 0 zoneID zone page acc e = None"
| "list_pages E (Suc fuel) zoneID zone page acc e =
     (case get_api E (ListPage zoneID page) e of
        (Inl err, e1) \<Rightarrow> Some (Inl err, e1)
      | (Inr r, e1) \<Rightarrow>
          (let new = map normalize_record (as_result r)
           in if list_ex (\<lambda>x. \<not> inZone (r_name x) zone) new
              then Some (Inl (CfError ''record returned by Cloudflare is outside the configured zone''), e1)
              else if (case as_total_pages r of None \<Rightarrow> True | Some n \<Rightarrow> n \<le> int page)
              then Some (Inr (acc @ new), e1)
              else list_pages E fuel zoneID zone (Suc page) (acc @ new) e1))"

definition record_order :: "cfRecord \<Rightarrow> string \<times> string \<times> string \<times> string" where
  "record_order r = (r_name r, r_type r, r_content r, r_id r)"

definition omit_none :: "string \<Rightarrow> ('a \<Rightarrow> jvalue) \<Rightarrow> 'a option \<Rightarrow> (string \<times> jvalue) list" where
  "omit_none k f x = (case x of None \<Rightarrow> [] | Some v \<Rightarrow> [(k, f v)])"

definition omit_empty :: "string \<Rightarrow> string \<Rightarrow> (string \<times> jvalue) list" where
  "omit_empty k s = (if s = [] then [] else [(k, JStr s)])"

definition omit_tags :: "string list option \<Rightarrow> (string \<times> jvalue) list" where
  "omit_tags t = (case t of Some (x # xs) \<Rightarrow> [(''tags'', JArr (map JStr (x # xs)))] | _ \<Rightarrow> [])"

definition enc_record :: "cfRecord \<Rightarrow> jvalue" where
  "enc_record r =
     JObj ([(''id'', JStr (r_id r)), (''name'', JStr (r_name r)), (''type'', JStr (r_type r)),
            (''content'', JStr (r_content r)), (''ttl'', JNum (uint (r_ttl r)))] @
           omit_none ''proxied'' JBool (r_proxied r) @ omit_none ''priority'' (\<lambda>n. JNum (int n)) (r_priority r) @
           omit_empty ''comment'' (r_comment r) @ omit_tags (r_tags r))"

definition records_json :: "cfRecord list \<Rightarrow> jvalue" where
  "records_json rs = (if rs = [] then JNull else JArr (map enc_record rs))"

definition ListRecords :: "'e cf_env \<Rightarrow> (jvalue \<Rightarrow> string) \<Rightarrow> nat \<Rightarrow> string \<Rightarrow> Client \<Rightarrow> 'e \<Rightarrow>
    ((cferr + ZoneRecords) \<times> Client \<times> 'e) option" where
  "ListRecords E digest fuel name cl e =
     (let zone = canonicalName_cf name
      in if zone = [] then Some (Inl (CfError ''a zone name for Cloudflare is required''), cl, e)
         else case resolveZoneID E zone cl e of
           (Inl err, cl1, e1) \<Rightarrow> Some (Inl err, cl1, e1)
         | (Inr zoneID, cl1, e1) \<Rightarrow>
             (case list_pages E fuel zoneID zone 1 [] e1 of
                None \<Rightarrow> None
              | Some (Inl err, e2) \<Rightarrow> Some (Inl err, cl1, e2)
              | Some (Inr records, e2) \<Rightarrow>
                  (let sorted_records = sort_key record_order records
                   in Some (Inr \<lparr>zr_zoneid = zoneID, zr_zone = zone, zr_revision = digest (records_json sorted_records),
                                zr_records = sorted_records\<rparr>, cl1, e2))))"

section \<open>Lemmas\<close>

lemma canonicalName_cf_set: "set (canonicalName_cf n) \<subseteq> set (to_lower (trim_space n))"
  by (simp add: canonicalName_cf_def set_trim_suffix)

text \<open>Every listed record lies in the zone, under its normal form.\<close>

definition in_normal_form :: "string \<Rightarrow> cfRecord \<Rightarrow> bool" where
  "in_normal_form zone r \<longleftrightarrow> inZone (r_name r) zone \<and> (\<exists>r0. r = normalize_record r0)"

lemma list_pages_normal:
  "list_pages E fuel zoneID zone page acc e = Some (Inr rs, e') \<Longrightarrow> \<forall>r\<in>set acc. in_normal_form zone r \<Longrightarrow>
   \<forall>r\<in>set rs. in_normal_form zone r"
proof (induction fuel arbitrary: page acc e)
  case (Suc fuel)
  obtain res e1 where g: "get_api E (ListPage zoneID page) e = (res, e1)" by fastforce
  show ?case
  proof (cases res)
    case (Inl err)
    then show ?thesis using Suc.prems(1) g by simp
  next
    case (Inr r)
    let ?new = "map normalize_record (as_result r)"
    have inz: "\<not> list_ex (\<lambda>x. \<not> inZone (r_name x) zone) ?new"
      using Suc.prems(1) g Inr by (auto simp: Let_def split: if_splits)
    then have new: "\<forall>r\<in>set (acc @ ?new). in_normal_form zone r"
      using Suc.prems(2) by (auto simp: list_ex_iff in_normal_form_def)
    show ?thesis
    proof (cases "case as_total_pages r of None \<Rightarrow> True | Some n \<Rightarrow> n \<le> int page")
      case True
      then show ?thesis using Suc.prems(1) g Inr inz new by (simp add: Let_def)
    next
      case False
      then have "list_pages E fuel zoneID zone (Suc page) (acc @ ?new) e1 = Some (Inr rs, e')"
        using Suc.prems(1) g Inr inz by (simp add: Let_def)
      then show ?thesis using Suc.IH new by blast
    qed
  qed
qed simp

text \<open>If the service never announces more than \<open>n\<close> pages, \<open>n\<close> requests (and at least one) suffice.\<close>

definition pages_bounded :: "'e cf_env \<Rightarrow> nat \<Rightarrow> bool" where
  "pages_bounded E n \<longleftrightarrow>
     (\<forall>call e r e' m. get_api E call e = (Inr r, e') \<longrightarrow> as_total_pages r = Some m \<longrightarrow> m \<le> int n)"

lemma list_pages_ends:
  "pages_bounded E n \<Longrightarrow> 0 < fuel \<Longrightarrow> n < page + fuel \<Longrightarrow> list_pages E fuel zoneID zone page acc e \<noteq> None"
proof (induction fuel arbitrary: page acc e)
  case (Suc fuel)
  obtain res e1 where g: "get_api E (ListPage zoneID page) e = (res, e1)" by fastforce
  show ?case
  proof (cases res)
    case (Inr r)
    let ?more = "\<not> (case as_total_pages r of None \<Rightarrow> True | Some n \<Rightarrow> n \<le> int page)"
    have "0 < fuel" if m: "?more"
    proof (rule ccontr)
      assume "\<not> 0 < fuel"
      then have "n \<le> page" using Suc.prems(3) by simp
      moreover have "m \<le> int n" if "as_total_pages r = Some m" for m
        using Suc.prems(1) g Inr that by (auto simp: pages_bounded_def)
      ultimately show False using m by (auto split: option.splits)
    qed
    then have "?more \<Longrightarrow> list_pages E fuel zoneID zone (Suc page) acc' e1 \<noteq> None" for acc'
      using Suc.IH [OF Suc.prems(1)] Suc.prems(3) by simp
    then show ?thesis using g Inr by (simp add: Let_def)
  qed (simp add: g)
qed simp

lemma ListRecords_ends: "pages_bounded E n \<Longrightarrow> n < Suc fuel \<Longrightarrow> 0 < fuel \<Longrightarrow> ListRecords E digest fuel name cl e \<noteq> None"
proof -
  assume "pages_bounded E n" "n < Suc fuel" "0 < fuel"
  then have ends: "(list_pages E fuel zoneID zone (Suc 0) [] e1 = None) = False" for zoneID zone e1
    using list_pages_ends [of E n fuel "Suc 0"] by simp
  show ?thesis by (simp add: ends ListRecords_def Let_def split: prod.split sum.split option.split)
qed

lemma ListRecords_Inr:
  assumes "ListRecords E digest fuel name cl e = Some (Inr z, cl', e')"
  shows "zr_zone z = canonicalName_cf name" "zr_zone z \<noteq> []" "\<forall>r\<in>set (zr_records z). in_normal_form (zr_zone z) r"
    "sorted (map record_order (zr_records z))" "zr_revision z = digest (records_json (zr_records z))"
proof -
  obtain zoneID e1 rs where l: "list_pages E fuel zoneID (canonicalName_cf name) 1 [] e1 = Some (Inr rs, e')"
    and z: "z = \<lparr>zr_zoneid = zoneID, zr_zone = canonicalName_cf name, zr_revision = digest (records_json (sort_key record_order rs)),
        zr_records = sort_key record_order rs\<rparr>" and ne: "canonicalName_cf name \<noteq> []"
    using assms by (auto simp: ListRecords_def Let_def split: if_splits prod.splits sum.splits option.splits)
  from list_pages_normal [OF l] show "\<forall>r\<in>set (zr_records z). in_normal_form (zr_zone z) r" by (simp add: z)
  show "zr_zone z = canonicalName_cf name" "zr_zone z \<noteq> []" "sorted (map record_order (zr_records z))"
    "zr_revision z = digest (records_json (zr_records z))" by (simp_all add: z ne)
qed

end
