(* ===== verification/CloudflarePlan.thy ===== *)
theory CloudflarePlan
  imports CloudflareClient
begin

text \<open>
  Planning a batch of RRset changes against the records Cloudflare returned
  (internal/cloudflare/planner.go).  The JSON text by which \<open>createOperation\<close> detects duplicates is
  represented by the operation it encodes.  The theory ends with the effect of a plan: what the
  zone's records are once its operations have been carried out.
\<close>

section \<open>Requests and plans\<close>

record ProviderOptions =
  po_proxied :: "bool option"
  po_comment :: "string option"
  po_tags :: "string list option"

record cfChange =
  fc_action :: string
  fc_name :: string
  fc_type :: string
  fc_ttl :: uint32
  fc_records :: "string list"
  fc_provider :: ProviderOptions

record DeleteOperation =
  do_id :: string
  do_name :: string
  do_type :: string
  do_content :: string

record CreateOperation =
  co_name :: string
  co_type :: string
  co_content :: string
  co_ttl :: uint32
  co_proxied :: "bool option"
  co_priority :: "nat option"
  co_comment :: string
  co_tags :: "string list option"
  co_data :: "jvalue option"

type_synonym PatchOperation = "string \<times> CreateOperation"

record Plan =
  pl_zone :: string
  pl_dry_run :: bool
  pl_previous :: string
  pl_changes :: "cfChange list"
  pl_deletes :: "DeleteOperation list"
  pl_patches :: "PatchOperation list"
  pl_creates :: "CreateOperation list"
  pl_expected :: "CreateOperation list"

section \<open>Names, TTLs and values\<close>

definition supportedTypes :: "string list" where
  "supportedTypes = [''A'', ''AAAA'', ''CAA'', ''CNAME'', ''MX'', ''NS'', ''SRV'', ''TXT'']"

definition changeOwner :: "dnslib \<Rightarrow> string \<Rightarrow> string \<Rightarrow> cferr + string" where
  "changeOwner D zone raw =
     (let name = canonicalName_cf raw
      in if name = ''@'' then Inr zone
         else if name = [] then Inl (CfInvalidChange ''record name is required'')
         else let full = (if inZone name zone then name else name @ ''.'' @ zone)
              in if \<not> is_domain_name D (fqdn D full) \<or> \<not> inZone full zone
                 then Inl (CfInvalidChange ''invalid or out-of-zone record name'')
                 else Inr full)"

definition validateTTL :: "uint32 \<Rightarrow> cferr option" where
  "validateTTL ttl =
     (if ttl \<noteq> 1 \<and> (ttl < 60 \<or> 86400 < ttl)
      then Some (CfInvalidChange ''TTL must be automatic (1) or between 60 and 86400'') else None)"

definition inheritedProvider :: "cfRecord list \<Rightarrow> ProviderOptions \<Rightarrow> ProviderOptions" where
  "inheritedProvider records requested =
     (case records of
        [] \<Rightarrow> requested
      | r # rs \<Rightarrow>
          \<lparr>po_proxied = (case po_proxied requested of
               Some b \<Rightarrow> Some b
             | None \<Rightarrow> if r_proxied r \<noteq> None \<and> list_all (\<lambda>x. r_proxied x = r_proxied r) rs then r_proxied r else None),
           po_comment = (case po_comment requested of
               Some c \<Rightarrow> Some c
             | None \<Rightarrow> if list_all (\<lambda>x. r_comment x = r_comment r) rs then Some (r_comment r) else None),
           po_tags = (case po_tags requested of
               Some t \<Rightarrow> Some t
             | None \<Rightarrow>
                 let tags = (\<lambda>x. case r_tags x of None \<Rightarrow> [] | Some t \<Rightarrow> t)
                 in if list_all (\<lambda>x. join [CHR 0x00] (tags x) = join [CHR 0x00] (tags r)) rs then Some (tags r) else None)\<rparr>)"

definition op_of_rdata :: "CreateOperation \<Rightarrow> rdata \<Rightarrow> cferr + CreateOperation" where
  "op_of_rdata op d =
     (case d of
        A_d s \<Rightarrow> Inr (op\<lparr>co_content := s\<rparr>)
      | AAAA_d s \<Rightarrow> Inr (op\<lparr>co_content := s\<rparr>)
      | CNAME_d t \<Rightarrow> Inr (op\<lparr>co_content := canonicalName_cf t\<rparr>)
      | NS_d t \<Rightarrow> Inr (op\<lparr>co_content := canonicalName_cf t\<rparr>)
      | MX_d n t \<Rightarrow> Inr (op\<lparr>co_content := canonicalName_cf t, co_priority := Some n\<rparr>)
      | TXT_d ts \<Rightarrow> (case ts of
            [t] \<Rightarrow> Inr (op\<lparr>co_content := t\<rparr>)
          | _ \<Rightarrow> Inl (CfInvalidChange ''split TXT strings are not supported''))
      | CAA_d f t v \<Rightarrow> Inr (op\<lparr>co_content := nat_dec f @ '' '' @ t @ '' '' @ v,
            co_data := Some (JObj [(''flags'', JNum (int f)), (''tag'', JStr t), (''value'', JStr v)])\<rparr>)
      | SRV_d p w q t \<Rightarrow> Inr (op\<lparr>co_content := nat_dec p @ '' '' @ nat_dec w @ '' '' @ nat_dec q @ '' '' @ canonicalName_cf t,
            co_data := Some (JObj [(''port'', JNum (int q)), (''priority'', JNum (int p)),
                                   (''target'', JStr (canonicalName_cf t)), (''weight'', JNum (int w))])\<rparr>)
      | _ \<Rightarrow> Inl (CfInvalidChange ''unsupported parsed record type''))"

definition createOperation :: "dnslib \<Rightarrow> string \<Rightarrow> string \<Rightarrow> uint32 \<Rightarrow> string \<Rightarrow> ProviderOptions \<Rightarrow> cferr + CreateOperation" where
  "createOperation D owner recordType ttl raw provider =
     (let v = trim_space raw
      in if v = [] then Inl (CfInvalidChange ''record value is empty'')
         else let op = \<lparr>co_name = owner, co_type = recordType, co_content = [], co_ttl = ttl,
                        co_proxied = po_proxied provider, co_priority = None,
                        co_comment = (case po_comment provider of None \<Rightarrow> [] | Some c \<Rightarrow> c),
                        co_tags = (case po_tags provider of Some (t # ts) \<Rightarrow> Some (sort (t # ts)) | _ \<Rightarrow> None),
                        co_data = None\<rparr>
              in case new_rr D (fqdn D owner @ '' '' @ nat_dec (unat ttl) @ '' IN '' @ recordType @ '' '' @ v) of
                   BadRR \<Rightarrow> Inl (CfInvalidChange ''invalid record'')
                 | NoRR \<Rightarrow> Inl (CfInvalidChange ''unsupported parsed record type'')
                 | OneRR r \<Rightarrow> op_of_rdata op (rdat r))"

fun desired_loop :: "dnslib \<Rightarrow> string \<Rightarrow> string \<Rightarrow> uint32 \<Rightarrow> ProviderOptions \<Rightarrow> string list \<Rightarrow> CreateOperation list \<Rightarrow>
    cferr + CreateOperation list" where
  "desired_loop D owner kind ttl provider [] acc = Inr acc"
| "desired_loop D owner kind ttl provider (v # vs) acc =
     (case createOperation D owner kind ttl v provider of
        Inl e \<Rightarrow> Inl e
      | Inr op \<Rightarrow> if op \<in> set acc then Inl (CfInvalidChange ''duplicate record'')
                  else desired_loop D owner kind ttl provider vs (acc @ [op]))"

section \<open>Reconciling one RRset\<close>

definition deleteOperation :: "cfRecord \<Rightarrow> DeleteOperation" where
  "deleteOperation r = \<lparr>do_id = r_id r, do_name = r_name r, do_type = r_type r, do_content = r_content r\<rparr>"

definition sameRecordValue :: "cfRecord \<Rightarrow> CreateOperation \<Rightarrow> bool" where
  "sameRecordValue r wanted =
     (r_name r = co_name wanted \<and> r_type r = co_type wanted \<and>
      (if r_type r = ''MX'' then r_content r = co_content wanted \<and> r_priority r = co_priority wanted
       else trim_space (r_content r) = trim_space (co_content wanted)))"

definition up_to_date :: "cfRecord \<Rightarrow> CreateOperation \<Rightarrow> bool" where
  "up_to_date r wanted =
     (r_ttl r = co_ttl wanted \<and> r_proxied r = co_proxied wanted \<and> r_comment r = co_comment wanted \<and> r_tags r = co_tags wanted)"

text \<open>The first record that satisfies \<open>P\<close>, and the others.\<close>

fun take_first :: "('a \<Rightarrow> bool) \<Rightarrow> 'a list \<Rightarrow> ('a \<times> 'a list) option" where
  "take_first P [] = None"
| "take_first P (x # xs) =
     (if P x then Some (x, xs) else map_option (\<lambda>(y, ys). (y, x # ys)) (take_first P xs))"

fun reconcile_loop :: "cfRecord list \<Rightarrow> CreateOperation list \<Rightarrow> PatchOperation list \<Rightarrow> CreateOperation list \<Rightarrow>
    cferr + cfRecord list \<times> PatchOperation list \<times> CreateOperation list" where
  "reconcile_loop remaining [] patches creates = Inr (remaining, patches, creates)"
| "reconcile_loop remaining (wanted # rest) patches creates =
     (case take_first (\<lambda>r. sameRecordValue r wanted) remaining of
        None \<Rightarrow> reconcile_loop remaining rest patches (creates @ [wanted])
      | Some (r, others) \<Rightarrow>
          if trim_space (r_id r) = [] then Inl (CfInvalidChange ''existing record has no Cloudflare ID'')
          else reconcile_loop others rest
                 (if up_to_date r wanted then patches else patches @ [(r_id r, wanted)]) creates)"

definition reconcileRRset :: "cfRecord list \<Rightarrow> CreateOperation list \<Rightarrow>
    cferr + DeleteOperation list \<times> PatchOperation list \<times> CreateOperation list" where
  "reconcileRRset existing desired =
     (case reconcile_loop existing desired [] [] of
        Inl e \<Rightarrow> Inl e
      | Inr (remaining, patches, creates) \<Rightarrow>
          if list_ex (\<lambda>r. trim_space (r_id r) = []) remaining
          then Inl (CfInvalidChange ''existing record has no Cloudflare ID'')
          else Inr (map deleteOperation remaining, patches, creates))"

section \<open>Planning\<close>

type_synonym type_sets = "(string, string list) gomap"

definition note_type :: "cfRecord \<Rightarrow> type_sets \<Rightarrow> type_sets" where
  "note_type r m = AList.update (r_name r) (goset_add (r_type r) (gomap_get [] m (r_name r))) m"

definition sameTypeSet :: "string list \<Rightarrow> string list \<Rightarrow> bool" where
  "sameTypeSet l r = (length l = length r \<and> list_all (\<lambda>t. t \<in> set r) l)"

record plan_state =
  ps_plan :: Plan
  ps_final :: type_sets
  ps_seen :: "(string \<times> string) list"

definition rrset_of :: "cfRecord list \<Rightarrow> string \<times> string \<Rightarrow> cfRecord list" where
  "rrset_of records k = filter (\<lambda>r. (r_name r, r_type r) = k) records"

definition change_kind :: "cfChange \<Rightarrow> string" where
  "change_kind c = to_upper (trim_space (fc_type c))"

definition plan_delete :: "cfRecord list \<Rightarrow> string \<Rightarrow> string \<Rightarrow> cfChange \<Rightarrow> plan_state \<Rightarrow> cferr + plan_state" where
  "plan_delete records owner kind c s =
     (if fc_records c \<noteq> [] \<or> fc_ttl c \<noteq> 0 then Inl (CfInvalidChange ''delete must not include ttl or records'')
      else if rrset_of records (owner, kind) = [] then Inl (CfInvalidChange ''RRset does not exist'')
      else Inr (s\<lparr>ps_plan := (ps_plan s)\<lparr>pl_deletes := pl_deletes (ps_plan s) @ map deleteOperation (rrset_of records (owner, kind))\<rparr>,
                  ps_final := AList.update owner (removeAll kind (gomap_get [] (ps_final s) owner)) (ps_final s)\<rparr>))"

definition plan_upsert :: "dnslib \<Rightarrow> cfRecord list \<Rightarrow> string \<Rightarrow> string \<Rightarrow> cfChange \<Rightarrow> plan_state \<Rightarrow> cferr + plan_state" where
  "plan_upsert D records owner kind c s =
     (case validateTTL (fc_ttl c) of
        Some e \<Rightarrow> Inl e
      | None \<Rightarrow>
          if fc_records c = [] then Inl (CfInvalidChange ''upsert requires at least one record'')
          else case desired_loop D owner kind (fc_ttl c)
                      (inheritedProvider (rrset_of records (owner, kind)) (fc_provider c)) (fc_records c) [] of
            Inl e \<Rightarrow> Inl e
          | Inr desired \<Rightarrow>
              (case reconcileRRset (rrset_of records (owner, kind)) desired of
                 Inl e \<Rightarrow> Inl e
               | Inr (deletes, patches, creates) \<Rightarrow>
                   (let p = ps_plan s
                    in Inr (s\<lparr>ps_plan := p\<lparr>pl_deletes := pl_deletes p @ deletes, pl_patches := pl_patches p @ patches,
                                         pl_creates := pl_creates p @ creates, pl_expected := pl_expected p @ desired\<rparr>,
                              ps_final := AList.update owner (goset_add kind (gomap_get [] (ps_final s) owner)) (ps_final s)\<rparr>))))"

definition plan_change :: "dnslib \<Rightarrow> ZoneRecords \<Rightarrow> cfChange \<Rightarrow> plan_state \<Rightarrow> cferr + plan_state" where
  "plan_change D current c s =
     (case changeOwner D (zr_zone current) (fc_name c) of
        Inl e \<Rightarrow> Inl e
      | Inr owner \<Rightarrow>
          (let kind = change_kind c; action = to_lower (trim_space (fc_action c))
           in if kind \<notin> set supportedTypes then Inl (CfInvalidChange ''unsupported record type'')
              else if (owner, kind) \<in> set (ps_seen s) then Inl (CfInvalidChange ''RRset appears more than once'')
              else let s1 = s\<lparr>ps_seen := ps_seen s @ [(owner, kind)]\<rparr>
                   in if action = ''delete'' then plan_delete (zr_records current) owner kind c s1
                      else if action = ''upsert'' then plan_upsert D (zr_records current) owner kind c s1
                      else Inl (CfInvalidChange ''action must be upsert or delete'')))"

fun plan_loop :: "dnslib \<Rightarrow> ZoneRecords \<Rightarrow> cfChange list \<Rightarrow> plan_state \<Rightarrow> cferr + plan_state" where
  "plan_loop D current [] s = Inr s"
| "plan_loop D current (c # cs) s =
     (case plan_change D current c s of Inl e \<Rightarrow> Inl e | Inr s1 \<Rightarrow> plan_loop D current cs s1)"

definition cname_conflict :: "type_sets \<Rightarrow> type_sets \<Rightarrow> bool" where
  "cname_conflict final initial =
     list_ex (\<lambda>(owner, types). ''CNAME'' \<in> set types \<and> 1 < length types \<and> \<not> sameTypeSet types (gomap_get [] initial owner)) final"

definition sort_plan :: "Plan \<Rightarrow> Plan" where
  "sort_plan p =
     p\<lparr>pl_deletes := sort_key do_id (pl_deletes p), pl_patches := sort_key fst (pl_patches p),
       pl_creates := sort_key (\<lambda>c. (co_name c, co_type c, co_content c)) (pl_creates p)\<rparr>"

definition planChanges :: "dnslib \<Rightarrow> ZoneRecords \<Rightarrow> string \<Rightarrow> cfChange list \<Rightarrow> cferr + Plan" where
  "planChanges D current expected changes =
     (if trim_space expected = [] \<or> expected \<noteq> zr_revision current then Inl CfRevisionMismatch
      else if changes = [] then Inl (CfInvalidChange ''at least one change is required'')
      else if 100 < length changes then Inl (CfInvalidChange ''a batch is limited to 100 RRset changes'')
      else let initial = fold note_type (zr_records current) [];
               start = \<lparr>ps_plan = \<lparr>pl_zone = zr_zone current, pl_dry_run = True, pl_previous = zr_revision current,
                                  pl_changes = changes, pl_deletes = [], pl_patches = [], pl_creates = [], pl_expected = []\<rparr>,
                        ps_final = initial, ps_seen = []\<rparr>
           in case plan_loop D current changes start of
                Inl e \<Rightarrow> Inl e
              | Inr s \<Rightarrow> if cname_conflict (ps_final s) initial
                         then Inl (CfInvalidChange ''CNAME cannot coexist with other record types'')
                         else Inr (sort_plan (ps_plan s)))"

definition PlanChanges :: "'e cf_env \<Rightarrow> (jvalue \<Rightarrow> string) \<Rightarrow> dnslib \<Rightarrow> nat \<Rightarrow> string \<Rightarrow> string \<Rightarrow> cfChange list \<Rightarrow> Client \<Rightarrow> 'e \<Rightarrow>
    ((cferr + Plan) \<times> Client \<times> 'e) option" where
  "PlanChanges E digest D fuel zone expected changes cl e =
     (case ListRecords E digest fuel zone cl e of
        None \<Rightarrow> None
      | Some (Inl err, cl1, e1) \<Rightarrow> Some (Inl err, cl1, e1)
      | Some (Inr current, cl1, e1) \<Rightarrow> Some (planChanges D current expected changes, cl1, e1))"

section \<open>Effect of a plan\<close>

text \<open>
  What the operations of a plan ask for: the records whose id is deleted go, the patched ones take
  the fields of their patch, the created ones come with ids the service chooses.
\<close>

definition patched :: "PatchOperation list \<Rightarrow> cfRecord \<Rightarrow> cfRecord" where
  "patched ps r =
     (case map_of ps (r_id r) of
        None \<Rightarrow> r
      | Some w \<Rightarrow> r\<lparr>r_name := co_name w, r_type := co_type w, r_content := co_content w, r_ttl := co_ttl w,
                     r_proxied := co_proxied w, r_priority := co_priority w, r_comment := co_comment w, r_tags := co_tags w\<rparr>)"

definition created :: "string \<Rightarrow> CreateOperation \<Rightarrow> cfRecord" where
  "created i w =
     \<lparr>r_id = i, r_name = co_name w, r_type = co_type w, r_content = co_content w, r_ttl = co_ttl w,
      r_proxied = co_proxied w, r_priority = co_priority w, r_comment = co_comment w, r_tags = co_tags w\<rparr>"

definition carry_out :: "Plan \<Rightarrow> string list \<Rightarrow> cfRecord list \<Rightarrow> cfRecord list" where
  "carry_out p ids rs =
     map (patched (pl_patches p)) (filter (\<lambda>r. r_id r \<notin> do_id ` set (pl_deletes p)) rs) @ map2 created ids (pl_creates p)"

abbreviation rkey :: "cfRecord \<Rightarrow> string \<times> string" where "rkey r \<equiv> (r_name r, r_type r)"
abbreviation okey :: "CreateOperation \<Rightarrow> string \<times> string" where "okey w \<equiv> (co_name w, co_type w)"

text \<open>What makes two records the same for DNS and for the provider's options; priorities count for
  MX records only, and contents up to surrounding white space for the others.\<close>

definition facts_of where
  "facts_of n t c prio ttl prox com tags =
     (n, t, (if t = ''MX'' then (c, prio) else (trim_space c, None)), ttl, prox, com, tags)"

definition rec_facts where
  "rec_facts r = facts_of (r_name r) (r_type r) (r_content r) (r_priority r) (r_ttl r) (r_proxied r) (r_comment r) (r_tags r)"

definition op_facts where
  "op_facts w = facts_of (co_name w) (co_type w) (co_content w) (co_priority w) (co_ttl w) (co_proxied w) (co_comment w) (co_tags w)"

lemma created_facts [simp]: "rec_facts (created i w) = op_facts w" "rkey (created i w) = okey w"
  by (simp_all add: rec_facts_def op_facts_def created_def)

lemma patched_facts: "map_of ps (r_id r) = Some w \<Longrightarrow> rec_facts (patched ps r) = op_facts w"
  by (simp add: rec_facts_def op_facts_def patched_def)

lemma patched_none: "map_of ps (r_id r) = None \<Longrightarrow> patched ps r = r"
  by (simp add: patched_def)

lemma same_facts: "sameRecordValue r w \<Longrightarrow> up_to_date r w \<Longrightarrow> rec_facts r = op_facts w"
  by (auto simp: sameRecordValue_def up_to_date_def rec_facts_def op_facts_def facts_of_def)

section \<open>Reconciliation\<close>

lemma take_first_Some:
  "take_first P xs = Some (y, ys) \<Longrightarrow> P y \<and> mset xs = add_mset y (mset ys)"
  by (induction xs arbitrary: y ys) (auto split: if_splits)

definition patches_of :: "(cfRecord \<times> CreateOperation) list \<Rightarrow> PatchOperation list" where
  "patches_of matched = map (\<lambda>(r, w). (r_id r, w)) (filter (\<lambda>(r, w). \<not> up_to_date r w) matched)"

lemma reconcile_loop_matched:
  "reconcile_loop remaining desired ps cs = Inr (rem', ps', cs') \<Longrightarrow>
   \<exists>matched new. cs' = cs @ new \<and> ps' = ps @ patches_of matched \<and> mset remaining = mset rem' + mset (map fst matched) \<and>
     mset desired = mset (map snd matched) + mset new \<and> (\<forall>(r, w)\<in>set matched. sameRecordValue r w)"
proof (induction desired arbitrary: remaining ps cs)
  case Nil
  then show ?case by (intro exI [of _ "[]"]) (simp add: patches_of_def)
next
  case (Cons w desired)
  show ?case
  proof (cases "take_first (\<lambda>r. sameRecordValue r w) remaining")
    case None
    with Cons.prems have "reconcile_loop remaining desired ps (cs @ [w]) = Inr (rem', ps', cs')" by simp
    from Cons.IH [OF this] obtain matched new where m: "cs' = (cs @ [w]) @ new" "ps' = ps @ patches_of matched"
      "mset remaining = mset rem' + mset (map fst matched)" "mset desired = mset (map snd matched) + mset new"
      "\<forall>(r, w)\<in>set matched. sameRecordValue r w" by blast
    then show ?thesis by (intro exI [of _ matched] exI [of _ "w # new"]) simp
  next
    case (Some ro)
    then obtain r others where ro: "take_first (\<lambda>r. sameRecordValue r w) remaining = Some (r, others)" by (cases ro) auto
    let ?ps = "if up_to_date r w then ps else ps @ [(r_id r, w)]"
    from Cons.prems ro have "reconcile_loop others desired ?ps cs = Inr (rem', ps', cs')" by (auto split: if_splits)
    from Cons.IH [OF this] obtain matched new where m: "cs' = cs @ new" "ps' = ?ps @ patches_of matched"
      "mset others = mset rem' + mset (map fst matched)" "mset desired = mset (map snd matched) + mset new"
      "\<forall>(r, w)\<in>set matched. sameRecordValue r w" by blast
    with take_first_Some [OF ro] show ?thesis
      by (intro exI [of _ "(r, w) # matched"] exI [of _ new]) (simp add: patches_of_def)
  qed
qed

lemma filter_ids_matched:
  assumes "mset existing = mset rem + mset kept" "distinct (map r_id existing)"
  shows "mset (filter (\<lambda>r. r_id r \<notin> r_id ` set rem) existing) = mset kept"
proof -
  have "distinct (map r_id (rem @ kept))"
    using assms by (metis mset_append mset_map mset_eq_imp_distinct_iff)
  then have disj: "r_id r \<notin> r_id ` set rem" if "r \<in> set kept" for r using that by auto
  have "mset (filter (\<lambda>r. r_id r \<notin> r_id ` set rem) existing) =
      filter_mset (\<lambda>r. r_id r \<notin> r_id ` set rem) (mset rem) + filter_mset (\<lambda>r. r_id r \<notin> r_id ` set rem) (mset kept)"
    using assms(1) by (simp add: mset_filter)
  also have "filter_mset (\<lambda>r. r_id r \<notin> r_id ` set rem) (mset rem) = {#}" by (simp add: filter_mset_eq_conv)
  also have "filter_mset (\<lambda>r. r_id r \<notin> r_id ` set rem) (mset kept) = mset kept"
    using disj by (simp add: filter_mset_eq_conv)
  finally show ?thesis by simp
qed

lemma matched_facts:
  assumes "distinct (map (r_id \<circ> fst) matched)" "\<forall>(r, w)\<in>set matched. sameRecordValue r w"
  shows "map (rec_facts \<circ> patched (patches_of matched)) (map fst matched) = map (op_facts \<circ> snd) matched"
proof -
  have "rec_facts (patched (patches_of matched) r) = op_facts w" if rw: "(r, w) \<in> set matched" for r w
  proof -
    have wf: "gomap_wf (patches_of matched)"
      using assms(1) by (simp add: patches_of_def distinct_map_filter comp_def case_prod_beta')
    show ?thesis
    proof (cases "up_to_date r w")
      case True
      have "r_id r \<notin> fst ` set (patches_of matched)"
      proof
        assume "r_id r \<in> fst ` set (patches_of matched)"
        then obtain r' w' where r': "(r', w') \<in> set matched" "\<not> up_to_date r' w'" "r_id r' = r_id r"
          by (auto simp: patches_of_def)
        then have "(r', w') = (r, w)" using assms(1) rw by (metis comp_apply distinct_map fst_conv inj_onD)
        then show False using True r'(2) by simp
      qed
      then have "map_of (patches_of matched) (r_id r) = None" by (simp add: map_of_eq_None_iff)
      then show ?thesis using True rw assms(2) same_facts by (auto simp: patched_none)
    next
      case False
      then have "(r_id r, w) \<in> set (patches_of matched)" using rw by (force simp: patches_of_def)
      then show ?thesis using wf by (simp add: patched_facts)
    qed
  qed
  then show ?thesis by auto
qed

text \<open>Carrying out the operations for one RRset yields the desired values.\<close>

lemma reconcileRRset_sound:
  assumes rec: "reconcileRRset existing desired = Inr (dels, ps, cs)" and ids: "distinct (map r_id existing)"
  shows "mset (map (rec_facts \<circ> patched ps) (filter (\<lambda>r. r_id r \<notin> do_id ` set dels) existing)) + mset (map op_facts cs) =
      mset (map op_facts desired)"
    and "do_id ` set dels \<subseteq> r_id ` set existing" "set dels \<subseteq> deleteOperation ` set existing"
    and "fst ` set ps \<subseteq> r_id ` set existing" "set cs \<subseteq> set desired"
    and "(i, w) \<in> set ps \<Longrightarrow> w \<in> set desired"
proof -
  from rec obtain rem where l: "reconcile_loop existing desired [] [] = Inr (rem, ps, cs)" and dels: "dels = map deleteOperation rem"
    by (auto simp: reconcileRRset_def split: sum.splits if_splits)
  from reconcile_loop_matched [OF l] obtain matched where m: "ps = patches_of matched"
    "mset existing = mset rem + mset (map fst matched)" "mset desired = mset (map snd matched) + mset cs"
    "\<forall>(r, w)\<in>set matched. sameRecordValue r w" by auto
  have di: "do_id ` set dels = r_id ` set rem" by (simp add: dels deleteOperation_def image_image)
  have kept: "mset (filter (\<lambda>r. r_id r \<notin> do_id ` set dels) existing) = mset (map fst matched)"
    using filter_ids_matched [OF m(2) ids] di by simp
  have "image_mset r_id (mset existing) = image_mset r_id (mset rem) + image_mset r_id (mset (map fst matched))"
    by (simp add: m(2))
  then have "mset (map r_id existing) = mset (map r_id rem @ map (r_id \<circ> fst) matched)" by (simp add: multiset.map_comp)
  from mset_eq_imp_distinct_iff [OF this] have dm: "distinct (map (r_id \<circ> fst) matched)" using ids by simp
  have "mset (map (rec_facts \<circ> patched ps) (filter (\<lambda>r. r_id r \<notin> do_id ` set dels) existing)) =
      image_mset (rec_facts \<circ> patched ps) (mset (filter (\<lambda>r. r_id r \<notin> do_id ` set dels) existing))" by (simp only: mset_map)
  also have "\<dots> = mset (map (rec_facts \<circ> patched ps) (map fst matched))" by (simp only: kept mset_map)
  also have "\<dots> = mset (map (op_facts \<circ> snd) matched)" by (simp only: m(1) matched_facts [OF dm m(4)])
  also have "\<dots> = image_mset op_facts (mset (map snd matched))" by (simp add: multiset.map_comp)
  finally show "mset (map (rec_facts \<circ> patched ps) (filter (\<lambda>r. r_id r \<notin> do_id ` set dels) existing)) + mset (map op_facts cs) =
      mset (map op_facts desired)"
    by (simp add: m(3))
  have sub: "set rem \<subseteq> set existing" "fst ` set matched \<subseteq> set existing" "set cs \<subseteq> set desired" "snd ` set matched \<subseteq> set desired"
    using arg_cong [OF m(2), of set_mset] arg_cong [OF m(3), of set_mset] by auto
  show "do_id ` set dels \<subseteq> r_id ` set existing" using sub(1) di by auto
  show "set dels \<subseteq> deleteOperation ` set existing" using sub(1) dels by auto
  show "fst ` set ps \<subseteq> r_id ` set existing" using sub(2) m(1) by (auto simp: patches_of_def)
  show "set cs \<subseteq> set desired" by (rule sub(3))
  show "(i, w) \<in> set ps \<Longrightarrow> w \<in> set desired" using sub(4) m(1) by (force simp: patches_of_def)
qed

section \<open>Accepted plans\<close>

lemma op_of_rdata_keeps:
  "op_of_rdata op d = Inr w \<Longrightarrow> co_name w = co_name op \<and> co_type w = co_type op \<and> co_ttl w = co_ttl op"
  by (auto simp: op_of_rdata_def split: rdata.splits list.splits)

lemma createOperation_keeps:
  "createOperation D owner kind ttl v prov = Inr w \<Longrightarrow> okey w = (owner, kind) \<and> co_ttl w = ttl"
proof -
  assume a: "createOperation D owner kind ttl v prov = Inr w"
  define op where "op = \<lparr>co_name = owner, co_type = kind, co_content = [], co_ttl = ttl, co_proxied = po_proxied prov,
    co_priority = None, co_comment = (case po_comment prov of None \<Rightarrow> [] | Some c \<Rightarrow> c),
    co_tags = (case po_tags prov of Some (t # ts) \<Rightarrow> Some (sort (t # ts)) | _ \<Rightarrow> None), co_data = None\<rparr>"
  define parsed where "parsed = new_rr D (fqdn D owner @ '' '' @ nat_dec (unat ttl) @ '' IN '' @ kind @ '' '' @ trim_space v)"
  have ne: "trim_space v \<noteq> []" using a by (auto simp: createOperation_def Let_def)
  have "createOperation D owner kind ttl v prov =
    (case parsed of BadRR \<Rightarrow> Inl (CfInvalidChange ''invalid record'')
     | NoRR \<Rightarrow> Inl (CfInvalidChange ''unsupported parsed record type'') | OneRR r \<Rightarrow> op_of_rdata op (rdat r))"
    unfolding createOperation_def Let_def op_def [symmetric] parsed_def [symmetric] using ne by (simp only: if_False)
  then obtain d where "op_of_rdata op d = Inr w" using a by (cases parsed) auto
  then show ?thesis using op_of_rdata_keeps by (fastforce simp: op_def)
qed

lemma desired_loop_keeps:
  "desired_loop D owner kind ttl prov vs acc = Inr ws \<Longrightarrow> distinct acc \<Longrightarrow>
   \<forall>w\<in>set acc. okey w = (owner, kind) \<and> co_ttl w = ttl \<Longrightarrow>
   length ws = length acc + length vs \<and> distinct ws \<and> (\<forall>w\<in>set ws. okey w = (owner, kind) \<and> co_ttl w = ttl)"
proof (induction vs arbitrary: acc)
  case (Cons v vs)
  show ?case
  proof (cases "createOperation D owner kind ttl v prov")
    case (Inl e)
    then show ?thesis using Cons.prems(1) by simp
  next
    case (Inr op)
    note keep = createOperation_keeps [OF Inr]
    show ?thesis
    proof (cases "op \<in> set acc")
      case False
      then have l: "desired_loop D owner kind ttl prov vs (acc @ [op]) = Inr ws" using Cons.prems(1) Inr by simp
      have d: "distinct (acc @ [op])" using Cons.prems(2) False by simp
      have k: "\<forall>w\<in>set (acc @ [op]). okey w = (owner, kind) \<and> co_ttl w = ttl" using Cons.prems(3) keep by auto
      have len: "length (acc @ [op]) + length vs = length acc + length (v # vs)" by simp
      show ?thesis using Cons.IH [OF l d k] unfolding len .
    qed (use Cons.prems(1) Inr in simp)
  qed
qed simp

text \<open>The operations collected for the RRsets seen so far, and what they lead to.\<close>

definition slice :: "Plan \<Rightarrow> cfRecord list \<Rightarrow> string \<times> string \<Rightarrow> bool" where
  "slice p records k \<longleftrightarrow>
     mset (map (rec_facts \<circ> patched (pl_patches p)) (filter (\<lambda>r. r_id r \<notin> do_id ` set (pl_deletes p)) (rrset_of records k))) +
       mset (map op_facts (filter (\<lambda>w. okey w = k) (pl_creates p))) =
     mset (map op_facts (filter (\<lambda>w. okey w = k) (pl_expected p)))"

definition plan_ok :: "cfRecord list \<Rightarrow> (string \<times> string) set \<Rightarrow> Plan \<Rightarrow> bool" where
  "plan_ok records seen p \<longleftrightarrow>
     (\<forall>d\<in>set (pl_deletes p). \<exists>r\<in>set records. d = deleteOperation r \<and> rkey r \<in> seen) \<and>
     (\<forall>(i, w)\<in>set (pl_patches p). \<exists>r\<in>set records. r_id r = i \<and> rkey r = okey w \<and> okey w \<in> seen) \<and>
     (\<forall>w\<in>set (pl_creates p) \<union> set (pl_expected p). okey w \<in> seen) \<and>
     (\<forall>k\<in>seen. slice p records k)"

lemma rrset_of_mem [simp]: "r \<in> set (rrset_of records k) \<longleftrightarrow> r \<in> set records \<and> rkey r = k"
  by (auto simp: rrset_of_def)

lemma same_id: "distinct (map r_id records) \<Longrightarrow> r \<in> set records \<Longrightarrow> r' \<in> set records \<Longrightarrow> r_id r = r_id r' \<Longrightarrow> r = r'"
  by (metis distinct_map inj_onD)

text \<open>Operations that concern other RRsets do not touch the records of this one.\<close>

lemma foreign_ops:
  assumes ok: "plan_ok records seen p" and ids: "distinct (map r_id records)" and r: "r \<in> set records" "rkey r \<notin> seen"
  shows "r_id r \<notin> do_id ` set (pl_deletes p)" "map_of (pl_patches p) (r_id r) = None"
proof -
  show "r_id r \<notin> do_id ` set (pl_deletes p)"
  proof
    assume "r_id r \<in> do_id ` set (pl_deletes p)"
    then obtain r' where "r' \<in> set records" "rkey r' \<in> seen" "r_id r' = r_id r"
      using ok by (auto simp: plan_ok_def deleteOperation_def)
    then show False using same_id [OF ids r(1)] r(2) by metis
  qed
  show "map_of (pl_patches p) (r_id r) = None"
  proof (rule ccontr)
    assume "map_of (pl_patches p) (r_id r) \<noteq> None"
    then obtain w where "(r_id r, w) \<in> set (pl_patches p)" by (metis map_of_SomeD option.exhaust)
    then obtain r' where "r' \<in> set records" "rkey r' \<in> seen" "r_id r' = r_id r"
      using ok by (fastforce simp: plan_ok_def)
    then show False using same_id [OF ids r(1)] r(2) by metis
  qed
qed

text \<open>Adding the operations for one more RRset.\<close>

definition extend_plan where
  "extend_plan p dels ps cs ws =
     p\<lparr>pl_deletes := pl_deletes p @ dels, pl_patches := pl_patches p @ ps, pl_creates := pl_creates p @ cs,
       pl_expected := pl_expected p @ ws\<rparr>"

lemma slice_cong:
  assumes "\<And>r. r \<in> set records \<Longrightarrow> rkey r = k \<Longrightarrow>
      (r_id r \<in> do_id ` set (pl_deletes p) \<longleftrightarrow> r_id r \<in> do_id ` set (pl_deletes p')) \<and>
      map_of (pl_patches p) (r_id r) = map_of (pl_patches p') (r_id r)"
    and "filter (\<lambda>w. okey w = k) (pl_creates p) = filter (\<lambda>w. okey w = k) (pl_creates p')"
    and "filter (\<lambda>w. okey w = k) (pl_expected p) = filter (\<lambda>w. okey w = k) (pl_expected p')"
  shows "slice p records k = slice p' records k"
proof -
  have f: "filter (\<lambda>r. r_id r \<notin> do_id ` set (pl_deletes p)) (rrset_of records k) =
      filter (\<lambda>r. r_id r \<notin> do_id ` set (pl_deletes p')) (rrset_of records k)"
    using assms(1) by (intro filter_cong) auto
  have "patched (pl_patches p) r = patched (pl_patches p') r" if "r \<in> set (rrset_of records k)" for r
    using assms(1) that by (simp add: patched_def)
  then have m: "map (rec_facts \<circ> patched (pl_patches p)) (filter (\<lambda>r. r_id r \<notin> do_id ` set (pl_deletes p')) (rrset_of records k)) =
      map (rec_facts \<circ> patched (pl_patches p')) (filter (\<lambda>r. r_id r \<notin> do_id ` set (pl_deletes p')) (rrset_of records k))"
    by (intro map_cong) auto
  show ?thesis unfolding slice_def f m assms(2,3) by (rule refl)
qed

lemma filter_all_none:
  "\<forall>w\<in>set ws. okey w = k \<Longrightarrow> filter (\<lambda>w. okey w = k) ws = ws"
  "\<forall>w\<in>set ws. okey w = k' \<Longrightarrow> k \<noteq> k' \<Longrightarrow> filter (\<lambda>w. okey w = k) ws = []"
  by (auto simp: filter_empty_conv intro: filter_True)

lemma extend_plan_ok:
  assumes ok: "plan_ok records seen p" and ids: "distinct (map r_id records)" and k: "k \<notin> seen"
    and sound: "mset (map (rec_facts \<circ> patched ps) (filter (\<lambda>r. r_id r \<notin> do_id ` set dels) (rrset_of records k))) +
        mset (map op_facts cs) = mset (map op_facts ws)"
    and dels: "set dels \<subseteq> deleteOperation ` set (rrset_of records k)"
    and ps: "fst ` set ps \<subseteq> r_id ` set (rrset_of records k)" "\<forall>(i, w)\<in>set ps. okey w = k"
    and ws: "set cs \<subseteq> set ws" "\<forall>w\<in>set ws. okey w = k"
  shows "plan_ok records (insert k seen) (extend_plan p dels ps cs ws)"
proof -
  let ?p = "extend_plan p dels ps cs ws"
  have "\<exists>r\<in>set records. d = deleteOperation r \<and> rkey r \<in> insert k seen" if "d \<in> set (pl_deletes ?p)" for d
    using that ok dels by (fastforce simp: plan_ok_def extend_plan_def)
  moreover have "\<exists>r\<in>set records. r_id r = i \<and> rkey r = okey w \<and> okey w \<in> insert k seen"
    if iw: "(i, w) \<in> set (pl_patches ?p)" for i w
  proof (cases "(i, w) \<in> set (pl_patches p)")
    case True
    then show ?thesis using ok by (fastforce simp: plan_ok_def)
  next
    case False
    then have "(i, w) \<in> set ps" using iw by (simp add: extend_plan_def)
    then have "i \<in> r_id ` set (rrset_of records k)" "okey w = k" using ps by force+
    then show ?thesis by auto
  qed
  moreover have "okey w \<in> insert k seen" if "w \<in> set (pl_creates ?p) \<union> set (pl_expected ?p)" for w
    using that ok ws by (auto simp: plan_ok_def extend_plan_def)
  moreover have "slice ?p records k'" if k': "k' \<in> seen" for k'
  proof -
    have ne: "k' \<noteq> k" using k k' by blast
    have cw: "\<forall>w\<in>set cs. okey w = k" using ws by blast
    have "slice ?p records k' = slice p records k'"
    proof (rule slice_cong)
      fix r assume r: "r \<in> set records" "rkey r = k'"
      have no: "r_id r \<notin> r_id ` set (rrset_of records k)"
      proof
        assume "r_id r \<in> r_id ` set (rrset_of records k)"
        then obtain r' where "r' \<in> set records" "rkey r' = k" "r_id r = r_id r'" by auto
        then show False using same_id [OF ids r(1)] r(2) ne by metis
      qed
      moreover have "do_id ` set dels \<subseteq> r_id ` set (rrset_of records k)"
        using dels by (auto simp: deleteOperation_def)
      moreover have "map_of ps (r_id r) = None" using no ps(1) by (auto simp: map_of_eq_None_iff)
      ultimately show "(r_id r \<in> do_id ` set (pl_deletes ?p) \<longleftrightarrow> r_id r \<in> do_id ` set (pl_deletes p)) \<and>
          map_of (pl_patches ?p) (r_id r) = map_of (pl_patches p) (r_id r)"
        by (auto simp: extend_plan_def map_add_def split: option.splits)
    qed (simp_all add: extend_plan_def filter_all_none(2) [OF cw ne] filter_all_none(2) [OF ws(2) ne])
    then show ?thesis using ok k' by (simp add: plan_ok_def)
  qed
  moreover have "slice ?p records k"
  proof -
    have none: "filter (\<lambda>w. okey w = k) (pl_creates p) = []" "filter (\<lambda>w. okey w = k) (pl_expected p) = []"
      using ok k by (auto simp: plan_ok_def filter_empty_conv)
    have cw: "\<forall>w\<in>set cs. okey w = k" using ws by blast
    have "slice ?p records k = slice \<lparr>pl_zone = [], pl_dry_run = True, pl_previous = [], pl_changes = [],
        pl_deletes = dels, pl_patches = ps, pl_creates = cs, pl_expected = ws\<rparr> records k"
    proof (rule slice_cong)
      fix r assume r: "r \<in> set records" "rkey r = k"
      have "r_id r \<notin> do_id ` set (pl_deletes p)" "map_of (pl_patches p) (r_id r) = None"
        using foreign_ops [OF ok ids r(1)] r(2) k by simp_all
      then show "(r_id r \<in> do_id ` set (pl_deletes ?p) \<longleftrightarrow> r_id r \<in> do_id ` set (pl_deletes \<lparr>pl_zone = [], pl_dry_run = True,
          pl_previous = [], pl_changes = [], pl_deletes = dels, pl_patches = ps, pl_creates = cs, pl_expected = ws\<rparr>)) \<and>
          map_of (pl_patches ?p) (r_id r) = map_of (pl_patches \<lparr>pl_zone = [], pl_dry_run = True,
          pl_previous = [], pl_changes = [], pl_deletes = dels, pl_patches = ps, pl_creates = cs, pl_expected = ws\<rparr>) (r_id r)"
        by (auto simp: extend_plan_def map_add_def split: option.splits)
    qed (simp_all add: extend_plan_def none)
    then show ?thesis using sound by (simp add: slice_def filter_all_none(1) [OF cw] filter_all_none(1) [OF ws(2)])
  qed
  ultimately show ?thesis unfolding plan_ok_def by blast
qed

text \<open>The record types at an owner once the plan is carried out, as the planner tracks them.\<close>

definition types_ok :: "cfRecord list \<Rightarrow> (string \<times> string) set \<Rightarrow> plan_state \<Rightarrow> bool" where
  "types_ok records seen s \<longleftrightarrow>
     gomap_wf (ps_final s) \<and>
     (\<forall>owner. distinct (gomap_get [] (ps_final s) owner) \<and>
       (\<forall>t. t \<in> set (gomap_get [] (ps_final s) owner) \<longleftrightarrow>
         (if (owner, t) \<in> seen then filter (\<lambda>w. okey w = (owner, t)) (pl_expected (ps_plan s)) \<noteq> []
          else rrset_of records (owner, t) \<noteq> [])))"

definition state_inv :: "cfRecord list \<Rightarrow> plan_state \<Rightarrow> bool" where
  "state_inv records s \<longleftrightarrow>
     plan_ok records (set (ps_seen s)) (ps_plan s) \<and> distinct (ps_seen s) \<and> types_ok records (set (ps_seen s)) s"

lemma types_ok_update:
  assumes ok: "types_ok records seen s" and k: "(owner, kind) \<notin> seen"
    and old: "\<forall>w\<in>set (pl_expected (ps_plan s)). okey w \<in> seen" and ws: "\<forall>w\<in>set ws. okey w = (owner, kind)"
    and exp: "pl_expected (ps_plan s') = pl_expected (ps_plan s) @ ws"
    and fin: "ps_final s' = AList.update owner ts (ps_final s)" and ts: "distinct ts"
      "set ts = (if ws = [] then set (gomap_get [] (ps_final s) owner) - {kind} else insert kind (set (gomap_get [] (ps_final s) owner)))"
  shows "types_ok records (insert (owner, kind) seen) s'"
proof -
  have none: "filter (\<lambda>w. okey w = (owner, kind)) (pl_expected (ps_plan s)) = []"
    using old k by (auto simp: filter_empty_conv)
  have e: "filter (\<lambda>w. okey w = (o', t)) (pl_expected (ps_plan s')) =
      (if (o', t) = (owner, kind) then ws else filter (\<lambda>w. okey w = (o', t)) (pl_expected (ps_plan s)))" for o' t
    using filter_all_none [OF ws] filter_all_none(2) [OF ws, of "(o', t)"] none by (simp add: exp)
  have g: "gomap_get [] (ps_final s') o' = (if o' = owner then ts else gomap_get [] (ps_final s) o')" for o'
    by (simp add: fin gomap_get_update)
  have "t \<in> set (gomap_get [] (ps_final s') o') \<longleftrightarrow>
      (if (o', t) \<in> insert (owner, kind) seen then filter (\<lambda>w. okey w = (o', t)) (pl_expected (ps_plan s')) \<noteq> []
       else rrset_of records (o', t) \<noteq> [])" for o' t
  proof (cases "(o', t) = (owner, kind)")
    case True
    then show ?thesis using ts(2) unfolding e g by auto
  next
    case False
    then have "t \<in> set (gomap_get [] (ps_final s') o') \<longleftrightarrow> t \<in> set (gomap_get [] (ps_final s) o')"
      using ts(2) by (auto simp: g)
    also have "\<dots> \<longleftrightarrow> (if (o', t) \<in> seen then filter (\<lambda>w. okey w = (o', t)) (pl_expected (ps_plan s)) \<noteq> []
       else rrset_of records (o', t) \<noteq> [])" using ok by (simp add: types_ok_def)
    finally show ?thesis using False by (simp only: e insert_iff if_False simp_thms)
  qed
  moreover have "gomap_wf (ps_final s')" using ok by (simp add: types_ok_def fin distinct_update)
  moreover have "distinct (gomap_get [] (ps_final s') o')" for o' using ok ts(1) by (simp add: types_ok_def g)
  ultimately show ?thesis unfolding types_ok_def by blast
qed

lemma plan_delete_inv:
  assumes inv: "state_inv records s" and ids: "distinct (map r_id records)" and k: "(owner, kind) \<notin> set (ps_seen s)"
    and step: "plan_delete records owner kind c (s\<lparr>ps_seen := ps_seen s @ [(owner, kind)]\<rparr>) = Inr s'"
  shows "state_inv records s' \<and> ps_seen s' = ps_seen s @ [(owner, kind)]"
proof -
  let ?dels = "map deleteOperation (rrset_of records (owner, kind))"
  have s': "s' = \<lparr>ps_plan = (ps_plan s)\<lparr>pl_deletes := pl_deletes (ps_plan s) @ ?dels\<rparr>,
      ps_final = AList.update owner (removeAll kind (gomap_get [] (ps_final s) owner)) (ps_final s),
      ps_seen = ps_seen s @ [(owner, kind)]\<rparr>"
    using step by (cases s) (auto simp: plan_delete_def split: if_splits)
  have ext: "ps_plan s' = extend_plan (ps_plan s) ?dels [] [] []" by (simp add: s' extend_plan_def)
  have ok: "plan_ok records (set (ps_seen s)) (ps_plan s)" and t: "types_ok records (set (ps_seen s)) s"
    using inv by (simp_all add: state_inv_def)
  have "plan_ok records (insert (owner, kind) (set (ps_seen s))) (ps_plan s')" unfolding ext
  proof (rule extend_plan_ok [OF ok ids k])
    have "filter (\<lambda>r. r_id r \<notin> do_id ` set ?dels) (rrset_of records (owner, kind)) = []"
      by (auto simp: filter_empty_conv deleteOperation_def image_image)
    then show "mset (map (rec_facts \<circ> patched []) (filter (\<lambda>r. r_id r \<notin> do_id ` set ?dels) (rrset_of records (owner, kind)))) +
        mset (map op_facts []) = mset (map op_facts [])" by (simp only: list.map mset.simps add_0)
  qed auto
  moreover have "types_ok records (insert (owner, kind) (set (ps_seen s))) s'"
    by (rule types_ok_update [OF t k, where ws = "[]" and ts = "removeAll kind (gomap_get [] (ps_final s) owner)"])
      (use ok t in \<open>auto simp: plan_ok_def types_ok_def s' distinct_removeAll\<close>)
  ultimately show ?thesis using inv k by (simp add: state_inv_def s')
qed

lemma plan_upsert_inv:
  assumes inv: "state_inv records s" and ids: "distinct (map r_id records)" and k: "(owner, kind) \<notin> set (ps_seen s)"
    and step: "plan_upsert D records owner kind c (s\<lparr>ps_seen := ps_seen s @ [(owner, kind)]\<rparr>) = Inr s'"
  shows "state_inv records s' \<and> ps_seen s' = ps_seen s @ [(owner, kind)]"
proof -
  let ?e = "rrset_of records (owner, kind)"
  obtain ws dels ps cs where ws: "desired_loop D owner kind (fc_ttl c) (inheritedProvider ?e (fc_provider c)) (fc_records c) [] = Inr ws"
    and r: "reconcileRRset ?e ws = Inr (dels, ps, cs)" and ne: "fc_records c \<noteq> []"
    and s': "s' = \<lparr>ps_plan = extend_plan (ps_plan s) dels ps cs ws,
      ps_final = AList.update owner (goset_add kind (gomap_get [] (ps_final s) owner)) (ps_final s),
      ps_seen = ps_seen s @ [(owner, kind)]\<rparr>"
    using step by (cases s) (auto simp: plan_upsert_def extend_plan_def Let_def split: option.splits if_splits sum.splits)
  have w: "\<forall>w\<in>set ws. okey w = (owner, kind)" "ws \<noteq> []"
    using desired_loop_keeps [OF ws] ne by auto
  have ok: "plan_ok records (set (ps_seen s)) (ps_plan s)" and t: "types_ok records (set (ps_seen s)) s"
    using inv by (simp_all add: state_inv_def)
  have de: "distinct (map r_id ?e)" using ids by (simp add: rrset_of_def distinct_map_filter)
  note rs = reconcileRRset_sound [OF r de]
  have "\<forall>(i, w)\<in>set ps. okey w = (owner, kind)" using rs(6) w(1) by blast
  then have "plan_ok records (insert (owner, kind) (set (ps_seen s))) (ps_plan s')"
    using extend_plan_ok [OF ok ids k rs(1,3,4) _ rs(5) w(1)] by (simp add: s')
  moreover have "types_ok records (insert (owner, kind) (set (ps_seen s))) s'"
    by (rule types_ok_update [OF t k _ w(1), where ts = "goset_add kind (gomap_get [] (ps_final s) owner)"])
      (use ok t w(2) in \<open>auto simp: plan_ok_def types_ok_def s' extend_plan_def\<close>)
  ultimately show ?thesis using inv k by (simp add: state_inv_def s')
qed

definition names_rrset :: "dnslib \<Rightarrow> string \<Rightarrow> cfChange \<Rightarrow> string \<times> string \<Rightarrow> bool" where
  "names_rrset D zone c k \<longleftrightarrow>
     changeOwner D zone (fc_name c) = Inr (fst k) \<and> change_kind c = snd k \<and> snd k \<in> set supportedTypes"

text \<open>The values a change asks for: none for a deletion, one operation per record for an upsert.\<close>

definition requested :: "dnslib \<Rightarrow> ZoneRecords \<Rightarrow> cfChange \<Rightarrow> string \<times> string \<Rightarrow> CreateOperation list \<Rightarrow> bool" where
  "requested D cur c k ws \<longleftrightarrow>
     (if to_lower (trim_space (fc_action c)) = ''delete''
      then ws = [] \<and> fc_records c = [] \<and> rrset_of (zr_records cur) k \<noteq> []
      else to_lower (trim_space (fc_action c)) = ''upsert'' \<and> validateTTL (fc_ttl c) = None \<and> fc_records c \<noteq> [] \<and>
        desired_loop D (fst k) (snd k) (fc_ttl c) (inheritedProvider (rrset_of (zr_records cur) k) (fc_provider c)) (fc_records c) [] = Inr ws)"

definition accepted :: "dnslib \<Rightarrow> ZoneRecords \<Rightarrow> cfChange \<Rightarrow> (string \<times> string) \<times> CreateOperation list \<Rightarrow> bool" where
  "accepted D cur c kw \<longleftrightarrow>
     names_rrset D (zr_zone cur) c (fst kw) \<and> requested D cur c (fst kw) (snd kw) \<and> (\<forall>w\<in>set (snd kw). okey w = fst kw)"

definition frame_of :: "Plan \<Rightarrow> string \<times> string \<times> cfChange list" where
  "frame_of p = (pl_zone p, pl_previous p, pl_changes p)"

lemma plan_delete_shape:
  assumes "plan_delete records owner kind c s = Inr s'"
  shows "frame_of (ps_plan s') = frame_of (ps_plan s)" "pl_expected (ps_plan s') = pl_expected (ps_plan s)"
    "fc_records c = []" "rrset_of records (owner, kind) \<noteq> []"
  using assms by (auto simp: plan_delete_def frame_of_def split: if_splits)

lemma plan_upsert_shape:
  assumes "plan_upsert D records owner kind c s = Inr s'"
  obtains ws where "frame_of (ps_plan s') = frame_of (ps_plan s)" "pl_expected (ps_plan s') = pl_expected (ps_plan s) @ ws"
    "validateTTL (fc_ttl c) = None" "fc_records c \<noteq> []"
    "desired_loop D owner kind (fc_ttl c) (inheritedProvider (rrset_of records (owner, kind)) (fc_provider c)) (fc_records c) [] = Inr ws"
  using assms by (auto simp: plan_upsert_def frame_of_def Let_def split: option.splits if_splits sum.splits)

lemma plan_change_inv:
  assumes inv: "state_inv (zr_records cur) s" and ids: "distinct (map r_id (zr_records cur))"
    and step: "plan_change D cur c s = Inr s'"
  obtains kw where "state_inv (zr_records cur) s'" "ps_seen s' = ps_seen s @ [fst kw]" "accepted D cur c kw"
    "pl_expected (ps_plan s') = pl_expected (ps_plan s) @ snd kw" "frame_of (ps_plan s') = frame_of (ps_plan s)"
proof -
  let ?kind = "change_kind c" and ?action = "to_lower (trim_space (fc_action c))"
  obtain owner where o: "changeOwner D (zr_zone cur) (fc_name c) = Inr owner"
    using step by (auto simp: plan_change_def split: sum.splits)
  let ?s1 = "s\<lparr>ps_seen := ps_seen s @ [(owner, ?kind)]\<rparr>"
  have k: "?kind \<in> set supportedTypes" "(owner, ?kind) \<notin> set (ps_seen s)"
    using step o by (auto simp: plan_change_def Let_def split: if_splits)
  have names: "names_rrset D (zr_zone cur) c (owner, ?kind)" using o k(1) by (simp add: names_rrset_def)
  from step o k consider (delete) "?action = ''delete''" "plan_delete (zr_records cur) owner ?kind c ?s1 = Inr s'"
    | (upsert) "?action = ''upsert''" "plan_upsert D (zr_records cur) owner ?kind c ?s1 = Inr s'"
    by (simp add: plan_change_def Let_def split: if_splits)
  then show thesis
  proof cases
    case delete
    note sh = plan_delete_shape [OF delete(2)]
    have "accepted D cur c ((owner, ?kind), [])" using names sh(3,4) delete(1) by (simp add: accepted_def requested_def)
    then show thesis using plan_delete_inv [OF inv ids k(2) delete(2)] sh(1,2) by (intro that [of "((owner, ?kind), [])"]) simp_all
  next
    case upsert
    obtain ws where sh: "frame_of (ps_plan s') = frame_of (ps_plan s)" "pl_expected (ps_plan s') = pl_expected (ps_plan s) @ ws"
      "validateTTL (fc_ttl c) = None" "fc_records c \<noteq> []"
      "desired_loop D owner ?kind (fc_ttl c) (inheritedProvider (rrset_of (zr_records cur) (owner, ?kind)) (fc_provider c)) (fc_records c) [] = Inr ws"
      by (rule plan_upsert_shape [OF upsert(2)]) simp
    have "\<forall>w\<in>set ws. okey w = (owner, ?kind)" using desired_loop_keeps [OF sh(5)] by simp
    then have "accepted D cur c ((owner, ?kind), ws)" using names sh(3-5) upsert(1) by (simp add: accepted_def requested_def)
    then show thesis using plan_upsert_inv [OF inv ids k(2) upsert(2)] sh(1,2) by (intro that [of "((owner, ?kind), ws)"]) simp_all
  qed
qed

lemma plan_loop_inv:
  assumes ids: "distinct (map r_id (zr_records cur))"
  shows "plan_loop D cur cs s = Inr s' \<Longrightarrow> state_inv (zr_records cur) s \<Longrightarrow>
    state_inv (zr_records cur) s' \<and> frame_of (ps_plan s') = frame_of (ps_plan s) \<and>
    (\<exists>kws. ps_seen s' = ps_seen s @ map fst kws \<and> list_all2 (accepted D cur) cs kws \<and>
      pl_expected (ps_plan s') = pl_expected (ps_plan s) @ concat (map snd kws))"
proof (induction cs arbitrary: s)
  case (Cons c cs)
  from Cons.prems(1) obtain s1 where s1: "plan_change D cur c s = Inr s1" "plan_loop D cur cs s1 = Inr s'"
    by (auto split: sum.splits)
  obtain kw where k: "state_inv (zr_records cur) s1" "ps_seen s1 = ps_seen s @ [fst kw]" "accepted D cur c kw"
    "pl_expected (ps_plan s1) = pl_expected (ps_plan s) @ snd kw" "frame_of (ps_plan s1) = frame_of (ps_plan s)"
    by (rule plan_change_inv [OF Cons.prems(2) ids s1(1)])
  from Cons.IH [OF s1(2) k(1)] obtain kws where "state_inv (zr_records cur) s'" "frame_of (ps_plan s') = frame_of (ps_plan s1)"
    "ps_seen s' = ps_seen s1 @ map fst kws" "list_all2 (accepted D cur) cs kws"
    "pl_expected (ps_plan s') = pl_expected (ps_plan s1) @ concat (map snd kws)" by blast
  then show ?case using k by (intro conjI exI [of _ "kw # kws"]) simp_all
qed simp

lemma filter_concat_keys:
  "distinct (map fst kws) \<Longrightarrow> \<forall>kw\<in>set kws. \<forall>w\<in>set (snd kw). okey w = fst kw \<Longrightarrow> kw \<in> set kws \<Longrightarrow>
   filter (\<lambda>w. okey w = fst kw) (concat (map snd kws)) = snd kw"
proof (induction kws)
  case (Cons x kws)
  have other: "filter (\<lambda>w. okey w = k) (concat (map snd kws)) = []" if "k \<notin> fst ` set kws" for k
    using that Cons.prems(2) by (fastforce simp: filter_empty_conv)
  have own: "filter (\<lambda>w. okey w = fst x) (snd x) = snd x" using Cons.prems(2) by (intro filter_True) simp
  show ?case
  proof (cases "kw = x")
    case True
    then show ?thesis using other [of "fst x"] own Cons.prems(1) by simp
  next
    case False
    then have mem: "kw \<in> set kws" using Cons.prems(3) by simp
    have "fst x \<notin> fst ` set kws" using Cons.prems(1) by simp
    then have "fst kw \<noteq> fst x" using imageI [OF mem, of fst] by metis
    then have "filter (\<lambda>w. okey w = fst kw) (snd x) = []" using Cons.prems(2) by (auto simp: filter_empty_conv)
    then show ?thesis using Cons.IH Cons.prems mem by simp
  qed
qed simp

text \<open>The type sets the planner starts from.\<close>

lemma note_type_fold:
  "gomap_wf m \<Longrightarrow> (\<And>o'. distinct (gomap_get [] m o')) \<Longrightarrow>
   gomap_wf (fold note_type rs m) \<and> distinct (gomap_get [] (fold note_type rs m) owner) \<and>
   set (gomap_get [] (fold note_type rs m) owner) = set (gomap_get [] m owner) \<union> {t. rrset_of rs (owner, t) \<noteq> []}"
proof (induction rs arbitrary: m)
  case Nil
  then show ?case by (simp add: rrset_of_def)
next
  case (Cons r rs)
  let ?m = "note_type r m"
  have wf: "gomap_wf ?m" using Cons.prems(1) by (simp add: note_type_def distinct_update)
  have g: "gomap_get [] ?m o' = (if o' = r_name r then goset_add (r_type r) (gomap_get [] m o') else gomap_get [] m o')" for o'
    by (simp add: note_type_def gomap_get_update)
  have "distinct (gomap_get [] ?m o')" for o' using Cons.prems(2) by (simp add: g)
  from Cons.IH [OF wf this] show ?case by (auto simp: g rrset_of_def)
qed

lemma start_inv:
  assumes "initial = fold note_type records []"
  shows "state_inv records \<lparr>ps_plan = \<lparr>pl_zone = z, pl_dry_run = True, pl_previous = v, pl_changes = cs, pl_deletes = [],
      pl_patches = [], pl_creates = [], pl_expected = []\<rparr>, ps_final = initial, ps_seen = []\<rparr>"
proof -
  have nil: "gomap_get [] [] owner = []" for owner :: string by (simp add: gomap_get_def)
  show ?thesis using note_type_fold [of "[]" records] assms
    by (simp add: state_inv_def plan_ok_def types_ok_def nil)
qed

lemma map_of_stable: "map_of (sort_key fst ps) = map_of ps"
proof
  fix k
  have h: "map_of xs k = (case filter (\<lambda>x. fst x = k) xs of [] \<Rightarrow> None | x # _ \<Rightarrow> Some (snd x))" for xs :: "('a \<times> 'b) list"
    by (induction xs) auto
  show "map_of (sort_key fst ps) k = map_of ps k" unfolding h [of "sort_key fst ps"] h [of ps] sort_key_stable ..
qed

lemma sort_plan_ok: "plan_ok records seen p \<Longrightarrow> plan_ok records seen (sort_plan p)"
proof -
  assume ok: "plan_ok records seen p"
  have "mset (filter (\<lambda>w. okey w = k) (pl_creates (sort_plan p))) = mset (filter (\<lambda>w. okey w = k) (pl_creates p))" for k
    by (simp add: sort_plan_def mset_filter)
  then have "mset (map op_facts (filter (\<lambda>w. okey w = k) (pl_creates (sort_plan p)))) = mset (map op_facts (filter (\<lambda>w. okey w = k) (pl_creates p)))" for k
    by (simp only: mset_map)
  moreover have "patched (pl_patches (sort_plan p)) = patched (pl_patches p)"
    by (simp add: fun_eq_iff patched_def sort_plan_def map_of_stable)
  moreover have "pl_expected (sort_plan p) = pl_expected p" "do_id ` set (pl_deletes (sort_plan p)) = do_id ` set (pl_deletes p)"
    by (simp_all add: sort_plan_def)
  ultimately have "slice (sort_plan p) records k = slice p records k" for k by (simp only: slice_def)
  then show ?thesis using ok by (simp add: plan_ok_def) (simp add: sort_plan_def)
qed

text \<open>What an accepted plan satisfies.\<close>

lemma planChanges_Inr:
  assumes p: "planChanges D cur expected changes = Inr p" and ids: "distinct (map r_id (zr_records cur))"
  obtains kws s where "list_all2 (accepted D cur) changes kws" "distinct (map fst kws)" "plan_ok (zr_records cur) (fst ` set kws) p"
    "pl_expected p = concat (map snd kws)"
    "expected = zr_revision cur" "changes \<noteq> []" "length changes \<le> 100" "frame_of p = (zr_zone cur, zr_revision cur, changes)"
    "types_ok (zr_records cur) (fst ` set kws) s" "pl_expected (ps_plan s) = pl_expected p"
    "\<not> cname_conflict (ps_final s) (fold note_type (zr_records cur) [])"
proof -
  let ?initial = "fold note_type (zr_records cur) []"
  let ?start = "\<lparr>ps_plan = \<lparr>pl_zone = zr_zone cur, pl_dry_run = True, pl_previous = zr_revision cur,
      pl_changes = changes, pl_deletes = [], pl_patches = [], pl_creates = [], pl_expected = []\<rparr>,
      ps_final = ?initial, ps_seen = []\<rparr>"
  obtain s where l: "plan_loop D cur changes ?start = Inr s" and c: "\<not> cname_conflict (ps_final s) ?initial"
    and ps: "p = sort_plan (ps_plan s)" and g: "expected = zr_revision cur" "changes \<noteq> []" "length changes \<le> 100"
    using p by (auto simp: planChanges_def Let_def split: if_splits sum.splits)
  from plan_loop_inv [OF ids l start_inv [OF refl]] obtain kws where inv: "state_inv (zr_records cur) s"
    "frame_of (ps_plan s) = (zr_zone cur, zr_revision cur, changes)" "ps_seen s = map fst kws" "list_all2 (accepted D cur) changes kws"
    "pl_expected (ps_plan s) = concat (map snd kws)"
    by (auto simp: frame_of_def)
  have "plan_ok (zr_records cur) (fst ` set kws) p" using inv(1,3) by (simp add: ps state_inv_def sort_plan_ok)
  moreover have "frame_of p = (zr_zone cur, zr_revision cur, changes)" using inv(2) by (simp add: ps frame_of_def sort_plan_def)
  moreover have e: "pl_expected (ps_plan s) = pl_expected p" by (simp add: ps sort_plan_def)
  moreover have "pl_expected p = concat (map snd kws)" using e inv(5) by simp
  moreover have "distinct (map fst kws)" "types_ok (zr_records cur) (fst ` set kws) s" using inv(1,3) by (simp_all add: state_inv_def)
  ultimately show thesis using that [OF inv(4)] g c by blast
qed

section \<open>Carrying out an accepted plan\<close>

lemma patched_key: "plan_ok records seen p \<Longrightarrow> distinct (map r_id records) \<Longrightarrow> r \<in> set records \<Longrightarrow> rkey (patched (pl_patches p) r) = rkey r"
proof (cases "map_of (pl_patches p) (r_id r)")
  case (Some w)
  assume ok: "plan_ok records seen p" and ids: "distinct (map r_id records)" and r: "r \<in> set records"
  from Some have "(r_id r, w) \<in> set (pl_patches p)" by (rule map_of_SomeD)
  then obtain r' where "r' \<in> set records" "r_id r' = r_id r" "rkey r' = okey w" using ok by (fastforce simp: plan_ok_def)
  then have "rkey r = okey w" using same_id [OF ids r] by metis
  then show ?thesis using Some by (simp add: patched_def)
qed (simp add: patched_none)

lemma created_rrset:
  "length ids = length cs \<Longrightarrow>
   map rec_facts (rrset_of (map2 created ids cs) k) = map op_facts (filter (\<lambda>w. okey w = k) cs)"
proof (induction ids cs rule: list_induct2)
  case (Cons i ids w cs)
  have "rkey (created i w) = okey w" by simp
  then show ?case using Cons by (simp add: rrset_of_def)
qed (simp add: rrset_of_def)

lemma carry_out_rrset:
  assumes ok: "plan_ok records seen p" and ids: "distinct (map r_id records)" and len: "length new = length (pl_creates p)"
  shows "k \<in> seen \<Longrightarrow> mset (map rec_facts (rrset_of (carry_out p new records) k)) =
      mset (map op_facts (filter (\<lambda>w. okey w = k) (pl_expected p)))"
    and "k \<notin> seen \<Longrightarrow> rrset_of (carry_out p new records) k = rrset_of records k"
proof -
  let ?del = "\<lambda>r. r_id r \<notin> do_id ` set (pl_deletes p)"
  have "rkey (patched (pl_patches p) r) = k \<longleftrightarrow> rkey r = k" if "r \<in> set records" for r
    using patched_key [OF ok ids that] by metis
  then have "filter (\<lambda>r. rkey (patched (pl_patches p) r) = k) (filter ?del records) = filter ?del (rrset_of records k)"
    unfolding rrset_of_def filter_filter by (intro filter_cong) auto
  then have split_rrset: "rrset_of (carry_out p new records) k =
      map (patched (pl_patches p)) (filter ?del (rrset_of records k)) @ rrset_of (map2 created new (pl_creates p)) k"
    unfolding carry_out_def by (simp only: rrset_of_def filter_append filter_map comp_def)
  show "mset (map rec_facts (rrset_of (carry_out p new records) k)) = mset (map op_facts (filter (\<lambda>w. okey w = k) (pl_expected p)))"
    if "k \<in> seen"
  proof -
    have "slice p records k" using ok that by (simp add: plan_ok_def)
    then show ?thesis unfolding split_rrset slice_def map_append mset_append created_rrset [OF len] by simp
  qed
  show "rrset_of (carry_out p new records) k = rrset_of records k" if "k \<notin> seen"
  proof -
    note f = foreign_ops [OF ok ids]
    have "filter (\<lambda>w. okey w = k) (pl_creates p) = []" using ok that by (auto simp: plan_ok_def filter_empty_conv)
    moreover have "filter ?del (rrset_of records k) = rrset_of records k" using f that by (intro filter_True) auto
    moreover have "map (patched (pl_patches p)) (rrset_of records k) = rrset_of records k"
      using f that by (intro map_idI) (auto simp: patched_none)
    ultimately show ?thesis using created_rrset [OF len, of k] split_rrset by simp
  qed
qed

text \<open>Per change: the RRset it names and the values it asks for.\<close>

lemma accepted_changes:
  assumes p: "planChanges D cur expected changes = Inr p" and ids: "distinct (map r_id (zr_records cur))"
    and len: "length new = length (pl_creates p)"
  shows "c \<in> set changes \<Longrightarrow> \<exists>k ws. names_rrset D (zr_zone cur) c k \<and> requested D cur c k ws \<and>
      filter (\<lambda>w. okey w = k) (pl_expected p) = ws \<and>
      mset (map rec_facts (rrset_of (carry_out p new (zr_records cur)) k)) = mset (map op_facts ws)"
    and "(\<And>c. c \<in> set changes \<Longrightarrow> \<not> names_rrset D (zr_zone cur) c k) \<Longrightarrow>
      rrset_of (carry_out p new (zr_records cur)) k = rrset_of (zr_records cur) k"
proof -
  obtain kws where l: "list_all2 (accepted D cur) changes kws" "distinct (map fst kws)" "plan_ok (zr_records cur) (fst ` set kws) p"
    "pl_expected p = concat (map snd kws)" by (rule planChanges_Inr [OF p ids])
  note rr = carry_out_rrset [OF l(3) ids len]
  have len': "length changes = length kws" and nth: "\<And>i. i < length kws \<Longrightarrow> accepted D cur (changes ! i) (kws ! i)"
    using l(1) by (simp_all add: list_all2_conv_all_nth)
  have all: "\<forall>kw\<in>set kws. \<forall>w\<in>set (snd kw). okey w = fst kw"
  proof
    fix kw assume "kw \<in> set kws"
    then obtain i where "i < length kws" "kw = kws ! i" by (auto simp: in_set_conv_nth)
    then show "\<forall>w\<in>set (snd kw). okey w = fst kw" using nth by (simp add: accepted_def)
  qed
  show "\<exists>k ws. names_rrset D (zr_zone cur) c k \<and> requested D cur c k ws \<and> filter (\<lambda>w. okey w = k) (pl_expected p) = ws \<and>
      mset (map rec_facts (rrset_of (carry_out p new (zr_records cur)) k)) = mset (map op_facts ws)" if c: "c \<in> set changes"
  proof -
    from c obtain i where "i < length changes" "c = changes ! i" by (auto simp: in_set_conv_nth)
    then have "kws ! i \<in> set kws" "accepted D cur c (kws ! i)" using nth len' by auto
    then obtain kw where kw: "kw \<in> set kws" "accepted D cur c kw" by blast
    have "filter (\<lambda>w. okey w = fst kw) (pl_expected p) = snd kw" using filter_concat_keys [OF l(2) all kw(1)] l(4) by simp
    moreover have "mset (map rec_facts (rrset_of (carry_out p new (zr_records cur)) (fst kw))) =
        mset (map op_facts (filter (\<lambda>w. okey w = fst kw) (pl_expected p)))" using rr(1) kw(1) by blast
    ultimately show ?thesis using kw(2) by (intro exI [of _ "fst kw"] exI [of _ "snd kw"]) (simp add: accepted_def)
  qed
  show "rrset_of (carry_out p new (zr_records cur)) k = rrset_of (zr_records cur) k"
    if no: "\<And>c. c \<in> set changes \<Longrightarrow> \<not> names_rrset D (zr_zone cur) c k"
  proof (rule rr(2))
    show "k \<notin> fst ` set kws"
    proof
      assume "k \<in> fst ` set kws"
      then obtain i where i: "i < length kws" "fst (kws ! i) = k" by (auto simp: in_set_conv_nth)
      then have "i < length changes" "accepted D cur (changes ! i) (kws ! i)" using nth len' by simp_all
      then show False using no [of "changes ! i"] i(2) by (simp add: accepted_def)
    qed
  qed
qed

end
