(* ===== verification/CloudflareApply.thy ===== *)
theory CloudflareApply
  imports CloudflarePlan
begin

text \<open>
  Applying a planned change to Cloudflare (internal/cloudflare/apply.go): sending the batch, waiting
  until the API and the name servers show it, and rolling back what the API never showed.

  Loops that poll take fuel; \<open>None\<close> is a loop that did not end within it.  \<open>fuel\<close> bounds each polling
  loop and each record listing.
\<close>

section \<open>Requests and results\<close>

record ApplyRequest =
  ar_expected :: string
  ar_changes :: "cfChange list"
  ar_confirm :: bool
  ar_actor :: string
  ar_request_id :: string

record ApplyResult =
  at_zone :: string
  at_previous :: string
  at_revision :: string
  at_changes :: "cfChange list"
  at_accepted :: bool
  at_api_verified :: bool
  at_dns_verified :: bool
  at_rolled_back :: bool
  at_request_id :: string
  at_warning :: string

definition no_result :: ApplyResult where
  "no_result = \<lparr>at_zone = [], at_previous = [], at_revision = [], at_changes = [], at_accepted = False,
     at_api_verified = False, at_dns_verified = False, at_rolled_back = False, at_request_id = [], at_warning = []\<rparr>"

section \<open>The batch\<close>

definition create_fields :: "CreateOperation \<Rightarrow> (string \<times> jvalue) list" where
  "create_fields w =
     [(''name'', JStr (co_name w)), (''type'', JStr (co_type w))] @ omit_empty ''content'' (co_content w) @
     [(''ttl'', JNum (uint (co_ttl w)))] @ omit_none ''proxied'' JBool (co_proxied w) @
     omit_none ''priority'' (\<lambda>n. JNum (int n)) (co_priority w) @ omit_empty ''comment'' (co_comment w) @
     omit_tags (co_tags w) @ omit_none ''data'' id (co_data w)"

definition omit_list :: "string \<Rightarrow> jvalue list \<Rightarrow> (string \<times> jvalue) list" where
  "omit_list k xs = (if xs = [] then [] else [(k, JArr xs)])"

definition enc_batch :: "Plan \<Rightarrow> jvalue" where
  "enc_batch p =
     JObj (omit_list ''deletes'' (map (\<lambda>d. JObj [(''id'', JStr (do_id d))]) (pl_deletes p)) @
           omit_list ''patches'' (map (\<lambda>(i, w). JObj ((''id'', JStr i) # create_fields w)) (pl_patches p)) @
           omit_list ''posts'' (map (\<lambda>w. JObj (create_fields w)) (pl_creates p)))"

definition sendBatch :: "'e cf_env \<Rightarrow> string \<Rightarrow> Plan \<Rightarrow> 'e \<Rightarrow> cferr option \<times> 'e" where
  "sendBatch E zoneID plan e =
     (case call_json E dec_batchResponse (Batch zoneID (enc_batch plan)) e of
        (Inl err, e1) \<Rightarrow> (Some err, e1)
      | (Inr (ok, errs), e1) \<Rightarrow> if ok then (None, e1) else (Some (apiFailure errs ''unsuccessful batch response''), e1))"

section \<open>Waiting for the API\<close>

text \<open>Each expected value takes the first unused actual one that fits it.\<close>

fun greedy_match :: "('a \<Rightarrow> 'b \<Rightarrow> bool) \<Rightarrow> 'a list \<Rightarrow> 'b list \<Rightarrow> bool" where
  "greedy_match fits actual [] = True"
| "greedy_match fits actual (x # xs) =
     (case take_first (\<lambda>a. fits a x) actual of None \<Rightarrow> False | Some (_, others) \<Rightarrow> greedy_match fits others xs)"

text \<open>\<open>owner, _ := changeOwner(...)\<close>: the empty name on an error.\<close>

definition owner_or_empty :: "dnslib \<Rightarrow> string \<Rightarrow> string \<Rightarrow> string" where
  "owner_or_empty D zone name = (case changeOwner D zone name of Inl _ \<Rightarrow> [] | Inr owner \<Rightarrow> owner)"

definition planMatches :: "dnslib \<Rightarrow> ZoneRecords \<Rightarrow> Plan \<Rightarrow> bool" where
  "planMatches D current plan =
     list_all (\<lambda>c. let k = (owner_or_empty D (pl_zone plan) (fc_name c), change_kind c);
                       actual = rrset_of (zr_records current) k;
                       expected = filter (\<lambda>w. okey w = k) (pl_expected plan)
                   in length actual = length expected \<and>
                      greedy_match (\<lambda>r w. sameRecordValue r w \<and> r_ttl r = co_ttl w) actual expected)
       (pl_changes plan)"

text \<open>The polling loops of \<open>waitForAPI\<close> and \<open>rollback\<close>: list the records until \<open>good\<close> holds of them.\<close>

fun poll_records :: "'e cf_env \<Rightarrow> (jvalue \<Rightarrow> string) \<Rightarrow> nat \<Rightarrow> nat \<Rightarrow> string \<Rightarrow> (ZoneRecords \<Rightarrow> bool) \<Rightarrow> string \<Rightarrow> gotime \<Rightarrow> Client \<Rightarrow> 'e \<Rightarrow>
    ((cferr + ZoneRecords) \<times> Client \<times> 'e) option" where
  "poll_records E digest pages 0 zone good msg deadline cl e = None"
| "poll_records E digest pages (Suc fuel) zone good msg deadline cl e =
     (case ListRecords E digest pages zone cl e of
        None \<Rightarrow> None
      | Some (res, cl1, e1) \<Rightarrow>
          if (case res of Inl _ \<Rightarrow> False | Inr cur \<Rightarrow> good cur) then Some (res, cl1, e1)
          else if deadline < ev_now E e1
          then Some ((case res of Inl err \<Rightarrow> Inl err | Inr _ \<Rightarrow> Inl (CfError msg)), cl1, e1)
          else case ev_wait E (second div 2) e1 of
            (False, e2) \<Rightarrow> Some (Inl (CfError ''context ended''), cl1, e2)
          | (True, e2) \<Rightarrow> poll_records E digest pages fuel zone good msg deadline cl1 e2)"

definition waitForAPI :: "'e cf_env \<Rightarrow> (jvalue \<Rightarrow> string) \<Rightarrow> dnslib \<Rightarrow> nat \<Rightarrow> string \<Rightarrow> Plan \<Rightarrow> duration \<Rightarrow> Client \<Rightarrow> 'e \<Rightarrow>
    ((cferr + ZoneRecords) \<times> Client \<times> 'e) option" where
  "waitForAPI E digest D fuel zone plan timeout cl e =
     poll_records E digest fuel fuel zone (\<lambda>cur. planMatches D cur plan) ''timed out waiting for intended records''
       (ev_now E e + timeout) cl e"

section \<open>Waiting for the name servers\<close>

definition canonicalRData :: "dnslib \<Rightarrow> rr \<Rightarrow> string" where
  "canonicalRData D r =
     (let parts = go_fields (rr_string D r)
      in if length parts < 5 then to_lower (rr_string D r) else to_lower (join '' '' (drop 4 parts)))"

definition RcodeSuccess :: nat where "RcodeSuccess = 0"

text \<open>\<open>dns.StringToType\<close> gives 0 for an unknown name; a nil record (\<open>NoRR\<close>) makes \<open>String\<close> panic.\<close>

datatype dns_verdict = Verified | NotYet string | VerifyPanic

definition type_code :: "dnslib \<Rightarrow> string \<Rightarrow> nat" where
  "type_code D kind = (case string_to_type D kind of None \<Rightarrow> 0 | Some t \<Rightarrow> t)"

fun values_served :: "dnslib \<Rightarrow> string \<Rightarrow> string \<Rightarrow> string list \<Rightarrow> string list \<Rightarrow> dns_verdict" where
  "values_served D owner kind actual [] = Verified"
| "values_served D owner kind actual (v # vs) =
     (case new_rr D (fqdn D owner @ '' 300 IN '' @ kind @ '' '' @ v) of
        BadRR \<Rightarrow> NotYet ''authoritative RRset values differ''
      | NoRR \<Rightarrow> VerifyPanic
      | OneRR r \<Rightarrow> if canonicalRData D r \<notin> set actual then NotYet ''authoritative RRset values differ''
                   else values_served D owner kind actual vs)"

definition verifyDNSResponse :: "dnslib \<Rightarrow> dns_response \<Rightarrow> cfChange \<Rightarrow> Plan \<Rightarrow> dns_verdict" where
  "verifyDNSResponse D response c plan =
     (let owner = owner_or_empty D (pl_zone plan) (fc_name c); kind = change_kind c;
          answers = filter (\<lambda>a. rrtype a = type_code D kind) (dr_answer response)
      in if equal_fold (fc_action c) ''delete''
         then (if answers \<noteq> [] then NotYet ''deleted RRset is still present'' else Verified)
         else if list_ex (\<lambda>w. co_name w = owner \<and> co_type w = kind \<and> co_proxied w = Some True) (pl_expected plan)
         then (if dr_rcode response \<noteq> RcodeSuccess \<or> dr_answer response = [] then NotYet ''proxied RRset is not yet answering''
               else Verified)
         else if length answers \<noteq> length (fc_records c) then NotYet ''authoritative RRset value count differs''
         else values_served D owner kind (map (canonicalRData D) answers) (fc_records c))"

text \<open>\<open>verifyNameserver\<close> and \<open>verifyDoH\<close>: one query per change through \<open>ask\<close>.\<close>

fun verify_changes :: "dnslib \<Rightarrow> (string \<Rightarrow> nat \<Rightarrow> 'e \<Rightarrow> dns_response option \<times> 'e) \<Rightarrow> Plan \<Rightarrow> cfChange list \<Rightarrow> 'e \<Rightarrow> dns_verdict \<times> 'e" where
  "verify_changes D ask plan [] e = (Verified, e)"
| "verify_changes D ask plan (c # cs) e =
     (case ask (fqdn D (owner_or_empty D (pl_zone plan) (fc_name c))) (type_code D (change_kind c)) e of
        (None, e1) \<Rightarrow> (NotYet ''exchange failed'', e1)
      | (Some r, e1) \<Rightarrow>
          (case verifyDNSResponse D r c plan of
             Verified \<Rightarrow> verify_changes D ask plan cs e1
           | v \<Rightarrow> (v, e1)))"

definition verifyNameserver :: "'e cf_env \<Rightarrow> dnslib \<Rightarrow> string \<Rightarrow> Plan \<Rightarrow> 'e \<Rightarrow> dns_verdict \<times> 'e" where
  "verifyNameserver E D nameserver plan e = verify_changes D (ev_dns E nameserver) plan (pl_changes plan) e"

definition verifyDoH :: "'e cf_env \<Rightarrow> dnslib \<Rightarrow> Plan \<Rightarrow> 'e \<Rightarrow> dns_verdict \<times> 'e" where
  "verifyDoH E D plan e = verify_changes D (ev_doh E) plan (pl_changes plan) e"

fun verify_all :: "'e cf_env \<Rightarrow> dnslib \<Rightarrow> string list \<Rightarrow> Plan \<Rightarrow> 'e \<Rightarrow> dns_verdict \<times> 'e" where
  "verify_all E D [] plan e = (Verified, e)"
| "verify_all E D (n # ns) plan e =
     (case verifyNameserver E D n plan e of
        (Verified, e1) \<Rightarrow> verify_all E D ns plan e1
      | (v, e1) \<Rightarrow> (v, e1))"

fun dns_loop :: "'e cf_env \<Rightarrow> dnslib \<Rightarrow> nat \<Rightarrow> string list \<Rightarrow> Plan \<Rightarrow> gotime \<Rightarrow> 'e \<Rightarrow> (dns_verdict \<times> 'e) option" where
  "dns_loop E D 0 ns plan deadline e = None"
| "dns_loop E D (Suc fuel) ns plan deadline e =
     (case verify_all E D ns plan e of
        (Verified, e1) \<Rightarrow> Some (Verified, e1)
      | (VerifyPanic, e1) \<Rightarrow> Some (VerifyPanic, e1)
      | (NotYet _, e1) \<Rightarrow>
          (case verifyDoH E D plan e1 of
             (Verified, e2) \<Rightarrow> Some (Verified, e2)
           | (VerifyPanic, e2) \<Rightarrow> Some (VerifyPanic, e2)
           | (NotYet m, e2) \<Rightarrow>
               if deadline < ev_now E e2 then Some (NotYet (''timed out waiting for authoritative nameservers: '' @ m), e2)
               else case ev_wait E second e2 of
                 (False, e3) \<Rightarrow> Some (NotYet ''context ended'', e3)
               | (True, e3) \<Rightarrow> dns_loop E D fuel ns plan deadline e3))"

definition waitForDNS :: "'e cf_env \<Rightarrow> dnslib \<Rightarrow> nat \<Rightarrow> string \<Rightarrow> Plan \<Rightarrow> duration \<Rightarrow> Client \<Rightarrow> 'e \<Rightarrow> (dns_verdict \<times> 'e) option" where
  "waitForDNS E D fuel zone plan timeout cl e =
     (let nameservers = gomap_get [] (cl_zoneNS cl) zone
      in if nameservers = [] then Some (NotYet ''no authoritative nameservers returned by Cloudflare'', e)
         else dns_loop E D fuel nameservers plan (ev_now E e + timeout) e)"

section \<open>Rolling back\<close>

definition affected_key :: "string \<Rightarrow> string \<Rightarrow> string" where
  "affected_key name kind = name @ [CHR 0x00] @ kind"

definition affected_keys :: "dnslib \<Rightarrow> string \<Rightarrow> cfChange list \<Rightarrow> string list" where
  "affected_keys D zone changes = map (\<lambda>c. affected_key (owner_or_empty D zone (fc_name c)) (to_upper (fc_type c))) changes"

abbreviation skey :: "cfRecord \<Rightarrow> string" where "skey r \<equiv> affected_key (r_name r) (r_type r)"

definition rollback_plan :: "dnslib \<Rightarrow> ZoneRecords \<Rightarrow> ZoneRecords \<Rightarrow> cfChange list \<Rightarrow> Plan" where
  "rollback_plan D original latest changes =
     (let affected = set (affected_keys D (zr_zone original) changes)
      in \<lparr>pl_zone = zr_zone original, pl_dry_run = False, pl_previous = [], pl_changes = [],
          pl_deletes = map deleteOperation (filter (\<lambda>r. skey r \<in> affected) (zr_records latest)),
          pl_patches = [],
          pl_creates = map (\<lambda>r. \<lparr>co_name = r_name r, co_type = r_type r, co_content = r_content r, co_ttl = r_ttl r,
                                 co_proxied = r_proxied r, co_priority = r_priority r, co_comment = r_comment r,
                                 co_tags = r_tags r, co_data = None\<rparr>)
                         (filter (\<lambda>r. skey r \<in> affected) (zr_records original)),
          pl_expected = []\<rparr>)"

definition select_step :: "string list \<Rightarrow> cfRecord \<Rightarrow> (string, cfRecord list) gomap \<Rightarrow> (string, cfRecord list) gomap" where
  "select_step affected r m =
     (if skey r \<in> set affected then AList.update (skey r) (gomap_get [] m (skey r) @ [r]) m else m)"

definition selectRecords :: "string list \<Rightarrow> ZoneRecords \<Rightarrow> (string, cfRecord list) gomap" where
  "selectRecords affected zone = fold (select_step affected) (zr_records zone) []"

definition same_restored :: "cfRecord \<Rightarrow> cfRecord \<Rightarrow> bool" where
  "same_restored got wanted =
     (r_content got = r_content wanted \<and> r_ttl got = r_ttl wanted \<and> r_proxied got = r_proxied wanted \<and>
      r_priority got = r_priority wanted)"

definition affectedRecordsMatch :: "ZoneRecords \<Rightarrow> ZoneRecords \<Rightarrow> string list \<Rightarrow> bool" where
  "affectedRecordsMatch left right affected =
     (let a = selectRecords affected left; b = selectRecords affected right
      in length a = length b \<and>
         list_all (\<lambda>(k, expected). length (gomap_get [] a k) = length expected \<and>
                                   greedy_match same_restored (gomap_get [] a k) expected) b)"

definition rollback_change :: "'e cf_env \<Rightarrow> (jvalue \<Rightarrow> string) \<Rightarrow> dnslib \<Rightarrow> nat \<Rightarrow> ZoneRecords \<Rightarrow> cfChange list \<Rightarrow> Client \<Rightarrow> 'e \<Rightarrow>
    (cferr option \<times> Client \<times> 'e) option" where
  "rollback_change E digest D fuel original changes cl e =
     (case ListRecords E digest fuel (zr_zone original) cl e of
        None \<Rightarrow> None
      | Some (Inl err, cl1, e1) \<Rightarrow> Some (Some err, cl1, e1)
      | Some (Inr latest, cl1, e1) \<Rightarrow>
          (case sendBatch E (zr_zoneid original) (rollback_plan D original latest changes) e1 of
             (Some err, e2) \<Rightarrow> Some (Some err, cl1, e2)
           | (None, e2) \<Rightarrow>
               (case poll_records E digest fuel fuel (zr_zone original)
                       (\<lambda>cur. affectedRecordsMatch cur original (affected_keys D (zr_zone original) changes))
                       ''timed out verifying rollback'' (ev_now E e2 + 15 * second) cl1 e2 of
                  None \<Rightarrow> None
                | Some (Inl err, cl2, e3) \<Rightarrow> Some (Some err, cl2, e3)
                | Some (Inr _, cl2, e3) \<Rightarrow> Some (None, cl2, e3))))"

section \<open>Audit\<close>

definition ensureAuditWritable :: "Client \<Rightarrow> world \<Rightarrow> bool \<times> world" where
  "ensureAuditWritable cl w =
     (if cl_auditPath cl = [] then (True, w)
      else case os_plain w of
        (False, w1) \<Rightarrow> (False, w1)
      | (True, w1) \<Rightarrow>
          os_plain (if flookup w1 (cl_auditPath cl) = None
                    then set_disk (AList.update (cl_auditPath cl) (Lines []) (disk w1)) w1 else w1))"

definition enc_cfchange :: "cfChange \<Rightarrow> jvalue" where
  "enc_cfchange c =
     JObj ([(''action'', JStr (fc_action c)), (''name'', JStr (fc_name c)), (''type'', JStr (fc_type c))] @
           (if fc_ttl c = 0 then [] else [(''ttl'', JNum (uint (fc_ttl c)))]) @
           omit_list ''records'' (map JStr (fc_records c)) @
           [(''provider'', JObj (omit_none ''proxied'' JBool (po_proxied (fc_provider c)) @
                                 omit_none ''comment'' JStr (po_comment (fc_provider c)) @
                                 omit_none ''tags'' (\<lambda>t. JArr (map JStr t)) (po_tags (fc_provider c))))])"

definition audit_event :: "gotime \<Rightarrow> ApplyRequest \<Rightarrow> ApplyResult \<Rightarrow> string \<Rightarrow> string \<Rightarrow> jvalue" where
  "audit_event now req res outcome detail =
     JObj ([(''accepted'', JBool (at_accepted res)), (''actor'', JStr (ar_actor req)), (''api_verified'', JBool (at_api_verified res)),
            (''changes'', JArr (map enc_cfchange (at_changes res)))] @
           (if detail = [] then [] else [(''detail'', JStr detail)]) @
           [(''dns_verified'', JBool (at_dns_verified res)), (''outcome'', JStr outcome),
            (''previous_revision'', JStr (at_previous res)), (''provider'', JStr ''cloudflare''),
            (''request_id'', JStr (ar_request_id req)), (''revision'', JStr (at_revision res)),
            (''rolled_back'', JBool (at_rolled_back res)), (''timestamp'', JTime now), (''zone'', JStr (at_zone res))])"

definition appendAudit_cf :: "'e cf_env \<Rightarrow> Client \<Rightarrow> ApplyRequest \<Rightarrow> ApplyResult \<Rightarrow> string \<Rightarrow> string \<Rightarrow> 'e \<Rightarrow> world \<Rightarrow> bool \<times> world" where
  "appendAudit_cf E cl req res outcome detail e w =
     (if cl_auditPath cl = [] then (True, w)
      else append_line (cl_auditPath cl) (audit_event (ev_now E e) req res outcome detail) w)"

section \<open>Applying\<close>

definition err_text :: "cferr \<Rightarrow> string" where
  "err_text err =
     (case err of
        CfError m \<Rightarrow> m
      | CfInvalidChange m \<Rightarrow> ''invalid Cloudflare DNS change: '' @ m
      | CfRevisionMismatch \<Rightarrow> ''revision mismatch for the Cloudflare zone''
      | CfConfirmationRequired \<Rightarrow> ''confirmation is required for this Cloudflare change''
      | CfPanic \<Rightarrow> ''panic'')"

type_synonym 'e applied = "((ApplyResult \<times> cferr option) \<times> Client \<times> world \<times> 'e) option"

text \<open>After the batch was accepted and the API shows it: wait for the name servers.\<close>

definition settle :: "'e cf_env \<Rightarrow> dnslib \<Rightarrow> nat \<Rightarrow> ApplyRequest \<Rightarrow> ZoneRecords \<Rightarrow> Plan \<Rightarrow> ApplyResult \<Rightarrow> Client \<Rightarrow> world \<Rightarrow> 'e \<Rightarrow> 'e applied" where
  "settle E D fuel req current plan res cl w e =
     (case waitForDNS E D fuel (zr_zone current) plan (30 * second) cl e of
        None \<Rightarrow> None
      | Some (Verified, e1) \<Rightarrow>
          (let res1 = res\<lparr>at_dns_verified := True\<rparr>
           in Some ((res1, None), cl, snd (appendAudit_cf E cl req res1 ''applied'' [] e1 w), e1))
      | Some (NotYet m, e1) \<Rightarrow>
          (let res1 = res\<lparr>at_warning := ''DNS propagation is still pending: '' @ m\<rparr>
           in Some ((res1, None), cl, snd (appendAudit_cf E cl req res1 ''applied_dns_pending'' (at_warning res1) e1 w), e1))
      | Some (VerifyPanic, e1) \<Rightarrow> Some ((no_result, Some CfPanic), cl, w, e1))"

text \<open>After the API did not show the batch in time: roll back.\<close>

definition undo :: "'e cf_env \<Rightarrow> (jvalue \<Rightarrow> string) \<Rightarrow> dnslib \<Rightarrow> nat \<Rightarrow> ApplyRequest \<Rightarrow> ZoneRecords \<Rightarrow> cferr \<Rightarrow> ApplyResult \<Rightarrow> Client \<Rightarrow> world \<Rightarrow> 'e \<Rightarrow> 'e applied" where
  "undo E digest D fuel req current err res cl w e =
     (case rollback_change E digest D fuel current (ar_changes req) cl e of
        None \<Rightarrow> None
      | Some (failure, cl1, e1) \<Rightarrow>
          (let res1 = res\<lparr>at_rolled_back := (failure = None)\<rparr>;
               message = err_text err @ (case failure of None \<Rightarrow> [] | Some f \<Rightarrow> ''; rollback failed: '' @ err_text f)
           in Some ((res1, Some (CfError (''verification of the Cloudflare change failed: '' @ message))), cl1,
                    snd (appendAudit_cf E cl1 req res1 ''verification_failed'' message e1 w), e1)))"

definition execute_plan :: "'e cf_env \<Rightarrow> (jvalue \<Rightarrow> string) \<Rightarrow> dnslib \<Rightarrow> nat \<Rightarrow> ApplyRequest \<Rightarrow> ZoneRecords \<Rightarrow> Plan \<Rightarrow> ApplyResult \<Rightarrow> Client \<Rightarrow> world \<Rightarrow> 'e \<Rightarrow> 'e applied" where
  "execute_plan E digest D fuel req current plan res cl w e =
     (case ensureAuditWritable cl w of
        (False, w1) \<Rightarrow> Some ((res, Some (CfError ''audit log for Cloudflare changes is not writable'')), cl, w1, e)
      | (True, w1) \<Rightarrow>
          (case sendBatch E (zr_zoneid current) plan e of
             (Some err, e1) \<Rightarrow>
               Some ((res, Some err), cl, snd (appendAudit_cf E cl req res ''failed'' (err_text err) e1 w1), e1)
           | (None, e1) \<Rightarrow>
               (let res1 = res\<lparr>at_accepted := True\<rparr>
                in case waitForAPI E digest D fuel (zr_zone current) plan (15 * second) cl e1 of
                     None \<Rightarrow> None
                   | Some (Inr verified, cl2, e2) \<Rightarrow>
                       settle E D fuel req current plan (res1\<lparr>at_api_verified := True, at_revision := zr_revision verified\<rparr>) cl2 w1 e2
                   | Some (Inl err, cl2, e2) \<Rightarrow> undo E digest D fuel req current err res1 cl2 w1 e2)))"

definition ApplyChanges :: "'e cf_env \<Rightarrow> (jvalue \<Rightarrow> string) \<Rightarrow> dnslib \<Rightarrow> nat \<Rightarrow> string \<Rightarrow> ApplyRequest \<Rightarrow> Client \<Rightarrow> world \<Rightarrow> 'e \<Rightarrow> 'e applied" where
  "ApplyChanges E digest D fuel zone req cl w e =
     (if \<not> ar_confirm req then Some ((no_result, Some CfConfirmationRequired), cl, w, e)
      else case ListRecords E digest fuel zone cl e of
        None \<Rightarrow> None
      | Some (Inl err, cl1, e1) \<Rightarrow> Some ((no_result, Some err), cl1, w, e1)
      | Some (Inr current, cl1, e1) \<Rightarrow>
          (case planChanges D current (ar_expected req) (ar_changes req) of
             Inl err \<Rightarrow> Some ((no_result, Some err), cl1, w, e1)
           | Inr plan \<Rightarrow>
               (let res = no_result\<lparr>at_zone := zr_zone current, at_previous := zr_revision current,
                                    at_changes := ar_changes req, at_request_id := ar_request_id req\<rparr>
                in if pl_deletes plan = [] \<and> pl_patches plan = [] \<and> pl_creates plan = []
                   then (let res1 = res\<lparr>at_accepted := True, at_api_verified := True, at_dns_verified := True,
                                        at_revision := zr_revision current\<rparr>
                         in Some ((res1, None), cl1, snd (appendAudit_cf E cl1 req res1 ''no-op'' [] e1 w), e1))
                   else execute_plan E digest D fuel req current plan res cl1 w e1)))"

section \<open>Matching\<close>

text \<open>Greedy matching is exact when what fits is decided by equal keys.\<close>

lemma take_first_None: "take_first P xs = None \<longleftrightarrow> (\<forall>x\<in>set xs. \<not> P x)"
  by (induction xs) auto

lemma greedy_match_keys:
  assumes "\<And>a x. fits a x \<longleftrightarrow> f a = g x"
  shows "length actual = length wanted \<Longrightarrow> greedy_match fits actual wanted \<longleftrightarrow> mset (map f actual) = mset (map g wanted)"
proof (induction wanted arbitrary: actual)
  case (Cons x wanted)
  show ?case
  proof (cases "take_first (\<lambda>a. fits a x) actual")
    case None
    then have "g x \<notin># mset (map f actual)" using assms by (auto simp: take_first_None)
    moreover have "g x \<in># mset (map g (x # wanted))" by simp
    ultimately have "mset (map f actual) \<noteq> mset (map g (x # wanted))" by metis
    then show ?thesis using None by (simp only: greedy_match.simps option.case)
  next
    case (Some ao)
    then obtain a others where ao: "take_first (\<lambda>a. fits a x) actual = Some (a, others)" by (cases ao) auto
    from take_first_Some [OF ao] have m: "f a = g x" "mset actual = add_mset a (mset others)" using assms by auto
    have "length others = length wanted" using arg_cong [OF m(2), of size] Cons.prems by simp
    note ih = Cons.IH [OF this]
    have "mset (map f actual) = add_mset (g x) (mset (map f others))" using m by simp
    then show ?thesis using ih ao by (simp only: greedy_match.simps option.case prod.case list.map mset.simps add_mset_add_mset_same_iff)
  qed
qed simp

lemma greedy_match_sound:
  "greedy_match fits actual wanted \<Longrightarrow> length actual = length wanted \<Longrightarrow>
   \<exists>perm. mset perm = mset actual \<and> list_all2 fits perm wanted"
proof (induction wanted arbitrary: actual)
  case (Cons x wanted)
  then obtain a others where ao: "take_first (\<lambda>a. fits a x) actual = Some (a, others)" "greedy_match fits others wanted"
    by (auto split: option.splits)
  from take_first_Some [OF ao(1)] have m: "fits a x" "mset actual = add_mset a (mset others)" by auto
  have "length others = length wanted" using arg_cong [OF m(2), of size] Cons.prems(2) by simp
  from Cons.IH [OF ao(2) this] obtain perm where "mset perm = mset others" "list_all2 fits perm wanted" by blast
  then show ?case using m by (intro exI [of _ "a # perm"]) simp
qed simp

text \<open>What \<open>planMatches\<close> compares of a record.\<close>

definition rec_value where
  "rec_value r = (r_name r, r_type r, (if r_type r = ''MX'' then (r_content r, r_priority r) else (trim_space (r_content r), None)), r_ttl r)"

definition op_value where
  "op_value w = (co_name w, co_type w, (if co_type w = ''MX'' then (co_content w, co_priority w) else (trim_space (co_content w), None)), co_ttl w)"

lemma fits_value: "sameRecordValue r w \<and> r_ttl r = co_ttl w \<longleftrightarrow> rec_value r = op_value w"
  by (auto simp: sameRecordValue_def rec_value_def op_value_def)

definition rrset_shown :: "ZoneRecords \<Rightarrow> Plan \<Rightarrow> string \<times> string \<Rightarrow> bool" where
  "rrset_shown current plan k \<longleftrightarrow>
     mset (map rec_value (rrset_of (zr_records current) k)) =
     mset (map op_value (filter (\<lambda>w. okey w = k) (pl_expected plan)))"

lemma planMatches_iff:
  "planMatches D current plan \<longleftrightarrow>
   (\<forall>c\<in>set (pl_changes plan). rrset_shown current plan (owner_or_empty D (pl_zone plan) (fc_name c), change_kind c))"
proof -
  let ?fits = "\<lambda>r w. sameRecordValue r w \<and> r_ttl r = co_ttl w"
  have "(length a = length b \<and> greedy_match ?fits a b) = (mset (map rec_value a) = mset (map op_value b))" for a b
  proof (cases "length a = length b")
    case True
    then show ?thesis using greedy_match_keys [of ?fits rec_value op_value, OF fits_value True] by blast
  next
    case False
    then have "size (mset (map rec_value a)) \<noteq> size (mset (map op_value b))" by simp
    then have "mset (map rec_value a) \<noteq> mset (map op_value b)" by (rule contrapos_nn) simp
    then show ?thesis using False by blast
  qed
  note same = this
  show ?thesis unfolding planMatches_def list_all_iff Let_def rrset_shown_def same ..
qed

section \<open>Lemmas on accepted plans\<close>

lemma facts_to_value:
  "rec_value r = (case rec_facts r of (n, t, v, l, _) \<Rightarrow> (n, t, v, l))"
  "op_value w = (case op_facts w of (n, t, v, l, _) \<Rightarrow> (n, t, v, l))"
  by (simp_all add: rec_value_def op_value_def rec_facts_def op_facts_def facts_of_def)

lemma facts_imp_values: "mset (map rec_facts rs) = mset (map op_facts ws) \<Longrightarrow> mset (map rec_value rs) = mset (map op_value ws)"
proof -
  let ?h = "\<lambda>(n, t, v, l, _). (n, t, v, l)"
  assume "mset (map rec_facts rs) = mset (map op_facts ws)"
  then have "image_mset ?h (mset (map rec_facts rs)) = image_mset ?h (mset (map op_facts ws))" by (rule arg_cong)
  then show ?thesis by (simp add: multiset.map_comp comp_def facts_to_value [abs_def])
qed

lemma names_owner: "names_rrset D zone c k \<Longrightarrow> (owner_or_empty D zone (fc_name c), change_kind c) = k"
  by (simp add: names_rrset_def owner_or_empty_def)

lemma plan_frame:
  assumes "planChanges D cur expected changes = Inr p"
  shows "pl_zone p = zr_zone cur" "pl_changes p = changes"
proof -
  have loop: "plan_loop D cur cs s = Inr s' \<Longrightarrow> frame_of (ps_plan s') = frame_of (ps_plan s)" for cs s s'
  proof (induction cs arbitrary: s)
    case (Cons c cs)
    then obtain s1 where s1: "plan_change D cur c s = Inr s1" "plan_loop D cur cs s1 = Inr s'" by (auto split: sum.splits)
    have "frame_of (ps_plan s1) = frame_of (ps_plan s)"
      using s1(1) plan_delete_shape(1)
      by (auto simp: plan_change_def Let_def split: sum.splits if_splits elim!: plan_upsert_shape)
    then show ?case using Cons.IH [OF s1(2)] by simp
  qed simp
  show "pl_zone p = zr_zone cur" "pl_changes p = changes"
    using assms by (auto simp: planChanges_def Let_def frame_of_def sort_plan_def split: if_splits sum.splits dest!: loop)
qed

lemma carried_out_plan_matches:
  assumes p: "planChanges D cur expected changes = Inr p" and ids: "distinct (map r_id (zr_records cur))"
    and len: "length new = length (pl_creates p)"
  shows "planMatches D (cur\<lparr>zr_records := carry_out p new (zr_records cur)\<rparr>) p"
  unfolding planMatches_iff
proof
  fix c assume "c \<in> set (pl_changes p)"
  then have "c \<in> set changes" using plan_frame [OF p] by simp
  from accepted_changes(1) [OF p ids len this] obtain k ws where k: "names_rrset D (zr_zone cur) c k"
    "filter (\<lambda>w. okey w = k) (pl_expected p) = ws"
    "mset (map rec_facts (rrset_of (carry_out p new (zr_records cur)) k)) = mset (map op_facts ws)" by blast
  have "(owner_or_empty D (pl_zone p) (fc_name c), change_kind c) = k" using names_owner [OF k(1)] plan_frame [OF p] by simp
  then show "rrset_shown (cur\<lparr>zr_records := carry_out p new (zr_records cur)\<rparr>) p (owner_or_empty D (pl_zone p) (fc_name c), change_kind c)"
    using facts_imp_values [OF k(3)] k(2) by (simp only: rrset_shown_def) simp
qed

abbreviation types_at :: "cfRecord list \<Rightarrow> string \<Rightarrow> string set" where
  "types_at rs owner \<equiv> {t. rrset_of rs (owner, t) \<noteq> []}"

lemma cname_exclusive:
  assumes p: "planChanges D cur expected changes = Inr p" and ids: "distinct (map r_id (zr_records cur))"
    and len: "length new = length (pl_creates p)"
    and cn: "''CNAME'' \<in> types_at (carry_out p new (zr_records cur)) owner" "t \<in> types_at (carry_out p new (zr_records cur)) owner" "t \<noteq> ''CNAME''"
  shows "types_at (carry_out p new (zr_records cur)) owner = types_at (zr_records cur) owner"
proof -
  let ?rs = "carry_out p new (zr_records cur)" and ?initial = "fold note_type (zr_records cur) []"
  obtain kws :: "((string \<times> string) \<times> CreateOperation list) list" and s where l: "plan_ok (zr_records cur) (fst ` set kws) p" "types_ok (zr_records cur) (fst ` set kws) s"
    "pl_expected (ps_plan s) = pl_expected p" "\<not> cname_conflict (ps_final s) ?initial" by (rule planChanges_Inr [OF p ids]) blast
  note rr = carry_out_rrset [OF l(1) ids len]
  have ne: "rrset_of ?rs k \<noteq> [] \<longleftrightarrow> filter (\<lambda>w. okey w = k) (pl_expected p) \<noteq> []" if "k \<in> fst ` set kws" for k
  proof -
    have "length (rrset_of ?rs k) = length (filter (\<lambda>w. okey w = k) (pl_expected p))"
      using arg_cong [OF rr(1) [OF that], of size] by (simp only: size_mset length_map)
    then show ?thesis by (metis length_0_conv)
  qed
  let ?F = "gomap_get [] (ps_final s) owner" and ?I = "gomap_get [] ?initial owner"
  have "x \<in> set ?F \<longleftrightarrow> rrset_of ?rs (owner, x) \<noteq> []" for x
  proof -
    have "x \<in> set ?F \<longleftrightarrow> (if (owner, x) \<in> fst ` set kws then filter (\<lambda>w. okey w = (owner, x)) (pl_expected p) \<noteq> []
        else rrset_of (zr_records cur) (owner, x) \<noteq> [])" using l(2) unfolding types_ok_def l(3) by blast
    then show ?thesis using ne [of "(owner, x)"] rr(2) [of "(owner, x)"] by argo
  qed
  then have F: "set ?F = types_at ?rs owner" by blast
  have dF: "distinct ?F" using l(2) by (simp add: types_ok_def)
  have nil: "gomap_get [] [] x = []" for x :: string by (simp add: gomap_get_def)
  have I: "set ?I = types_at (zr_records cur) owner" "distinct ?I"
    using note_type_fold [of "[]" "zr_records cur" owner] by (simp_all add: nil)
  have "?F \<noteq> []" using F cn(1) by auto
  then have mem: "(owner, ?F) \<in> set (ps_final s)"
    by (auto simp: gomap_get_def split: option.splits dest: map_of_SomeD)
  have "1 < length ?F"
  proof -
    have "{''CNAME'', t} \<subseteq> set ?F" using F cn by auto
    then have "card {''CNAME'', t} \<le> card (set ?F)" by (intro card_mono) auto
    then show ?thesis using cn(3) distinct_card [OF dF] by simp
  qed
  then have st: "sameTypeSet ?F ?I"
    using l(4) mem F cn(1) by (fastforce simp: cname_conflict_def list_ex_iff)
  then have "set ?F \<subseteq> set ?I" "card (set ?F) = card (set ?I)"
    using distinct_card [OF dF] distinct_card [OF I(2)] by (auto simp: sameTypeSet_def list_all_iff)
  then have "set ?F = set ?I" by (intro card_subset_eq) auto
  then show ?thesis using F I(1) by simp
qed

end
