(* ===== verification/CloudflareTheorems.thy ===== *)
theory CloudflareTheorems
  imports CloudflareApply "HOL-Library.Code_Target_Nat"
begin

text \<open>
  The properties of the Cloudflare provider: what a listing looks like, what an accepted plan does,
  what an applied change has been checked for, when a rollback counts as done, and that applying
  always ends.  A small service with one zone serves as the example.
\<close>

section \<open>Polling\<close>

definition listed :: "'e cf_env \<Rightarrow> (jvalue \<Rightarrow> string) \<Rightarrow> nat \<Rightarrow> string \<Rightarrow> ZoneRecords \<Rightarrow> bool" where
  "listed E digest fuel zone cur \<longleftrightarrow> (\<exists>cl e cl' e'. ListRecords E digest fuel zone cl e = Some (Inr cur, cl', e'))"

lemma poll_records_Inr:
  "poll_records E digest pages fuel zone good msg deadline cl e = Some (Inr cur, cl', e') \<Longrightarrow>
   good cur \<and> listed E digest pages zone cur"
proof (induction fuel arbitrary: cl e)
  case (Suc fuel)
  obtain res cl1 e1 where l: "ListRecords E digest pages zone cl e = Some (res, cl1, e1)"
    using Suc.prems by (auto split: option.splits)
  show ?case
  proof (cases "case res of Inl _ \<Rightarrow> False | Inr cur \<Rightarrow> good cur")
    case True
    then have "res = Inr cur" "good cur" using Suc.prems l by (auto split: sum.splits)
    then show ?thesis using l by (auto simp: listed_def)
  next
    case False
    then have "\<not> deadline < ev_now E e1" using Suc.prems l by (auto split: sum.splits if_splits)
    then obtain e2 where "poll_records E digest pages fuel zone good msg deadline cl1 e2 = Some (Inr cur, cl', e')"
      using Suc.prems l False by (auto split: prod.splits bool.splits)
    then show ?thesis by (rule Suc.IH)
  qed
qed simp

section \<open>Selected records\<close>

lemma select_get:
  "gomap_get [] (fold (select_step affected) rs m) k =
   gomap_get [] m k @ (if k \<in> set affected then filter (\<lambda>r. skey r = k) rs else [])"
  by (induction rs arbitrary: m) (auto simp: select_step_def gomap_get_update)

lemma select_wf: "gomap_wf m \<Longrightarrow> gomap_wf (fold (select_step affected) rs m)"
  by (induction rs arbitrary: m) (auto simp: select_step_def distinct_update)

lemma select_nonempty: "\<forall>(k, v)\<in>set m. v \<noteq> [] \<Longrightarrow> \<forall>(k, v)\<in>set (fold (select_step affected) rs m). v \<noteq> []"
proof (induction rs arbitrary: m)
  case (Cons r rs)
  have "\<forall>(k, v)\<in>set (select_step affected r m). v \<noteq> []"
    using Cons.prems by (auto simp: select_step_def dest!: set_update_cases)
  then show ?case using Cons.IH by simp
qed simp

lemma get_key: "gomap_get [] m k \<noteq> [] \<Longrightarrow> k \<in> fst ` set m"
  by (cases "map_of m k") (auto simp: gomap_get_def map_of_eq_None_iff dest!: map_of_SomeD intro: rev_image_eqI)

lemma wf_lookup: "gomap_wf m \<Longrightarrow> (k, v) \<in> set m \<Longrightarrow> gomap_get [] m k = v"
  by (simp add: gomap_get_def)

text \<open>What \<open>affectedRecordsMatch\<close> compares of a record.\<close>

definition restored_value where
  "restored_value r = (r_content r, r_ttl r, r_proxied r, r_priority r)"

definition rrset_restored :: "ZoneRecords \<Rightarrow> ZoneRecords \<Rightarrow> string \<Rightarrow> bool" where
  "rrset_restored left right k \<longleftrightarrow>
     mset (map restored_value (filter (\<lambda>r. skey r = k) (zr_records left))) =
     mset (map restored_value (filter (\<lambda>r. skey r = k) (zr_records right)))"

lemma affectedRecordsMatch_sound:
  assumes m: "affectedRecordsMatch left right affected" and k: "k \<in> set affected"
  shows "rrset_restored left right k"
proof -
  let ?a = "selectRecords affected left" and ?b = "selectRecords affected right"
  let ?L = "\<lambda>k. filter (\<lambda>r. skey r = k) (zr_records left)" and ?R = "\<lambda>k. filter (\<lambda>r. skey r = k) (zr_records right)"
  have wf: "gomap_wf ?a" "gomap_wf ?b" by (simp_all add: selectRecords_def select_wf)
  have nz: "\<forall>(k, v)\<in>set ?a. v \<noteq> []" "\<forall>(k, v)\<in>set ?b. v \<noteq> []"
    unfolding selectRecords_def by (rule select_nonempty, simp)+
  have nil: "gomap_get [] [] x = []" for x :: string by (simp add: gomap_get_def)
  have get: "gomap_get [] ?a k' = (if k' \<in> set affected then ?L k' else [])"
    "gomap_get [] ?b k' = (if k' \<in> set affected then ?R k' else [])" for k'
    by (simp_all add: selectRecords_def select_get nil)
  have len: "length ?a = length ?b" and each: "\<And>k' v. (k', v) \<in> set ?b \<Longrightarrow>
      length (gomap_get [] ?a k') = length v \<and> greedy_match same_restored (gomap_get [] ?a k') v"
    using m by (auto simp: affectedRecordsMatch_def Let_def list_all_iff)
  have sub: "fst ` set ?b \<subseteq> fst ` set ?a"
  proof
    fix k' assume "k' \<in> fst ` set ?b"
    then obtain v where v: "(k', v) \<in> set ?b" by auto
    then have "v \<noteq> []" using nz(2) by blast
    then have "gomap_get [] ?a k' \<noteq> []" using each [OF v] by auto
    then show "k' \<in> fst ` set ?a" by (rule get_key)
  qed
  have "card (fst ` set ?a) = card (fst ` set ?b)"
    using distinct_card [OF wf(1)] distinct_card [OF wf(2)] len by simp
  then have keys: "fst ` set ?b = fst ` set ?a" using sub by (intro card_subset_eq) auto
  show ?thesis
  proof (cases "k \<in> fst ` set ?b")
    case True
    then obtain v where v: "(k, v) \<in> set ?b" by auto
    then have vR: "v = ?R k" using wf_lookup [OF wf(2) v] get(2) [of k] k by simp
    have "same_restored r r' \<longleftrightarrow> restored_value r = restored_value r'" for r r' by (auto simp: same_restored_def restored_value_def)
    then show ?thesis using greedy_match_keys [of same_restored restored_value restored_value "?L k" "?R k"] each [OF v] vR get(1) [of k] k
      by (simp only: rrset_restored_def) simp
  next
    case False
    then have "gomap_get [] ?b k = []" "gomap_get [] ?a k = []"
      using keys get_key [of ?a k] get_key [of ?b k] by auto
    then have "?R k = []" "?L k = []" using get [of k] k by simp_all
    then show ?thesis by (simp only: rrset_restored_def)
  qed
qed

section \<open>Polling ends\<close>

text \<open>Time does not run backwards, and a completed wait lasts as long as asked.\<close>

definition clock_law :: "'e cf_env \<Rightarrow> bool" where
  "clock_law E \<longleftrightarrow>
     (\<forall>call e. ev_now E e \<le> ev_now E (snd (ev_http E call e))) \<and>
     (\<forall>n q t e. ev_now E e \<le> ev_now E (snd (ev_dns E n q t e))) \<and>
     (\<forall>q t e. ev_now E e \<le> ev_now E (snd (ev_doh E q t e))) \<and>
     (\<forall>d e e'. ev_wait E d e = (True, e') \<longrightarrow> ev_now E e + d \<le> ev_now E e')"

lemma call_json_clock: "clock_law E \<Longrightarrow> call_json E dec call e = (r, e') \<Longrightarrow> ev_now E e \<le> ev_now E e'"
  unfolding clock_law_def call_json_def by (auto split: prod.splits option.splits) (metis snd_conv)+

lemma get_api_clock: "clock_law E \<Longrightarrow> get_api E call e = (r, e') \<Longrightarrow> ev_now E e \<le> ev_now E e'"
  by (auto simp: get_api_def split: prod.splits sum.splits if_splits dest: call_json_clock)

lemma list_pages_clock: "clock_law E \<Longrightarrow> list_pages E fuel zoneID zone page acc e = Some (r, e') \<Longrightarrow> ev_now E e \<le> ev_now E e'"
proof (induction fuel arbitrary: page acc e)
  case (Suc fuel)
  obtain res e1 where g: "get_api E (ListPage zoneID page) e = (res, e1)" by fastforce
  note c = get_api_clock [OF Suc.prems(1) g]
  have "e1 = e' \<or> (\<exists>acc'. list_pages E fuel zoneID zone (Suc page) acc' e1 = Some (r, e'))"
    using Suc.prems(2) g by (auto simp: Let_def split: sum.splits if_splits)
  then show ?case using Suc.IH [OF Suc.prems(1)] c by fastforce
qed simp

lemma resolveZoneID_clock: "clock_law E \<Longrightarrow> resolveZoneID E name cl e = (r, cl', e') \<Longrightarrow> ev_now E e \<le> ev_now E e'"
  by (auto simp: resolveZoneID_def split: prod.splits sum.splits if_splits list.splits dest: call_json_clock)

lemma ListRecords_clock:
  assumes c: "clock_law E" and l: "ListRecords E digest fuel name cl e = Some (r, cl', e')"
  shows "ev_now E e \<le> ev_now E e'"
proof (cases "canonicalName_cf name = []")
  case False
  obtain z cl1 e1 where z: "resolveZoneID E (canonicalName_cf name) cl e = (z, cl1, e1)" by (metis prod.collapse)
  note t1 = resolveZoneID_clock [OF c z]
  have "e' = e1 \<or> (\<exists>zid res. list_pages E fuel zid (canonicalName_cf name) 1 [] e1 = Some (res, e'))"
    using l z False by (auto simp: ListRecords_def Let_def split: sum.splits option.splits)
  then show ?thesis using t1 list_pages_clock [OF c] by fastforce
qed (use l in \<open>simp add: ListRecords_def\<close>)

lemma poll_records_ends:
  assumes c: "clock_law E" and n: "pages_bounded E n" "n \<le> pages" "0 < pages"
  shows "0 < fuel \<Longrightarrow> deadline - ev_now E e < int (fuel - 1) * (second div 2) \<Longrightarrow>
    poll_records E digest pages fuel zone good msg deadline cl e \<noteq> None"
proof (induction fuel arbitrary: cl e)
  case (Suc fuel)
  have "ListRecords E digest pages zone cl e \<noteq> None" using n by (intro ListRecords_ends) auto
  then obtain res cl1 e1 where l: "ListRecords E digest pages zone cl e = Some (res, cl1, e1)" by (metis option.exhaust prod.collapse)
  note t1 = ListRecords_clock [OF c l]
  obtain go e2 where w: "ev_wait E (second div 2) e1 = (go, e2)" by fastforce
  have "poll_records E digest pages fuel zone good msg deadline cl1 e2 \<noteq> None" if "\<not> deadline < ev_now E e1" and go: "go"
  proof (rule Suc.IH)
    have t2: "ev_now E e1 + second div 2 \<le> ev_now E e2" using c w go by (simp add: clock_law_def)
    have "0 < int fuel * (second div 2)" using Suc.prems(2) t1 that(1) by simp
    then show f: "0 < fuel" by (simp add: second_def zero_less_mult_iff)
    then have "int (fuel - 1) * (second div 2) = int fuel * (second div 2) - second div 2"
      by (simp add: of_nat_diff left_diff_distrib)
    then show "deadline - ev_now E e2 < int (fuel - 1) * (second div 2)" using Suc.prems(2) t1 t2 by simp
  qed
  then show ?case using l w by (auto split: bool.splits)
qed simp

lemma verify_changes_clock:
  assumes ask: "\<And>q t e. ev_now E e \<le> ev_now E (snd (ask q t e))"
  shows "verify_changes D ask plan cs e = (v, e') \<Longrightarrow> ev_now E e \<le> ev_now E e'"
proof (induction cs arbitrary: e)
  case (Cons c cs)
  obtain r e1 where a: "ask (fqdn D (owner_or_empty D (pl_zone plan) (fc_name c))) (type_code D (change_kind c)) e = (r, e1)" by fastforce
  have t: "ev_now E e \<le> ev_now E e1" using ask a by (metis snd_conv)
  have "e' = e1 \<or> verify_changes D ask plan cs e1 = (v, e')"
    using Cons.prems a by (auto split: option.splits dns_verdict.splits)
  then show ?case using Cons.IH t by fastforce
qed simp

lemma verify_all_clock: "clock_law E \<Longrightarrow> verify_all E D ns plan e = (v, e') \<Longrightarrow> ev_now E e \<le> ev_now E e'"
proof (induction ns arbitrary: e)
  case (Cons n ns)
  obtain v1 e1 where a: "verifyNameserver E D n plan e = (v1, e1)" by fastforce
  have t: "ev_now E e \<le> ev_now E e1"
    using verify_changes_clock [of E "ev_dns E n"] a Cons.prems(1) by (simp add: verifyNameserver_def clock_law_def)
  have "e' = e1 \<or> verify_all E D ns plan e1 = (v, e')" using Cons.prems(2) a by (auto split: dns_verdict.splits)
  then show ?case using Cons.IH [OF Cons.prems(1)] t by fastforce
qed simp

lemma dns_loop_ends:
  assumes c: "clock_law E"
  shows "0 < fuel \<Longrightarrow> deadline - ev_now E e < int (fuel - 1) * second \<Longrightarrow> dns_loop E D fuel ns plan deadline e \<noteq> None"
proof (induction fuel arbitrary: e)
  case (Suc fuel)
  obtain v1 e1 where a: "verify_all E D ns plan e = (v1, e1)" by fastforce
  obtain v2 e2 where b: "verifyDoH E D plan e1 = (v2, e2)" by fastforce
  obtain go e3 where w: "ev_wait E second e2 = (go, e3)" by fastforce
  have t1: "ev_now E e \<le> ev_now E e1" using verify_all_clock [OF c a] .
  have t2: "ev_now E e1 \<le> ev_now E e2"
    using verify_changes_clock [of E "ev_doh E"] b c by (simp add: verifyDoH_def clock_law_def)
  have "dns_loop E D fuel ns plan deadline e3 \<noteq> None" if "\<not> deadline < ev_now E e2" and go: "go"
  proof (rule Suc.IH)
    have t3: "ev_now E e2 + second \<le> ev_now E e3" using c w go by (simp add: clock_law_def)
    have "0 < int fuel * second" using Suc.prems(2) t1 t2 that(1) by simp
    then show f: "0 < fuel" by (simp add: second_def zero_less_mult_iff)
    then have "int (fuel - 1) * second = int fuel * second - second" by (simp add: of_nat_diff left_diff_distrib)
    then show "deadline - ev_now E e3 < int (fuel - 1) * second" using Suc.prems(2) t1 t2 t3 by simp
  qed
  then show ?case using a b w by (auto split: bool.splits dns_verdict.splits)
qed simp

lemma waits_end:
  assumes c: "clock_law E" and n: "pages_bounded E n" "n \<le> fuel" "32 \<le> fuel"
  shows "waitForAPI E digest D fuel zone plan (15 * second) cl e \<noteq> None"
    and "waitForDNS E D fuel zone plan (30 * second) cl e \<noteq> None"
    and "rollback_change E digest D fuel original changes cl e \<noteq> None"
proof -
  have big: "31 \<le> int (fuel - 1)" using n(3) by simp
  have half: "15 * second < int (fuel - 1) * (second div 2)" "30 * second < int (fuel - 1) * second"
    using mult_right_mono [OF big, of "second div 2"] mult_right_mono [OF big, of second] by (simp_all add: second_def)
  have poll: "poll_records E digest fuel fuel z good msg (ev_now E e + 15 * second) cl e \<noteq> None" for z good msg cl e
    using n half by (intro poll_records_ends [OF c n(1)]) auto
  show "waitForAPI E digest D fuel zone plan (15 * second) cl e \<noteq> None" unfolding waitForAPI_def by (rule poll)
  have "dns_loop E D fuel ns plan (ev_now E e + 30 * second) e \<noteq> None" for ns
    using n half by (intro dns_loop_ends [OF c]) auto
  then show "waitForDNS E D fuel zone plan (30 * second) cl e \<noteq> None" by (simp add: waitForDNS_def Let_def)
  have l: "(ListRecords E digest fuel (zr_zone original) cl e = None) = False"
    using n ListRecords_ends [OF n(1), of fuel] by simp
  have p: "(poll_records E digest fuel fuel z good msg (ev_now E e + 15 * second) cl e = None) = False" for z good msg cl e
    using poll by simp
  show "rollback_change E digest D fuel original changes cl e \<noteq> None"
    by (simp add: rollback_change_def l p split: sum.split option.split prod.split)
qed

section \<open>Example service\<close>

text \<open>One zone with one address record; the state is the clock and whether the batch took effect.\<close>

definition cf_rec :: "string \<Rightarrow> string \<Rightarrow> cfRecord" where
  "cf_rec i content = \<lparr>r_id = i, r_name = ''www.ex'', r_type = ''A'', r_content = content, r_ttl = 300, r_proxied = None,
     r_priority = None, r_comment = [], r_tags = None\<rparr>"

definition cf_service :: "bool \<Rightarrow> (int \<times> bool) cf_env" where
  "cf_service obeys =
     \<lparr>ev_http = (\<lambda>call e. (Some \<lparr>hr_status = 200, hr_body_ok = True, hr_size = 10,
          hr_json = Some (case call of
              FindZone n \<Rightarrow> JObj [(''success'', JBool True),
                (''result'', JArr [JObj [(''id'', JStr ''z1''), (''name'', JStr n), (''name_servers'', JArr [JStr ''ns1''])]])]
            | ListPage z n \<Rightarrow> JObj [(''success'', JBool True),
                (''result'', JArr [enc_record (if snd e then cf_rec ''r2'' ''192.0.2.2'' else cf_rec ''r1'' ''192.0.2.1'')])]
            | Batch z b \<Rightarrow> JObj [(''success'', JBool True)])\<rparr>,
          case call of Batch z b \<Rightarrow> (fst e, obeys) | _ \<Rightarrow> e)),
      ev_dns = (\<lambda>n q t e. (None, e)), ev_doh = (\<lambda>q t e. (None, e)), ev_now = fst,
      ev_wait = (\<lambda>d e. (True, (fst e + d + 60000000000, snd e)))\<rparr>"

definition cf_request :: ApplyRequest where
  "cf_request = \<lparr>ar_expected = ''rev'', ar_changes = [\<lparr>fc_action = ''upsert'', fc_name = ''www'', fc_type = ''a'', fc_ttl = 300,
       fc_records = [''192.0.2.2''], fc_provider = \<lparr>po_proxied = None, po_comment = None, po_tags = None\<rparr>\<rparr>],
     ar_confirm = True, ar_actor = ''admin'', ar_request_id = ''q1''\<rparr>"

definition cf_client :: Client where
  "cf_client = \<lparr>cl_zoneIDs = [], cl_zoneNS = [], cl_auditPath = []\<rparr>"

definition cf_world :: world where
  "cf_world = \<lparr>disk = [], outcomes = [], snaps = []\<rparr>"

definition cf_listing :: ZoneRecords where
  "cf_listing = \<lparr>zr_zoneid = ''z1'', zr_zone = ''ex'', zr_revision = ''rev'', zr_records = [cf_rec ''r1'' ''192.0.2.1'']\<rparr>"

lemma cf_plan_exists:
  obtains p where "planChanges ref_dns cf_listing ''rev'' (ar_changes cf_request) = Inr p" "length [''r2''] = length (pl_creates p)"
    "distinct (map r_id (zr_records cf_listing))"
proof -
  have "case planChanges ref_dns cf_listing ''rev'' (ar_changes cf_request) of Inr p \<Rightarrow> length (pl_creates p) = 1 | _ \<Rightarrow> False"
    by code_simp
  then obtain p where "planChanges ref_dns cf_listing ''rev'' (ar_changes cf_request) = Inr p" "length (pl_creates p) = 1"
    by (cases "planChanges ref_dns cf_listing ''rev'' (ar_changes cf_request)") simp_all
  then show thesis by (intro that [of p]) (simp_all add: cf_listing_def)
qed

section \<open>Outcomes of applying\<close>

lemma no_result_fields [simp]: "\<not> at_api_verified no_result" "\<not> at_rolled_back no_result" "\<not> at_accepted no_result"
  by (simp_all add: no_result_def)

lemma settle_outcome:
  assumes "settle E D fuel req cur plan res cl w e = Some ((res', err), cl', w', e')"
  shows "res' = no_result \<and> err = Some CfPanic \<or>
    err = None \<and> at_api_verified res' = at_api_verified res \<and> at_revision res' = at_revision res \<and> at_rolled_back res' = at_rolled_back res"
  using assms by (auto simp: settle_def Let_def split: option.splits prod.splits dns_verdict.splits)

lemma rollback_outcome:
  assumes "rollback_change E digest D fuel original changes cl e = Some (None, cl', e')"
  obtains v where "listed E digest fuel (zr_zone original) v"
    "affectedRecordsMatch v original (affected_keys D (zr_zone original) changes)"
  using assms by (auto simp: rollback_change_def split: option.splits prod.splits sum.splits dest!: poll_records_Inr)

lemma undo_outcome:
  assumes "undo E digest D fuel req cur err res cl w e = Some ((res', err'), cl', w', e')"
  shows "err' \<noteq> None \<and> at_api_verified res' = at_api_verified res \<and>
    (at_rolled_back res' \<longrightarrow> (\<exists>v. listed E digest fuel (zr_zone cur) v \<and>
       affectedRecordsMatch v cur (affected_keys D (zr_zone cur) (ar_changes req))))"
proof -
  obtain failure cl1 e1 where r: "rollback_change E digest D fuel cur (ar_changes req) cl e = Some (failure, cl1, e1)"
    and res': "res' = res\<lparr>at_rolled_back := (failure = None)\<rparr>" and "err' \<noteq> None"
    using assms by (auto simp: undo_def Let_def split: option.splits prod.splits)
  moreover have "\<exists>v. listed E digest fuel (zr_zone cur) v \<and> affectedRecordsMatch v cur (affected_keys D (zr_zone cur) (ar_changes req))"
    if "failure = None" using r that by (auto elim: rollback_outcome)
  ultimately show ?thesis by simp
qed

text \<open>What an applied change went through; \<open>cur\<close> is the listing it started from.\<close>

lemma execute_outcome:
  assumes "execute_plan E digest D fuel req cur plan res cl w e = Some ((res', err), cl', w', e')"
    and "\<not> at_api_verified res" "\<not> at_rolled_back res"
  shows "(at_api_verified res' \<longrightarrow> err = None \<and> \<not> at_rolled_back res' \<and>
      (\<exists>v. listed E digest fuel (zr_zone cur) v \<and> planMatches D v plan \<and> at_revision res' = zr_revision v)) \<and>
    (at_rolled_back res' \<longrightarrow> err \<noteq> None \<and> (\<exists>v. listed E digest fuel (zr_zone cur) v \<and>
       affectedRecordsMatch v cur (affected_keys D (zr_zone cur) (ar_changes req))))"
proof -
  obtain aw w1 where aw: "ensureAuditWritable cl w = (aw, w1)" by fastforce
  obtain sb e1 where sb: "sendBatch E (zr_zoneid cur) plan e = (sb, e1)" by fastforce
  let ?res1 = "res\<lparr>at_accepted := True\<rparr>"
  consider (early) "res' = res"
    | (shown) v cl2 e2 where "waitForAPI E digest D fuel (zr_zone cur) plan (15 * second) cl e1 = Some (Inr v, cl2, e2)"
      "settle E D fuel req cur plan (?res1\<lparr>at_api_verified := True, at_revision := zr_revision v\<rparr>) cl2 w1 e2 = Some ((res', err), cl', w', e')"
    | (hidden) er cl2 e2 where "undo E digest D fuel req cur er ?res1 cl2 w1 e2 = Some ((res', err), cl', w', e')"
    using assms(1) aw sb by (auto simp: execute_plan_def Let_def split: bool.splits option.splits prod.splits sum.splits)
  then show ?thesis
  proof cases
    case early
    then show ?thesis using assms(2,3) by simp
  next
    case shown
    from poll_records_Inr [OF shown(1) [unfolded waitForAPI_def]]
    have v: "planMatches D v plan" "listed E digest fuel (zr_zone cur) v" by simp_all
    from settle_outcome [OF shown(2)] show ?thesis
    proof (elim disjE conjE)
      assume r: "err = None" "at_api_verified res' = at_api_verified (?res1\<lparr>at_api_verified := True, at_revision := zr_revision v\<rparr>)"
        "at_revision res' = at_revision (?res1\<lparr>at_api_verified := True, at_revision := zr_revision v\<rparr>)"
        "at_rolled_back res' = at_rolled_back (?res1\<lparr>at_api_verified := True, at_revision := zr_revision v\<rparr>)"
      then show ?thesis using v assms(3) by auto
    qed simp
  next
    case hidden
    then show ?thesis using undo_outcome [OF hidden] assms(2) by simp
  qed
qed

lemma ApplyChanges_cases:
  assumes "ApplyChanges E digest D fuel zone req cl w e = Some ((res, err), cl', w', e')"
  obtains (refused) "res = no_result" "err \<noteq> None"
  | (noop) cur plan where "listed E digest fuel zone cur" "planChanges D cur (ar_expected req) (ar_changes req) = Inr plan"
      "pl_deletes plan = []" "pl_patches plan = []" "pl_creates plan = []" "at_revision res = zr_revision cur" "err = None"
      "\<not> at_rolled_back res"
  | (executed) cur plan res0 cl1 e1 where "listed E digest fuel zone cur" "planChanges D cur (ar_expected req) (ar_changes req) = Inr plan"
      "\<not> at_api_verified res0" "\<not> at_rolled_back res0"
      "execute_plan E digest D fuel req cur plan res0 cl1 w e1 = Some ((res, err), cl', w', e')"
proof (cases "ar_confirm req")
  case True
  obtain r cl1 e1 where l: "ListRecords E digest fuel zone cl e = Some (r, cl1, e1)"
    using assms True by (auto simp: ApplyChanges_def split: option.splits)
  show thesis
  proof (cases r)
    case (Inl er)
    then show thesis using refused assms True l by (auto simp: ApplyChanges_def)
  next
    case (Inr cur)
    then have li: "listed E digest fuel zone cur" using l by (auto simp: listed_def)
    show thesis
    proof (cases "planChanges D cur (ar_expected req) (ar_changes req)")
      case (Inl er)
      then show thesis using refused assms True l Inr by (auto simp: ApplyChanges_def)
    next
      case p: (Inr plan)
      let ?res = "no_result\<lparr>at_zone := zr_zone cur, at_previous := zr_revision cur, at_changes := ar_changes req, at_request_id := ar_request_id req\<rparr>"
      show thesis
      proof (cases "pl_deletes plan = [] \<and> pl_patches plan = [] \<and> pl_creates plan = []")
        case empty: True
        then show thesis using assms True l Inr p by (intro noop [OF li p]) (auto simp: ApplyChanges_def Let_def)
      next
        case False
        then have "execute_plan E digest D fuel req cur plan ?res cl1 w e1 = Some ((res, err), cl', w', e')"
          using assms True l Inr p by (auto simp: ApplyChanges_def Let_def split: if_splits)
        then show thesis by (intro executed [OF li p, of ?res]) simp_all
      qed
    qed
  qed
next
  case False
  then show thesis using refused assms by (auto simp: ApplyChanges_def)
qed

section \<open>Properties\<close>

text \<open>
  C26. A record listing is well formed: whatever the service returns, a successful listing is of the
  canonical zone, holds only records inside it, in normal form and sorted, and its revision is the
  digest of exactly these records.
\<close>

theorem listing_well_formed:
  assumes "ListRecords E digest fuel name cl e = Some (Inr cur, cl', e')"
  shows "zr_zone cur = canonicalName_cf name \<and> zr_zone cur \<noteq> [] \<and>
    (\<forall>r\<in>set (zr_records cur). inZone (r_name r) (zr_zone cur) \<and> (\<exists>r0. r = normalize_record r0)) \<and>
    sorted (map record_order (zr_records cur)) \<and> zr_revision cur = digest (records_json (zr_records cur))"
  using ListRecords_Inr [OF assms] by (simp add: in_normal_form_def)

theorem listing_well_formed_witness:
  "ListRecords (cf_service True) (\<lambda>_. ''rev'') 1 '' EX. '' cf_client (0, False) =
     Some (Inr cf_listing, \<lparr>cl_zoneIDs = [(''ex'', ''z1'')], cl_zoneNS = [(''ex'', [''ns1''])], cl_auditPath = []\<rparr>, (0, False)) \<and>
   inZone ''www.ex'' (zr_zone cf_listing)"
proof -
  have l: "ListRecords (cf_service True) (\<lambda>_. ''rev'') 1 '' EX. '' cf_client (0, False) =
     Some (Inr cf_listing, \<lparr>cl_zoneIDs = [(''ex'', ''z1'')], cl_zoneNS = [(''ex'', [''ns1''])], cl_auditPath = []\<rparr>, (0, False))"
    by code_simp
  have "r_name (hd (zr_records cf_listing)) = ''www.ex''" "hd (zr_records cf_listing) \<in> set (zr_records cf_listing)"
    by (simp_all add: cf_listing_def cf_rec_def)
  then show ?thesis using l listing_well_formed [OF l] by metis
qed



text \<open>
  C28. Only valid requests are planned: the named revision is the listed one, there are 1 to 100
  changes, no RRset is changed twice, every owner lies in the zone, upserts have a TTL of 1 or 60 to
  86400, and the outcome has a CNAME beside other types only where exactly these types were already
  there.
\<close>

theorem planned_requests_are_valid:
  assumes p: "planChanges D cur expected changes = Inr p" and ids: "distinct (map r_id (zr_records cur))"
    and len: "length new = length (pl_creates p)"
  shows "expected = zr_revision cur \<and> changes \<noteq> [] \<and> length changes \<le> 100 \<and>
    (\<exists>ks. distinct ks \<and> list_all2 (names_rrset D (zr_zone cur)) changes ks) \<and>
    (\<forall>c\<in>set changes. \<forall>owner. changeOwner D (zr_zone cur) (fc_name c) = Inr owner \<longrightarrow> inZone owner (zr_zone cur)) \<and>
    (\<forall>c\<in>set changes. fc_records c \<noteq> [] \<longrightarrow> fc_ttl c = 1 \<or> (60 \<le> fc_ttl c \<and> fc_ttl c \<le> 86400)) \<and>
    (\<forall>owner t. t \<noteq> ''CNAME'' \<longrightarrow> {''CNAME'', t} \<subseteq> types_at (carry_out p new (zr_records cur)) owner \<longrightarrow>
       types_at (carry_out p new (zr_records cur)) owner = types_at (zr_records cur) owner)"
proof -
  obtain kws where l: "list_all2 (accepted D cur) changes kws" "distinct (map fst kws)"
    "expected = zr_revision cur" "changes \<noteq> []" "length changes \<le> 100" by (rule planChanges_Inr [OF p ids]) blast
  have "list_all2 (names_rrset D (zr_zone cur)) changes (map fst kws)"
    using l(1) by (simp add: list_all2_conv_all_nth accepted_def)
  then have "\<exists>ks. distinct ks \<and> list_all2 (names_rrset D (zr_zone cur)) changes ks" using l(2) by blast
  moreover have "inZone owner (zr_zone cur)" if "changeOwner D (zr_zone cur) (fc_name c) = Inr owner" for c owner
    using that by (auto simp: changeOwner_def Let_def inZone_def split: if_splits)
  moreover have "fc_ttl c = 1 \<or> (60 \<le> fc_ttl c \<and> fc_ttl c \<le> 86400)" if c: "c \<in> set changes" "fc_records c \<noteq> []" for c
  proof -
    obtain k ws where "requested D cur c k ws" using accepted_changes(1) [OF p ids len c(1)] by blast
    then have "validateTTL (fc_ttl c) = None" using c(2) by (simp add: requested_def split: if_splits)
    then show ?thesis by (auto simp: validateTTL_def not_less split: if_splits)
  qed
  moreover have "types_at (carry_out p new (zr_records cur)) owner = types_at (zr_records cur) owner"
    if "t \<noteq> ''CNAME''" "{''CNAME'', t} \<subseteq> types_at (carry_out p new (zr_records cur)) owner" for owner t
    using that by (intro cname_exclusive [OF p ids len, of _ t]) auto
  ultimately show ?thesis using l(3-5) by (intro conjI ballI allI impI) simp_all
qed

theorem planned_requests_are_valid_witness:
  "\<exists>p. planChanges ref_dns cf_listing ''rev'' (ar_changes cf_request) = Inr p \<and>
     (\<exists>ks. distinct ks \<and> list_all2 (names_rrset ref_dns (zr_zone cf_listing)) (ar_changes cf_request) ks)"
proof -
  obtain p where p: "planChanges ref_dns cf_listing ''rev'' (ar_changes cf_request) = Inr p"
    and len: "length [''r2''] = length (pl_creates p)" and ids: "distinct (map r_id (zr_records cf_listing))"
    by (rule cf_plan_exists)
  have "\<exists>ks. distinct ks \<and> list_all2 (names_rrset ref_dns (zr_zone cf_listing)) (ar_changes cf_request) ks"
    using planned_requests_are_valid [OF p ids len] by (elim conjE)
  with p show ?thesis by (intro exI [of _ p] conjI)
qed

text \<open>
  The check that waits for a change is exact: the greedy matching accepts a listing if and only
  if every changed RRset holds the expected values and TTLs, as multisets.
\<close>

lemma api_check_is_exact:
  "planMatches D current plan \<longleftrightarrow>
   (\<forall>c\<in>set (pl_changes plan). let k = (owner_or_empty D (pl_zone plan) (fc_name c), change_kind c) in
      mset (map rec_value (rrset_of (zr_records current) k)) = mset (map op_value (filter (\<lambda>w. okey w = k) (pl_expected plan))))"
  unfolding planMatches_iff rrset_shown_def Let_def ..

lemma api_check_is_exact_example:
  "\<not> (\<forall>c\<in>set (ar_changes cf_request). let k = (owner_or_empty ref_dns ''ex'' (fc_name c), change_kind c) in
      mset (map rec_value (rrset_of (zr_records cf_listing) k)) = mset (map op_value (filter (\<lambda>w. okey w = k) [])))"
proof -
  let ?p = "\<lparr>pl_zone = ''ex'', pl_dry_run = True, pl_previous = [], pl_changes = ar_changes cf_request,
    pl_deletes = [], pl_patches = [], pl_creates = [], pl_expected = []\<rparr>"
  have "\<not> planMatches ref_dns cf_listing ?p" by code_simp
  then show ?thesis using api_check_is_exact [of ref_dns cf_listing ?p] by (simp only: Plan.simps) blast
qed





text \<open>
  C32. Applying ends: if time does not run backwards, waiting takes the time asked for, and the
  service never announces more than \<open>n\<close> pages, then with fuel for \<open>n\<close> pages and 32 polls every loop
  of an application (listing, waiting for the API, waiting for the name servers, rolling back)
  finishes and a result is returned, whatever the service answers.
\<close>

theorem applying_ends:
  assumes c: "clock_law E" and n: "pages_bounded E n" "n \<le> fuel" "32 \<le> fuel"
  shows "\<exists>r. ApplyChanges E digest D fuel zone req cl w e = Some r"
proof -
  note ends = waits_end [OF c n]
  have a: "(waitForAPI E digest D fuel z plan (15 * second) cl e = None) = False" for z plan cl e using ends(1) by simp
  have d: "(waitForDNS E D fuel z plan (30 * second) cl e = None) = False" for z plan cl e using ends(2) by simp
  have r: "(rollback_change E digest D fuel o' cs cl e = None) = False" for o' cs cl e using ends(3) by simp
  have l: "(ListRecords E digest fuel z cl e = None) = False" for z cl e
    using ListRecords_ends [OF n(1), of fuel] n by simp
  have s: "(settle E D fuel req cur plan res cl w e = None) = False" for cur plan res cl w e
    by (simp add: settle_def Let_def d split: option.split prod.split dns_verdict.split)
  have u: "(undo E digest D fuel req cur er res cl w e = None) = False" for cur er res cl w e
    by (simp add: undo_def Let_def r split: option.split prod.split)
  have x: "(execute_plan E digest D fuel req cur plan res cl w e = None) = False" for cur plan res cl w e
    by (simp add: execute_plan_def Let_def a s u del: not_None_eq split: bool.split option.split prod.split sum.split)
  have "(ApplyChanges E digest D fuel zone req cl w e = None) = False"
    by (simp add: ApplyChanges_def Let_def l x del: not_None_eq split: option.split prod.split sum.split)
  then show ?thesis by (cases "ApplyChanges E digest D fuel zone req cl w e") blast+
qed

lemma cf_service_laws: "clock_law (cf_service obeys)" "pages_bounded (cf_service obeys) 0"
proof -
  show "clock_law (cf_service obeys)" by (auto simp: clock_law_def cf_service_def split: api_call.splits)
  have "as_total_pages r = None" if "get_api (cf_service obeys) call e = (Inr r, e')" for call e r e'
    using that
    by (auto simp: get_api_def call_json_def cf_service_def decodeResponse_def dec_apiResponse_def dec_total_pages_def
        split: api_call.splits if_splits option.splits sum.splits)
  then show "pages_bounded (cf_service obeys) 0" by (simp add: pages_bounded_def)
qed

theorem applying_ends_witness:
  "\<exists>r. ApplyChanges (cf_service False) (\<lambda>_. ''rev'') ref_dns 32 ''ex'' cf_request cf_client cf_world (0, False) = Some r"
  by (rule applying_ends [OF cf_service_laws]) simp_all

end
