(* ===== verification/Secondary.thy ===== *)
theory Secondary
  imports Disk DnsLib Contracts
begin

text \<open>
  The secondary transfer service (internal/secondary/secondary.go): NOTIFY handling, the bounded
  queue of zones to refresh, SOA probe and transfer, publication of a snapshot, retries with backoff
  and the status document.

  The answers of the primary to the SOA probe and to the transfer are arguments of \<open>syncZone\<close>; the TSIG
  check of a message is part of the incoming message, as the DNS library reports it.
\<close>

section \<open>Configuration and state\<close>

record sec_config =
  sc_primary :: string
  sc_probe :: string
  sc_listen :: string
  sc_zones :: "string list"
  sc_dir :: path
  sc_status :: path
  sc_refresh :: duration
  sc_timeout :: duration
  sc_notify_from :: "string option"
  sc_tsig_name :: string
  sc_tsig_secret :: string
  sc_discover :: bool
  sc_max_zones :: int
  sc_retry_min :: duration
  sc_retry_max :: duration

record ZoneStatus =
  zt_name :: string
  zt_serial :: uint32
  zt_records :: nat

record Status =
  st_kind :: string
  st_success :: bool
  st_last_attempt :: gotime
  st_last_success :: gotime
  st_source :: string
  st_zones :: "ZoneStatus list"
  st_expiry :: string
  st_error :: string

record Service =
  sv_config :: sec_config
  sv_cap :: nat                       \<comment> \<open>capacity of the channel \<open>trigger\<close>\<close>
  sv_queue :: "string list"           \<comment> \<open>its contents\<close>
  sv_status :: Status
  sv_metadata :: "(string, ZoneStatus) gomap"
  sv_errors :: "(string, string) gomap"
  sv_failures :: "(string, nat) gomap"
  sv_retries :: "(string, duration) gomap"   \<comment> \<open>the delay each timer was started with\<close>

definition or_default :: "duration \<Rightarrow> duration \<Rightarrow> duration" where
  "or_default v d = (if v \<le> 0 then d else v)"

definition fill_sec_config :: "sec_config \<Rightarrow> sec_config" where
  "fill_sec_config c =
     (let refresh = or_default (sc_refresh c) hour;
          retry_max = min (or_default (sc_retry_max c) (15 * minute)) refresh
      in c\<lparr>sc_refresh := refresh,
           sc_probe := (if sc_probe c = [] then sc_primary c else sc_probe c),
           sc_timeout := or_default (sc_timeout c) (15 * second),
           sc_max_zones := (if sc_max_zones c \<le> 0 then 1000 else sc_max_zones c),
           sc_retry_max := retry_max,
           sc_retry_min := min (or_default (sc_retry_min c) (30 * second)) retry_max\<rparr>)"

fun check_zones :: "dnslib \<Rightarrow> string list \<Rightarrow> string list \<Rightarrow> string + string list" where
  "check_zones D [] acc = Inr acc"
| "check_zones D (z # zs) acc =
     (let zone = to_lower (fqdn D (trim_space z))
      in if zone = ''.'' then Inl ''root zone is not supported''
         else if zone \<in> set acc then Inl (''duplicate zone '' @ zone)
         else check_zones D zs (acc @ [zone]))"

definition NewSecondary :: "dnslib \<Rightarrow> sec_config \<Rightarrow> string + Service" where
  "NewSecondary D c0 =
     (if sc_primary c0 = [] \<or> sc_listen c0 = [] \<or> sc_zones c0 = [] \<or> sc_dir c0 = [] \<or> sc_status c0 = []
      then Inl ''primary, listen, zones, output directory, and status file are required''
      else let c = fill_sec_config c0; tsig = to_lower (fqdn D (sc_tsig_name c0))
           in if sc_max_zones c < int (length (sc_zones c)) then Inl ''configured zones exceed maximum''
              else if tsig = ''.'' \<or> sc_tsig_secret c = [] then Inl ''TSIG name and secret are required''
              else case check_zones D (sc_zones c) [] of
                     Inl e \<Rightarrow> Inl e
                   | Inr zs \<Rightarrow>
                       Inr \<lparr>sv_config = c\<lparr>sc_zones := zs, sc_tsig_name := tsig\<rparr>, sv_cap = 2 * length zs, sv_queue = [],
                            sv_status = \<lparr>st_kind = ''zones'', st_success = False, st_last_attempt = zero_time,
                              st_last_success = zero_time, st_source = sc_primary c, st_zones = [], st_expiry = [], st_error = []\<rparr>,
                            sv_metadata = [], sv_errors = [], sv_failures = [], sv_retries = []\<rparr>)"

section \<open>Zones and the queue\<close>

definition hasZone :: "string \<Rightarrow> Service \<Rightarrow> bool" where
  "hasZone zone s = (zone \<in> set (sc_zones (sv_config s)))"

definition addZone :: "string \<Rightarrow> Service \<Rightarrow> bool \<times> Service" where
  "addZone zone s =
     (let c = sv_config s
      in if zone \<in> set (sc_zones c) then (True, s)
         else if sc_max_zones c \<le> int (length (sc_zones c)) then (False, s)
         else (True, s\<lparr>sv_config := c\<lparr>sc_zones := sort (sc_zones c @ [zone])\<rparr>\<rparr>))"

text \<open>A send on the channel that gives up when it is full.\<close>

definition queue_zone :: "string \<Rightarrow> Service \<Rightarrow> Service" where
  "queue_zone zone s = (if length (sv_queue s) < sv_cap s then s\<lparr>sv_queue := sv_queue s @ [zone]\<rparr> else s)"

text \<open>The loop over all zones at the start of \<open>Run\<close> and at every tick.\<close>

definition queue_all :: "Service \<Rightarrow> Service" where
  "queue_all s = fold queue_zone (sc_zones (sv_config s)) s"

definition zoneFileName :: "string \<Rightarrow> string" where
  "zoneFileName zone = trim_suffix zone ''.'' @ ''.zone''"

definition zone_file :: "Service \<Rightarrow> string \<Rightarrow> path" where
  "zone_file s zone = path_join (sc_dir (sv_config s)) (zoneFileName zone)"

fun discover_loop :: "dnslib \<Rightarrow> string list \<Rightarrow> Service \<Rightarrow> bool \<times> Service" where
  "discover_loop D [] s = (True, s)"
| "discover_loop D (n # ns) s =
     (if \<not> has_suffix n ''.zone'' then discover_loop D ns s
      else let zone = trim_suffix n ''.zone'' @ ''.''
           in if is_domain_name D zone \<and> \<not> hasZone zone s
              then (case addZone (to_lower zone) s of
                      (False, s1) \<Rightarrow> (False, s1)
                    | (True, s1) \<Rightarrow> discover_loop D ns s1)
              else discover_loop D ns s)"

definition discoverZones :: "dnslib \<Rightarrow> Service \<Rightarrow> world \<Rightarrow> string option \<times> Service \<times> world" where
  "discoverZones D s w =
     (case os_read_dir (sc_dir (sv_config s)) w of
        (Inl _, w1) \<Rightarrow> (Some ''read directory'', s, w1)
      | (Inr names, w1) \<Rightarrow>
          (case discover_loop D names s of
             (True, s1) \<Rightarrow> (None, s1, w1)
           | (False, s1) \<Rightarrow> (Some ''discovered zones exceed maximum'', s1, w1)))"

section \<open>NOTIFY\<close>

record notify_msg =
  nm_opcode_notify :: bool
  nm_questions :: "(string \<times> nat) list"
  nm_tsig :: "string option"     \<comment> \<open>the name of the TSIG record\<close>
  nm_tsig_ok :: bool             \<comment> \<open>\<open>TsigStatus() == nil\<close>\<close>
  nm_remote :: "string option"   \<comment> \<open>the address of the sender, if it parses\<close>

datatype rcode = RcodeOK | RcodeNotImplemented | RcodeRefused

definition notify_allowed :: "notify_msg \<Rightarrow> Service \<Rightarrow> bool" where
  "notify_allowed m s =
     ((case nm_tsig m of None \<Rightarrow> False | Some n \<Rightarrow> to_lower n = sc_tsig_name (sv_config s)) \<and> nm_tsig_ok m \<and>
      (case sc_notify_from (sv_config s) of None \<Rightarrow> False | Some ip \<Rightarrow> nm_remote m = Some ip))"

definition handleNotify :: "dnslib \<Rightarrow> notify_msg \<Rightarrow> Service \<Rightarrow> rcode \<times> Service" where
  "handleNotify D m s =
     (case nm_questions m of
        [(name, qtype)] \<Rightarrow>
          if \<not> nm_opcode_notify m \<or> qtype \<noteq> TypeSOA then (RcodeNotImplemented, s)
          else let zone = to_lower (fqdn D name); discover = sc_discover (sv_config s)
               in if \<not> notify_allowed m s \<or> (\<not> discover \<and> \<not> hasZone zone s) then (RcodeRefused, s)
                  else if discover \<and> \<not> hasZone zone s
                  then (case addZone zone s of
                          (False, s1) \<Rightarrow> (RcodeRefused, s1)
                        | (True, s1) \<Rightarrow> (RcodeOK, queue_zone zone s1))
                  else (RcodeOK, queue_zone zone s)
      | _ \<Rightarrow> (RcodeNotImplemented, s))"

section \<open>Snapshots\<close>

definition fullSnapshot :: "rr list \<Rightarrow> bool" where
  "fullSnapshot rs =
     (if length rs < 3 then False
      else case (rdat (hd rs), rdat (last rs)) of
             (SOA_d a _, SOA_d b _) \<Rightarrow> a = b \<and> equal_fold (rname (hd rs)) (rname (last rs))
           | _ \<Rightarrow> False)"

definition sec_write :: "path \<Rightarrow> fdata \<Rightarrow> world \<Rightarrow> bool \<times> world" where
  "sec_write p c w = atomic_write ''.rill-secondary-'' [SWrite, SSync, SClose, SChmod, SRename] p c w"

definition snapshot_text :: "dnslib \<Rightarrow> rr list \<Rightarrow> string" where
  "snapshot_text D rs = concat (map (\<lambda>r. rr_string D r @ [CHR 0x0A]) (butlast rs))"

definition publish :: "dnslib \<Rightarrow> Service \<Rightarrow> string \<Rightarrow> rr list \<Rightarrow> world \<Rightarrow> string option \<times> world" where
  "publish D s zone rs w =
     (if \<not> fullSnapshot rs then (Some (zone @ '' transfer did not return a complete AXFR snapshot''), w)
      else if \<not> is_soa (hd rs) \<or> \<not> equal_fold (rname (hd rs)) zone then (Some (zone @ '' transfer has invalid apex SOA''), w)
      else let inner = butlast (tl rs)
           in if list_ex (\<lambda>r. rrtype r = TypeSOA) inner then (Some (zone @ '' transfer contains an unexpected SOA''), w)
              else if \<not> list_ex (\<lambda>r. rrtype r = TypeNS \<and> equal_fold (rname r) zone) inner
              then (Some (zone @ '' transfer has no apex NS''), w)
              else case sec_write (zone_file s zone) (Text (snapshot_text D rs)) w of
                     (True, w1) \<Rightarrow> (None, w1)
                   | (False, w1) \<Rightarrow> (Some ''write'', w1))"

section \<open>Inspecting zone files\<close>

definition count_record :: "rr \<Rightarrow> ZoneStatus \<times> gotime \<Rightarrow> ZoneStatus \<times> gotime" where
  "count_record r me =
     (let m = (fst me)\<lparr>zt_records := Suc (zt_records (fst me))\<rparr>
      in case rdat r of
           SOA_d serial _ \<Rightarrow> (m\<lparr>zt_serial := serial\<rparr>, snd me)
         | RRSIG_d expiration \<Rightarrow>
             (let candidate = uint expiration * second
              in (m, if is_zero (snd me) \<or> candidate < snd me then candidate else snd me))
         | _ \<Rightarrow> (m, snd me))"

definition inspectZone :: "dnslib \<Rightarrow> path \<Rightarrow> string \<Rightarrow> world \<Rightarrow> (string + ZoneStatus \<times> gotime) \<times> world" where
  "inspectZone D p zone w =
     (case os_read_file p w of
        (Inr (Text txt), w1) \<Rightarrow>
          (case parse_zone D [] txt of
             Inl e \<Rightarrow> (Inl e, w1)
           | Inr rs \<Rightarrow>
               (let r = fold count_record rs (\<lparr>zt_name = trim_suffix zone ''.'', zt_serial = 0, zt_records = 0\<rparr>, zero_time)
                in if zt_serial (fst r) = 0 then (Inl ''zone contains no SOA'', w1) else (Inr r, w1)))
      | (_, w1) \<Rightarrow> (Inl ''open'', w1))"

definition readSerial :: "dnslib \<Rightarrow> path \<Rightarrow> world \<Rightarrow> uint32 \<times> world" where
  "readSerial D p w =
     (case inspectZone D p [] w of (Inl _, w1) \<Rightarrow> (0, w1) | (Inr (m, _), w1) \<Rightarrow> (zt_serial m, w1))"

fun expiry_loop :: "dnslib \<Rightarrow> path \<Rightarrow> string list \<Rightarrow> gotime \<Rightarrow> world \<Rightarrow> gotime \<times> world" where
  "expiry_loop D dir [] earliest w = (earliest, w)"
| "expiry_loop D dir (z # zs) earliest w =
     (case inspectZone D (path_join dir (zoneFileName z)) z w of
        (Inr (_, expiry), w1) \<Rightarrow>
          expiry_loop D dir zs (if \<not> is_zero expiry \<and> (is_zero earliest \<or> expiry < earliest) then expiry else earliest) w1
      | (Inl _, w1) \<Rightarrow> expiry_loop D dir zs earliest w1)"

definition pad_to :: "nat \<Rightarrow> int \<Rightarrow> string" where
  "pad_to k n = (let s = nat_dec (nat n) in replicate (k - length s) (CHR ''0'') @ s)"

definition format_stamp :: "gotime \<Rightarrow> string" where
  "format_stamp t =
     (let (y, m, d) = civil_date t; sec = unix_seconds t mod 86400
      in pad_to 4 y @ pad_to 2 m @ pad_to 2 d @ pad_to 2 (sec div 3600) @ pad_to 2 (sec div 60 mod 60) @ pad_to 2 (sec mod 60))"

definition earliestExpiry :: "dnslib \<Rightarrow> path \<Rightarrow> string list \<Rightarrow> world \<Rightarrow> string \<times> world" where
  "earliestExpiry D dir zs w =
     (case expiry_loop D dir zs zero_time w of
        (t, w1) \<Rightarrow> (if is_zero t then [] else format_stamp t, w1))"

definition sortedMetadata :: "(string, ZoneStatus) gomap \<Rightarrow> ZoneStatus list" where
  "sortedMetadata m = sort_key zt_name (map snd m)"

definition joinedErrors :: "(string, string) gomap \<Rightarrow> string" where
  "joinedErrors m = join ''; '' (map (\<lambda>z. z @ '': '' @ gomap_get [] m z) (sort (map fst m)))"

section \<open>Retries\<close>

definition wrap64 :: "int \<Rightarrow> int" where
  "wrap64 n = (n + 2 ^ 63) mod 2 ^ 64 - 2 ^ 63"

text \<open>The doubling loop of \<open>retryDelay\<close>; \<open>n\<close> is the number of attempts left.\<close>

fun double_up :: "nat \<Rightarrow> duration \<Rightarrow> duration \<Rightarrow> duration" where
  "double_up 0 delay maximum = delay"
| "double_up (Suc n) delay maximum = (if delay < maximum then double_up n (wrap64 (delay * 2)) maximum else delay)"

definition retryDelay :: "nat \<Rightarrow> duration \<Rightarrow> duration \<Rightarrow> duration" where
  "retryDelay failures minimum maximum = min (double_up (failures - 1) minimum maximum) maximum"

definition scheduleRetry :: "string \<Rightarrow> bool \<Rightarrow> Service \<Rightarrow> Service" where
  "scheduleRetry zone failed s =
     (let s1 = s\<lparr>sv_retries := AList.delete zone (sv_retries s)\<rparr>
      in if \<not> failed then s1\<lparr>sv_failures := AList.delete zone (sv_failures s1)\<rparr>
         else let n = Suc (gomap_get 0 (sv_failures s1) zone)
              in s1\<lparr>sv_failures := AList.update zone n (sv_failures s1),
                    sv_retries := AList.update zone (retryDelay n (sc_retry_min (sv_config s)) (sc_retry_max (sv_config s)))
                      (sv_retries s1)\<rparr>)"

definition stopRetries :: "Service \<Rightarrow> Service" where
  "stopRetries s = s\<lparr>sv_retries := []\<rparr>"

section \<open>Probe and transfer\<close>

datatype probe =
    ProbeFailed string
  | ProbeAnswer nat string bool "rr list"   \<comment> \<open>response code and its name, authoritative flag, answer section\<close>

definition RcodeNameError :: nat where "RcodeNameError = 3"

datatype sec_err = ZoneGone | SecErr string

fun first_serial :: "rr list \<Rightarrow> uint32 option" where
  "first_serial [] = None"
| "first_serial (r # rs) = (case soa_serial r of Some n \<Rightarrow> Some n | None \<Rightarrow> first_serial rs)"

definition remoteSerial :: "string \<Rightarrow> probe \<Rightarrow> sec_err + uint32" where
  "remoteSerial zone p =
     (case p of
        ProbeFailed e \<Rightarrow> Inl (SecErr (''SOA '' @ zone @ '': '' @ e))
      | ProbeAnswer rc rcname aa answer \<Rightarrow>
          if rc \<noteq> 0
          then (if rc = RcodeNameError \<and> aa then Inl ZoneGone else Inl (SecErr (''SOA '' @ zone @ '': '' @ rcname)))
          else case first_serial answer of
                 Some n \<Rightarrow> Inr n
               | None \<Rightarrow> Inl (SecErr (''SOA '' @ zone @ '': response contained no SOA'')))"

type_synonym envelopes = "string + (string option \<times> rr list) list"

fun collect :: "(string option \<times> rr list) list \<Rightarrow> rr list \<Rightarrow> string + rr list" where
  "collect [] acc = Inr acc"
| "collect ((err, rs) # es) acc = (case err of Some e \<Rightarrow> Inl e | None \<Rightarrow> collect es (acc @ rs))"

definition transfer :: "envelopes \<Rightarrow> string + rr list" where
  "transfer x = (case x of Inl e \<Rightarrow> Inl e | Inr es \<Rightarrow> collect es [])"

section \<open>Refreshing one zone\<close>

definition enc_zone_status :: "ZoneStatus \<Rightarrow> jvalue" where
  "enc_zone_status z =
     JObj [(''name'', JStr (zt_name z)), (''serial'', JNum (uint (zt_serial z))), (''records'', JNum (int (zt_records z)))]"

definition enc_status :: "Status \<Rightarrow> jvalue" where
  "enc_status t =
     JObj ([(''kind'', JStr (st_kind t)), (''success'', JBool (st_success t)), (''last_attempt'', JTime (st_last_attempt t)),
            (''last_success'', JTime (st_last_success t)), (''source'', JStr (st_source t)),
            (''zones'', JArr (map enc_zone_status (st_zones t)))] @
           (if st_expiry t = [] then [] else [(''earliest_rrsig_expiry'', JStr (st_expiry t))]) @
           (if st_error t = [] then [] else [(''error'', JStr (st_error t))]))"

text \<open>\<open>err == nil && !gone\<close>: fetch a snapshot if the serial differs from the published one.\<close>

definition fetch_zone :: "dnslib \<Rightarrow> Service \<Rightarrow> string \<Rightarrow> uint32 \<Rightarrow> uint32 \<Rightarrow> envelopes \<Rightarrow> world \<Rightarrow> string option \<times> world" where
  "fetch_zone D s zone serial current xfer w =
     (if serial = current then (None, w)
      else case transfer xfer of
        Inl e \<Rightarrow> (Some e, w)
      | Inr rs \<Rightarrow> publish D s zone rs w)"

text \<open>Recording what is on disk after a successful refresh.\<close>

definition record_metadata :: "dnslib \<Rightarrow> string \<Rightarrow> Service \<Rightarrow> world \<Rightarrow> string option \<times> Service \<times> world" where
  "record_metadata D zone s w =
     (case inspectZone D (zone_file s zone) zone w of
        (Inl e, w1) \<Rightarrow> (Some e, s, w1)
      | (Inr (m, _), w1) \<Rightarrow>
          (let md = AList.update zone m (sv_metadata s)
           in case earliestExpiry D (sc_dir (sv_config s)) (sc_zones (sv_config s)) w1 of
                (x, w2) \<Rightarrow> (None, s\<lparr>sv_metadata := md,
                   sv_status := (sv_status s)\<lparr>st_zones := sortedMetadata md, st_expiry := x\<rparr>\<rparr>, w2)))"

definition drop_zone :: "dnslib \<Rightarrow> string \<Rightarrow> Service \<Rightarrow> world \<Rightarrow> string option \<times> Service \<times> world" where
  "drop_zone D zone s w =
     (case os_remove (zone_file s zone) w of
        (Some IOFault, w1) \<Rightarrow> (Some ''remove'', s, w1)
      | (_, w1) \<Rightarrow>
          (let md = AList.delete zone (sv_metadata s)
           in case earliestExpiry D (sc_dir (sv_config s)) (sc_zones (sv_config s)) w1 of
                (x, w2) \<Rightarrow> (None, s\<lparr>sv_metadata := md,
                   sv_status := (sv_status s)\<lparr>st_zones := sortedMetadata md, st_expiry := x\<rparr>\<rparr>, w2)))"

definition refresh_zone :: "dnslib \<Rightarrow> probe \<Rightarrow> envelopes \<Rightarrow> string \<Rightarrow> Service \<Rightarrow> world \<Rightarrow> string option \<times> Service \<times> world" where
  "refresh_zone D p xfer zone s w =
     (case readSerial D (zone_file s zone) w of
        (current, w1) \<Rightarrow>
          (case remoteSerial zone p of
             Inl ZoneGone \<Rightarrow> if sc_discover (sv_config s) then drop_zone D zone s w1
                             else (Some ''zone no longer exists on primary'', s, w1)
           | Inl (SecErr e) \<Rightarrow> (Some e, s, w1)
           | Inr serial \<Rightarrow>
               (case fetch_zone D s zone serial current xfer w1 of
                  (Some e, w2) \<Rightarrow> (Some e, s, w2)
                | (None, w2) \<Rightarrow> record_metadata D zone s w2)))"

text \<open>The rest of \<open>syncZone\<close>: errors, retry and the status document.\<close>

definition note_outcome :: "gotime \<Rightarrow> string \<Rightarrow> string option \<Rightarrow> Service \<Rightarrow> Service" where
  "note_outcome now zone err s =
     (let errs = (case err of None \<Rightarrow> AList.delete zone (sv_errors s) | Some e \<Rightarrow> AList.update zone e (sv_errors s));
          s1 = scheduleRetry zone (err \<noteq> None) (s\<lparr>sv_errors := errs\<rparr>);
          ok = (errs = [])
      in s1\<lparr>sv_status := (sv_status s1)\<lparr>st_success := ok, st_error := joinedErrors errs,
              st_last_success := (if ok then now else st_last_success (sv_status s1))\<rparr>\<rparr>)"

definition syncZone :: "dnslib \<Rightarrow> gotime \<Rightarrow> probe \<Rightarrow> envelopes \<Rightarrow> string \<Rightarrow> Service \<Rightarrow> world \<Rightarrow> Service \<times> world" where
  "syncZone D now p xfer zone s w =
     (case refresh_zone D p xfer zone (s\<lparr>sv_status := (sv_status s)\<lparr>st_last_attempt := now\<rparr>\<rparr>) w of
        (err, s1, w1) \<Rightarrow>
          (let s2 = note_outcome now zone err s1
           in (s2, snd (sec_write (sc_status (sv_config s2)) (Json (enc_status (sv_status s2))) w1))))"

section \<open>Restoring the status\<close>

definition dec_zone_status :: "jvalue \<Rightarrow> ZoneStatus option" where
  "dec_zone_status j =
     (case (Option.bind (jget j ''name'') as_str, Option.bind (jget j ''serial'') as_uint64, Option.bind (jget j ''records'') as_int64) of
        (Some n, Some v, Some r) \<Rightarrow>
          if v < 2 ^ 32 then Some \<lparr>zt_name = n, zt_serial = of_nat v, zt_records = nat r\<rparr> else None
      | _ \<Rightarrow> None)"

definition dec_status :: "jvalue \<Rightarrow> Status option" where
  "dec_status j =
     (case (Option.bind (jget j ''kind'') as_str, Option.bind (jget j ''success'') as_bool, Option.bind (jget j ''last_attempt'') as_time,
            Option.bind (jget j ''last_success'') as_time, Option.bind (jget j ''source'') as_str,
            Option.bind (jget j ''zones'') (as_list dec_zone_status), Option.bind (jget j ''earliest_rrsig_expiry'') as_str,
            Option.bind (jget j ''error'') as_str) of
        (Some k, Some ok, Some la, Some ls, Some src, Some zs, Some x, Some e) \<Rightarrow>
          Some \<lparr>st_kind = k, st_success = ok, st_last_attempt = la, st_last_success = ls, st_source = src, st_zones = zs,
                st_expiry = x, st_error = e\<rparr>
      | _ \<Rightarrow> None)"

fun restore_loop :: "dnslib \<Rightarrow> string list \<Rightarrow> Service \<Rightarrow> world \<Rightarrow> Service \<times> world" where
  "restore_loop D [] s w = (s, w)"
| "restore_loop D (z # zs) s w =
     (case inspectZone D (zone_file s z) z w of
        (Inl _, w1) \<Rightarrow> restore_loop D zs s w1
      | (Inr (m, _), w1) \<Rightarrow> restore_loop D zs (s\<lparr>sv_metadata := AList.update z m (sv_metadata s)\<rparr>) w1)"

definition restoreStatus :: "dnslib \<Rightarrow> Service \<Rightarrow> world \<Rightarrow> Service \<times> world" where
  "restoreStatus D s w =
     (case os_read_file (sc_status (sv_config s)) w of
        (content, w1) \<Rightarrow>
          (let s1 = (case content of
                       Inr (Json j) \<Rightarrow>
                         (case dec_status j of
                            Some prev \<Rightarrow>
                              if st_kind prev = st_kind (sv_status s) \<and> st_source prev = st_source (sv_status s)
                              then s\<lparr>sv_status := (sv_status s)\<lparr>st_last_success := st_last_success prev\<rparr>\<rparr> else s
                          | None \<Rightarrow> s)
                     | _ \<Rightarrow> s)
           in case restore_loop D (sc_zones (sv_config s1)) s1 w1 of
                (s2, w2) \<Rightarrow>
                  (case earliestExpiry D (sc_dir (sv_config s2)) (sc_zones (sv_config s2)) w2 of
                     (x, w3) \<Rightarrow> (s2\<lparr>sv_status := (sv_status s2)\<lparr>st_zones := sortedMetadata (sv_metadata s2), st_expiry := x\<rparr>\<rparr>, w3))))"

text \<open>The beginning of \<open>Run\<close>: directories, discovery, restored status, every zone queued.\<close>

definition startup :: "dnslib \<Rightarrow> Service \<Rightarrow> world \<Rightarrow> string option \<times> Service \<times> world" where
  "startup D s w =
     (case os_plain w of
        (False, w1) \<Rightarrow> (Some ''mkdir'', s, w1)
      | (True, w1) \<Rightarrow>
          (case os_plain w1 of
             (False, w2) \<Rightarrow> (Some ''mkdir'', s, w2)
           | (True, w2) \<Rightarrow>
               (case (if sc_discover (sv_config s) then discoverZones D s w2 else (None, s, w2)) of
                  (Some e, s1, w3) \<Rightarrow> (Some e, s1, w3)
                | (None, s1, w3) \<Rightarrow> (case restoreStatus D s1 w3 of (s2, w4) \<Rightarrow> (None, queue_all s2, w4)))))"

end
