(* ===== verification/SecondaryTheorems.thy ===== *)
theory SecondaryTheorems
  imports Secondary "HOL-Library.Code_Target_Nat"
begin

text \<open>
  Properties of the secondary: a zone file is only ever replaced by a complete valid snapshot, failed
  zones are retried with bounded backoff, the queue and the set of zones stay bounded, NOTIFY
  messages have an effect only when authenticated, and what a refresh tick reaches.
\<close>

section \<open>Reading does not write\<close>

interpretation sw: strict_writer sec_write "\<lambda>f. f"
proof -
  have eq: "sec_write = atomic_write ''.rill-secondary-'' [SWrite, SSync, SClose, SChmod, SRename]"
    by (simp add: fun_eq_iff sec_write_def)
  have "rename_steps [SWrite, SSync, SClose, SChmod, SRename] [SWrite, SSync, SClose, SChmod] []"
    by (simp add: rename_steps_def)
  from atomic_write_strict [where pat = "\<lambda>_. ''.rill-secondary-''" and enc = "\<lambda>f. f", OF this]
  show "strict_writer sec_write (\<lambda>f. f)" by (simp only: eq)
qed

lemma inspectZone_frame: "inspectZone D p zone w = (r, w') \<Longrightarrow> same_disk w w'"
  by (auto simp: inspectZone_def same_disk_def Let_def split: prod.splits sum.splits fdata.splits if_splits dest: os_read_file_frame)

lemma readSerial_frame: "readSerial D p w = (n, w') \<Longrightarrow> same_disk w w'"
  by (auto simp: readSerial_def split: prod.splits sum.splits dest: inspectZone_frame)

lemma expiry_loop_frame: "expiry_loop D dir zs t w = (r, w') \<Longrightarrow> same_disk w w'"
proof (induction zs arbitrary: t w)
  case (Cons z zs)
  obtain i w1 where i: "inspectZone D (path_join dir (zoneFileName z)) z w = (i, w1)" by fastforce
  obtain t1 where "expiry_loop D dir zs t1 w1 = (r, w')" using Cons.prems i by (cases i) auto
  then show ?case using Cons.IH inspectZone_frame [OF i] same_disk_trans by blast
qed (simp add: same_disk_def)

lemma earliestExpiry_frame: "earliestExpiry D dir zs w = (r, w') \<Longrightarrow> same_disk w w'"
  by (auto simp: earliestExpiry_def split: prod.splits dest: expiry_loop_frame)

lemma record_metadata_frame:
  assumes "record_metadata D zone s w = (err, s', w')" shows "same_disk w w'"
proof -
  obtain i w1 where i: "inspectZone D (zone_file s zone) zone w = (i, w1)" by fastforce
  show ?thesis
  proof (cases i)
    case (Inl e)
    then show ?thesis using assms i inspectZone_frame [OF i] by (simp add: record_metadata_def)
  next
    case (Inr me)
    obtain x w2 where x: "earliestExpiry D (sc_dir (sv_config s)) (sc_zones (sv_config s)) w1 = (x, w2)" by fastforce
    then have "w' = w2" using assms i Inr by (auto simp: record_metadata_def Let_def split: prod.splits)
    then show ?thesis using inspectZone_frame [OF i] earliestExpiry_frame [OF x] same_disk_trans by blast
  qed
qed

section \<open>Snapshots\<close>

text \<open>A complete zone transfer: an SOA of the zone at both ends with one serial, no other SOA, and a
  name server record at the apex.\<close>

definition valid_axfr :: "string \<Rightarrow> rr list \<Rightarrow> bool" where
  "valid_axfr zone rs \<longleftrightarrow>
     (\<exists>a inner b. rs = a # inner @ [b] \<and> soa_serial a \<noteq> None \<and> soa_serial a = soa_serial b \<and>
        equal_fold (rname a) (rname b) \<and> equal_fold (rname a) zone \<and>
        (\<forall>r\<in>set inner. rrtype r \<noteq> TypeSOA) \<and> (\<exists>r\<in>set inner. rrtype r = TypeNS \<and> equal_fold (rname r) zone))"

lemma three_split: "3 \<le> length rs \<Longrightarrow> \<exists>a inner b. rs = a # inner @ [b]"
proof -
  assume len: "3 \<le> length rs"
  then obtain a rest where r: "rs = a # rest" by (cases rs) auto
  then obtain inner b where "rest = inner @ [b]" using len by (cases rest rule: rev_cases) auto
  then show ?thesis using r by blast
qed

lemma fullSnapshot_iff:
  "fullSnapshot (a # inner @ [b]) \<longleftrightarrow>
   inner \<noteq> [] \<and> soa_serial a \<noteq> None \<and> soa_serial a = soa_serial b \<and> equal_fold (rname a) (rname b)"
  by (cases inner) (auto simp: fullSnapshot_def soa_serial_def split: rdata.splits)

definition publishable :: "string \<Rightarrow> rr list \<Rightarrow> bool" where
  "publishable zone rs \<longleftrightarrow>
     fullSnapshot rs \<and> is_soa (hd rs) \<and> equal_fold (rname (hd rs)) zone \<and>
     \<not> list_ex (\<lambda>r. rrtype r = TypeSOA) (butlast (tl rs)) \<and>
     list_ex (\<lambda>r. rrtype r = TypeNS \<and> equal_fold (rname r) zone) (butlast (tl rs))"

lemma publishable_split:
  "publishable zone (a # inner @ [b]) \<longleftrightarrow>
   soa_serial a \<noteq> None \<and> soa_serial a = soa_serial b \<and> equal_fold (rname a) (rname b) \<and> equal_fold (rname a) zone \<and>
   (\<forall>r\<in>set inner. rrtype r \<noteq> TypeSOA) \<and> (\<exists>r\<in>set inner. rrtype r = TypeNS \<and> equal_fold (rname r) zone)"
proof -
  have eqs: "butlast (tl (a # inner @ [b])) = inner" "hd (a # inner @ [b]) = a" by simp_all
  show ?thesis unfolding publishable_def fullSnapshot_iff list_ex_iff eqs by (cases inner) auto
qed

lemma publishable_iff: "publishable zone rs \<longleftrightarrow> valid_axfr zone rs"
proof
  assume p: "publishable zone rs"
  then have "3 \<le> length rs" by (auto simp: publishable_def fullSnapshot_def split: if_splits)
  then obtain a inner b where r: "rs = a # inner @ [b]" using three_split by blast
  note c = p [unfolded r publishable_split]
  show "valid_axfr zone rs" unfolding valid_axfr_def
    by (rule exI [of _ a], rule exI [of _ inner], rule exI [of _ b], rule conjI [OF r c])
next
  assume "valid_axfr zone rs"
  then obtain a inner b where r: "rs = a # inner @ [b]" and c: "soa_serial a \<noteq> None \<and> soa_serial a = soa_serial b \<and>
    equal_fold (rname a) (rname b) \<and> equal_fold (rname a) zone \<and>
    (\<forall>r\<in>set inner. rrtype r \<noteq> TypeSOA) \<and> (\<exists>r\<in>set inner. rrtype r = TypeNS \<and> equal_fold (rname r) zone)"
    unfolding valid_axfr_def by (elim exE conjE) simp
  show "publishable zone rs" unfolding r publishable_split by (rule c)
qed

lemma publish_eq:
  "publishable zone rs \<Longrightarrow> publish D s zone rs w =
     (case sec_write (zone_file s zone) (Text (snapshot_text D rs)) w of (True, w1) \<Rightarrow> (None, w1) | (False, w1) \<Rightarrow> (Some ''write'', w1))"
  "\<not> publishable zone rs \<Longrightarrow> \<exists>e. publish D s zone rs w = (Some e, w)"
  by (auto simp: publish_def publishable_def Let_def)

section \<open>One refresh\<close>

definition transferred :: "dnslib \<Rightarrow> string \<Rightarrow> envelopes \<Rightarrow> fdata \<Rightarrow> bool" where
  "transferred D zone xfer f \<longleftrightarrow> (\<exists>rs. transfer xfer = Inr rs \<and> valid_axfr zone rs \<and> f = Text (snapshot_text D rs))"

text \<open>What may be on disk while zone \<open>zone\<close> is refreshed, starting from world \<open>w\<close>.\<close>

definition refresh_ok :: "dnslib \<Rightarrow> Service \<Rightarrow> probe \<Rightarrow> envelopes \<Rightarrow> string \<Rightarrow> world \<Rightarrow> disk_t \<Rightarrow> bool" where
  "refresh_ok D s p xfer zone w d \<longleftrightarrow>
     (map_of d (zone_file s zone) = flookup w (zone_file s zone) \<or>
      (\<exists>f. transferred D zone xfer f \<and> map_of d (zone_file s zone) = Some f) \<or>
      (map_of d (zone_file s zone) = None \<and> sc_discover (sv_config s) \<and> remoteSerial zone p = Inl ZoneGone)) \<and>
     (\<forall>q. q \<noteq> zone_file s zone \<longrightarrow> q \<noteq> sc_status (sv_config s) \<longrightarrow> \<not> ends_digit q \<longrightarrow> map_of d q = flookup w q)"

lemma zone_file_no_digit: "\<not> ends_digit (zone_file s zone)"
  by (simp add: zone_file_def path_join_def zoneFileName_def ends_digit_def is_digit_def)

lemma refresh_ok_refl: "refresh_ok D s p xfer zone w (disk w)"
  by (simp add: refresh_ok_def)

lemma refresh_ok_cong: "disk w1 = disk w \<Longrightarrow> refresh_ok D s p xfer zone w1 d = refresh_ok D s p xfer zone w d"
  by (simp add: refresh_ok_def)

lemma same_disk_within: "same_disk w w' \<Longrightarrow> R (disk w) \<Longrightarrow> within R w w'"
  by (simp add: same_disk_def within_refl)

lemma refresh_zone_within:
  assumes r: "refresh_zone D p xfer zone s w = (err, s', w')"
  shows "within (refresh_ok D s p xfer zone w) w w'"
proof -
  let ?R = "refresh_ok D s p xfer zone w" and ?zf = "zone_file s zone"
  obtain current w1 where c: "readSerial D ?zf w = (current, w1)" by fastforce
  have d1: "same_disk w w1" by (rule readSerial_frame [OF c])
  have R1: "?R (disk w1)" using d1 by (simp add: same_disk_def refresh_ok_refl)
  have W1: "within ?R w w1" using d1 by (rule same_disk_within) (rule refresh_ok_refl)
  show ?thesis
  proof (cases "remoteSerial zone p")
    case (Inl e)
    show ?thesis
    proof (cases "e = ZoneGone \<and> sc_discover (sv_config s)")
      case True
      obtain rm w2 where rm: "os_remove ?zf w1 = (rm, w2)" by fastforce
      have "?R (AList.delete ?zf (disk w1))"
        using True Inl d1 by (auto simp: refresh_ok_def same_disk_def delete_conv')
      then have W2: "within ?R w1 w2" using os_remove_within [OF rm] R1 by blast
      obtain x w3 where x: "earliestExpiry D (sc_dir (sv_config s)) (sc_zones (sv_config s)) w2 = (x, w3)" by fastforce
      have "within ?R w2 w3" using same_disk_within [OF earliestExpiry_frame [OF x]] within_final [OF W2] by blast
      moreover have "w' = w2 \<or> w' = w3"
        using r c Inl True rm x by (auto simp: refresh_zone_def drop_zone_def Let_def split: prod.splits option.splits ioerr.splits)
      ultimately show ?thesis using W1 W2 within_trans by metis
    next
      case False
      then have "w' = w1" using r c Inl by (cases e) (auto simp: refresh_zone_def)
      then show ?thesis using W1 by simp
    qed
  next
    case (Inr serial)
    obtain fe w2 where f: "fetch_zone D s zone serial current xfer w1 = (fe, w2)" by fastforce
    have W2: "within ?R w1 w2"
    proof (cases "\<exists>rs. serial \<noteq> current \<and> transfer xfer = Inr rs \<and> publishable zone rs")
      case True
      then obtain rs where rs: "serial \<noteq> current" "transfer xfer = Inr rs" "publishable zone rs" by blast
      obtain ok wr where wr: "sec_write ?zf (Text (snapshot_text D rs)) w1 = (ok, wr)" by fastforce
      then have "w2 = wr" using f rs publish_eq(1) [OF rs(3)] by (auto simp: fetch_zone_def split: bool.splits)
      moreover have "within ?R w1 wr"
      proof (rule sw.write_within [OF wr])
        fix d assume n: "near ?zf (Text (snapshot_text D rs)) w1 d"
        have "transferred D zone xfer (Text (snapshot_text D rs))" using rs publishable_iff by (auto simp: transferred_def)
        then show "?R d" using n d1 by (auto simp: near_def refresh_ok_def same_disk_def)
      qed
      ultimately show ?thesis by simp
    next
      case False
      have "w2 = w1"
      proof (cases "transfer xfer")
        case (Inl e)
        then show ?thesis using f by (auto simp: fetch_zone_def split: if_splits)
      next
        case (Inr rs)
        then have "serial = current \<or> (\<exists>e. publish D s zone rs w1 = (Some e, w1))"
          using False publish_eq(2) [of zone rs D s w1] by blast
        then show ?thesis using f Inr by (auto simp: fetch_zone_def split: if_splits)
      qed
      then show ?thesis using R1 by (simp add: within_refl)
    qed
    have "w' = w2 \<or> (\<exists>e s1. record_metadata D zone s w2 = (e, s1, w'))"
      using r c Inr f by (auto simp: refresh_zone_def split: option.splits)
    then have "within ?R w2 w'"
    proof
      assume "w' = w2"
      then show ?thesis using within_final [OF W2] by (simp add: within_refl)
    next
      assume "\<exists>e s1. record_metadata D zone s w2 = (e, s1, w')"
      then show ?thesis using same_disk_within record_metadata_frame within_final [OF W2] by blast
    qed
    then show ?thesis using W1 W2 within_trans by blast
  qed
qed

lemma refresh_zone_config: "refresh_zone D p xfer zone s w = (err, s', w') \<Longrightarrow> sv_config s' = sv_config s"
  by (auto simp: refresh_zone_def drop_zone_def record_metadata_def Let_def
      split: prod.splits sum.splits option.splits sec_err.splits ioerr.splits if_splits)

lemma note_outcome_config [simp]: "sv_config (note_outcome now zone err s) = sv_config s"
  by (simp add: note_outcome_def scheduleRetry_def Let_def)

section \<open>Backoff\<close>

lemma wrap64_id: "- (2 ^ 63) \<le> n \<Longrightarrow> n < 2 ^ 63 \<Longrightarrow> wrap64 n = n"
  by (simp add: wrap64_def)

lemma double_up_closed:
  "0 < d \<Longrightarrow> mx < 2 ^ 62 \<Longrightarrow> min (double_up n d mx) mx = min (d * 2 ^ n) mx"
proof (induction n arbitrary: d)
  case (Suc n)
  show ?case
  proof (cases "d < mx")
    case True
    then have "wrap64 (d * 2) = d * 2" using Suc.prems by (intro wrap64_id) auto
    then show ?thesis using Suc.IH [of "d * 2"] Suc.prems True by (simp add: mult.assoc)
  next
    case False
    have "(1::int) \<le> 2 ^ Suc n" by (rule one_le_power) simp
    then have "d * 1 \<le> d * 2 ^ Suc n" using Suc.prems(1) by (intro mult_left_mono) simp_all
    then have "mx \<le> d * 2 ^ Suc n" using False by simp
    then show ?thesis using False by (simp add: min_absorb2)
  qed
qed simp

lemma retryDelay_closed:
  "0 < mn \<Longrightarrow> mx < 2 ^ 62 \<Longrightarrow> retryDelay n mn mx = min (mn * 2 ^ (n - 1)) mx"
  by (simp add: retryDelay_def double_up_closed)

section \<open>Reachable states\<close>

text \<open>The service between two turns of the loop of \<open>Run\<close>: it starts, receives NOTIFY messages, ticks,
  has a retry timer fire, or takes a zone off its queue and refreshes it.\<close>

inductive sec_reach :: "dnslib \<Rightarrow> Service \<Rightarrow> world \<Rightarrow> bool" for D where
  started: "NewSecondary D c = Inr s \<Longrightarrow> startup D s w = (None, s', w') \<Longrightarrow> sec_reach D s' w'"
| notified: "sec_reach D s w \<Longrightarrow> handleNotify D m s = (rc, s') \<Longrightarrow> sec_reach D s' w"
| ticked: "sec_reach D s w \<Longrightarrow> sec_reach D (queue_all s) w"
| retried: "sec_reach D s w \<Longrightarrow> gomap_has (sv_retries s) zone \<Longrightarrow> sec_reach D (queue_zone zone s) w"
| refreshed: "sec_reach D s w \<Longrightarrow> sv_queue s = zone # rest \<Longrightarrow>
     syncZone D now p xfer zone (s\<lparr>sv_queue := rest\<rparr>) (w\<lparr>outcomes := os\<rparr>) = (s', w') \<Longrightarrow> sec_reach D s' w'"

definition zones_inv :: "Service \<Rightarrow> bool" where
  "zones_inv s \<longleftrightarrow>
     distinct (sc_zones (sv_config s)) \<and> int (length (sc_zones (sv_config s))) \<le> sc_max_zones (sv_config s) \<and>
     length (sv_queue s) \<le> sv_cap s \<and> set (sv_queue s) \<subseteq> set (sc_zones (sv_config s)) \<and>
     0 < sc_retry_min (sv_config s) \<and> sc_retry_min (sv_config s) \<le> sc_retry_max (sv_config s) \<and>
     sc_retry_max (sv_config s) \<le> sc_refresh (sv_config s)"

definition retries_inv :: "Service \<Rightarrow> bool" where
  "retries_inv s \<longleftrightarrow>
     fst ` set (sv_errors s) = fst ` set (sv_failures s) \<and> fst ` set (sv_retries s) = fst ` set (sv_failures s) \<and>
     fst ` set (sv_failures s) \<subseteq> set (sc_zones (sv_config s)) \<and>
     (\<forall>zone n. map_of (sv_failures s) zone = Some n \<longrightarrow> 0 < n \<and>
        map_of (sv_retries s) zone = Some (retryDelay n (sc_retry_min (sv_config s)) (sc_retry_max (sv_config s))))"

lemma addZone_inv:
  assumes "addZone zone s = (ok, s')" "zones_inv s" "retries_inv s"
  shows "zones_inv s'" "retries_inv s'" "ok \<Longrightarrow> zone \<in> set (sc_zones (sv_config s'))"
    "sv_queue s' = sv_queue s" "sv_cap s' = sv_cap s"
proof -
  let ?zs = "sc_zones (sv_config s)"
  have "s' = s \<and> (ok \<longrightarrow> zone \<in> set ?zs) \<or>
      zone \<notin> set ?zs \<and> int (length ?zs) + 1 \<le> sc_max_zones (sv_config s) \<and>
      s' = s\<lparr>sv_config := (sv_config s)\<lparr>sc_zones := sort (?zs @ [zone])\<rparr>\<rparr>"
    using assms(1) by (auto simp: addZone_def Let_def split: if_splits)
  then show "zones_inv s'" "retries_inv s'" "ok \<Longrightarrow> zone \<in> set (sc_zones (sv_config s'))"
    "sv_queue s' = sv_queue s" "sv_cap s' = sv_cap s"
    using assms(2,3) by (elim disjE conjE; simp add: zones_inv_def retries_inv_def subset_insertI2)+
qed

lemma queue_zone_inv:
  "zones_inv s \<Longrightarrow> zone \<in> set (sc_zones (sv_config s)) \<Longrightarrow> zones_inv (queue_zone zone s)"
  "retries_inv s \<Longrightarrow> retries_inv (queue_zone zone s)" "sv_config (queue_zone zone s) = sv_config s"
  by (simp_all add: queue_zone_def zones_inv_def retries_inv_def)

lemma fold_queue_inv:
  "set zs \<subseteq> set (sc_zones (sv_config s)) \<Longrightarrow> zones_inv s \<Longrightarrow> retries_inv s \<Longrightarrow>
   zones_inv (fold queue_zone zs s) \<and> retries_inv (fold queue_zone zs s)"
proof (induction zs arbitrary: s)
  case (Cons z zs)
  then show ?case using queue_zone_inv [where s = s and zone = z] by simp
qed simp

lemma queue_all_inv: "zones_inv s \<Longrightarrow> retries_inv s \<Longrightarrow> zones_inv (queue_all s) \<and> retries_inv (queue_all s)"
  unfolding queue_all_def by (rule fold_queue_inv) simp

lemma check_zones_distinct: "check_zones D zs acc = Inr r \<Longrightarrow> distinct acc \<Longrightarrow> distinct r \<and> length r = length acc + length zs"
  by (induction zs arbitrary: acc) (auto simp: Let_def split: if_splits)

lemma NewSecondary_inv: "NewSecondary D c = Inr s \<Longrightarrow> zones_inv s \<and> retries_inv s"
proof -
  assume n: "NewSecondary D c = Inr s"
  have pos: "0 < or_default v d" if "0 < d" for v d using that by (simp add: or_default_def)
  have "0 < sc_retry_min (fill_sec_config c)" "sc_retry_min (fill_sec_config c) \<le> sc_retry_max (fill_sec_config c)"
    "sc_retry_max (fill_sec_config c) \<le> sc_refresh (fill_sec_config c)"
    using pos [of "30 * second"] pos [of "15 * minute"] pos [of hour]
    by (simp_all add: fill_sec_config_def Let_def second_def minute_def hour_def min.coboundedI2)
  then show ?thesis using n
    by (auto simp: NewSecondary_def Let_def zones_inv_def retries_inv_def split: if_splits sum.splits dest!: check_zones_distinct)
qed

lemma discover_loop_inv:
  "discover_loop D ns s = (ok, s') \<Longrightarrow> zones_inv s \<Longrightarrow> retries_inv s \<Longrightarrow> zones_inv s' \<and> retries_inv s'"
proof (induction ns arbitrary: s)
  case (Cons n ns)
  let ?z = "to_lower (trim_suffix n ''.zone'' @ ''.'')"
  obtain ok1 s1 where a: "addZone ?z s = (ok1, s1)" by fastforce
  note i = addZone_inv(1,2) [OF a Cons.prems(2,3)]
  have "discover_loop D ns s = (ok, s') \<or> discover_loop D ns s1 = (ok, s') \<or> s' = s1"
    using Cons.prems(1) a by (auto simp: Let_def split: if_splits bool.splits)
  then show ?case using Cons.IH [OF _ Cons.prems(2,3)] Cons.IH [OF _ i] i by blast
qed simp

text \<open>What restoring the status leaves alone.\<close>

definition core where
  "core s = (sv_config s, sv_cap s, sv_queue s, sv_errors s, sv_failures s, sv_retries s)"

lemma core_inv: "core s' = core s \<Longrightarrow> zones_inv s' = zones_inv s \<and> retries_inv s' = retries_inv s"
  by (simp add: core_def zones_inv_def retries_inv_def)

lemma restore_loop_core: "restore_loop D zs s w = (s', w') \<Longrightarrow> core s' = core s"
proof (induction zs arbitrary: s w)
  case (Cons z zs)
  obtain i w1 where i: "inspectZone D (zone_file s z) z w = (i, w1)" by fastforce
  show ?case
  proof (cases i)
    case (Inl e)
    then show ?thesis using Cons i by simp
  next
    case (Inr me)
    then obtain md where "restore_loop D zs (s\<lparr>sv_metadata := md\<rparr>) w1 = (s', w')" using Cons.prems i by (cases me) auto
    from Cons.IH [OF this] show ?thesis by (simp add: core_def)
  qed
qed simp

lemma restoreStatus_core:
  assumes r: "restoreStatus D s w = (s', w')" shows "core s' = core s"
proof -
  obtain content w1 where c: "os_read_file (sc_status (sv_config s)) w = (content, w1)" by fastforce
  define s1 where "s1 = (case content of
      Inr (Json j) \<Rightarrow>
        (case dec_status j of
           Some prev \<Rightarrow> if st_kind prev = st_kind (sv_status s) \<and> st_source prev = st_source (sv_status s)
             then s\<lparr>sv_status := (sv_status s)\<lparr>st_last_success := st_last_success prev\<rparr>\<rparr> else s
         | None \<Rightarrow> s)
    | _ \<Rightarrow> s)"
  obtain s2 w2 where l: "restore_loop D (sc_zones (sv_config s1)) s1 w1 = (s2, w2)" by fastforce
  have "core s1 = core s" by (auto simp: s1_def core_def split: sum.split fdata.split option.split)
  moreover have "core s2 = core s1" by (rule restore_loop_core [OF l])
  moreover have "core s' = core s2"
    using r unfolding restoreStatus_def c prod.case Let_def s1_def [symmetric] l
    by (auto simp: core_def split: prod.splits)
  ultimately show ?thesis by simp
qed

lemma startup_inv:
  assumes "startup D s w = (None, s', w')" "zones_inv s" "retries_inv s"
  shows "zones_inv s' \<and> retries_inv s'"
proof -
  obtain s1 w3 where d: "s1 = s \<or> (\<exists>w2. discoverZones D s w2 = (None, s1, w3))"
    and r: "\<exists>s2. restoreStatus D s1 w3 = (s2, w') \<and> s' = queue_all s2"
    using assms(1) by (auto simp: startup_def split: prod.splits bool.splits option.splits if_splits)
  have "zones_inv s1 \<and> retries_inv s1" using d
  proof
    assume "\<exists>w2. discoverZones D s w2 = (None, s1, w3)"
    then obtain w2 where dz: "discoverZones D s w2 = (None, s1, w3)" by blast
    obtain names w2' where n: "os_read_dir (sc_dir (sv_config s)) w2 = (names, w2')" by fastforce
    then obtain ns where ns: "names = Inr ns" using dz by (cases names) (auto simp: discoverZones_def)
    obtain ok s2 where l: "discover_loop D ns s = (ok, s2)" by fastforce
    then have "discover_loop D ns s = (True, s1)" using dz n ns by (cases ok) (auto simp: discoverZones_def)
    then show ?thesis using discover_loop_inv assms(2,3) by blast
  qed (use assms in simp)
  then show ?thesis using r restoreStatus_core core_inv queue_all_inv by metis
qed

lemma handleNotify_inv:
  assumes h: "handleNotify D m s = (rc, s')" and i: "zones_inv s" "retries_inv s"
  shows "zones_inv s' \<and> retries_inv s'"
proof (cases "\<exists>name. nm_questions m = [(name, TypeSOA)]")
  case True
  then obtain name where q: "nm_questions m = [(name, TypeSOA)]" by blast
  let ?z = "to_lower (fqdn D name)"
  obtain ok s1 where a: "addZone ?z s = (ok, s1)" by fastforce
  note ai = addZone_inv [OF a i]
  have "s' = s \<or> (s' = s1) \<or> (ok \<and> s' = queue_zone ?z s1) \<or> (hasZone ?z s \<and> s' = queue_zone ?z s)"
    using h q a by (auto simp: handleNotify_def Let_def split: if_splits bool.splits)
  then show ?thesis using i ai queue_zone_inv by (auto simp: hasZone_def)
next
  case False
  then have "s' = s" using h by (auto simp: handleNotify_def Let_def split: list.splits if_splits)
  then show ?thesis using i by simp
qed

lemma refresh_zone_core: "refresh_zone D p xfer zone s w = (err, s', w') \<Longrightarrow> core s' = core s"
  by (auto simp: refresh_zone_def drop_zone_def record_metadata_def Let_def core_def
      split: prod.splits sum.splits option.splits sec_err.splits ioerr.splits if_splits)

lemma keys_delete: "fst ` set (AList.delete k m) = fst ` set m - {k}"
proof -
  have "set (map fst (AList.delete k m)) = set (removeAll k (map fst m))" by (simp only: delete_keys)
  then show ?thesis by simp
qed

lemma keys_update: "fst ` set (AList.update k v m) = insert k (fst ` set m)"
proof -
  have "set (map fst (AList.update k v m)) = insert k (set (map fst m))" unfolding map_fst_update by auto
  then show ?thesis by simp
qed

lemma note_outcome_inv:
  assumes z: "zones_inv s" and r: "retries_inv s" and zone: "zone \<in> set (sc_zones (sv_config s))"
  shows "zones_inv (note_outcome now zone err s) \<and> retries_inv (note_outcome now zone err s)"
proof (cases err)
  case None
  then show ?thesis using z r
    by (auto simp: note_outcome_def scheduleRetry_def Let_def zones_inv_def retries_inv_def keys_delete delete_conv')
next
  case (Some e)
  then show ?thesis using z r zone
    by (auto simp: note_outcome_def scheduleRetry_def Let_def zones_inv_def retries_inv_def keys_delete keys_update
        delete_conv' update_conv')
qed

lemma sec_reach_inv: "sec_reach D s w \<Longrightarrow> zones_inv s \<and> retries_inv s"
proof (induction rule: sec_reach.induct)
  case (started c s w s' w')
  then show ?case using NewSecondary_inv startup_inv by blast
next
  case (notified s w m rc s')
  then show ?case using handleNotify_inv by blast
next
  case (ticked s w)
  then show ?case using queue_all_inv by blast
next
  case (retried s w zone)
  then have "zone \<in> fst ` set (sv_retries s)" by (metis map_of_eq_None_iff)
  then have "zone \<in> set (sc_zones (sv_config s))" using retried.IH by (auto simp: retries_inv_def)
  then show ?case using queue_zone_inv retried.IH by blast
next
  case (refreshed s w zone rest now p xfer os s' w')
  let ?s = "s\<lparr>sv_queue := rest, sv_status := (sv_status s)\<lparr>st_last_attempt := now\<rparr>\<rparr>"
  obtain err s1 w1 where r: "refresh_zone D p xfer zone ?s (w\<lparr>outcomes := os\<rparr>) = (err, s1, w1)" by (metis prod.collapse)
  have s': "s' = note_outcome now zone err s1" using refreshed.hyps(3) r by (simp add: syncZone_def Let_def)
  have "zones_inv ?s" "retries_inv ?s" "zone \<in> set (sc_zones (sv_config ?s))"
    using refreshed.IH refreshed.hyps(2) by (auto simp: zones_inv_def retries_inv_def)
  moreover note core_inv [OF refresh_zone_core [OF r]] refresh_zone_config [OF r]
  ultimately show ?case using note_outcome_inv [of s1 zone now err] s' by simp
qed

section \<open>Filling the queue\<close>

lemma fold_queue: "sv_queue (fold queue_zone zs s) = sv_queue s @ take (sv_cap s - length (sv_queue s)) zs"
proof (induction zs arbitrary: s)
  case (Cons z zs)
  show ?case
  proof (cases "length (sv_queue s) < sv_cap s")
    case True
    then have q: "queue_zone z s = s\<lparr>sv_queue := sv_queue s @ [z]\<rparr>" by (simp add: queue_zone_def)
    obtain k where k: "sv_cap s - length (sv_queue s) = Suc k" using True by (metis Suc_diff_Suc)
    then have "sv_cap s - Suc (length (sv_queue s)) = k" by simp
    then show ?thesis using Cons [of "queue_zone z s"] k by (simp add: q)
  next
    case False
    then have q: "queue_zone z s = s" by (simp add: queue_zone_def)
    then show ?thesis using Cons [of s] False by simp
  qed
qed simp

section \<open>Example\<close>

definition sec_demo_config :: sec_config where
  "sec_demo_config = \<lparr>sc_primary = ''p:53'', sc_probe = [], sc_listen = ''l:53'', sc_zones = [''b.''], sc_dir = ''/z'', sc_status = ''/s/status.json'',
     sc_refresh = 0, sc_timeout = 0, sc_notify_from = Some ''192.0.2.1'', sc_tsig_name = ''Key.'', sc_tsig_secret = ''x'', sc_discover = True,
     sc_max_zones = 0, sc_retry_min = 0, sc_retry_max = 0\<rparr>"

definition sec_demo :: Service where
  "sec_demo = projr (NewSecondary ref_dns sec_demo_config)"

definition sec_world :: "disk_t \<Rightarrow> world" where
  "sec_world d = \<lparr>disk = d, outcomes = [], snaps = []\<rparr>"

definition demo_soa :: rr where
  "demo_soa = \<lparr>rname = ''b.'', rrtype = TypeSOA, rclass = ClassINET, rttl = 60, rdat = SOA_d 7 ''ns.b.''\<rparr>"

definition demo_axfr :: "rr list" where
  "demo_axfr = [demo_soa, \<lparr>rname = ''b.'', rrtype = TypeNS, rclass = ClassINET, rttl = 60, rdat = NS_d ''ns.b.''\<rparr>, demo_soa]"

lemma sec_demo_new: "NewSecondary ref_dns sec_demo_config = Inr sec_demo"
proof -
  have "\<not> isl (NewSecondary ref_dns sec_demo_config)" by code_simp
  then show ?thesis by (cases "NewSecondary ref_dns sec_demo_config") (simp_all add: sec_demo_def)
qed

section \<open>Properties\<close>



text \<open>
  C34. Publication accepts exactly complete transfers: if no system call fails, a record list is
  published if and only if it starts and ends with the zone's SOA under one serial, has no other SOA
  and has an apex name server; a refused list leaves the world as it was, and an accepted one is on
  disk without its closing SOA.
\<close>

theorem publish_accepts_exactly_complete_transfers:
  assumes "calm w"
  shows "(fst (publish D s zone rs w) = None) = valid_axfr zone rs \<and>
    (if valid_axfr zone rs
     then flookup (snd (publish D s zone rs w)) (zone_file s zone) = Some (Text (snapshot_text D rs))
     else snd (publish D s zone rs w) = w)"
proof (cases "publishable zone rs")
  case True
  obtain w' where w': "sec_write (zone_file s zone) (Text (snapshot_text D rs)) w = (True, w')"
    using sw.write_calm [OF assms] by blast
  then have "publish D s zone rs w = (None, w')" by (simp add: publish_eq(1) [OF True])
  then show ?thesis using True publishable_iff sw.write_ok [OF w'] by simp
next
  case False
  then obtain e where "publish D s zone rs w = (Some e, w)" using publish_eq(2) by blast
  then show ?thesis using False publishable_iff by simp
qed

theorem publish_accepts_exactly_complete_transfers_witness:
  "fst (publish ref_dns sec_demo ''b.'' demo_axfr (sec_world [])) = None \<and>
   snd (publish ref_dns sec_demo ''b.'' (tl demo_axfr) (sec_world [])) = sec_world []"
proof -
  have c: "calm (sec_world [])" by (simp add: sec_world_def)
  have v: "valid_axfr ''b.'' demo_axfr" "\<not> valid_axfr ''b.'' (tl demo_axfr)"
    unfolding publishable_iff [symmetric] by code_simp+
  show ?thesis
    using publish_accepts_exactly_complete_transfers [OF c, of ref_dns sec_demo "''b.''" demo_axfr]
      publish_accepts_exactly_complete_transfers [OF c, of ref_dns sec_demo "''b.''" "tl demo_axfr"] v by simp
qed


lemma failed_probe:
  assumes "syncZone D now (ProbeFailed e) xfer zone s w = (s', w')"
  shows "zone \<in> fst ` set (sv_errors s')" "sv_config s' = sv_config s"
proof -
  let ?s = "s\<lparr>sv_status := (sv_status s)\<lparr>st_last_attempt := now\<rparr>\<rparr>"
  obtain n w1 where "readSerial D (zone_file ?s zone) w = (n, w1)" by fastforce
  then have "refresh_zone D (ProbeFailed e) xfer zone ?s w = (Some (''SOA '' @ zone @ '': '' @ e), ?s, w1)"
    by (simp add: refresh_zone_def remoteSerial_def)
  then have "s' = note_outcome now zone (Some (''SOA '' @ zone @ '': '' @ e)) ?s"
    using assms by (simp add: syncZone_def Let_def)
  then show "zone \<in> fst ` set (sv_errors s')" "sv_config s' = sv_config s"
    by (simp_all add: note_outcome_def scheduleRetry_def Let_def keys_update)
qed

lemma sec_demo_reach: "\<exists>s w. sec_reach ref_dns s w \<and> sc_retry_max (sv_config s) < 2 ^ 62 \<and> ''b.'' \<in> fst ` set (sv_errors s)"
proof -
  have st: "fst (startup ref_dns sec_demo (sec_world [])) = None"
    "sv_queue (fst (snd (startup ref_dns sec_demo (sec_world [])))) = [''b.'']"
    "sc_retry_max (sv_config (fst (snd (startup ref_dns sec_demo (sec_world []))))) < 2 ^ 62" by (code_simp, code_simp, code_simp)
  obtain e0 s0 w0 where s0: "startup ref_dns sec_demo (sec_world []) = (e0, s0, w0)" by (rule prod_cases3)
  have e0: "e0 = None" and q: "sv_queue s0 = ''b.'' # []" and mx: "sc_retry_max (sv_config s0) < 2 ^ 62"
    using st unfolding s0 by (simp_all only: fst_conv snd_conv)
  obtain s1 w1 where s1: "syncZone ref_dns 5 (ProbeFailed ''timeout'') (Inl []) ''b.'' (s0\<lparr>sv_queue := []\<rparr>) (w0\<lparr>outcomes := []\<rparr>) = (s1, w1)"
    by (rule prod.exhaust)
  have "sec_reach ref_dns s0 w0" by (rule sec_reach.started [OF sec_demo_new s0 [unfolded e0]])
  from sec_reach.refreshed [OF this q s1] failed_probe [OF s1] mx show ?thesis by auto
qed




text \<open>
  C37. Only authenticated NOTIFY messages have an effect: whenever the handler answers with success or
  changes anything, the message was a NOTIFY for one SOA, signed under the configured TSIG key with a
  valid signature, from the configured address, for a known zone or with discovery on; and all it does
  is to add the zone, within the maximum, and to queue it.
\<close>

theorem only_authenticated_notify_acts:
  assumes h: "handleNotify D m s = (rc, s')" and act: "rc = RcodeOK \<or> s' \<noteq> s"
  shows "\<exists>name zone. nm_questions m = [(name, TypeSOA)] \<and> zone = to_lower (fqdn D name) \<and> nm_opcode_notify m \<and>
    map_option to_lower (nm_tsig m) = Some (sc_tsig_name (sv_config s)) \<and> nm_tsig_ok m \<and>
    sc_notify_from (sv_config s) \<noteq> None \<and> nm_remote m = sc_notify_from (sv_config s) \<and>
    (hasZone zone s \<or> sc_discover (sv_config s)) \<and> hasZone zone s' \<and>
    set (sc_zones (sv_config s')) \<subseteq> insert zone (set (sc_zones (sv_config s))) \<and>
    (sv_queue s' = sv_queue s @ [zone] \<or> sv_queue s' = sv_queue s \<and> length (sv_queue s) \<ge> sv_cap s)"
proof -
  obtain name where q: "nm_questions m = [(name, TypeSOA)]" "nm_opcode_notify m"
    using h act by (auto simp: handleNotify_def Let_def split: list.splits if_splits)
  let ?z = "to_lower (fqdn D name)"
  have al: "notify_allowed m s" "sc_discover (sv_config s) \<or> hasZone ?z s"
    using h act q by (auto simp: handleNotify_def Let_def split: if_splits bool.splits)
  have auth: "map_option to_lower (nm_tsig m) = Some (sc_tsig_name (sv_config s))" "nm_tsig_ok m"
    "sc_notify_from (sv_config s) \<noteq> None" "nm_remote m = sc_notify_from (sv_config s)"
    using al(1) by (auto simp: notify_allowed_def split: option.splits)
  have "\<exists>s1. addZone ?z s = (True, s1) \<and> s' = queue_zone ?z s1"
  proof (cases "hasZone ?z s")
    case True
    then show ?thesis using h q al by (auto simp: handleNotify_def Let_def addZone_def hasZone_def)
  next
    case False
    then have d: "sc_discover (sv_config s)" using al(2) by simp
    obtain ok s1 where a: "addZone ?z s = (ok, s1)" by fastforce
    have "ok"
    proof (rule ccontr)
      assume "\<not> ok"
      then have "s1 = s" using a by (auto simp: addZone_def Let_def split: if_splits)
      then show False using h q al(1) d False a \<open>\<not> ok\<close> act by (auto simp: handleNotify_def Let_def)
    qed
    then show ?thesis using h q al(1) d False a by (auto simp: handleNotify_def Let_def)
  qed
  then obtain s1 where s1: "addZone ?z s = (True, s1)" "s' = queue_zone ?z s1" by blast
  have a: "hasZone ?z s1" "set (sc_zones (sv_config s1)) \<subseteq> insert ?z (set (sc_zones (sv_config s)))"
    "sv_queue s1 = sv_queue s" "sv_cap s1 = sv_cap s"
    using s1(1) by (auto simp: addZone_def hasZone_def Let_def split: if_splits)
  then have "hasZone ?z s'" "set (sc_zones (sv_config s')) \<subseteq> insert ?z (set (sc_zones (sv_config s)))"
    "sv_queue s' = sv_queue s @ [?z] \<or> sv_queue s' = sv_queue s \<and> length (sv_queue s) \<ge> sv_cap s"
    by (simp_all add: s1(2) queue_zone_def hasZone_def)
  then show ?thesis using q auth al(2) by blast
qed

theorem only_authenticated_notify_acts_witness:
  "\<exists>s'. handleNotify ref_dns \<lparr>nm_opcode_notify = True, nm_questions = [(''A'', TypeSOA)], nm_tsig = Some ''KEY.'', nm_tsig_ok = True,
      nm_remote = Some ''192.0.2.1''\<rparr> sec_demo = (RcodeOK, s') \<and> hasZone ''a.'' s'"
proof -
  let ?m = "\<lparr>nm_opcode_notify = True, nm_questions = [(''A'', TypeSOA)], nm_tsig = Some ''KEY.'', nm_tsig_ok = True, nm_remote = Some ''192.0.2.1''\<rparr>"
  have "case fst (handleNotify ref_dns ?m sec_demo) of RcodeOK \<Rightarrow> True | _ \<Rightarrow> False" by code_simp
  moreover obtain rc s' where h: "handleNotify ref_dns ?m sec_demo = (rc, s')" by (rule prod.exhaust)
  ultimately have rc: "rc = RcodeOK" by (cases rc) (simp_all only: fst_conv rcode.case)
  have a: "to_lower (fqdn ref_dns ''A'') = ''a.''" by code_simp
  have q: "nm_questions ?m = [(''A'', TypeSOA)]" by simp
  show ?thesis using only_authenticated_notify_acts [OF h disjI1 [OF rc]]
  proof (elim exE conjE, goal_cases)
    case (1 name zone)
    then have "name = ''A''" using q by simp
    then have "hasZone ''a.'' s'" using 1 a by simp
    then show ?case using h rc by (intro exI [of _ s'] conjI) simp_all
  qed
qed

end
