(* ===== verification/Blocking.thy ===== *)
theory Blocking
  imports Disk DnsLib Contracts
begin

text \<open>
  The blocklist configuration (internal/blocking/store.go and refresh.go): sources, allowed and denied
  domains, kept in three text files and replaced by writers that name the revision they started from.

  \<open>url.Parse\<close> is an argument that yields what the source reads of a URL: its scheme, host, user part
  and printed form.  The SHA-256 digest in hexadecimal is an argument too.
\<close>

section \<open>Data\<close>

record blConfig =
  bl_sources :: "string list"
  bl_allow :: "string list"
  bl_deny :: "string list"
  bl_revision :: string

record blRequest =
  br_sources :: "string list"
  br_allow :: "string list"
  br_deny :: "string list"
  br_expected :: string
  br_dry_run :: bool

record blResult =
  bs_config :: blConfig
  bs_previous :: string
  bs_dry_run :: bool
  bs_published :: bool
  bs_request_id :: string

datatype blErr = BlRead path | BlInvalid string | BlRevisionMismatch | BlWrite

record url =
  url_scheme :: string
  url_host :: string
  url_user :: "string option"
  url_string :: string

type_synonym url_parser = "string \<Rightarrow> url option"

section \<open>Normal forms\<close>

definition normalizeSource :: "url_parser \<Rightarrow> string \<Rightarrow> blErr + string" where
  "normalizeSource U value =
     (case U (trim_space value) of
        None \<Rightarrow> Inl (BlInvalid ''source must be an HTTPS URL'')
      | Some u \<Rightarrow> if url_scheme u \<noteq> ''https'' \<or> url_host u = [] \<or> url_user u \<noteq> None
                  then Inl (BlInvalid ''source must be an HTTPS URL'') else Inr (url_string u))"

definition validDomain :: "dnslib \<Rightarrow> string \<Rightarrow> bool" where
  "validDomain D value = (is_domain_name D (fqdn D value) \<and> \<not> contains_any value '' /:#'')"

definition normalizeDomain :: "dnslib \<Rightarrow> string \<Rightarrow> blErr + string" where
  "normalizeDomain D value =
     (let v = to_lower (trim_suffix (trim_space value) ''.'')
      in if v = [] \<or> v = ''localhost'' \<or> \<not> validDomain D v then Inl (BlInvalid (''invalid domain '' @ v)) else Inr v)"

fun unique_loop :: "(string \<Rightarrow> blErr + string) \<Rightarrow> string list \<Rightarrow> string list \<Rightarrow> blErr + string list" where
  "unique_loop norm [] result = Inr result"
| "unique_loop norm (value # values) result =
     (case norm value of
        Inl e \<Rightarrow> Inl e
      | Inr v \<Rightarrow> unique_loop norm values (if v \<in> set result then result else result @ [v]))"

definition unique_values :: "(string \<Rightarrow> blErr + string) \<Rightarrow> string list \<Rightarrow> blErr + string list" where
  "unique_values norm values =
     (case unique_loop norm values [] of Inl e \<Rightarrow> Inl e | Inr result \<Rightarrow> Inr (sort result))"

definition normalize_bl :: "url_parser \<Rightarrow> dnslib \<Rightarrow> string list \<Rightarrow> string list \<Rightarrow> string list \<Rightarrow> blErr + blConfig" where
  "normalize_bl U D sources allow deny =
     (if sources = [] \<or> 32 < length sources then Inl (BlInvalid ''1 to 32 sources are required'')
      else case unique_values (normalizeSource U) sources of
        Inl e \<Rightarrow> Inl e
      | Inr ss \<Rightarrow>
          (case unique_values (normalizeDomain D) allow of
             Inl e \<Rightarrow> Inl e
           | Inr al \<Rightarrow>
               (case unique_values (normalizeDomain D) deny of
                  Inl e \<Rightarrow> Inl e
                | Inr dn \<Rightarrow> Inr \<lparr>bl_sources = ss, bl_allow = al, bl_deny = dn, bl_revision = []\<rparr>)))"

text \<open>The bytes that are hashed: every value with a newline, a zero byte after each list.\<close>

definition revision_input :: "blConfig \<Rightarrow> bytes" where
  "revision_input c =
     concat (map (\<lambda>values. concat (map (\<lambda>v. v @ [CHR 0x0A]) values) @ [CHR 0x00]) [bl_sources c, bl_allow c, bl_deny c])"

definition with_revision :: "(bytes \<Rightarrow> string) \<Rightarrow> blConfig \<Rightarrow> blConfig" where
  "with_revision sha c = c\<lparr>bl_revision := sha (revision_input c)\<rparr>"

section \<open>Reading\<close>

definition lines_of :: "bytes \<Rightarrow> string list" where
  "lines_of content =
     filter (\<lambda>l. l \<noteq> [] \<and> \<not> has_prefix l ''#'') (map trim_space (split_on (CHR 0x0A) content))"

definition bl_readLines :: "path \<Rightarrow> world \<Rightarrow> (blErr + string list) \<times> world" where
  "bl_readLines p w =
     (case os_read_file p w of
        (Inr (Text content), w1) \<Rightarrow> (Inr (lines_of content), w1)
      | (_, w1) \<Rightarrow> (Inl (BlRead p), w1))"

definition blockingGet :: "url_parser \<Rightarrow> dnslib \<Rightarrow> (bytes \<Rightarrow> string) \<Rightarrow> path \<Rightarrow> world \<Rightarrow> (blErr + blConfig) \<times> world" where
  "blockingGet U D sha dir w =
     (case bl_readLines (path_join dir ''sources.txt'') w of
        (Inl e, w1) \<Rightarrow> (Inl e, w1)
      | (Inr sources, w1) \<Rightarrow>
          (case bl_readLines (path_join dir ''allow.txt'') w1 of
             (Inl e, w2) \<Rightarrow> (Inl e, w2)
           | (Inr allow, w2) \<Rightarrow>
               (case bl_readLines (path_join dir ''deny.txt'') w2 of
                  (Inl e, w3) \<Rightarrow> (Inl e, w3)
                | (Inr deny, w3) \<Rightarrow>
                    (case normalize_bl U D sources allow deny of
                       Inl e \<Rightarrow> (Inl e, w3)
                     | Inr c \<Rightarrow> (Inr (with_revision sha c), w3)))))"

section \<open>Replacing\<close>

definition bl_writeAtomic :: "path \<Rightarrow> string list \<Rightarrow> world \<Rightarrow> bool \<times> world" where
  "bl_writeAtomic p values w =
     atomic_write ''.blocking-'' [SWrite, SChmod, SClose, SRename] p (Text (join [CHR 0x0A] values @ [CHR 0x0A])) w"

text \<open>The files in the order in which the loop over the map visits them: \<open>ord\<close> permutes the three entries.\<close>

definition bl_files :: "path \<Rightarrow> blConfig \<Rightarrow> (path \<times> string list) list" where
  "bl_files dir c =
     [(path_join dir ''sources.txt'', bl_sources c), (path_join dir ''allow.txt'', bl_allow c),
      (path_join dir ''deny.txt'', bl_deny c)]"

definition blockingUpdate :: "url_parser \<Rightarrow> dnslib \<Rightarrow> (bytes \<Rightarrow> string) \<Rightarrow> nat list \<Rightarrow> path \<Rightarrow> blRequest \<Rightarrow> string \<Rightarrow> world \<Rightarrow>
    (blErr + blResult) \<times> world" where
  "blockingUpdate U D sha ord dir req request_id w =
     (case blockingGet U D sha dir w of
        (Inl e, w1) \<Rightarrow> (Inl e, w1)
      | (Inr current, w1) \<Rightarrow>
          if br_expected req = [] \<or> br_expected req \<noteq> bl_revision current then (Inl BlRevisionMismatch, w1)
          else case normalize_bl U D (br_sources req) (br_allow req) (br_deny req) of
                 Inl e \<Rightarrow> (Inl e, w1)
               | Inr c \<Rightarrow>
                   (let result = \<lparr>bs_config = with_revision sha c, bs_previous = bl_revision current,
                          bs_dry_run = br_dry_run req, bs_published = False, bs_request_id = request_id\<rparr>
                    in if br_dry_run req then (Inr result, w1)
                       else case write_files bl_writeAtomic (map (\<lambda>i. bl_files dir c ! i) ord) w1 of
                              (True, w2) \<Rightarrow> (Inr (result\<lparr>bs_published := True\<rparr>), w2)
                            | (False, w2) \<Rightarrow> (Inl BlWrite, w2)))"

section \<open>Requesting a refresh\<close>

definition RefreshRequestFile :: string where "RefreshRequestFile = ''refresh.request''"

record RefreshRequest =
  rq_requested_at :: gotime
  rq_actor :: string
  rq_request_id :: string

definition enc_refresh_request :: "RefreshRequest \<Rightarrow> jvalue" where
  "enc_refresh_request r =
     JObj [(''requested_at'', JTime (rq_requested_at r)), (''actor'', JStr (rq_actor r)), (''request_id'', JStr (rq_request_id r))]"

text \<open>\<open>os.WriteFile\<close> truncates the file and writes in place: a failing write leaves a truncated file.\<close>

definition write_in_place :: "path \<Rightarrow> fdata \<Rightarrow> world \<Rightarrow> bool \<times> world" where
  "write_in_place p f w =
     (case os_plain w of
        (False, w1) \<Rightarrow> (False, w1)
      | (True, w1) \<Rightarrow>
          (let w2 = set_disk (AList.update p (Text []) (disk w1)) w1
           in case syscall w2 of
                (None, w3) \<Rightarrow> (True, set_disk (AList.update p f (disk w3)) w3)
              | (Some k, w3) \<Rightarrow> (False, set_disk (AList.update p (partial_file k f) (disk w3)) w3)))"

definition RequestRefresh :: "path \<Rightarrow> string \<Rightarrow> string \<Rightarrow> gotime \<Rightarrow> world \<Rightarrow> RefreshRequest option \<times> world" where
  "RequestRefresh dir actor request_id now w =
     (let request = \<lparr>rq_requested_at = now, rq_actor = actor, rq_request_id = request_id\<rparr>
      in case write_in_place (path_join dir RefreshRequestFile) (Json (enc_refresh_request request)) w of
           (True, w1) \<Rightarrow> (Some request, w1)
         | (False, w1) \<Rightarrow> (None, w1))"

end
