(* ===== verification/BlocklistMerge.thy ===== *)
theory BlocklistMerge
  imports Disk "HOL-Library.Code_Target_Nat"
begin

text \<open>
  The blocklist compiler (cmd/blocklist-merge/main.go): domain lists and hosts files are read, domains
  normalised and checked, allowed domains removed, and the rest written as a hosts file.

  \<open>net.ParseIP\<close> is modelled by \<open>parse_ip\<close>: dotted IPv4 addresses and IPv6 addresses without a zone.
\<close>

section \<open>Package net\<close>

definition all_digits :: "string \<Rightarrow> bool" where
  "all_digits s = list_all is_digit s"

definition dec_value :: "string \<Rightarrow> nat" where
  "dec_value s = foldl (\<lambda>n c. 10 * n + (of_char c - 48)) 0 s"

text \<open>A decimal field of an IPv4 address: one to three digits, no leading zero, at most 255.\<close>

definition ipv4_field :: "string \<Rightarrow> bool" where
  "ipv4_field s = (s \<noteq> [] \<and> length s \<le> 3 \<and> all_digits s \<and> (hd s = CHR ''0'' \<longrightarrow> length s = 1) \<and> dec_value s \<le> 255)"

definition parse_ipv4 :: "string \<Rightarrow> bool" where
  "parse_ipv4 s = (let fs = split_on (CHR ''.'') s in length fs = 4 \<and> list_all ipv4_field fs)"

definition is_hex :: "char \<Rightarrow> bool" where
  "is_hex c = (is_digit c \<or> (65 \<le> (of_char c :: nat) \<and> (of_char c :: nat) \<le> 70) \<or> (97 \<le> (of_char c :: nat) \<and> (of_char c :: nat) \<le> 102))"

text \<open>
  The groups of an IPv6 address from byte \<open>i\<close> on; \<open>ellipsis\<close> says whether a double colon has been seen.
  The result is whether the text is used up as an address.
\<close>

definition ipv6_end :: "nat \<Rightarrow> bool \<Rightarrow> bool" where
  "ipv6_end i ellipsis = (if i < 16 then ellipsis else \<not> ellipsis)"

function ipv6_groups :: "nat \<Rightarrow> bool \<Rightarrow> string \<Rightarrow> bool" where
  "ipv6_groups i ellipsis s =
     (if 16 \<le> i then s = [] \<and> ipv6_end i ellipsis
      else let digits = takeWhile is_hex s; rest = dropWhile is_hex s
           in if digits = [] \<or> 4 < length digits then False
              else if rest \<noteq> [] \<and> hd rest = CHR ''.''
              then (ellipsis \<or> i = 12) \<and> i + 4 \<le> 16 \<and> parse_ipv4 s \<and> ipv6_end (i + 4) ellipsis
              else if rest = [] then ipv6_end (i + 2) ellipsis
              else if hd rest \<noteq> CHR '':'' \<or> tl rest = [] then False
              else if hd (tl rest) = CHR '':''
              then \<not> ellipsis \<and> (if tl (tl rest) = [] then ipv6_end (i + 2) True else ipv6_groups (i + 2) True (tl (tl rest)))
              else ipv6_groups (i + 2) ellipsis (tl rest))"
  by pat_completeness auto
termination by (relation "measure (\<lambda>(i, _, _). 16 - i)") auto

definition parse_ipv6 :: "string \<Rightarrow> bool" where
  "parse_ipv6 s =
     (if CHR ''%'' \<in> set s then False
      else if has_prefix s ''::'' then (drop 2 s = [] \<or> ipv6_groups 0 True (drop 2 s))
      else ipv6_groups 0 False s)"

text \<open>The first dot or colon decides which form is tried.\<close>

definition parse_ip :: "string \<Rightarrow> bool" where
  "parse_ip s =
     (case dropWhile (\<lambda>c. c \<noteq> CHR ''.'' \<and> c \<noteq> CHR '':'' \<and> c \<noteq> CHR ''%'') s of
        [] \<Rightarrow> False
      | c # _ \<Rightarrow> if c = CHR ''.'' then parse_ipv4 s else if c = CHR '':'' then parse_ipv6 s else False)"

section \<open>Domains\<close>

definition label_char :: "char \<Rightarrow> bool" where
  "label_char c = ((97 \<le> (of_char c :: nat) \<and> (of_char c :: nat) \<le> 122) \<or> is_digit c \<or> c = CHR ''-'' \<or> c = CHR ''_'')"

definition label_ok :: "string \<Rightarrow> bool" where
  "label_ok l =
     (l \<noteq> [] \<and> length l \<le> 63 \<and> hd l \<noteq> CHR ''-'' \<and> last l \<noteq> CHR ''-'' \<and> list_all label_char l)"

definition normalizeDomain_merge :: "string \<Rightarrow> string option" where
  "normalizeDomain_merge value =
     (let domain = to_lower (trim_suffix (trim_space value) ''.'')
      in if domain = [] \<or> domain = ''localhost'' \<or> 253 < length domain \<or> parse_ip domain then None
         else let labels = split_on (CHR ''.'') domain
              in if length labels < 2 then None
                 else if list_all label_ok labels then Some domain else None)"

section \<open>Reading lists\<close>

definition maxLineBytes :: nat where "maxLineBytes = 2 ^ 20"

definition trim_brackets :: "string \<Rightarrow> string" where
  "trim_brackets s = trim_by (\<lambda>c. c \<in> {CHR ''['', CHR '']''}) s"

text \<open>The fields of a line that may name a domain.\<close>

definition line_fields :: "string \<Rightarrow> string list" where
  "line_fields l =
     (let line = trim_space (hd (splitn 2 (CHR ''#'') l)); fs = go_fields line
      in if line = [] \<or> fs = [] then []
         else if parse_ip (trim_brackets (hd fs)) then drop 1 fs else fs)"

definition add_domain :: "string \<Rightarrow> string list \<Rightarrow> string list" where
  "add_domain field domains = (case normalizeDomain_merge field of None \<Rightarrow> domains | Some d \<Rightarrow> goset_add d domains)"

text \<open>A line of at least \<open>maxLineBytes\<close> bytes stops the scanner with an error.\<close>

definition readDomains :: "bytes \<Rightarrow> string list \<Rightarrow> string + string list" where
  "readDomains content domains =
     (if list_ex (\<lambda>l. maxLineBytes \<le> length l) (split_on (CHR 0x0A) content) then Inl ''token too long''
      else Inr (fold (\<lambda>l. fold add_domain (line_fields l)) (scan_lines content) domains))"

fun readFiles_loop :: "path list \<Rightarrow> string list \<Rightarrow> world \<Rightarrow> (string + string list) \<times> world" where
  "readFiles_loop [] domains w = (Inr domains, w)"
| "readFiles_loop (p # ps) domains w =
     (case os_read_file p w of
        (Inr (Text content), w1) \<Rightarrow>
          (case readDomains content domains of
             Inl e \<Rightarrow> (Inl (''parse '' @ p @ '': '' @ e), w1)
           | Inr domains1 \<Rightarrow> readFiles_loop ps domains1 w1)
      | (_, w1) \<Rightarrow> (Inl (''open '' @ p), w1))"

definition readFiles :: "path list \<Rightarrow> world \<Rightarrow> (string + string list) \<times> world" where
  "readFiles ps w = readFiles_loop ps [] w"

section \<open>Writing the hosts file\<close>

definition hosts_text :: "string list \<Rightarrow> bytes" where
  "hosts_text ordered =
     ''# Generated by rilldns blocklist-merge; do not edit.'' @ [CHR 0x0A] @
     concat (map (\<lambda>d. ''0.0.0.0 '' @ d @ [CHR 0x0A]) ordered)"

definition merge_put :: "path \<Rightarrow> bytes \<Rightarrow> world \<Rightarrow> bool \<times> world" where
  "merge_put p content w = atomic_write (path_base p @ ''.tmp-'') [SBuffer, SWrite, SSync, SClose, SRename] p (Text content) w"

definition writeAtomic_merge :: "path \<Rightarrow> string list \<Rightarrow> world \<Rightarrow> string option \<times> world" where
  "writeAtomic_merge p domains w =
     (if domains = [] then (Some ''refusing to publish an empty blocklist'', w)
      else case merge_put p (hosts_text (sort domains)) w of
             (True, w1) \<Rightarrow> (None, w1)
           | (False, w1) \<Rightarrow> (Some ''publish output'', w1))"

section \<open>The program\<close>

text \<open>\<open>main\<close> after parsing its flags: the error it reports, if any.\<close>

definition merge_main :: "path \<Rightarrow> path \<Rightarrow> path list \<Rightarrow> world \<Rightarrow> string option \<times> world" where
  "merge_main output allow inputs w =
     (if output = [] \<or> inputs = [] then (Some ''usage: blocklist-merge -output FILE [-allow FILE] INPUT...'', w)
      else case readFiles inputs w of
        (Inl e, w1) \<Rightarrow> (Some e, w1)
      | (Inr blocked, w1) \<Rightarrow>
          if allow = [] then writeAtomic_merge output blocked w1
          else (case readFiles [allow] w1 of
                  (Inl e, w2) \<Rightarrow> (Some e, w2)
                | (Inr allowed, w2) \<Rightarrow> writeAtomic_merge output (filter (\<lambda>d. d \<notin> set allowed) blocked) w2))"

end
