(* ===== verification/RefreshStatus.thy ===== *)
theory RefreshStatus
  imports Disk "HOL-Library.Monad_Syntax"
begin

text \<open>
  The status documents of the refresh jobs and their health report (internal/refreshstatus/status.go).
\<close>

section \<open>Documents\<close>

record rsZone =
  rz_name :: string
  rz_serial :: uint32
  rz_records :: int

record rsStatus =
  rs_kind :: string
  rs_success :: bool
  rs_last_attempt :: gotime
  rs_last_success :: gotime
  rs_error :: string
  rs_source :: string
  rs_expiry :: string
  rs_zones :: "rsZone list"
  rs_domains :: int
  rs_sources :: int
  rs_sha256 :: string
  rs_mismatches :: int
  rs_consecutive :: int
  rs_checked_zones :: int
  rs_queries :: int

record rsReport =
  rp_healthy :: bool
  rp_reason :: string
  rp_zones :: rsStatus
  rp_blocklists :: rsStatus
  rp_differential :: rsStatus

definition zero_status :: rsStatus where
  "zero_status = \<lparr>rs_kind = [], rs_success = False, rs_last_attempt = zero_time, rs_last_success = zero_time, rs_error = [],
     rs_source = [], rs_expiry = [], rs_zones = [], rs_domains = 0, rs_sources = 0, rs_sha256 = [], rs_mismatches = 0,
     rs_consecutive = 0, rs_checked_zones = 0, rs_queries = 0\<rparr>"

definition enc_rszone :: "rsZone \<Rightarrow> jvalue" where
  "enc_rszone z = JObj [(''name'', JStr (rz_name z)), (''serial'', JNum (uint (rz_serial z))), (''records'', JNum (rz_records z))]"

text \<open>\<open>omitempty\<close> leaves out empty strings, zero numbers and empty lists, but never a time.\<close>

definition opt_str :: "string \<Rightarrow> string \<Rightarrow> (string \<times> jvalue) list" where
  "opt_str k s = (if s = [] then [] else [(k, JStr s)])"

definition opt_num :: "string \<Rightarrow> int \<Rightarrow> (string \<times> jvalue) list" where
  "opt_num k n = (if n = 0 then [] else [(k, JNum n)])"

definition enc_rsstatus :: "rsStatus \<Rightarrow> jvalue" where
  "enc_rsstatus s =
     JObj ([(''kind'', JStr (rs_kind s)), (''success'', JBool (rs_success s)), (''last_attempt'', JTime (rs_last_attempt s)),
            (''last_success'', JTime (rs_last_success s))] @
       opt_str ''error'' (rs_error s) @ opt_str ''source'' (rs_source s) @ opt_str ''earliest_rrsig_expiry'' (rs_expiry s) @
       (if rs_zones s = [] then [] else [(''zones'', JArr (map enc_rszone (rs_zones s)))]) @
       opt_num ''domains'' (rs_domains s) @ opt_num ''sources'' (rs_sources s) @ opt_str ''sha256'' (rs_sha256 s) @
       opt_num ''mismatches'' (rs_mismatches s) @ opt_num ''consecutive_failures'' (rs_consecutive s) @
       opt_num ''checked_zones'' (rs_checked_zones s) @ opt_num ''queries'' (rs_queries s))"

definition dec_rszone :: "jvalue \<Rightarrow> rsZone option" where
  "dec_rszone j =
     (case (Option.bind (jget j ''name'') as_str, Option.bind (jget j ''serial'') as_uint64, Option.bind (jget j ''records'') as_int64) of
        (Some n, Some v, Some r) \<Rightarrow> if v < 2 ^ 32 then Some \<lparr>rz_name = n, rz_serial = of_nat v, rz_records = r\<rparr> else None
      | _ \<Rightarrow> None)"

definition jstr :: "jvalue \<Rightarrow> string \<Rightarrow> string option" where
  "jstr j k = Option.bind (jget j k) as_str"

definition jint :: "jvalue \<Rightarrow> string \<Rightarrow> int option" where
  "jint j k = Option.bind (jget j k) as_int64"

definition dec_rsstatus :: "jvalue \<Rightarrow> rsStatus option" where
  "dec_rsstatus j =
     do {
       kind \<leftarrow> jstr j ''kind'';
       success \<leftarrow> Option.bind (jget j ''success'') as_bool;
       attempt \<leftarrow> Option.bind (jget j ''last_attempt'') as_time;
       last \<leftarrow> Option.bind (jget j ''last_success'') as_time;
       error \<leftarrow> jstr j ''error'';
       source \<leftarrow> jstr j ''source'';
       expiry \<leftarrow> jstr j ''earliest_rrsig_expiry'';
       zones \<leftarrow> Option.bind (jget j ''zones'') (as_list dec_rszone);
       domains \<leftarrow> jint j ''domains'';
       sources \<leftarrow> jint j ''sources'';
       sha \<leftarrow> jstr j ''sha256'';
       mismatches \<leftarrow> jint j ''mismatches'';
       failures \<leftarrow> jint j ''consecutive_failures'';
       checked \<leftarrow> jint j ''checked_zones'';
       queries \<leftarrow> jint j ''queries'';
       Some \<lparr>rs_kind = kind, rs_success = success, rs_last_attempt = attempt, rs_last_success = last, rs_error = error,
         rs_source = source, rs_expiry = expiry, rs_zones = zones, rs_domains = domains, rs_sources = sources, rs_sha256 = sha,
         rs_mismatches = mismatches, rs_consecutive = failures, rs_checked_zones = checked, rs_queries = queries\<rparr>
     }"

text \<open>\<open>read\<close>: the document, or an error.\<close>

definition read_status :: "path \<Rightarrow> world \<Rightarrow> rsStatus option \<times> world" where
  "read_status p w =
     (case os_read_file p w of
        (Inr (Json j), w1) \<Rightarrow> (dec_rsstatus j, w1)
      | (_, w1) \<Rightarrow> (None, w1))"

section \<open>The expiry stamp\<close>

definition leap_year :: "int \<Rightarrow> bool" where
  "leap_year y = (y mod 4 = 0 \<and> (y mod 100 \<noteq> 0 \<or> y mod 400 = 0))"

definition days_in :: "int \<Rightarrow> int \<Rightarrow> int" where
  "days_in m y = (if m = 2 then (if leap_year y then 29 else 28) else if m \<in> {4, 6, 9, 11} then 30 else 31)"

text \<open>Days since the epoch of a civil date.\<close>

definition days_of_civil :: "int \<Rightarrow> int \<Rightarrow> int \<Rightarrow> int" where
  "days_of_civil y m d =
     (let y' = (if m \<le> 2 then y - 1 else y); era = y' div 400; yoe = y' mod 400;
          mp = (if 2 < m then m - 3 else m + 9);
          doy = (153 * mp + 2) div 5 + d - 1;
          doe = yoe * 365 + yoe div 4 - yoe div 100 + doy
      in era * 146097 + doe - 719468)"

definition dig :: "char \<Rightarrow> int" where
  "dig c = int (of_char c) - 48"

definition num_of :: "string \<Rightarrow> int" where
  "num_of s = foldl (\<lambda>n c. 10 * n + dig c) 0 s"

text \<open>\<open>time.Parse\<close> with layout 20060102150405: fourteen digits, and a fraction of a second, which the
  parser accepts although the layout does not mention it.\<close>

definition frac_nanos :: "string \<Rightarrow> int option" where
  "frac_nanos s =
     (case s of
        [] \<Rightarrow> Some 0
      | c # ds \<Rightarrow> if (c = CHR ''.'' \<or> c = CHR '','') \<and> ds \<noteq> [] \<and> list_all is_digit ds
                  then Some (num_of (take 9 (ds @ replicate 9 (CHR ''0'')))) else None)"

definition parse_stamp :: "string \<Rightarrow> gotime option" where
  "parse_stamp s =
     (if length s < 14 \<or> \<not> list_all is_digit (take 14 s) then None
      else let y = num_of (take 4 s); m = num_of (take 2 (drop 4 s)); d = num_of (take 2 (drop 6 s));
               h = num_of (take 2 (drop 8 s)); mi = num_of (take 2 (drop 10 s)); sec = num_of (take 2 (drop 12 s))
           in if 1 \<le> m \<and> m \<le> 12 \<and> 1 \<le> d \<and> d \<le> days_in m y \<and> h < 24 \<and> mi < 60 \<and> sec < 60
              then (case frac_nanos (drop 14 s) of
                      None \<Rightarrow> None
                    | Some n \<Rightarrow> Some ((days_of_civil y m d * 86400 + h * 3600 + mi * 60 + sec) * second + n))
              else None)"

definition RRSIGExpiry :: "rsStatus \<Rightarrow> gotime option" where
  "RRSIGExpiry s = (if rs_expiry s = [] then Some zero_time else parse_stamp (rs_expiry s))"

section \<open>The report\<close>

text \<open>The reasons in the order in which the switch tries them; empty when the report is healthy.\<close>

definition unhealthy_reason :: "rsStatus \<Rightarrow> rsStatus \<Rightarrow> rsStatus \<Rightarrow> gotime \<Rightarrow> string" where
  "unhealthy_reason zones blocklists differential now =
     (if \<not> rs_success zones then ''last zone refresh failed''
      else if \<not> rs_success blocklists then ''last blocklist refresh failed''
      else if \<not> rs_success differential \<or> rs_mismatches differential \<noteq> 0 then ''last differential DNS check failed''
      else if 2 * hour < time_sub now (rs_last_success zones) then ''zone refresh is stale''
      else if 26 * hour < time_sub now (rs_last_success blocklists) then ''blocklist refresh is stale''
      else if 2 * hour < time_sub now (rs_last_success differential) then ''differential DNS check is stale''
      else case RRSIGExpiry zones of
             None \<Rightarrow> ''DNSSEC signature expiry is invalid''
           | Some expiry \<Rightarrow>
               if \<not> is_zero expiry \<and> time_sub expiry now < 12 * hour then ''DNSSEC signature expires within 12 hours'' else [])"

definition LoadReport :: "path \<Rightarrow> gotime \<Rightarrow> world \<Rightarrow> (string + rsReport) \<times> world" where
  "LoadReport dir now w =
     (case read_status (path_join dir ''zones.json'') w of
        (None, w1) \<Rightarrow> (Inl ''read zone refresh status'', w1)
      | (Some zones, w1) \<Rightarrow>
          (case read_status (path_join dir ''blocklists.json'') w1 of
             (None, w2) \<Rightarrow> (Inl ''read blocklist refresh status'', w2)
           | (Some blocklists, w2) \<Rightarrow>
               (case read_status (path_join dir ''differential.json'') w2 of
                  (None, w3) \<Rightarrow> (Inl ''read differential status'', w3)
                | (Some differential, w3) \<Rightarrow>
                    (let reason = unhealthy_reason zones blocklists differential now
                     in (Inr \<lparr>rp_healthy = (reason = []), rp_reason = reason, rp_zones = zones, rp_blocklists = blocklists,
                           rp_differential = differential\<rparr>, w3)))))"

section \<open>Reading a written document back\<close>

definition int64 :: "int \<Rightarrow> bool" where
  "int64 n \<longleftrightarrow> - (2 ^ 63) \<le> n \<and> n < 2 ^ 63"

definition status_fits :: "rsStatus \<Rightarrow> bool" where
  "status_fits s \<longleftrightarrow> list_all int64 [rs_domains s, rs_sources s, rs_mismatches s, rs_consecutive s, rs_checked_zones s, rs_queries s] \<and>
     (\<forall>z\<in>set (rs_zones s). int64 (rz_records z))"

lemma map_of_opt_str: "map_of (opt_str k s) k' = (if k' = k \<and> s \<noteq> [] then Some (JStr s) else None)"
  by (simp add: opt_str_def)

lemma map_of_opt_num: "map_of (opt_num k n) k' = (if k' = k \<and> n \<noteq> 0 then Some (JNum n) else None)"
  by (simp add: opt_num_def)

lemma map_of_opt_zones:
  "map_of (if zs = [] then [] else [(k, JArr (map enc_rszone zs))]) k' = (if k' = k \<and> zs \<noteq> [] then Some (JArr (map enc_rszone zs)) else None)"
  by simp

lemma dec_enc_rszone: "int64 (rz_records z) \<Longrightarrow> dec_rszone (enc_rszone z) = Some z"
proof -
  assume "int64 (rz_records z)"
  moreover have "uint (rz_serial z) < 2 ^ 32" "0 \<le> uint (rz_serial z)" using uint_lt2p [of "rz_serial z"] by simp_all
  then have "as_uint64 (JNum (uint (rz_serial z))) = Some (unat (rz_serial z))"
    by (simp add: as_uint64_def)
  moreover have "unat (rz_serial z) < 2 ^ 32"
    using \<open>uint (rz_serial z) < 2 ^ 32\<close> by (simp add: nat_less_iff flip: nat_uint_eq)
  ultimately show ?thesis by (simp add: dec_rszone_def enc_rszone_def jget_def as_str_def as_int64_def int64_def)
qed

lemmas status_get = enc_rsstatus_def jget_def jstr_def jint_def map_of_append map_add_def map_of_opt_str map_of_opt_num
  map_of_opt_zones as_str_def as_int64_def as_bool_def as_time_def

lemma enc_rsstatus_strings:
  "jstr (enc_rsstatus s) ''kind'' = Some (rs_kind s)" "jstr (enc_rsstatus s) ''error'' = Some (rs_error s)"
  "jstr (enc_rsstatus s) ''source'' = Some (rs_source s)" "jstr (enc_rsstatus s) ''earliest_rrsig_expiry'' = Some (rs_expiry s)"
  "jstr (enc_rsstatus s) ''sha256'' = Some (rs_sha256 s)"
  by (simp_all add: status_get)

lemma enc_rsstatus_numbers:
  assumes "status_fits s"
  shows "jint (enc_rsstatus s) ''domains'' = Some (rs_domains s)" "jint (enc_rsstatus s) ''sources'' = Some (rs_sources s)"
    "jint (enc_rsstatus s) ''mismatches'' = Some (rs_mismatches s)" "jint (enc_rsstatus s) ''consecutive_failures'' = Some (rs_consecutive s)"
    "jint (enc_rsstatus s) ''checked_zones'' = Some (rs_checked_zones s)" "jint (enc_rsstatus s) ''queries'' = Some (rs_queries s)"
  using assms by (simp_all add: status_get status_fits_def int64_def)

lemma enc_rsstatus_rest:
  "Option.bind (jget (enc_rsstatus s) ''success'') as_bool = Some (rs_success s)"
  "Option.bind (jget (enc_rsstatus s) ''last_attempt'') as_time = Some (rs_last_attempt s)"
  "Option.bind (jget (enc_rsstatus s) ''last_success'') as_time = Some (rs_last_success s)"
  by (simp_all add: status_get)

lemma enc_rsstatus_zones:
  assumes "status_fits s"
  shows "Option.bind (jget (enc_rsstatus s) ''zones'') (as_list dec_rszone) = Some (rs_zones s)"
proof -
  have "jget (enc_rsstatus s) ''zones'' = Some (if rs_zones s = [] then JNull else JArr (map enc_rszone (rs_zones s)))"
    by (simp add: status_get)
  moreover have "as_list dec_rszone (JArr (map enc_rszone (rs_zones s))) = Some (rs_zones s)"
    using assms by (intro as_list_map dec_enc_rszone) (simp add: status_fits_def)
  ultimately show ?thesis by (simp add: as_list_def)
qed

lemma dec_enc_rsstatus: "status_fits s \<Longrightarrow> dec_rsstatus (enc_rsstatus s) = Some s"
  unfolding dec_rsstatus_def by (simp add: enc_rsstatus_strings enc_rsstatus_numbers enc_rsstatus_rest enc_rsstatus_zones)

end
