(* ===== verification/BlocklistRefresh.thy ===== *)
theory BlocklistRefresh
  imports Blocking BlocklistMerge RefreshStatus
begin

text \<open>
  The blocklist refresh job (cmd/rill-blocklist-refresh/main.go): an optional synchronisation of the
  configuration, download of every source, compilation by \<open>blocklist-merge\<close>, a size check, publication
  and the status document.

  What a URL answers (after redirects) is the argument \<open>http\<close>; \<open>local_ip\<close> says whether a host is a
  private or loopback address, \<open>re_json\<close> reads the first JSON value of a text; \<open>work\<close> is the name of the directory that \<open>os.MkdirTemp\<close> makes.
\<close>

section \<open>Downloads\<close>

definition maxDownload :: nat where "maxDownload = 100 * 2 ^ 20"

text \<open>A response: its status, its body and whether reading the body ended in an error.\<close>

datatype http_answer = HttpFailed | HttpAnswer nat bytes bool

record refresh_env =
  re_url :: url_parser
  re_hostname :: "url \<Rightarrow> string"
  re_local_ip :: "string \<Rightarrow> bool"
  re_http :: "string \<Rightarrow> http_answer"
  re_json :: "bytes \<Rightarrow> jvalue option"
  re_sha :: "bytes \<Rightarrow> string"

definition validateRemoteURL :: "refresh_env \<Rightarrow> url \<Rightarrow> string option" where
  "validateRemoteURL E u =
     (if url_scheme u \<noteq> ''https'' \<or> re_hostname E u = [] \<or> url_user u \<noteq> None
      then Some ''remote URL must be absolute HTTPS without user information'' else None)"

definition parseRemoteURL :: "refresh_env \<Rightarrow> string \<Rightarrow> string + url" where
  "parseRemoteURL E raw =
     (case re_url E (trim_space raw) of
        None \<Rightarrow> Inl ''invalid URL''
      | Some u \<Rightarrow> (case validateRemoteURL E u of Some e \<Rightarrow> Inl e | None \<Rightarrow> Inr u))"

definition parseConfigURL :: "refresh_env \<Rightarrow> string \<Rightarrow> string + url" where
  "parseConfigURL E raw =
     (case re_url E (trim_space raw) of
        None \<Rightarrow> Inl ''invalid URL''
      | Some u \<Rightarrow>
          if url_scheme u = ''http'' \<and> url_user u = None \<and> re_local_ip E (re_hostname E u) then Inr u
          else (case validateRemoteURL E u of Some e \<Rightarrow> Inl e | None \<Rightarrow> Inr u))"

definition downloadWithParser :: "refresh_env \<Rightarrow> (string \<Rightarrow> string + url) \<Rightarrow> string \<Rightarrow> path \<Rightarrow> world \<Rightarrow> string option \<times> world" where
  "downloadWithParser E parser raw p w =
     (case parser raw of
        Inl e \<Rightarrow> (Some e, w)
      | Inr u \<Rightarrow>
          (case re_http E (url_string u) of
             HttpFailed \<Rightarrow> (Some ''request failed'', w)
           | HttpAnswer status body broken \<Rightarrow>
               if status < 200 \<or> 300 \<le> status then (Some ''HTTP status'', w)
               else (case write_in_place p (Text (take (maxDownload + 1) body)) w of
                       (False, w1) \<Rightarrow> (Some ''write'', w1)
                     | (True, w1) \<Rightarrow>
                         if broken then (Some ''read body'', w1)
                         else if maxDownload < length body then (Some ''response exceeds limit'', w1)
                         else (None, w1))))"

definition download :: "refresh_env \<Rightarrow> string \<Rightarrow> path \<Rightarrow> world \<Rightarrow> string option \<times> world" where
  "download E url p w = downloadWithParser E (parseRemoteURL E) url p w"

section \<open>The synchronised configuration\<close>

record refresh_config =
  fg_sources :: "string list"
  fg_allow :: "string list"
  fg_deny :: "string list"

text \<open>The struct has no tags: \<open>encoding/json\<close> matches its field names ignoring case, the last match wins.\<close>

definition jget_fold :: "jvalue \<Rightarrow> string \<Rightarrow> jvalue option" where
  "jget_fold j k =
     (case j of
        JObj fs \<Rightarrow> Some (case filter (\<lambda>(n, _). equal_fold n k) fs of [] \<Rightarrow> JNull | ms \<Rightarrow> snd (last ms))
      | JNull \<Rightarrow> Some JNull
      | _ \<Rightarrow> None)"

definition dec_refresh_config :: "jvalue \<Rightarrow> refresh_config option" where
  "dec_refresh_config j =
     (case (Option.bind (jget_fold j ''Sources'') (as_list as_str), Option.bind (jget_fold j ''Allow'') (as_list as_str),
            Option.bind (jget_fold j ''Deny'') (as_list as_str)) of
        (Some s, Some a, Some d) \<Rightarrow> Some \<lparr>fg_sources = s, fg_allow = a, fg_deny = d\<rparr>
      | _ \<Rightarrow> None)"

definition config_temp :: "disk_t \<Rightarrow> path" where
  "config_temp d = fresh_temp ''/tmp/config'' ''rill-config-'' d"

definition downloadJSON :: "refresh_env \<Rightarrow> string \<Rightarrow> world \<Rightarrow> (string + refresh_config) \<times> world" where
  "downloadJSON E url w =
     (case os_plain w of
        (False, w1) \<Rightarrow> (Inl ''create temporary file'', w1)
      | (True, w1) \<Rightarrow>
          (let p = config_temp (disk w1); w2 = set_disk (AList.update p (Text []) (disk w1)) w1
           in case downloadWithParser E (parseConfigURL E) url p w2 of
                (Some e, w3) \<Rightarrow> (Inl e, remove_quietly p w3)
              | (None, w3) \<Rightarrow>
                  (case os_read_file p w3 of
                     (Inr (Text body), w4) \<Rightarrow>
                       ((case Option.bind (re_json E body) dec_refresh_config of None \<Rightarrow> Inl ''decode'' | Some c \<Rightarrow> Inr c),
                        remove_quietly p w4)
                   | (_, w4) \<Rightarrow> (Inl ''decode'', remove_quietly p w4))))"

definition writeLines :: "path \<Rightarrow> string list \<Rightarrow> world \<Rightarrow> bool \<times> world" where
  "writeLines p values w =
     atomic_write ''.config-'' [SWrite, SChmod, SClose, SRename] p (Text (concat (map (\<lambda>v. v @ [CHR 0x0A]) values))) w"

definition config_files :: "path \<Rightarrow> refresh_config \<Rightarrow> (path \<times> string list) list" where
  "config_files dir c =
     [(path_join dir ''sources.txt'', fg_sources c), (path_join dir ''allow.txt'', fg_allow c), (path_join dir ''deny.txt'', fg_deny c)]"

definition sync_config :: "refresh_env \<Rightarrow> nat list \<Rightarrow> path \<Rightarrow> string \<Rightarrow> world \<Rightarrow> string option \<times> world" where
  "sync_config E ord dir configURL w =
     (if configURL = [] then (None, w)
      else case downloadJSON E configURL w of
        (Inl e, w1) \<Rightarrow> (Some (''sync config: '' @ e), w1)
      | (Inr c, w1) \<Rightarrow>
          if fg_sources c = [] then (Some ''synced config has no sources'', w1)
          else (case write_files writeLines (map (\<lambda>i. config_files dir c ! i) ord) w1 of
                  (True, w2) \<Rightarrow> (None, w2)
                | (False, w2) \<Rightarrow> (Some ''write config'', w2)))"

section \<open>Reading the source list and the compiled file\<close>

definition maxScanToken :: nat where "maxScanToken = 2 ^ 16"

definition source_lines :: "bytes \<Rightarrow> string list" where
  "source_lines content = filter (\<lambda>v. v \<noteq> []) (map (\<lambda>l. trim_space (hd (splitn 2 (CHR ''#'') l))) (scan_lines content))"

definition readLines_refresh :: "path \<Rightarrow> world \<Rightarrow> (string + string list) \<times> world" where
  "readLines_refresh p w =
     (case os_read_file p w of
        (Inr (Text content), w1) \<Rightarrow>
          if list_ex (\<lambda>l. maxScanToken \<le> length l) (split_on (CHR 0x0A) content) then (Inl ''token too long'', w1)
          else (Inr (source_lines content), w1)
      | (_, w1) \<Rightarrow> (Inl ''open sources'', w1))"

definition count_hosts :: "bytes \<Rightarrow> nat" where
  "count_hosts content = length (filter (\<lambda>l. has_prefix l ''0.0.0.0 '') (scan_lines content))"

definition inspectHosts :: "(bytes \<Rightarrow> string) \<Rightarrow> path \<Rightarrow> world \<Rightarrow> (string + nat \<times> string) \<times> world" where
  "inspectHosts sha p w =
     (case os_read_file p w of
        (Inr (Text content), w1) \<Rightarrow>
          if list_ex (\<lambda>l. maxScanToken \<le> length l) (split_on (CHR 0x0A) content) then (Inl ''token too long'', w1)
          else (Inr (count_hosts content, sha content), w1)
      | (_, w1) \<Rightarrow> (Inl ''open merged list'', w1))"

section \<open>The job\<close>

definition os_rename :: "path \<Rightarrow> path \<Rightarrow> world \<Rightarrow> bool \<times> world" where
  "os_rename p q w =
     (case syscall w of
        (Some _, w1) \<Rightarrow> (False, w1)
      | (None, w1) \<Rightarrow>
          (case flookup w1 p of
             None \<Rightarrow> (False, w1)
           | Some f \<Rightarrow> (True, set_disk (AList.update q f (AList.delete p (disk w1))) w1)))"

definition below :: "path \<Rightarrow> path \<Rightarrow> bool" where
  "below dir q = prefix (dir @ ''/'') q"

text \<open>\<open>os.RemoveAll\<close>; a failure may leave some of the files.\<close>

definition os_remove_all :: "path \<Rightarrow> world \<Rightarrow> world" where
  "os_remove_all dir w =
     (case syscall w of
        (None, w1) \<Rightarrow> set_disk (filter (\<lambda>(q, _). \<not> below dir q) (disk w1)) w1
      | (Some k, w1) \<Rightarrow> set_disk (filter (\<lambda>(q, _). \<not> below dir q) (take k (disk w1)) @ drop k (disk w1)) w1)"

fun download_all :: "refresh_env \<Rightarrow> path \<Rightarrow> nat \<Rightarrow> string list \<Rightarrow> world \<Rightarrow> (string + path list) \<times> world" where
  "download_all E work i [] w = (Inr [], w)"
| "download_all E work i (source # sources) w =
     (let p = path_join work (''source-'' @ nat_dec i @ ''.txt'')
      in case download E source p w of
           (Some e, w1) \<Rightarrow> (Inl (''download '' @ source @ '': '' @ e), w1)
         | (None, w1) \<Rightarrow>
             (case download_all E work (Suc i) sources w1 of
                (Inl e, w2) \<Rightarrow> (Inl e, w2)
              | (Inr ps, w2) \<Rightarrow> (Inr (p # ps), w2)))"

definition hosts_file :: "path \<Rightarrow> path" where
  "hosts_file dir = path_join dir ''merged.hosts''"

text \<open>The checks on the compiled file and its publication.\<close>

definition publish_list :: "refresh_env \<Rightarrow> path \<Rightarrow> path \<Rightarrow> int \<Rightarrow> world \<Rightarrow> (string + nat \<times> string) \<times> world" where
  "publish_list E dir output minimum w =
     (case inspectHosts (re_sha E) output w of
        (Inl e, w1) \<Rightarrow> (Inl e, w1)
      | (Inr (cnt, digest), w1) \<Rightarrow>
          if int cnt < minimum then (Inl ''refusing blocklist with too few domains'', w1)
          else (case os_plain w1 of
                  (False, w2) \<Rightarrow> (Inl ''chmod'', w2)
                | (True, w2) \<Rightarrow>
                    (case os_rename output (hosts_file dir) w2 of
                       (False, w3) \<Rightarrow> (Inl ''rename'', w3)
                     | (True, w3) \<Rightarrow> (Inr (cnt, digest), w3))))"

text \<open>From the downloads to the rename; starting the compiler is a call of its own.\<close>

definition build_list :: "refresh_env \<Rightarrow> path \<Rightarrow> path \<Rightarrow> int \<Rightarrow> string list \<Rightarrow> world \<Rightarrow> (string + nat \<times> string) \<times> world" where
  "build_list E dir work minimum sources w =
     (case download_all E work 0 sources w of
        (Inl e, w1) \<Rightarrow> (Inl e, w1)
      | (Inr inputs, w1) \<Rightarrow>
          (let output = path_join work ''merged.hosts''
           in case os_plain w1 of
                (False, w2) \<Rightarrow> (Inl ''merge: start'', w2)
              | (True, w2) \<Rightarrow>
                  (case merge_main output (path_join dir ''allow.txt'') (path_join dir ''deny.txt'' # inputs) w2 of
                     (Some e, w3) \<Rightarrow> (Inl (''merge: '' @ e), w3)
                   | (None, w3) \<Rightarrow> publish_list E dir output minimum w3)))"

text \<open>Everything up to the status document: whether the work directory was made, then the count, the
  number of sources and the digest, or the cause of the failure.\<close>

definition refresh_steps :: "refresh_env \<Rightarrow> nat list \<Rightarrow> path \<Rightarrow> path \<Rightarrow> string \<Rightarrow> int \<Rightarrow> world \<Rightarrow>
    bool \<times> (string + nat \<times> nat \<times> string) \<times> world" where
  "refresh_steps E ord dir work configURL minimum w =
     (case os_plain w of
        (False, w1) \<Rightarrow> (False, Inl ''mkdir'', w1)
      | (True, w1) \<Rightarrow>
          (case sync_config E ord dir configURL w1 of
             (Some e, w2) \<Rightarrow> (False, Inl e, w2)
           | (None, w2) \<Rightarrow>
               (case readLines_refresh (path_join dir ''sources.txt'') w2 of
                  (Inl e, w3) \<Rightarrow> (False, Inl e, w3)
                | (Inr sources, w3) \<Rightarrow>
                    if sources = [] then (False, Inl ''no blocklist sources configured'', w3)
                    else (case os_plain w3 of
                            (False, w4) \<Rightarrow> (False, Inl ''mkdirtemp'', w4)
                          | (True, w4) \<Rightarrow>
                              (case build_list E dir work minimum sources w4 of
                                 (Inl e, w5) \<Rightarrow> (True, Inl e, w5)
                               | (Inr (cnt, digest), w5) \<Rightarrow> (True, Inr (cnt, length sources, digest), w5))))))"

definition loadBlocklistStatus :: "path \<Rightarrow> world \<Rightarrow> rsStatus \<times> world" where
  "loadBlocklistStatus p w =
     (case read_status p w of (None, w1) \<Rightarrow> (zero_status, w1) | (Some s, w1) \<Rightarrow> (s, w1))"

definition failed_status :: "rsStatus \<Rightarrow> gotime \<Rightarrow> string \<Rightarrow> rsStatus" where
  "failed_status previous attempt cause =
     previous\<lparr>rs_kind := ''blocklists'', rs_success := False, rs_last_attempt := attempt, rs_error := cause\<rparr>"

definition published_status :: "gotime \<Rightarrow> gotime \<Rightarrow> nat \<Rightarrow> nat \<Rightarrow> string \<Rightarrow> rsStatus" where
  "published_status attempt now cnt sources digest =
     zero_status\<lparr>rs_kind := ''blocklists'', rs_success := True, rs_last_attempt := attempt, rs_last_success := now,
       rs_domains := int cnt, rs_sources := int sources, rs_sha256 := digest\<rparr>"

definition refresh_run :: "refresh_env \<Rightarrow> nat list \<Rightarrow> path \<Rightarrow> path \<Rightarrow> path \<Rightarrow> string \<Rightarrow> int \<Rightarrow> gotime \<Rightarrow> gotime \<Rightarrow> world \<Rightarrow> string option \<times> world" where
  "refresh_run E ord dir work statusPath configURL minimum attempt now w =
     (case loadBlocklistStatus statusPath w of
        (previous, w1) \<Rightarrow>
          (case refresh_steps E ord dir work configURL minimum w1 of
             (made, r, w2) \<Rightarrow>
               (case (case r of
                        Inl e \<Rightarrow> (Some e, snd (statusfile_WriteJSON statusPath (enc_rsstatus (failed_status previous attempt e)) w2))
                      | Inr (cnt, sources, digest) \<Rightarrow>
                          (case statusfile_WriteJSON statusPath (enc_rsstatus (published_status attempt now cnt sources digest)) w2 of
                             (ok, w3) \<Rightarrow> (if ok then None else Some ''write status'', w3))) of
                  (err, w3) \<Rightarrow> (err, if made then os_remove_all work w3 else w3))))"

end
