(* ===== verification/BlocklistTheorems.thy ===== *)
theory BlocklistTheorems
  imports BlocklistRefresh
begin

text \<open>
  Properties of the blocklist compiler and of the refresh job: the compiled file lists exactly the
  valid domains of its inputs that are not allowed, it can be read back, and the published list is at
  every instant the previous one or one compiled from the configuration beside it.
\<close>

section \<open>Domains in a list\<close>

text \<open>The domains that a list names.\<close>

definition listed :: "bytes \<Rightarrow> string set" where
  "listed content = {d. \<exists>l\<in>set (scan_lines content). \<exists>f\<in>set (line_fields l). normalizeDomain_merge f = Some d}"

lemma add_domain_set:
  "set (add_domain f ds) = set ds \<union> {d. normalizeDomain_merge f = Some d}" "distinct ds \<Longrightarrow> distinct (add_domain f ds)"
  by (auto simp: add_domain_def split: option.splits)

lemma fold_add_domain:
  "set (fold add_domain fs ds) = set ds \<union> {d. \<exists>f\<in>set fs. normalizeDomain_merge f = Some d}"
  "distinct ds \<Longrightarrow> distinct (fold add_domain fs ds)"
  by (induction fs arbitrary: ds) (auto simp: add_domain_set)

lemma fold_lines:
  "set (fold (\<lambda>l. fold add_domain (line_fields l)) ls ds) =
     set ds \<union> {d. \<exists>l\<in>set ls. \<exists>f\<in>set (line_fields l). normalizeDomain_merge f = Some d}"
  "distinct ds \<Longrightarrow> distinct (fold (\<lambda>l. fold add_domain (line_fields l)) ls ds)"
  by (induction ls arbitrary: ds) (auto simp: fold_add_domain)

lemma readDomains_Inr:
  "readDomains content ds = Inr rs \<Longrightarrow> set rs = set ds \<union> listed content \<and> (distinct ds \<longrightarrow> distinct rs)"
  by (auto simp: readDomains_def listed_def fold_lines split: if_splits)

section \<open>Normal domains\<close>

definition normal_domain :: "string \<Rightarrow> bool" where
  "normal_domain d \<longleftrightarrow> normalizeDomain_merge d = Some d"

lemma label_char_plain: "label_char c \<Longrightarrow> \<not> is_space c \<and> c \<noteq> CHR ''#'' \<and> c \<noteq> CHR 0x0A \<and> c \<noteq> CHR 0x0D"
  by (auto simp: label_char_def is_space_def is_digit_def)

lemma split_on_chars: "c \<in> set s \<Longrightarrow> c = sep \<or> (\<exists>w\<in>set (split_on sep s). c \<in> set w)"
proof (induction s)
  case (Cons x xs)
  obtain y ys where y: "split_by (\<lambda>x. x = sep) xs = y # ys" using split_by_ne by (metis neq_Nil_conv)
  show ?case using Cons y by (auto simp: split_on_def)
qed simp

lemma suffix_sep_split: "suffix [sep] s \<Longrightarrow> [] \<in> set (split_on sep s)"
proof -
  assume "suffix [sep] s"
  then obtain r where r: "s = r @ [sep]" by (auto simp: suffix_def)
  have "split_by (\<lambda>x. x = sep) (r @ [sep]) = split_by (\<lambda>x. x = sep) r @ [[]]"
  proof (induction r)
    case (Cons x xs)
    then show ?case using split_by_ne [of "\<lambda>x. x = sep" xs] by (cases "split_by (\<lambda>x. x = sep) xs") simp_all
  qed simp
  then show ?thesis using r by (simp add: split_on_def)
qed

lemma if3_Some: "(if P then None else if Q then None else if R then Some x else None) = Some d \<longleftrightarrow> \<not> P \<and> \<not> Q \<and> R \<and> x = d"
  by simp

lemma normalizeDomain_merge_iff:
  "normalizeDomain_merge v = Some d \<longleftrightarrow> to_lower (trim_suffix (trim_space v) ''.'') = d \<and> d \<noteq> [] \<and> d \<noteq> ''localhost'' \<and>
     length d \<le> 253 \<and> \<not> parse_ip d \<and> 2 \<le> length (split_on (CHR ''.'') d) \<and> list_all label_ok (split_on (CHR ''.'') d)"
  unfolding normalizeDomain_merge_def Let_def not_less [symmetric] if3_Some by blast

lemma domain_chars:
  assumes "list_all label_ok (split_on (CHR ''.'') d)" "c \<in> set d"
  shows "\<not> is_space c \<and> c \<noteq> CHR ''#'' \<and> c \<noteq> CHR 0x0A \<and> c \<noteq> CHR 0x0D"
proof (cases "c = CHR ''.''")
  case True
  then show ?thesis by (simp add: is_space_def)
next
  case False
  then obtain l where l: "l \<in> set (split_on (CHR ''.'') d)" "c \<in> set l" using split_on_chars [OF assms(2)] by metis
  then have "label_ok l" using assms(1) by (simp add: list_all_iff)
  then have "label_char c" using l(2) by (simp add: label_ok_def list_all_iff)
  then show ?thesis by (rule label_char_plain)
qed

lemma normalizeDomain_merge_normal: "normalizeDomain_merge v = Some d \<Longrightarrow> normal_domain d"
proof -
  assume "normalizeDomain_merge v = Some d"
  note n = this [unfolded normalizeDomain_merge_iff]
  have labels: "list_all label_ok (split_on (CHR ''.'') d)" using n by blast
  have low: "to_lower d = d" using n to_lower_idem by blast
  have "trim_space d = d" using domain_chars [OF labels] n unfolding trim_space_def
    by (intro trim_by_id) (metis hd_in_set last_in_set)
  moreover have "\<not> suffix ''.'' d"
  proof
    assume "suffix ''.'' d"
    then have "[] \<in> set (split_on (CHR ''.'') d)" by (rule suffix_sep_split)
    then show False using labels by (auto simp: list_all_iff label_ok_def)
  qed
  ultimately have "to_lower (trim_suffix (trim_space d) ''.'') = d" using low by (simp add: trim_suffix_not)
  then show ?thesis unfolding normal_domain_def normalizeDomain_merge_iff using n by blast
qed

lemma normal_domainD:
  assumes "normal_domain d"
  shows "d \<noteq> []" "length d \<le> 253" "c \<in> set d \<Longrightarrow> \<not> is_space c \<and> c \<noteq> CHR ''#'' \<and> c \<noteq> CHR 0x0A \<and> c \<noteq> CHR 0x0D"
proof -
  note n = assms [unfolded normal_domain_def normalizeDomain_merge_iff]
  show "d \<noteq> []" "length d \<le> 253" using n by blast+
  have labels: "list_all label_ok (split_on (CHR ''.'') d)" using n by blast
  show "c \<in> set d \<Longrightarrow> \<not> is_space c \<and> c \<noteq> CHR ''#'' \<and> c \<noteq> CHR 0x0A \<and> c \<noteq> CHR 0x0D" using domain_chars [OF labels] by blast
qed

lemma listed_normal: "d \<in> listed content \<Longrightarrow> normal_domain d"
  using normalizeDomain_merge_normal by (auto simp: listed_def)

section \<open>Reading the compiled file back\<close>

lemma split_on_lines: "\<forall>l\<in>set ls. c \<notin> set l \<Longrightarrow> split_on c (concat (map (\<lambda>l. l @ [c]) ls)) = ls @ [[]]"
proof (induction ls)
  case (Cons l ls)
  then have "split_by (\<lambda>x. x = c) (l @ c # concat (map (\<lambda>l. l @ [c]) ls)) = l # split_by (\<lambda>x. x = c) (concat (map (\<lambda>l. l @ [c]) ls))"
    by (intro split_by_append_sep) auto
  then show ?case using Cons by (simp add: split_on_def)
qed (simp add: split_on_def)

definition hosts_header :: string where
  "hosts_header = ''# Generated by rilldns blocklist-merge; do not edit.''"

definition hosts_line :: "string \<Rightarrow> string" where
  "hosts_line d = ''0.0.0.0 '' @ d"

lemma hosts_text_lines: "hosts_text ds = concat (map (\<lambda>l. l @ [CHR 0x0A]) (hosts_header # map hosts_line ds))"
  by (simp add: hosts_text_def hosts_header_def hosts_line_def comp_def)

lemma strip_cr_id: "CHR 0x0D \<notin> set l \<Longrightarrow> strip_cr l = l"
  unfolding strip_cr_def by (intro trim_suffix_not) (auto simp: suffix_def)

lemma hosts_line_chars: "normal_domain d \<Longrightarrow> CHR 0x0A \<notin> set (hosts_line d) \<and> CHR 0x0D \<notin> set (hosts_line d) \<and> CHR ''#'' \<notin> set (hosts_line d)"
  using normal_domainD(3) [of d "CHR 0x0A"] normal_domainD(3) [of d "CHR 0x0D"] normal_domainD(3) [of d "CHR ''#''"]
  by (auto simp: hosts_line_def)

lemma hosts_split:
  "\<forall>d\<in>set ds. normal_domain d \<Longrightarrow> split_on (CHR 0x0A) (hosts_text ds) = hosts_header # map hosts_line ds @ [[]]"
  unfolding hosts_text_lines by (subst split_on_lines) (use hosts_line_chars in \<open>auto simp: hosts_header_def\<close>)

lemma hosts_scan:
  assumes "\<forall>d\<in>set ds. normal_domain d"
  shows "scan_lines (hosts_text ds) = hosts_header # map hosts_line ds"
proof -
  have "map strip_cr (map hosts_line ds) = map hosts_line ds" using hosts_line_chars assms by (intro map_idI) (auto intro: strip_cr_id)
  moreover have "strip_cr hosts_header = hosts_header" by (intro strip_cr_id) (simp add: hosts_header_def)
  ultimately show ?thesis using hosts_split [OF assms] by (simp add: scan_lines_def Let_def)
qed

lemma line_fields_header: "line_fields hosts_header = []"
  by code_simp

lemma zero_ip: "parse_ip (trim_brackets ''0.0.0.0'')"
  by code_simp

lemma line_fields_hosts: "normal_domain d \<Longrightarrow> line_fields (hosts_line d) = [d]"
proof -
  assume n: "normal_domain d"
  have sp: "\<not> is_space c" if "c \<in> set d" for c using normal_domainD(3) [OF n that] by blast
  have ne: "d \<noteq> []" by (rule normal_domainD(1) [OF n])
  have one: "hd (splitn 2 (CHR ''#'') (hosts_line d)) = hosts_line d"
    using hosts_line_chars [OF n] by (simp add: numeral_2_eq_2)
  have "last (hosts_line d) = last d" "hd (hosts_line d) = CHR ''0''" using ne by (simp_all add: hosts_line_def)
  then have trimmed: "trim_space (hosts_line d) = hosts_line d" unfolding trim_space_def
    using sp [of "last d"] ne by (intro trim_by_id) (simp add: is_space_def)
  have zero: "\<forall>x\<in>set ''0.0.0.0''. \<not> is_space x" by (simp add: is_space_def)
  have "split_by is_space (''0.0.0.0'' @ CHR '' '' # d) = ''0.0.0.0'' # split_by is_space d"
    by (rule split_by_append_sep [OF zero]) (simp add: is_space_def)
  moreover have "split_by is_space d = [d]" using sp by (intro split_by_no) simp
  ultimately have "go_fields (hosts_line d) = [''0.0.0.0'', d]" using ne by (simp add: go_fields_def hosts_line_def)
  moreover have "hosts_line d \<noteq> []" by (simp add: hosts_line_def)
  ultimately show ?thesis unfolding line_fields_def one trimmed Let_def using zero_ip by simp
qed

lemma listed_hosts:
  assumes n: "\<forall>d\<in>set ds. normal_domain d" shows "listed (hosts_text ds) = set ds"
proof -
  have "listed (hosts_text ds) = {x. \<exists>d\<in>set ds. normalizeDomain_merge d = Some x}"
    unfolding listed_def hosts_scan [OF n] using line_fields_header line_fields_hosts n by auto
  then show ?thesis using n by (auto simp: normal_domain_def)
qed

lemma count_hosts_text: "\<forall>d\<in>set ds. normal_domain d \<Longrightarrow> count_hosts (hosts_text ds) = length ds"
proof -
  assume n: "\<forall>d\<in>set ds. normal_domain d"
  have "\<not> has_prefix hosts_header ''0.0.0.0 ''" by (simp add: hosts_header_def has_prefix_def)
  moreover have "filter (\<lambda>l. has_prefix l ''0.0.0.0 '') (map hosts_line ds) = map hosts_line ds"
    by (intro filter_True) (auto simp: hosts_line_def has_prefix_def)
  ultimately show ?thesis unfolding count_hosts_def hosts_scan [OF n] by simp
qed

lemma hosts_lines_short: "\<forall>d\<in>set ds. normal_domain d \<Longrightarrow> 300 \<le> m \<Longrightarrow> \<not> list_ex (\<lambda>l. m \<le> length l) (split_on (CHR 0x0A) (hosts_text ds))"
  using normal_domainD(2) by (auto simp: hosts_split list_ex_iff hosts_header_def hosts_line_def) fastforce

text \<open>Compiling the compiled file again gives the same domains.\<close>

lemma readDomains_hosts:
  assumes "\<forall>d\<in>set ds. normal_domain d" shows "\<exists>rs. readDomains (hosts_text ds) [] = Inr rs \<and> distinct rs \<and> set rs = set ds"
proof -
  have "\<not> list_ex (\<lambda>l. maxLineBytes \<le> length l) (split_on (CHR 0x0A) (hosts_text ds))"
    using hosts_lines_short [OF assms] by (simp add: maxLineBytes_def)
  then obtain rs where "readDomains (hosts_text ds) [] = Inr rs" by (simp add: readDomains_def)
  then show ?thesis using readDomains_Inr [of "hosts_text ds" "[]" rs] listed_hosts [OF assms] by auto
qed

section \<open>The compiler\<close>

interpretation mw: strict_writer merge_put Text
proof -
  have eq: "merge_put = (\<lambda>p v. atomic_write ((\<lambda>p. path_base p @ ''.tmp-'') p) [SBuffer, SWrite, SSync, SClose, SRename] p (Text v))"
    by (simp add: fun_eq_iff merge_put_def)
  have "rename_steps [SBuffer, SWrite, SSync, SClose, SRename] [SBuffer, SWrite, SSync, SClose] []" by (simp add: rename_steps_def)
  from atomic_write_strict [where pat = "\<lambda>p. path_base p @ ''.tmp-''" and enc = Text, OF this]
  show "strict_writer merge_put Text" by (simp only: eq)
qed

lemma readFiles_loop_frame: "readFiles_loop ps ds w = (r, w') \<Longrightarrow> disk w' = disk w \<and> snaps w' = snaps w"
proof (induction ps arbitrary: ds w)
  case (Cons p ps)
  obtain x w1 where x: "os_read_file p w = (x, w1)" by fastforce
  show ?case using Cons os_read_file_frame [OF x] x by (fastforce split: sum.splits fdata.splits)
qed simp

lemma readFiles_loop_Inr:
  "readFiles_loop ps ds w = (Inr rs, w') \<Longrightarrow>
     \<exists>cs. list_all2 (\<lambda>p c. flookup w p = Some (Text c)) ps cs \<and> set rs = set ds \<union> \<Union> (listed ` set cs) \<and> (distinct ds \<longrightarrow> distinct rs)"
proof (induction ps arbitrary: ds w)
  case (Cons p ps)
  obtain x w1 where x: "os_read_file p w = (x, w1)" by fastforce
  then obtain c ds1 where c: "x = Inr (Text c)" "readDomains c ds = Inr ds1" and r: "readFiles_loop ps ds1 w1 = (Inr rs, w')"
    using Cons.prems by (auto split: sum.splits fdata.splits)
  have "flookup w p = Some (Text c)" using os_read_file_Inr x c(1) by blast
  moreover obtain cs where "list_all2 (\<lambda>p c. flookup w1 p = Some (Text c)) ps cs"
    "set rs = set ds1 \<union> \<Union> (listed ` set cs)" "distinct ds1 \<longrightarrow> distinct rs" using Cons.IH [OF r] by blast
  ultimately show ?case using os_read_file_frame [OF x] readDomains_Inr [OF c(2)] by (intro exI [of _ "c # cs"]) auto
qed auto

lemma merge_main_cases:
  assumes run: "merge_main output allow inputs w = (err, w')"
  obtains (stopped) e where "err = Some e" "disk w' = disk w" "snaps w' = snaps w"
  | (written) cs as ds w1 ok where "list_all2 (\<lambda>p c. flookup w p = Some (Text c)) inputs cs"
      "allow \<noteq> [] \<longrightarrow> (\<exists>a. as = [a] \<and> flookup w allow = Some (Text a))" "allow = [] \<longrightarrow> as = []"
      "ds \<noteq> []" "sorted ds" "distinct ds" "set ds = \<Union> (listed ` set cs) - \<Union> (listed ` set as)"
      "merge_put output (hosts_text ds) w1 = (ok, w')" "disk w1 = disk w" "snaps w1 = snaps w" "(err = None) = ok"
proof -
  have out: thesis if "writeAtomic_merge output ds0 w1 = (err, w')" "disk w1 = disk w" "snaps w1 = snaps w" "distinct ds0"
    "set ds0 = \<Union> (listed ` set cs) - \<Union> (listed ` set as)" "list_all2 (\<lambda>p c. flookup w p = Some (Text c)) inputs cs"
    "allow \<noteq> [] \<longrightarrow> (\<exists>a. as = [a] \<and> flookup w allow = Some (Text a))" "allow = [] \<longrightarrow> as = []" for ds0 w1 cs as
  proof (cases "ds0 = []")
    case True
    then show thesis using that(1-3) by (intro stopped [of "''refusing to publish an empty blocklist''"]) (auto simp: writeAtomic_merge_def)
  next
    case False
    obtain ok w2 where m: "merge_put output (hosts_text (sort ds0)) w1 = (ok, w2)" by fastforce
    then have e: "w2 = w'" "(err = None) = ok" using that(1) False by (auto simp: writeAtomic_merge_def split: bool.splits)
    have s: "sort ds0 \<noteq> []" using False by (metis set_empty set_sort)
    show thesis using written [of cs as "sort ds0" w1 ok] that s m e by (simp only: sorted_sort distinct_sort set_sort) simp
  qed
  obtain x w1 where x: "readFiles inputs w = (x, w1)" by fastforce
  note f1 = readFiles_loop_frame [OF x [unfolded readFiles_def]]
  show thesis
  proof (cases "output = [] \<or> inputs = [] \<or> (\<exists>e. x = Inl e)")
    case True
    then have "\<exists>e. err = Some e \<and> (w' = w \<or> w' = w1)" using run x by (auto simp: merge_main_def split: if_splits)
    then show thesis using stopped f1 by blast
  next
    case False
    then obtain bl where bl: "x = Inr bl" by (cases x) auto
    obtain cs where cs: "list_all2 (\<lambda>p c. flookup w p = Some (Text c)) inputs cs" "set bl = \<Union> (listed ` set cs)" "distinct bl"
      using readFiles_loop_Inr [OF x [unfolded readFiles_def bl]] by auto
    show thesis
    proof (cases "allow = []")
      case True
      then have "writeAtomic_merge output bl w1 = (err, w')" using run x bl False by (simp add: merge_main_def)
      from out [OF this, of cs "[]"] show thesis using cs f1 True by simp
    next
      case al: False
      obtain y w2 where y: "readFiles [allow] w1 = (y, w2)" by fastforce
      note f2 = readFiles_loop_frame [OF y [unfolded readFiles_def]]
      show thesis
      proof (cases y)
        case (Inl e)
        then show thesis using run x bl False y al f1 f2 by (intro stopped [of e]) (auto simp: merge_main_def)
      next
        case (Inr ad)
        obtain a where a: "flookup w1 allow = Some (Text a)" "set ad = listed a"
          using readFiles_loop_Inr [OF y [unfolded readFiles_def Inr]] by (auto simp: list_all2_Cons1)
        have "writeAtomic_merge output (filter (\<lambda>d. d \<notin> set ad) bl) w2 = (err, w')" using run x bl False y al Inr by (simp add: merge_main_def)
        moreover have "set (filter (\<lambda>d. d \<notin> set ad) bl) = \<Union> (listed ` set cs) - \<Union> (listed ` set [a])" using cs a by auto
        ultimately show thesis using out [of _ w2 cs "[a]"] cs a f1 f2 al by simp
      qed
    qed
  qed
qed

section \<open>What the job touches\<close>

text \<open>At every instant only files of \<open>S\<close> and leftovers of temporary files differ.\<close>

definition only :: "path set \<Rightarrow> world \<Rightarrow> world \<Rightarrow> bool" where
  "only S w w' \<longleftrightarrow> within (\<lambda>d. \<forall>p. \<not> ends_digit p \<longrightarrow> p \<notin> S \<longrightarrow> map_of d p = flookup w p) w w'"

lemma only_refl: "disk w' = disk w \<Longrightarrow> snaps w' = snaps w \<Longrightarrow> only S w w'"
  unfolding only_def by (intro within_refl) auto

lemma only_mono: "only S w w' \<Longrightarrow> S \<subseteq> T \<Longrightarrow> only T w w'"
  unfolding only_def within_def by blast

lemma only_final: "only S w w' \<Longrightarrow> \<not> ends_digit p \<Longrightarrow> p \<notin> S \<Longrightarrow> flookup w' p = flookup w p"
  by (simp add: only_def within_def)

lemma only_trans: "only S w w1 \<Longrightarrow> only S w1 w2 \<Longrightarrow> only S w w2"
proof -
  assume a: "only S w w1" and b: "only S w1 w2"
  have "within (\<lambda>d. \<forall>p. \<not> ends_digit p \<longrightarrow> p \<notin> S \<longrightarrow> map_of d p = flookup w p) w1 w2"
    using b only_final [OF a] unfolding only_def within_def by auto
  then show ?thesis using a unfolding only_def by (rule within_trans [rotated])
qed

lemma only_frame: "only S w1 w' \<Longrightarrow> disk w1 = disk w \<Longrightarrow> snaps w1 = snaps w \<Longrightarrow> only S w w'"
  by (simp add: only_def within_def)

lemma only_ends: "only S w w' \<Longrightarrow> (\<And>p. p \<in> S \<Longrightarrow> ends_digit p \<or> p \<in> T) \<Longrightarrow> only T w w'"
  unfolding only_def within_def by blast

context atomic_writer
begin

lemma write_only: "put_file p v w = (ok, w') \<Longrightarrow> only {p} w w'"
  unfolding only_def by (rule write_within) (auto simp: near_def)

lemma write_files_only: "write_files put_file pvs w = (ok, w') \<Longrightarrow> only (fst ` set pvs) w w'"
proof (induction pvs arbitrary: w)
  case Nil
  then show ?case by (simp add: only_refl)
next
  case (Cons pv rest)
  obtain p v where pv: "pv = (p, v)" by fastforce
  obtain ok1 w1 where w1: "put_file p v w = (ok1, w1)" by fastforce
  have first: "only (fst ` set (pv # rest)) w w1" using only_mono [OF write_only [OF w1]] pv by simp
  show ?case
  proof (cases ok1)
    case True
    then have "write_files put_file rest w1 = (ok, w')" using Cons.prems pv w1 by simp
    then have "only (fst ` set (pv # rest)) w1 w'" using Cons.IH only_mono by (metis set_subset_Cons image_mono)
    then show ?thesis using only_trans [OF first] by blast
  next
    case False
    then show ?thesis using Cons.prems pv w1 first by simp
  qed
qed

end

lemma only_set_disk:
  assumes "\<And>q. \<not> ends_digit q \<Longrightarrow> q \<notin> S \<Longrightarrow> map_of d q = flookup w q" shows "only S w (set_disk d w)"
  using assms by (auto simp: only_def within_def)

lemma only_after_syscall: "syscall w = (r, w1) \<Longrightarrow> only S w1 w' \<Longrightarrow> only S w w'"
  using syscall_frame only_frame by metis

lemma write_in_place_only:
  assumes "write_in_place p f w = (ok, w')" shows "only {p} w w'"
proof -
  obtain ok1 w1 where w1: "os_plain w = (ok1, w1)" by fastforce
  note f1 = os_plain_frame [OF w1]
  show ?thesis
  proof (cases ok1)
    case False
    then show ?thesis using assms w1 f1 by (auto simp: write_in_place_def intro: only_refl)
  next
    case True
    let ?w2 = "set_disk (AList.update p (Text []) (disk w1)) w1"
    obtain r w3 where w3: "syscall ?w2 = (r, w3)" by fastforce
    have "\<exists>g. w' = set_disk (AList.update p g (disk w3)) w3"
      using assms w1 True w3 by (auto simp: write_in_place_def Let_def split: option.splits)
    then obtain g where g: "w' = set_disk (AList.update p g (disk w3)) w3" by blast
    have "only {p} w3 w'" unfolding g by (rule only_set_disk) (simp add: update_conv')
    then have "only {p} ?w2 w'" by (rule only_after_syscall [OF w3])
    moreover have "only {p} w1 ?w2" by (intro only_set_disk) (simp add: update_conv')
    ultimately show ?thesis using f1 only_trans only_frame by metis
  qed
qed

lemma write_in_place_ok: "write_in_place p f w = (True, w') \<Longrightarrow> flookup w' p = Some f"
  by (auto simp: write_in_place_def Let_def update_conv' split: prod.splits bool.splits option.splits)

lemma remove_quietly_only: "only {p} w (remove_quietly p w)"
proof -
  obtain r w1 where r: "os_remove p w = (r, w1)" by fastforce
  have "flookup w1 q = flookup w q" if "q \<noteq> p" for q using os_remove_disk [OF r] that by auto
  then show ?thesis using os_remove_snaps [OF r] r unfolding only_def within_def remove_quietly_def by fastforce
qed

lemma os_rename_cases:
  assumes "os_rename p q w = (ok, w')"
  obtains (failed) "\<not> ok" "disk w' = disk w" "snaps w' = snaps w"
  | (moved) f where ok "flookup w p = Some f" "disk w' = AList.update q f (AList.delete p (disk w))" "snaps w' = snaps w @ [disk w']"
proof -
  obtain r w1 where r: "syscall w = (r, w1)" by fastforce
  note f = syscall_frame [OF r]
  show thesis
  proof (cases "r = None \<and> flookup w1 p \<noteq> None")
    case True
    then obtain g where "flookup w1 p = Some g" by blast
    then show thesis using assms r f True by (intro moved [of g]) (auto simp: os_rename_def)
  next
    case False
    then show thesis using assms r f by (intro failed) (auto simp: os_rename_def split: option.splits)
  qed
qed

lemma map_of_filter_key: "map_of (filter (\<lambda>(q, _). P q) d) p = (if P p then map_of d p else None)"
  by (induction d) auto

lemma os_remove_all_only: "only {p. below dir p} w (os_remove_all dir w)"
proof -
  obtain r w1 where r: "syscall w = (r, w1)" by fastforce
  have 1: "map_of (filter (\<lambda>(q, _). \<not> below dir q) d) q = map_of d q" if "\<not> below dir q" for d :: disk_t and q
    using that map_of_filter_key [of "\<lambda>q. \<not> below dir q" d q] by simp
  have 2: "map_of (filter (\<lambda>(q, _). \<not> below dir q) (take k d) @ drop k d) q = map_of d q" if "\<not> below dir q" for d :: disk_t and q k
    using 1 [OF that, of "take k d"] by (metis append_take_drop_id map_of_append map_add_def)
  have "only {p. below dir p} w1 (os_remove_all dir w)"
  proof (cases r)
    case None
    have "only {p. below dir p} w1 (set_disk (filter (\<lambda>(q, _). \<not> below dir q) (disk w1)) w1)" by (rule only_set_disk) (use 1 in simp)
    then show ?thesis using r None by (simp add: os_remove_all_def)
  next
    case (Some k)
    have "only {p. below dir p} w1 (set_disk (filter (\<lambda>(q, _). \<not> below dir q) (take k (disk w1)) @ drop k (disk w1)) w1)"
      by (rule only_set_disk) (use 2 in simp)
    then show ?thesis using r Some by (simp add: os_remove_all_def)
  qed
  then show ?thesis by (rule only_after_syscall [OF r])
qed

section \<open>Downloads\<close>

interpretation lw: strict_writer writeLines "\<lambda>values. Text (concat (map (\<lambda>v. v @ [CHR 0x0A]) values))"
proof -
  let ?enc = "\<lambda>values. Text (concat (map (\<lambda>v. v @ [CHR 0x0A]) values))"
  have eq: "writeLines = (\<lambda>p v. atomic_write ((\<lambda>_. ''.config-'') p) [SWrite, SChmod, SClose, SRename] p (?enc v))"
    by (simp add: fun_eq_iff writeLines_def)
  have "rename_steps [SWrite, SChmod, SClose, SRename] [SWrite, SChmod, SClose] []" by (simp add: rename_steps_def)
  from atomic_write_strict [where pat = "\<lambda>_. ''.config-''" and enc = ?enc, OF this]
  show "strict_writer writeLines ?enc" by (simp only: eq)
qed

text \<open>\<open>body\<close> is what the source's URL serves, completely and within the limit.\<close>

definition served :: "refresh_env \<Rightarrow> string \<Rightarrow> bytes \<Rightarrow> bool" where
  "served E source body \<longleftrightarrow> (\<exists>u status. parseRemoteURL E source = Inr u \<and> re_http E (url_string u) = HttpAnswer status body False \<and>
     200 \<le> status \<and> status < 300 \<and> length body \<le> maxDownload)"

lemma downloadWithParser_only: "downloadWithParser E parser raw p w = (r, w') \<Longrightarrow> only {p} w w'"
  by (auto simp: downloadWithParser_def split: sum.splits http_answer.splits if_splits prod.splits bool.splits
      intro: only_refl dest: write_in_place_only)

lemma download_ok:
  assumes "download E source p w = (None, w')" shows "\<exists>body. served E source body \<and> flookup w' p = Some (Text body)"
proof -
  obtain u where u: "parseRemoteURL E source = Inr u"
    using assms by (auto simp: download_def downloadWithParser_def split: sum.splits)
  obtain status body broken where h: "re_http E (url_string u) = HttpAnswer status body broken"
    using assms u by (auto simp: download_def downloadWithParser_def split: http_answer.splits)
  have s: "200 \<le> status \<and> status < 300" using assms u h by (auto simp: download_def downloadWithParser_def split: if_splits)
  then have wr: "write_in_place p (Text (take (maxDownload + 1) body)) w = (True, w')" "\<not> broken" "length body \<le> maxDownload"
    using assms u h by (auto simp: download_def downloadWithParser_def split: prod.splits bool.splits if_splits)
  have "flookup w' p = Some (Text body)" using write_in_place_ok [OF wr(1)] wr(3) by simp
  then show ?thesis using u h s wr by (auto simp: served_def)
qed

definition src_path :: "path \<Rightarrow> nat \<Rightarrow> path" where
  "src_path work i = path_join work (''source-'' @ nat_dec i @ ''.txt'')"

lemma src_path_facts: "\<not> ends_digit (src_path work i)" "below work (src_path work i)" "src_path work i = src_path work j \<Longrightarrow> i = j"
  using nat_dec_inj by (auto simp: src_path_def path_join_def ends_digit_def is_digit_def below_def)

lemma download_all_only: "download_all E work i sources w = (r, w') \<Longrightarrow> only {src_path work j |j. i \<le> j} w w'"
proof (induction sources arbitrary: i w r w')
  case Nil
  then show ?case by (simp add: only_refl)
next
  case (Cons s ss)
  obtain e w1 where d: "download E s (src_path work i) w = (e, w1)" by fastforce
  have "only {src_path work i} w w1" using downloadWithParser_only d by (simp add: download_def)
  then have o: "only {src_path work j |j. i \<le> j} w w1" by (rule only_mono) auto
  show ?case
  proof (cases e)
    case None
    obtain r2 w2 where r2: "download_all E work (Suc i) ss w1 = (r2, w2)" by fastforce
    have "only {src_path work j |j. Suc i \<le> j} w1 w2" by (rule Cons.IH [OF r2])
    then have "only {src_path work j |j. i \<le> j} w1 w2" by (rule only_mono) (auto intro: Suc_leD)
    moreover have "w' = w2" using Cons.prems d None r2 by (auto simp: src_path_def Let_def split: sum.splits)
    ultimately show ?thesis using only_trans [OF o] by blast
  next
    case (Some e')
    then show ?thesis using Cons.prems d o by (simp add: src_path_def Let_def)
  qed
qed

lemma download_all_below: "download_all E work i sources w = (r, w') \<Longrightarrow> only {p. below work p} w w'"
  by (rule only_mono [OF download_all_only]) (auto simp: src_path_facts)

lemma download_all_Inr:
  "download_all E work i sources w = (Inr ps, w') \<Longrightarrow>
     \<exists>bodies. list_all2 (served E) sources bodies \<and> list_all2 (\<lambda>p c. flookup w' p = Some (Text c)) ps bodies"
proof (induction sources arbitrary: i w ps w')
  case Nil
  then show ?case by simp
next
  case (Cons s ss)
  obtain e w1 where d: "download E s (src_path work i) w = (e, w1)" by fastforce
  then have e: "e = None" using Cons.prems by (cases e) (simp_all add: src_path_def Let_def)
  obtain r2 w2 where r2: "download_all E work (Suc i) ss w1 = (r2, w2)" by fastforce
  then obtain ps2 where p: "r2 = Inr ps2" "ps = src_path work i # ps2" "w2 = w'"
    using Cons.prems d e by (cases r2) (auto simp: src_path_def Let_def)
  obtain bodies where b: "list_all2 (served E) ss bodies" "list_all2 (\<lambda>p c. flookup w' p = Some (Text c)) ps2 bodies"
    using Cons.IH [of "Suc i" w1 ps2 w'] r2 p by blast
  obtain body where body: "served E s body" "flookup w1 (src_path work i) = Some (Text body)" using download_ok d e by blast
  have "src_path work i \<notin> {src_path work j |j. Suc i \<le> j}" using src_path_facts(3) by fastforce
  from only_final [OF download_all_only [OF r2] src_path_facts(1) this] have "flookup w' (src_path work i) = Some (Text body)"
    using body(2) p(3) by simp
  then show ?case using b body(1) p(2) by (intro exI [of _ "body # bodies"]) simp
qed

section \<open>Building the list\<close>

text \<open>The domains \<open>ds\<close> are what the configuration on the disk \<open>d\<close> asks for, given what the sources serve.\<close>

definition compiled_from :: "refresh_env \<Rightarrow> path \<Rightarrow> int \<Rightarrow> disk_t \<Rightarrow> string list \<Rightarrow> bool" where
  "compiled_from E dir minimum d ds \<longleftrightarrow> sorted ds \<and> distinct ds \<and> minimum \<le> int (length ds) \<and>
     (\<exists>deny allow sources bodies. map_of d (path_join dir ''deny.txt'') = Some (Text deny) \<and>
        map_of d (path_join dir ''allow.txt'') = Some (Text allow) \<and> map_of d (path_join dir ''sources.txt'') = Some (Text sources) \<and>
        list_all2 (served E) (source_lines sources) bodies \<and>
        set ds = (listed deny \<union> \<Union> (listed ` set bodies)) - listed allow)"

definition work_dir :: "path \<Rightarrow> path \<Rightarrow> bool" where
  "work_dir dir work \<longleftrightarrow> (\<exists>n. work = path_join dir (''.refresh-'' @ n))"

lemma dir_files:
  assumes "work_dir dir work" "n \<in> {''deny.txt'', ''allow.txt'', ''sources.txt'', ''merged.hosts''}"
  shows "\<not> below work (path_join dir n)" "\<not> ends_digit (path_join dir n)"
  using assms by (auto simp: work_dir_def below_def path_join_def ends_digit_def is_digit_def)

definition while_building :: "path \<Rightarrow> path \<Rightarrow> string list \<Rightarrow> world \<Rightarrow> disk_t \<Rightarrow> bool" where
  "while_building dir work ds w d \<longleftrightarrow>
     (\<forall>p. \<not> ends_digit p \<longrightarrow> \<not> below work p \<longrightarrow> p \<noteq> hosts_file dir \<longrightarrow> map_of d p = flookup w p) \<and>
     (map_of d (hosts_file dir) = flookup w (hosts_file dir) \<or> map_of d (hosts_file dir) = Some (Text (hosts_text ds)))"

lemma inspectHosts_frame: "inspectHosts sha p w = (r, w') \<Longrightarrow> disk w' = disk w \<and> snaps w' = snaps w"
  by (auto simp: inspectHosts_def split: prod.splits sum.splits fdata.splits if_splits dest: os_read_file_frame)

lemma inspectHosts_Inr:
  assumes "inspectHosts sha p w = (Inr r, w')" "flookup w p = Some (Text t)" shows "r = (count_hosts t, sha t)"
proof -
  obtain x w1 where x: "os_read_file p w = (x, w1)" by fastforce
  then have "x = Inr (Text t)" using assms os_read_file_Inr [of p w] by (auto simp: inspectHosts_def split: sum.splits)
  then show ?thesis using assms(1) x by (auto simp: inspectHosts_def split: if_splits)
qed

lemma publish_list_cases:
  assumes run: "publish_list E dir out minimum w = (r, w')" and t: "flookup w out = Some (Text (hosts_text ds))"
    and nd: "\<forall>d\<in>set ds. normal_domain d"
  obtains (stopped) e where "r = Inl e" "disk w' = disk w" "snaps w' = snaps w"
  | (published) "r = Inr (length ds, re_sha E (hosts_text ds))" "minimum \<le> int (length ds)"
      "disk w' = AList.update (hosts_file dir) (Text (hosts_text ds)) (AList.delete out (disk w))" "snaps w' = snaps w @ [disk w']"
proof -
  obtain y w1 where y: "inspectHosts (re_sha E) out w = (y, w1)" by fastforce
  note f1 = inspectHosts_frame [OF y]
  obtain ok2 w2 where w2: "os_plain w1 = (ok2, w2)" by fastforce
  note f2 = os_plain_frame [OF w2]
  obtain ok3 w3 where w3: "os_rename out (hosts_file dir) w2 = (ok3, w3)" by fastforce
  show thesis
  proof (cases y)
    case (Inl e)
    then show thesis using run y f1 by (intro stopped [of e]) (auto simp: publish_list_def)
  next
    case (Inr v)
    then have v: "v = (length ds, re_sha E (hosts_text ds))" using inspectHosts_Inr [of _ _ _ v, OF _ t] y count_hosts_text [OF nd] by auto
    show thesis
    proof (cases "int (length ds) < minimum \<or> \<not> ok2")
      case True
      then have "\<exists>e. r = Inl e \<and> (w' = w1 \<or> w' = w2)" using run y Inr v w2 by (auto simp: publish_list_def split: if_splits)
      then show thesis using stopped f1 f2 by metis
    next
      case ok: False
      from w3 show thesis
      proof (cases rule: os_rename_cases)
        case failed
        then show thesis using run y Inr v w2 ok w3 f1 f2 by (intro stopped [of "''rename''"]) (auto simp: publish_list_def)
      next
        case (moved f)
        then have "f = Text (hosts_text ds)" "disk w2 = disk w" "snaps w2 = snaps w" using t f1 f2 by auto
        then show thesis using run y Inr v w2 ok w3 moved by (intro published) (auto simp: publish_list_def)
      qed
    qed
  qed
qed

lemma merge_stage_only:
  assumes "merge_main out allow inputs w = (err, w')" shows "only {out} w w'"
  using assms
proof (cases rule: merge_main_cases)
  case (written cs as ds w0 ok)
  show ?thesis by (rule only_frame [OF mw.write_only [OF written(8)] written(9,10)])
qed (auto intro: only_refl)

lemma merge_stage_ok:
  assumes "merge_main out allow (deny # inputs) w = (None, w')" and al: "allow \<noteq> []"
  obtains dc ac cs ds where "flookup w deny = Some (Text dc)" "flookup w allow = Some (Text ac)"
    "list_all2 (\<lambda>p c. flookup w p = Some (Text c)) inputs cs" "sorted ds" "distinct ds"
    "set ds = (listed dc \<union> \<Union> (listed ` set cs)) - listed ac" "flookup w' out = Some (Text (hosts_text ds))"
  using assms(1)
proof (cases rule: merge_main_cases)
  case (written cs as ds w0 ok)
  obtain a where a: "as = [a]" "flookup w allow = Some (Text a)" using written(2) al by blast
  obtain dc cs' where c: "cs = dc # cs'" "flookup w deny = Some (Text dc)" "list_all2 (\<lambda>p c. flookup w p = Some (Text c)) inputs cs'"
    using written(1) by (auto simp: list_all2_Cons1)
  have ok using written(11) by simp
  then have "flookup w' out = Some (Text (hosts_text ds))" using mw.write_ok written(8) by simp
  moreover have "set ds = (listed dc \<union> \<Union> (listed ` set cs')) - listed a" using written(7) a c by simp
  ultimately show thesis using that c a written(5,6) by blast
qed simp

lemma list_all2_functional: "list_all2 (\<lambda>p c. f p = Some (Text c)) ps cs \<Longrightarrow> list_all2 (\<lambda>p c. f p = Some (Text c)) ps ds \<Longrightarrow> cs = ds"
proof (induction ps arbitrary: cs ds)
  case (Cons p ps)
  then show ?case by (cases cs; cases ds) auto
qed simp

lemma build_list_cases:
  assumes run: "build_list E dir work minimum sources w = (r, w')" and wd: "work_dir dir work"
  obtains (stopped) e where "r = Inl e" "only {p. below work p} w w'"
  | (published) ds deny allow bodies where "r = Inr (length ds, re_sha E (hosts_text ds))"
      "within (while_building dir work ds w) w w'" "flookup w' (hosts_file dir) = Some (Text (hosts_text ds))"
      "sorted ds" "distinct ds" "minimum \<le> int (length ds)"
      "flookup w (path_join dir ''deny.txt'') = Some (Text deny)" "flookup w (path_join dir ''allow.txt'') = Some (Text allow)"
      "list_all2 (served E) sources bodies" "set ds = (listed deny \<union> \<Union> (listed ` set bodies)) - listed allow"
proof -
  let ?out = "path_join work ''merged.hosts''" and ?B = "{p. below work p}"
  obtain x w1 where x: "download_all E work 0 sources w = (x, w1)" by fastforce
  note o1 = download_all_below [OF x]
  obtain ok2 w2 where w2: "os_plain w1 = (ok2, w2)" by fastforce
  note f2 = os_plain_frame [OF w2]
  have o2: "only ?B w w2" using only_trans [OF o1 only_refl] f2 by blast
  have out: "below work ?out" by (simp add: below_def path_join_def)
  show thesis
  proof (cases "(\<exists>e. x = Inl e) \<or> \<not> ok2")
    case True
    then have "\<exists>e. r = Inl e \<and> (w' = w1 \<or> w' = w2)" using run x w2 by (auto simp: build_list_def Let_def split: sum.splits)
    then show thesis using stopped o1 o2 by blast
  next
    case False
    then obtain inputs where inp: "x = Inr inputs" and ok2 by (cases x) auto
    obtain err w3 where m: "merge_main ?out (path_join dir ''allow.txt'') (path_join dir ''deny.txt'' # inputs) w2 = (err, w3)" by fastforce
    have "only ?B w2 w3" using only_mono [OF merge_stage_only [OF m]] out by simp
    then have o3: "only ?B w w3" using only_trans [OF o2] by blast
    show thesis
    proof (cases err)
      case (Some e)
      then have "r = Inl (''merge: '' @ e)" "w' = w3" using run x inp w2 \<open>ok2\<close> m by (auto simp: build_list_def Let_def)
      then show thesis using stopped o3 by blast
    next
      case None
      then have p: "publish_list E dir ?out minimum w3 = (r, w')" using run x inp w2 \<open>ok2\<close> m by (simp add: build_list_def Let_def)
      have al: "path_join dir ''allow.txt'' \<noteq> []" by (simp add: path_join_def)
      obtain dc ac cs ds where mm: "flookup w2 (path_join dir ''deny.txt'') = Some (Text dc)" "flookup w2 (path_join dir ''allow.txt'') = Some (Text ac)"
        "list_all2 (\<lambda>p c. flookup w2 p = Some (Text c)) inputs cs" "sorted ds" "distinct ds"
        "set ds = (listed dc \<union> \<Union> (listed ` set cs)) - listed ac" "flookup w3 ?out = Some (Text (hosts_text ds))"
        using merge_stage_ok [OF m [unfolded None] al] by blast
      have nd: "\<forall>d\<in>set ds. normal_domain d" using mm(6) listed_normal by blast
      from p mm(7) nd show thesis
      proof (cases rule: publish_list_cases)
        case (stopped e)
        then show thesis using that(1) only_trans [OF o3 only_refl] by blast
      next
        case published
        obtain bodies where b: "list_all2 (served E) sources bodies" "list_all2 (\<lambda>p c. flookup w1 p = Some (Text c)) inputs bodies"
          using download_all_Inr [OF x [unfolded inp]] by blast
        have "cs = bodies" by (rule list_all2_functional [OF mm(3)]) (use b(2) f2 in simp)
        have dc: "flookup w (path_join dir ''deny.txt'') = Some (Text dc)" "flookup w (path_join dir ''allow.txt'') = Some (Text ac)"
          using mm(1,2) only_final [OF o2] dir_files [OF wd] by simp_all
        have hosts: "\<not> below work (hosts_file dir)" "\<not> ends_digit (hosts_file dir)" using dir_files [OF wd] by (simp_all add: hosts_file_def)
        have W: "within (while_building dir work ds w) w w3"
          using o3 hosts unfolding only_def within_def while_building_def by blast
        have l: "flookup w' q = (if q = hosts_file dir then Some (Text (hosts_text ds)) else if q = ?out then None else flookup w3 q)" for q
          using published(3) by (simp add: update_conv' delete_conv')
        then have "while_building dir work ds w (disk w')"
          using within_final [OF W] out unfolding while_building_def by auto
        then have "within (while_building dir work ds w) w3 w'" using published(4) by (simp add: within_def)
        then have "within (while_building dir work ds w) w w'" using within_trans [OF W] by blast
        then show thesis using that(2) published(1,2) l mm(4,5,6) dc b(1) \<open>cs = bodies\<close> by simp
      qed
    qed
  qed
qed

section \<open>The whole job\<close>

definition conf_paths :: "path \<Rightarrow> path set" where
  "conf_paths dir = path_join dir ` {''sources.txt'', ''allow.txt'', ''deny.txt''}"

lemma downloadJSON_only:
  assumes "downloadJSON E url w = (r, w')" shows "only {} w w'"
proof -
  obtain ok w1 where w1: "os_plain w = (ok, w1)" by fastforce
  note f1 = os_plain_frame [OF w1]
  let ?p = "config_temp (disk w1)" let ?w2 = "set_disk (AList.update ?p (Text []) (disk w1)) w1"
  have dg: "ends_digit ?p" by (simp add: config_temp_def fresh_temp_digit)
  obtain e w3 where w3: "downloadWithParser E (parseConfigURL E) url ?p ?w2 = (e, w3)" by fastforce
  obtain x w4 where w4: "os_read_file ?p w3 = (x, w4)" by fastforce
  note f4 = os_read_file_frame [OF w4]
  have o2: "only {?p} w1 ?w2" by (rule only_set_disk) (simp add: update_conv')
  have o3: "only {?p} w1 w3" by (rule only_trans [OF o2 downloadWithParser_only [OF w3]])
  have o4: "only {?p} w1 w4" using only_trans [OF o3 only_refl] f4 by blast
  have "w' = w1 \<or> w' = remove_quietly ?p w3 \<or> w' = remove_quietly ?p w4"
    using assms w1 w3 w4 by (cases ok; cases e; cases x) (auto simp: downloadJSON_def Let_def split: fdata.splits)
  then have "only {?p} w1 w'" using only_trans [OF o3 remove_quietly_only] only_trans [OF o4 remove_quietly_only] only_refl by blast
  then have "only {} w1 w'" by (rule only_ends) (use dg in auto)
  then show ?thesis using only_frame f1 by blast
qed

lemma sync_config_only:
  assumes run: "sync_config E ord dir url w = (e, w')" and ord: "mset ord = mset [0, 1, 2]"
  shows "only (conf_paths dir) w w'"
proof (cases "url = []")
  case True
  then show ?thesis using run by (simp add: sync_config_def only_refl)
next
  case False
  obtain x w1 where x: "downloadJSON E url w = (x, w1)" by fastforce
  have o1: "only (conf_paths dir) w w1" by (rule only_mono [OF downloadJSON_only [OF x]]) simp
  show ?thesis
  proof (cases "\<exists>c. x = Inr c \<and> fg_sources c \<noteq> []")
    case True
    then obtain c where c: "x = Inr c" "fg_sources c \<noteq> []" by blast
    obtain ok w2 where w2: "write_files writeLines (map (\<lambda>i. config_files dir c ! i) ord) w1 = (ok, w2)" by fastforce
    have "set ord = {0, 1, 2}" using ord by (metis set_mset_mset list.set(1,2))
    then have "fst ` set (map (\<lambda>i. config_files dir c ! i) ord) = conf_paths dir" by (auto simp: config_files_def conf_paths_def)
    then have "only (conf_paths dir) w1 w2" using lw.write_files_only [OF w2] by simp
    moreover have "w' = w2" using run False x c w2 by (auto simp: sync_config_def split: bool.splits)
    ultimately show ?thesis using only_trans [OF o1] by blast
  next
    case no: False
    then have "w' = w1" using run False x by (cases x) (auto simp: sync_config_def)
    then show ?thesis using o1 by simp
  qed
qed

text \<open>The published list at an instant: the one from before, or one compiled from the configuration of that instant.\<close>

definition list_ok :: "refresh_env \<Rightarrow> path \<Rightarrow> int \<Rightarrow> world \<Rightarrow> disk_t \<Rightarrow> bool" where
  "list_ok E dir minimum w d \<longleftrightarrow> map_of d (hosts_file dir) = flookup w (hosts_file dir) \<or>
     (\<exists>ds. map_of d (hosts_file dir) = Some (Text (hosts_text ds)) \<and> compiled_from E dir minimum d ds)"

lemma compiled_from_cong:
  "\<forall>p\<in>conf_paths dir. map_of d p = map_of d' p \<Longrightarrow> compiled_from E dir minimum d ds \<Longrightarrow> compiled_from E dir minimum d' ds"
  by (simp add: compiled_from_def conf_paths_def)

definition key_paths :: "path \<Rightarrow> path set" where
  "key_paths dir = insert (hosts_file dir) (conf_paths dir)"

lemma key_paths_plain: "p \<in> key_paths dir \<Longrightarrow> \<not> ends_digit p"
  by (auto simp: key_paths_def conf_paths_def hosts_file_def path_join_def ends_digit_def is_digit_def)

lemma only_keeps_list:
  assumes o: "only S w1 w2" and S: "S \<inter> key_paths dir = {}" and ok: "list_ok E dir minimum w (disk w1)"
  shows "within (list_ok E dir minimum w) w1 w2"
proof -
  have "list_ok E dir minimum w d" if d: "\<forall>p. \<not> ends_digit p \<longrightarrow> p \<notin> S \<longrightarrow> map_of d p = flookup w1 p" for d
  proof -
    have k: "\<forall>p\<in>key_paths dir. map_of d p = flookup w1 p" using d S key_paths_plain by blast
    then have "\<forall>p\<in>conf_paths dir. flookup w1 p = map_of d p" by (simp add: key_paths_def)
    from compiled_from_cong [OF this] ok k show ?thesis unfolding list_ok_def key_paths_def by (metis insertCI)
  qed
  then show ?thesis using o unfolding only_def within_def by blast
qed

lemma refresh_steps_cases:
  assumes run: "refresh_steps E ord dir work url minimum w = (made, r, w')" and wd: "work_dir dir work" and ord: "mset ord = mset [0, 1, 2]"
  obtains (stopped) e where "r = Inl e" "within (list_ok E dir minimum w) w w'"
  | (published) ds n where "r = Inr (length ds, n, re_sha E (hosts_text ds))" "within (list_ok E dir minimum w) w w'"
      "flookup w' (hosts_file dir) = Some (Text (hosts_text ds))" "compiled_from E dir minimum (disk w') ds"
proof -
  obtain ok w1 where w1: "os_plain w = (ok, w1)" by fastforce
  note f1 = os_plain_frame [OF w1]
  obtain e w2 where w2: "sync_config E ord dir url w1 = (e, w2)" by fastforce
  obtain x w3 where x: "readLines_refresh (path_join dir ''sources.txt'') w2 = (x, w3)" by fastforce
  have f3: "disk w3 = disk w2 \<and> snaps w3 = snaps w2"
    using x by (auto simp: readLines_refresh_def split: prod.splits sum.splits fdata.splits if_splits dest: os_read_file_frame)
  obtain ok4 w4 where w4: "os_plain w3 = (ok4, w4)" by fastforce
  note f4 = os_plain_frame [OF w4]
  have hosts: "hosts_file dir \<notin> conf_paths dir" "\<not> ends_digit (hosts_file dir)" "\<not> below work (hosts_file dir)"
    using dir_files [OF wd] by (auto simp: hosts_file_def conf_paths_def path_join_def)
  have o2: "only (conf_paths dir) w w2" using only_frame [OF sync_config_only [OF w2 ord]] f1 by simp
  have W: "within (list_ok E dir minimum w) w w2"
    using o2 hosts unfolding only_def within_def list_ok_def by blast
  have W34: "within (list_ok E dir minimum w) w v" if "disk v = disk w2" "snaps v = snaps w2" for v
    using W that by (simp add: within_def)
  have W1: "within (list_ok E dir minimum w) w w1" using f1 by (intro within_refl) (simp_all add: list_ok_def)
  show thesis
  proof (cases "\<not> ok \<or> e \<noteq> None \<or> (\<forall>s. x = Inr s \<longrightarrow> s = []) \<or> \<not> ok4")
    case True
    then have "\<exists>e. r = Inl e \<and> (w' = w1 \<or> w' = w2 \<or> w' = w3 \<or> w' = w4)"
      using run w1 w2 x w4 by (cases ok; cases e; cases x; cases ok4) (auto simp: refresh_steps_def split: if_splits)
    then show thesis using stopped W W1 W34 f3 f4 by metis
  next
    case False
    then obtain sources where s: "x = Inr sources" "sources \<noteq> []" and oks: ok "e = None" ok4 by blast
    obtain y w5 where y: "build_list E dir work minimum sources w4 = (y, w5)" by fastforce
    then have w': "w' = w5" "r = (case y of Inl e \<Rightarrow> Inl e | Inr (c, dg) \<Rightarrow> Inr (c, length sources, dg))"
      using run w1 w2 x w4 s oks by (auto simp: refresh_steps_def split: sum.splits)
    have d4: "disk w4 = disk w2" "snaps w4 = snaps w2" using f3 f4 by simp_all
    obtain text0 where src: "flookup w2 (path_join dir ''sources.txt'') = Some (Text text0)" "sources = source_lines text0"
      using x s by (auto simp: readLines_refresh_def split: prod.splits sum.splits fdata.splits if_splits dest: os_read_file_Inr)
    have h2: "flookup w4 (hosts_file dir) = flookup w (hosts_file dir)" using only_final [OF o2 hosts(2,1)] d4 by simp
    from y wd show thesis
    proof (cases rule: build_list_cases)
      case (stopped e)
      have "{p. below work p} \<inter> key_paths dir = {}" using hosts dir_files [OF wd] by (auto simp: key_paths_def conf_paths_def)
      from only_keeps_list [OF stopped(2) this, of E minimum w] h2
      have "within (list_ok E dir minimum w) w4 w5" by (simp add: list_ok_def)
      then have "within (list_ok E dir minimum w) w w5" using within_trans [OF W34 [OF d4]] by blast
      then show thesis using that(1) w' stopped(1) by simp
    next
      case (published ds deny allow bodies)
      have c: "compiled_from E dir minimum d ds" if "while_building dir work ds w4 d" for d
      proof -
        have "map_of d (path_join dir n) = flookup w4 (path_join dir n)" if "n \<in> {''deny.txt'', ''allow.txt'', ''sources.txt''}" for n
          using \<open>while_building dir work ds w4 d\<close> dir_files [OF wd, of n] that unfolding while_building_def
          by (auto simp: hosts_file_def path_join_def)
        then show ?thesis unfolding compiled_from_def using published(4-10) src d4 by (metis insertCI)
      qed
      then have "within (list_ok E dir minimum w) w4 w5" using published(2) h2
        unfolding within_def list_ok_def while_building_def by metis
      then have "within (list_ok E dir minimum w) w w5" using within_trans [OF W34 [OF d4]] by blast
      then show thesis using that(2) [of ds "length sources"] w' published(1,3) c [OF within_final [OF published(2)]] by simp
    qed
  qed
qed

definition demo_refresh :: refresh_env where
  "demo_refresh = \<lparr>re_url = (\<lambda>s. Some \<lparr>url_scheme = ''https'', url_host = ''h'', url_user = None, url_string = s\<rparr>), re_hostname = url_host,
     re_local_ip = (\<lambda>_. False), re_http = (\<lambda>_. HttpAnswer 200 (''0.0.0.0 Ad.x. q.r'' @ [CHR 0x0A]) False),
     re_json = (\<lambda>_. None), re_sha = (\<lambda>b. nat_dec (length b))\<rparr>"

definition refresh_world :: world where
  "refresh_world = \<lparr>disk = [(''/b/sources.txt'', Text (''https://h/a'' @ [CHR 0x0A])), (''/b/allow.txt'', Text ''q.r''),
     (''/b/deny.txt'', Text ''x.y'')], outcomes = [], snaps = []\<rparr>"

lemma demo_refresh_runs:
  "fst (refresh_run demo_refresh [0, 1, 2] ''/b'' ''/b/.refresh-1'' ''/s/blocklists.json'' [] 2 5 6 refresh_world) = None"
  by code_simp

section \<open>Theorem\<close>

text \<open>
  C39. The published blocklist is never partial: at every instant of a refresh, whichever downloads or
  system calls fail, it is the list from before or one that has at least the required number of
  domains and names, sorted and once each, exactly the valid domains of the deny list and of the complete
  answers of all sources that the allow list does not name, for the configuration files of that
  very instant.  A run that reports no error has published such a list and recorded its size and digest.
\<close>

theorem refresh_publishes_compiled_list:
  assumes run: "refresh_run E ord dir work status url minimum attempt now w = (err, w')"
    and wd: "work_dir dir work" and ord: "mset ord = mset [0, 1, 2]"
    and st: "status \<notin> key_paths dir" "\<not> below work status" "\<not> ends_digit status"
  shows "(\<exists>ss. snaps w' = snaps w @ ss \<and> (\<forall>d\<in>set (disk w' # ss).
       map_of d (hosts_file dir) = flookup w (hosts_file dir) \<or>
       (\<exists>ds. map_of d (hosts_file dir) = Some (Text (hosts_text ds)) \<and> compiled_from E dir minimum d ds))) \<and>
    (err = None \<longrightarrow> (\<exists>ds n. flookup w' (hosts_file dir) = Some (Text (hosts_text ds)) \<and> compiled_from E dir minimum (disk w') ds \<and>
       flookup w' status = Some (Json (enc_rsstatus (published_status attempt now (length ds) n (re_sha E (hosts_text ds)))))))"
proof -
  let ?K = "list_ok E dir minimum w"
  obtain prev w1 where w1: "loadBlocklistStatus status w = (prev, w1)" by fastforce
  have f1: "disk w1 = disk w" "snaps w1 = snaps w"
    using w1 by (auto simp: loadBlocklistStatus_def read_status_def split: prod.splits option.splits sum.splits fdata.splits
        dest: os_read_file_frame)
  obtain made r w2 where w2: "refresh_steps E ord dir work url minimum w1 = (made, r, w2)" by (metis prod_cases3)
  define doc where "doc = (case r of Inl e \<Rightarrow> failed_status prev attempt e | Inr (c, n, dg) \<Rightarrow> published_status attempt now c n dg)"
  obtain ok w3 where w3: "statusfile_WriteJSON status (enc_rsstatus doc) w2 = (ok, w3)" by fastforce
  have w': "w' = (if made then os_remove_all work w3 else w3)" and err: "err = None \<longrightarrow> ok \<and> (\<exists>v. r = Inr v)"
    using run w1 w2 w3 by (auto simp: refresh_run_def doc_def split: sum.splits prod.splits if_splits)
  have K: "list_ok E dir minimum w1 = ?K" by (simp add: list_ok_def fun_eq_iff f1)
  have nw: "{p. below work p} \<inter> key_paths dir = {}"
    using dir_files [OF wd] by (auto simp: key_paths_def conf_paths_def hosts_file_def)
  have a: "within ?K w1 w2" using w2 wd ord by (cases rule: refresh_steps_cases) (simp_all add: K)
  have o3: "only {status} w2 w3" by (rule sf.write_only [OF w3])
  have b: "within ?K w2 w3" using only_keeps_list [OF o3 _ within_final [OF a]] st(1) by simp
  have o4: "only {p. below work p} w3 w'" using os_remove_all_only w' by (simp add: only_refl)
  have c: "within ?K w3 w'" using only_keeps_list [OF o4 nw within_final [OF b]] .
  have "within ?K w w'" using within_trans [OF within_trans [OF a b] c] f1 by (simp add: within_def)
  moreover have "\<exists>ds n. flookup w' (hosts_file dir) = Some (Text (hosts_text ds)) \<and> compiled_from E dir minimum (disk w') ds \<and>
      flookup w' status = Some (Json (enc_rsstatus (published_status attempt now (length ds) n (re_sha E (hosts_text ds)))))"
    if "err = None"
  proof -
    have ok and inr: "\<exists>v. r = Inr v" using err that by blast+
    have same: "flookup w' p = flookup w2 p" if "p \<in> key_paths dir" for p
      using only_final [OF o3] only_final [OF o4] that st(1) nw key_paths_plain by (metis disjoint_iff singletonD)
    have s: "flookup w' status = Some (Json (enc_rsstatus doc))"
      using sf.write_ok w3 \<open>ok\<close> only_final [OF o4 st(3)] st(2) by simp
    from w2 wd ord show ?thesis
    proof (cases rule: refresh_steps_cases)
      case (stopped e)
      then show ?thesis using inr by simp
    next
      case (published ds n)
      have "compiled_from E dir minimum (disk w') ds"
        using compiled_from_cong [OF _ published(4)] same by (simp add: key_paths_def)
      then show ?thesis using published(1,3) same s by (intro exI [of _ ds] exI [of _ n]) (simp add: doc_def key_paths_def)
    qed
  qed
  ultimately show ?thesis unfolding within_def list_ok_def by auto
qed

theorem refresh_publishes_compiled_list_witness:
  "\<exists>w' ds. refresh_run demo_refresh [0, 1, 2] ''/b'' ''/b/.refresh-1'' ''/s/blocklists.json'' [] 2 5 6 refresh_world = (None, w') \<and>
     flookup w' ''/b/merged.hosts'' = Some (Text (hosts_text ds)) \<and> compiled_from demo_refresh ''/b'' 2 (disk w') ds"
proof -
  obtain w' where run: "refresh_run demo_refresh [0, 1, 2] ''/b'' ''/b/.refresh-1'' ''/s/blocklists.json'' [] 2 5 6 refresh_world = (None, w')"
    using demo_refresh_runs by (metis prod.collapse)
  have wd: "work_dir ''/b'' ''/b/.refresh-1''" by (auto simp: work_dir_def path_join_def)
  have ord: "mset [0, 1, 2 :: nat] = mset [0, 1, 2]" by simp
  have st: "''/s/blocklists.json'' \<notin> key_paths ''/b''" "\<not> below ''/b/.refresh-1'' ''/s/blocklists.json''" "\<not> ends_digit ''/s/blocklists.json''"
    by (simp_all add: key_paths_def conf_paths_def hosts_file_def path_join_def below_def ends_digit_def is_digit_def)
  have h: "hosts_file ''/b'' = ''/b/merged.hosts''" by (simp add: hosts_file_def path_join_def)
  show ?thesis using refresh_publishes_compiled_list [OF run wd ord st, THEN conjunct2] run unfolding h by blast
qed

end
