(* ===== verification/ApiStatus.thy ===== *)
theory ApiStatus
  imports RefreshStatus
begin

text \<open>
  The health reports of the control API (internal/api/server.go): the state of the high-availability
  pair, the probe of the peer and the metrics text; and the choice of a history range
  (internal/api/history.go).

  What the network and the operating system answer is an argument: the answer of the peer's health
  endpoint, the value its status endpoint sends, the times the clock shows, whether the virtual
  address is one of this host's.
\<close>

section \<open>Documents\<close>

record haPeerStatus =
  hp_name :: string
  hp_reachable :: bool
  hp_latency :: int
  hp_error :: string
  hp_role :: string
  hp_writable :: bool
  hp_vip :: bool
  hp_healthy :: bool
  hp_replication :: bool
  hp_zone_last :: gotime
  hp_zones :: int

record haStatusResponse =
  hs_node :: string
  hs_role :: string
  hs_writable :: bool
  hs_vip :: string
  hs_vip_owned :: bool
  hs_healthy :: bool
  hs_reason :: string
  hs_peer :: haPeerStatus
  hs_replication_healthy :: bool
  hs_replication :: rsStatus
  hs_zones :: rsStatus

definition unknown_peer :: "string \<Rightarrow> haPeerStatus" where
  "unknown_peer name = \<lparr>hp_name = name, hp_reachable = False, hp_latency = 0, hp_error = [], hp_role = [], hp_writable = False,
     hp_vip = False, hp_healthy = False, hp_replication = False, hp_zone_last = zero_time, hp_zones = 0\<rparr>"

definition enc_peer :: "haPeerStatus \<Rightarrow> jvalue" where
  "enc_peer p =
     JObj (opt_str ''name'' (hp_name p) @ [(''reachable'', JBool (hp_reachable p))] @
       opt_num ''latency_ms'' (hp_latency p) @ opt_str ''error'' (hp_error p) @ opt_str ''role'' (hp_role p) @
       [(''writable'', JBool (hp_writable p)), (''vip_owned'', JBool (hp_vip p)), (''healthy'', JBool (hp_healthy p)),
        (''replication_healthy'', JBool (hp_replication p)), (''zone_last_success'', JTime (hp_zone_last p)),
        (''zones'', JNum (hp_zones p))])"

definition enc_hastatus :: "haStatusResponse \<Rightarrow> jvalue" where
  "enc_hastatus s =
     JObj ([(''node'', JStr (hs_node s)), (''role'', JStr (hs_role s)), (''writable'', JBool (hs_writable s))] @
       opt_str ''vip'' (hs_vip s) @ [(''vip_owned'', JBool (hs_vip_owned s)), (''healthy'', JBool (hs_healthy s))] @
       opt_str ''reason'' (hs_reason s) @
       [(''peer'', enc_peer (hs_peer s)), (''replication_healthy'', JBool (hs_replication_healthy s)),
        (''replication'', enc_rsstatus (hs_replication s)), (''zones'', enc_rsstatus (hs_zones s))])"

definition jbool :: "jvalue \<Rightarrow> string \<Rightarrow> bool option" where
  "jbool j k = Option.bind (jget j k) as_bool"

definition dec_peer :: "jvalue \<Rightarrow> haPeerStatus option" where
  "dec_peer j =
     do {
       name \<leftarrow> jstr j ''name'';
       reachable \<leftarrow> jbool j ''reachable'';
       latency \<leftarrow> jint j ''latency_ms'';
       error \<leftarrow> jstr j ''error'';
       role \<leftarrow> jstr j ''role'';
       writable \<leftarrow> jbool j ''writable'';
       vip \<leftarrow> jbool j ''vip_owned'';
       healthy \<leftarrow> jbool j ''healthy'';
       replication \<leftarrow> jbool j ''replication_healthy'';
       last \<leftarrow> Option.bind (jget j ''zone_last_success'') as_time;
       zones \<leftarrow> jint j ''zones'';
       Some \<lparr>hp_name = name, hp_reachable = reachable, hp_latency = latency, hp_error = error, hp_role = role,
         hp_writable = writable, hp_vip = vip, hp_healthy = healthy, hp_replication = replication, hp_zone_last = last,
         hp_zones = zones\<rparr>
     }"

definition dec_hastatus :: "jvalue \<Rightarrow> haStatusResponse option" where
  "dec_hastatus j =
     do {
       node \<leftarrow> jstr j ''node'';
       role \<leftarrow> jstr j ''role'';
       writable \<leftarrow> jbool j ''writable'';
       vip \<leftarrow> jstr j ''vip'';
       owned \<leftarrow> jbool j ''vip_owned'';
       healthy \<leftarrow> jbool j ''healthy'';
       reason \<leftarrow> jstr j ''reason'';
       peer \<leftarrow> Option.bind (jget j ''peer'') dec_peer;
       replication \<leftarrow> jbool j ''replication_healthy'';
       differential \<leftarrow> Option.bind (jget j ''replication'') dec_rsstatus;
       zones \<leftarrow> Option.bind (jget j ''zones'') dec_rsstatus;
       Some \<lparr>hs_node = node, hs_role = role, hs_writable = writable, hs_vip = vip, hs_vip_owned = owned, hs_healthy = healthy,
         hs_reason = reason, hs_peer = peer, hs_replication_healthy = replication, hs_replication = differential,
         hs_zones = zones\<rparr>
     }"

section \<open>The pair\<close>

record ha_config =
  hc_node :: string
  hc_role :: string
  hc_peer_name :: string
  hc_peer_health_url :: string
  hc_peer_status_url :: string
  hc_vip :: string

definition SetHA :: "string \<Rightarrow> string \<Rightarrow> string \<Rightarrow> string \<Rightarrow> string \<Rightarrow> string \<Rightarrow> ha_config" where
  "SetHA node role peerName healthURL statusURL vip =
     \<lparr>hc_node = trim_space node, hc_role = to_lower (trim_space role), hc_peer_name = trim_space peerName,
      hc_peer_health_url = trim_space healthURL, hc_peer_status_url = trim_space statusURL, hc_vip = trim_space vip\<rparr>"

text \<open>An answer to a request: no request could be made or no answer came, with the message; or the
  status code, the status line and the first value in the first MiB of the body, if there is one.\<close>

datatype probe_answer = ProbeError string | ProbeAnswer nat string "jvalue option"

record probes =
  pr_health :: probe_answer
  pr_status :: probe_answer
  pr_started :: gotime
  pr_ended :: gotime

definition probePeer :: "ha_config \<Rightarrow> probes \<Rightarrow> haPeerStatus" where
  "probePeer H P =
     (let peer = unknown_peer (hc_peer_name H)
      in if hc_peer_health_url H = [] then peer
         else let latency = (pr_ended P - pr_started P) div 1000000;
                  peer1 = (case pr_health P of
                             ProbeError e \<Rightarrow> peer\<lparr>hp_latency := latency, hp_error := e\<rparr>
                           | ProbeAnswer code line _ \<Rightarrow>
                               peer\<lparr>hp_reachable := (code = 200), hp_error := (if code = 200 then [] else line),
                                    hp_latency := latency\<rparr>)
           in if hp_reachable peer1 \<and> hc_peer_status_url H \<noteq> []
              then (case pr_status P of
                      ProbeAnswer code _ (Some j) \<Rightarrow>
                        if code \<noteq> 200 then peer1
                        else (case dec_hastatus j of
                                None \<Rightarrow> peer1
                              | Some remote \<Rightarrow>
                                  peer1\<lparr>hp_name := hs_node remote, hp_role := hs_role remote, hp_writable := hs_writable remote,
                                        hp_vip := hs_vip_owned remote, hp_healthy := hs_healthy remote,
                                        hp_replication := hs_replication_healthy remote,
                                        hp_zone_last := rs_last_success (hs_zones remote),
                                        hp_zones := int (length (rs_zones (hs_zones remote)))\<rparr>)
                    | _ \<Rightarrow> peer1)
              else peer1)"

text \<open>A request that comes from the peer itself (header \<open>X-RillDNS-HA-Peer\<close>) is answered without a
  probe, so two nodes do not ask each other forever.  \<open>now\<close> is the clock when the status documents
  are read, \<open>later\<close> when their age is taken.\<close>

definition haStatus ::
    "ha_config \<Rightarrow> bool \<Rightarrow> path \<Rightarrow> (string \<Rightarrow> bool) \<Rightarrow> probes \<Rightarrow> gotime \<Rightarrow> gotime \<Rightarrow> bool \<Rightarrow> world \<Rightarrow> haStatusResponse \<times> world" where
  "haStatus H readOnly statusDir owned P now later peerRequest w =
     (case LoadReport statusDir now w of
        (loaded, w1) \<Rightarrow>
          (let differential = (case loaded of Inl _ \<Rightarrow> zero_status | Inr r \<Rightarrow> rp_differential r);
               zones = (case loaded of Inl _ \<Rightarrow> zero_status | Inr r \<Rightarrow> rp_zones r);
               failure = (case loaded of Inl e \<Rightarrow> Some e | Inr _ \<Rightarrow> None);
               role = (if hc_role H \<noteq> [] then hc_role H else if readOnly then ''standby'' else ''active'');
               replication = (failure = None \<and> rs_success differential \<and> rs_mismatches differential = 0 \<and>
                              time_sub later (rs_last_success differential) \<le> 2 * hour);
               peer = (if peerRequest then unknown_peer (hc_peer_name H) else probePeer H P);
               healthy = (failure = None \<and> replication \<and>
                          (peerRequest \<or> hc_peer_health_url H = [] \<or> hp_reachable peer));
               reason = (case failure of
                           Some e \<Rightarrow> e
                         | None \<Rightarrow>
                             if \<not> replication then ''replication check is failed or stale''
                             else if \<not> peerRequest \<and> hc_peer_health_url H \<noteq> [] \<and> \<not> hp_reachable peer
                             then ''peer is unreachable'' else [])
           in (\<lparr>hs_node = hc_node H, hs_role = role, hs_writable = \<not> readOnly, hs_vip = hc_vip H,
                hs_vip_owned = owned (hc_vip H), hs_healthy = healthy, hs_reason = reason, hs_peer = peer,
                hs_replication_healthy = replication, hs_replication = differential, hs_zones = zones\<rparr>, w1)))"

section \<open>Metrics\<close>

definition newline :: char where "newline = CHR 0x0A"

definition gauge :: "string \<Rightarrow> int \<Rightarrow> string" where
  "gauge name n = name @ '' '' @ (if n < 0 then ''-'' @ nat_dec (nat (- n)) else nat_dec (nat n)) @ [newline]"

definition comment_lines :: "string \<Rightarrow> string \<Rightarrow> string \<Rightarrow> string" where
  "comment_lines name help kind =
     ''# HELP '' @ name @ '' '' @ help @ [newline] @ ''# TYPE '' @ name @ '' '' @ kind @ [newline]"

definition flag :: "bool \<Rightarrow> int" where
  "flag b = (if b then 1 else 0)"

text \<open>The text sent to a client that stays connected; \<open>sources\<close> are the answers of the two metric
  sources in order, \<open>None\<close> for one that is not configured, fails or does not answer 200.\<close>

definition metrics ::
    "ha_config \<Rightarrow> bool \<Rightarrow> path \<Rightarrow> (string \<Rightarrow> bool) \<Rightarrow> probes \<Rightarrow> nat \<times> nat \<times> nat \<Rightarrow> string option list \<Rightarrow> gotime \<Rightarrow> world \<Rightarrow>
     (string + string) \<times> world" where
  "metrics H readOnly statusDir owned P counters sources now w =
     (case LoadReport statusDir now w of
        (Inl e, w1) \<Rightarrow> (Inl e, w1)
      | (Inr r, w1) \<Rightarrow>
          (case counters of (applies, failures, rollbacks) \<Rightarrow>
             let expiry = (case RRSIGExpiry (rp_zones r) of None \<Rightarrow> zero_time | Some t \<Rightarrow> t);
                 reachable = (hc_peer_health_url H = [] \<or> hp_reachable (probePeer H P))
             in (Inr (comment_lines ''rilldns_refresh_healthy'' ''Whether all refresh pipelines are healthy.'' ''gauge'' @
                   gauge ''rilldns_refresh_healthy'' (flag (rp_healthy r)) @
                   gauge ''rilldns_zone_refresh_last_success_seconds'' (unix_seconds (rs_last_success (rp_zones r))) @
                   gauge ''rilldns_blocklist_refresh_last_success_seconds'' (unix_seconds (rs_last_success (rp_blocklists r))) @
                   gauge ''rilldns_blocklist_domains'' (rs_domains (rp_blocklists r)) @
                   gauge ''rilldns_differential_last_success_seconds'' (unix_seconds (rs_last_success (rp_differential r))) @
                   gauge ''rilldns_differential_last_attempt_seconds'' (unix_seconds (rs_last_attempt (rp_differential r))) @
                   gauge ''rilldns_differential_mismatches'' (rs_mismatches (rp_differential r)) @
                   gauge ''rilldns_differential_consecutive_failures'' (rs_consecutive (rp_differential r)) @
                   gauge ''rilldns_differential_queries'' (rs_queries (rp_differential r)) @
                   (if is_zero expiry then [] else gauge ''rilldns_dnssec_earliest_expiry_seconds'' (unix_seconds expiry)) @
                   comment_lines ''rilldns_cloudflare_applies_total''
                     ''Successfully verified Cloudflare DNS apply operations.'' ''counter'' @
                   gauge ''rilldns_cloudflare_applies_total'' (int applies) @
                   comment_lines ''rilldns_cloudflare_apply_failures_total''
                     ''Failed Cloudflare DNS apply operations.'' ''counter'' @
                   gauge ''rilldns_cloudflare_apply_failures_total'' (int failures) @
                   comment_lines ''rilldns_cloudflare_rollbacks_total'' ''Cloudflare DNS compensating rollbacks.'' ''counter'' @
                   gauge ''rilldns_cloudflare_rollbacks_total'' (int rollbacks) @
                   comment_lines ''rilldns_ha_writable'' ''Whether this node accepts control-plane mutations.'' ''gauge'' @
                   gauge ''rilldns_ha_writable'' (flag (\<not> readOnly)) @
                   comment_lines ''rilldns_ha_vip_owned'' ''Whether this node currently owns the configured DNS VIP.'' ''gauge'' @
                   gauge ''rilldns_ha_vip_owned'' (flag (owned (hc_vip H))) @
                   comment_lines ''rilldns_ha_peer_reachable''
                     ''Whether the configured HA peer health endpoint is reachable.'' ''gauge'' @
                   gauge ''rilldns_ha_peer_reachable'' (flag reachable) @
                   concat (map (\<lambda>s. case s of None \<Rightarrow> [] | Some body \<Rightarrow> body) sources)), w1)))"

section \<open>History ranges\<close>

definition historyRange :: "string \<Rightarrow> (duration \<times> duration \<times> string) option" where
  "historyRange v =
     (if v = [] \<or> v = ''6h'' then Some (6 * hour, minute, ''6h'')
      else if v = ''1h'' then Some (hour, 30 * second, ''1h'')
      else if v = ''24h'' then Some (24 * hour, 5 * minute, ''24h'')
      else if v = ''7d'' then Some (7 * 24 * hour, 30 * minute, ''7d'')
      else None)"

section \<open>Lemmas\<close>

lemma LoadReport_error: "LoadReport dir now w = (Inl e, w') \<Longrightarrow> e \<noteq> []"
  by (auto simp: LoadReport_def Let_def split: prod.splits option.splits)

lemma probePeer_reachable:
  "hp_reachable (probePeer H P) \<Longrightarrow> hc_peer_health_url H \<noteq> [] \<and> (\<exists>line j. pr_health P = ProbeAnswer 200 line j)"
  by (cases "pr_health P"; cases "pr_status P")
    (auto simp: probePeer_def unknown_peer_def Let_def split: if_splits option.splits)

text \<open>A node is healthy exactly if no reason is given, so a report never says both or neither.\<close>

lemma haStatus_healthy_iff_no_reason:
  assumes "haStatus H readOnly dir owned P now later peerRequest w = (s, w')"
  shows "hs_healthy s \<longleftrightarrow> hs_reason s = []"
proof -
  obtain l w1 where l: "LoadReport dir now w = (l, w1)" by fastforce
  show ?thesis
  proof (cases l)
    case (Inl e)
    then show ?thesis using assms l LoadReport_error by (auto simp: haStatus_def Let_def)
  next
    case (Inr r)
    then show ?thesis using assms l unfolding haStatus_def Let_def by (simp split: if_splits) auto
  qed
qed

text \<open>A healthy answer vouches for a clean replication check less than two hours old and, unless the
  peer itself asks or none is configured, for a reachable peer.\<close>

lemma haStatus_healthy:
  assumes "haStatus H readOnly dir owned P now later peerRequest w = (s, w')" and "hs_healthy s"
  obtains r where "fst (LoadReport dir now w) = Inr r" "rs_success (rp_differential r)" "rs_mismatches (rp_differential r) = 0"
    "time_sub later (rs_last_success (rp_differential r)) \<le> 2 * hour"
    "peerRequest \<or> hc_peer_health_url H = [] \<or> (\<exists>line j. pr_health P = ProbeAnswer 200 line j)"
proof -
  obtain l w1 where l: "LoadReport dir now w = (l, w1)" by fastforce
  then obtain r where r: "l = Inr r" using assms by (cases l) (auto simp: haStatus_def Let_def)
  have "peerRequest \<or> hc_peer_health_url H = [] \<or> hp_reachable (probePeer H P)"
    "rs_success (rp_differential r) \<and> rs_mismatches (rp_differential r) = 0 \<and>
     time_sub later (rs_last_success (rp_differential r)) \<le> 2 * hour"
    using assms l r by (auto simp: haStatus_def Let_def)
  with probePeer_reachable [of H P] that [of r] l r show thesis by auto
qed

text \<open>What a healthy peer reports about itself is what the probe shows.\<close>

lemma dec_enc_peer:
  assumes "- (2 ^ 63) \<le> hp_latency p" "hp_latency p < 2 ^ 63" "- (2 ^ 63) \<le> hp_zones p" "hp_zones p < 2 ^ 63"
  shows "dec_peer (enc_peer p) = Some p"
  using assms
  by (auto simp: dec_peer_def enc_peer_def jget_def jstr_def jbool_def jint_def as_str_def as_bool_def as_int64_def as_time_def
      opt_str_def opt_num_def)

end
