(* ===== verification/ApiAudit.thy ===== *)
theory ApiAudit
  imports Disk Contracts
begin

text \<open>
  The audit listing of the API (internal/api/audit.go): the newest matching events of the append-only
  log, kept in a ring while the log is scanned.

  A line of the log is text or a JSON value; \<open>nbytes\<close> gives the number of bytes of a line.  The values of the
  query parameters are arguments of the handler.
\<close>

section \<open>Data\<close>

definition defaultAuditLimit :: int where "defaultAuditLimit = 100"
definition maxAuditLimit :: int where "maxAuditLimit = 500"
definition maxAuditLineBytes :: nat where "maxAuditLineBytes = 4 * 2 ^ 20"

type_synonym log_line = "string + jvalue"

record auditFilter =
  af_zone :: string
  af_provider :: string
  af_actor :: string
  af_limit :: nat

record auditFields =
  ff_zone :: string
  ff_provider :: string
  ff_actor :: string

definition normalizeAuditZone :: "string \<Rightarrow> string" where
  "normalizeAuditZone zone = trim_suffix (to_lower (trim_space zone)) ''.''"

text \<open>\<open>json.Unmarshal\<close> of a line into the three fields.\<close>

definition dec_audit_fields :: "log_line \<Rightarrow> auditFields option" where
  "dec_audit_fields l =
     (case l of
        Inl _ \<Rightarrow> None
      | Inr j \<Rightarrow>
          (case (Option.bind (jget j ''zone'') as_str, Option.bind (jget j ''provider'') as_str, Option.bind (jget j ''actor'') as_str) of
             (Some z, Some p, Some a) \<Rightarrow> Some \<lparr>ff_zone = z, ff_provider = p, ff_actor = a\<rparr>
           | _ \<Rightarrow> None))"

definition blank_line :: "log_line \<Rightarrow> bool" where
  "blank_line l = (case l of Inl s \<Rightarrow> trim_space s = [] | Inr _ \<Rightarrow> False)"

definition audit_matches :: "auditFilter \<Rightarrow> auditFields \<Rightarrow> bool" where
  "audit_matches f e =
     (let provider = (if ff_provider e = [] then ''rilldns'' else ff_provider e)
      in \<not> ((af_zone f \<noteq> [] \<and> normalizeAuditZone (ff_zone e) \<noteq> af_zone f) \<or>
            (af_provider f \<noteq> [] \<and> provider \<noteq> af_provider f) \<or>
            (af_actor f \<noteq> [] \<and> ff_actor e \<noteq> af_actor f)))"

section \<open>The ring\<close>

type_synonym audit_ring = "log_line list \<times> nat"

definition ring_put :: "nat \<Rightarrow> log_line \<Rightarrow> audit_ring \<Rightarrow> audit_ring" where
  "ring_put limit event rn =
     (case rn of (ring, next) \<Rightarrow>
        (if length ring < limit then ring @ [event] else ring[next := event], (next + 1) mod limit))"

definition scan_line :: "auditFilter \<Rightarrow> log_line \<Rightarrow> audit_ring \<times> nat \<Rightarrow> audit_ring \<times> nat" where
  "scan_line f line s =
     (case s of (rn, skipped) \<Rightarrow>
        if blank_line line then (rn, skipped)
        else case dec_audit_fields line of
               None \<Rightarrow> (rn, Suc skipped)
             | Some e \<Rightarrow> if audit_matches f e then (ring_put (af_limit f) line rn, skipped) else (rn, skipped))"

text \<open>The loop that walks backwards from the most recently written slot.\<close>

definition walk_back :: "audit_ring \<Rightarrow> log_line list" where
  "walk_back rn =
     (case rn of (ring, next) \<Rightarrow>
        map (\<lambda>i. ring ! nat ((int next - 1 - int i + 2 * int (length ring)) mod int (length ring))) [0..<length ring])"

definition readAudit :: "(log_line \<Rightarrow> nat) \<Rightarrow> path \<Rightarrow> auditFilter \<Rightarrow> world \<Rightarrow> (string + log_line list \<times> nat) \<times> world" where
  "readAudit nbytes p f w =
     (case os_read_file p w of
        (Inl NotExist, w1) \<Rightarrow> (Inr ([], 0), w1)
      | (Inr (Lines ls), w1) \<Rightarrow>
          if list_ex (\<lambda>l. maxAuditLineBytes \<le> nbytes l) ls then (Inl ''token too long'', w1)
          else (case fold (scan_line f) ls (([], 0), 0) of (rn, skipped) \<Rightarrow> (Inr (walk_back rn, skipped), w1))
      | (_, w1) \<Rightarrow> (Inl ''open audit log'', w1))"

section \<open>The handler\<close>

text \<open>\<open>strconv.Atoi\<close>.\<close>

definition digits_value :: "string \<Rightarrow> int option" where
  "digits_value s = (if s \<noteq> [] \<and> list_all is_digit s then Some (foldl (\<lambda>n c. 10 * n + (int (of_char c) - 48)) 0 s) else None)"

definition go_atoi :: "string \<Rightarrow> int option" where
  "go_atoi s =
     (case (case s of
              [] \<Rightarrow> None
            | c # cs \<Rightarrow> if c = CHR ''-'' then map_option uminus (digits_value cs)
                        else if c = CHR ''+'' then digits_value cs else digits_value s) of
        None \<Rightarrow> None
      | Some n \<Rightarrow> if - (2 ^ 63) \<le> n \<and> n < 2 ^ 63 then Some n else None)"

datatype audit_reply = AuditError nat string | AuditOK "log_line list" nat

definition listAudit :: "(log_line \<Rightarrow> nat) \<Rightarrow> path \<Rightarrow> string \<Rightarrow> string \<Rightarrow> string \<Rightarrow> string \<Rightarrow> world \<Rightarrow> audit_reply \<times> world" where
  "listAudit nbytes auditPath zone provider actor limit w =
     (if auditPath = [] then (AuditError 404 ''audit log is not configured'', w)
      else let f = \<lparr>af_zone = normalizeAuditZone zone, af_provider = to_lower (trim_space provider), af_actor = actor,
                    af_limit = nat defaultAuditLimit\<rparr>
           in if af_provider f \<noteq> [] \<and> af_provider f \<noteq> ''rilldns'' \<and> af_provider f \<noteq> ''cloudflare''
              then (AuditError 400 ''provider must be rilldns or cloudflare'', w)
              else case (if limit = [] then Some defaultAuditLimit
                         else case go_atoi limit of
                                None \<Rightarrow> None
                              | Some n \<Rightarrow> if n < 1 \<or> maxAuditLimit < n then None else Some n) of
                     None \<Rightarrow> (AuditError 400 ''limit must be between 1 and 500'', w)
                   | Some n \<Rightarrow>
                       (case readAudit nbytes auditPath (f\<lparr>af_limit := nat n\<rparr>) w of
                          (Inl e, w1) \<Rightarrow> (AuditError 500 e, w1)
                        | (Inr (events, skipped), w1) \<Rightarrow> (AuditOK events skipped, w1)))"

section \<open>The ring keeps the last events\<close>

definition audit_ok :: "nat \<Rightarrow> audit_ring \<Rightarrow> bool" where
  "audit_ok limit rn \<longleftrightarrow>
     (case rn of (ring, next) \<Rightarrow> length ring \<le> limit \<and> next < limit \<and> (length ring < limit \<longrightarrow> next = length ring))"

definition audit_view :: "audit_ring \<Rightarrow> log_line list" where
  "audit_view rn = (case rn of (ring, next) \<Rightarrow> drop next ring @ take next ring)"

interpretation ar: ring_buffer "ring_put limit" audit_view "audit_ok limit" limit for limit
proof (unfold_locales, goal_cases)
  case (1 rn e)
  obtain ring n where rn: "rn = (ring, n)" by fastforce
  show ?case
  proof (cases "length ring < limit")
    case True
    then have "n = length ring" using 1 rn by (simp add: audit_ok_def)
    moreover have "Suc (length ring) < limit \<or> Suc (length ring) = limit" using True by linarith
    ultimately show ?thesis using True rn by (auto simp: audit_ok_def ring_put_def)
  next
    case False
    then show ?thesis using 1 rn by (auto simp: audit_ok_def ring_put_def)
  qed
next
  case (2 rn e)
  obtain ring n where rn: "rn = (ring, n)" by fastforce
  show ?case
  proof (cases "length ring < limit")
    case True
    then have nn: "n = length ring" using 2 rn by (simp add: audit_ok_def)
    have "lastn limit (ring @ [e]) = ring @ [e]" using True by (intro lastn_all) simp
    moreover have "audit_view (ring_put limit e (ring, length ring)) = ring @ [e]"
    proof (cases "Suc (length ring) = limit")
      case full: True
      then show ?thesis unfolding audit_view_def ring_put_def full [symmetric] by simp
    next
      case False
      then have "Suc (length ring) mod limit = Suc (length ring)" using True by simp
      then show ?thesis using True by (simp add: audit_view_def ring_put_def)
    qed
    ultimately show ?thesis using rn nn by (simp add: audit_view_def)
  next
    case False
    then have L: "limit = length ring" and n: "n < length ring" using 2 rn by (auto simp: audit_ok_def)
    show ?thesis unfolding rn audit_view_def ring_put_def L using ring_push [OF n refl, of e] by (simp add: Let_def)
  qed
next
  case (3 rn)
  then show ?case by (auto simp: audit_ok_def audit_view_def)
qed

lemma mod_shift: "0 \<le> a \<Longrightarrow> a < L \<Longrightarrow> (a + k * L) mod L = a" for a L k :: int
  by simp

lemma walk_back_view: "audit_ok limit rn \<Longrightarrow> walk_back rn = rev (audit_view rn)"
proof -
  assume ok: "audit_ok limit rn"
  obtain ring n where rn: "rn = (ring, n)" by fastforce
  have n: "n \<le> length ring" using ok rn by (auto simp: audit_ok_def)
  have "walk_back rn ! i = rev (audit_view rn) ! i" if i: "i < length ring" for i
  proof -
    let ?L = "int (length ring)" let ?k = "length ring - Suc i"
    have "rev (audit_view rn) ! i = (drop n ring @ take n ring) ! ?k" 
      using i n rn rev_nth [of i "drop n ring @ take n ring"] by (simp add: audit_view_def del: rev_append)
    also have "\<dots> = ring ! (if ?k < length ring - n then n + ?k else ?k - (length ring - n))" using n i by (auto simp: nth_append)
    finally have r: "rev (audit_view rn) ! i = ring ! (if ?k < length ring - n then n + ?k else ?k - (length ring - n))" .
    have "(int n - 1 - int i + 2 * ?L) mod ?L = int (if ?k < length ring - n then n + ?k else ?k - (length ring - n))"
    proof (cases "?k < length ring - n")
      case True
      have e: "int n - 1 - int i + 2 * ?L = int (n + ?k) + 1 * ?L" using i by simp
      have "int (n + ?k) < ?L" using True by linarith
      from mod_shift [OF _ this, of 1] show ?thesis unfolding e using True by (simp only: if_True of_nat_0_le_iff)
    next
      case False
      have e: "int n - 1 - int i + 2 * ?L = int (?k - (length ring - n)) + 2 * ?L" using False i n by (simp add: of_nat_diff)
      have "int (?k - (length ring - n)) < ?L" using i by linarith
      from mod_shift [OF _ this, of 2] show ?thesis unfolding e using False by (simp only: if_False of_nat_0_le_iff)
    qed
    then show ?thesis using r i rn by (simp add: walk_back_def)
  qed
  moreover have "length (walk_back rn) = length ring" "length (rev (audit_view rn)) = length ring" using rn n by (simp_all add: walk_back_def audit_view_def)
  ultimately show ?thesis by (intro nth_equalityI) simp_all
qed

section \<open>The scan\<close>

definition matching_lines :: "auditFilter \<Rightarrow> log_line list \<Rightarrow> log_line list" where
  "matching_lines f ls =
     filter (\<lambda>l. \<not> blank_line l \<and> (case dec_audit_fields l of None \<Rightarrow> False | Some e \<Rightarrow> audit_matches f e)) ls"

definition unreadable_lines :: "log_line list \<Rightarrow> nat" where
  "unreadable_lines ls = length (filter (\<lambda>l. \<not> blank_line l \<and> dec_audit_fields l = None) ls)"

lemma scan_fold:
  "fold (scan_line f) ls (rn, k) = (fold (ring_put (af_limit f)) (matching_lines f ls) rn, k + unreadable_lines ls)"
  by (induction ls arbitrary: rn k) (auto simp: scan_line_def matching_lines_def unreadable_lines_def split: option.splits)

lemma readAudit_calm:
  assumes "calm w" "flookup w p = Some (Lines ls)" "\<forall>l\<in>set ls. nbytes l < maxAuditLineBytes" and lim: "0 < af_limit f"
  shows "readAudit nbytes p f w = (Inr (rev (lastn (af_limit f) (matching_lines f ls)), unreadable_lines ls), w)"
proof -
  have ok: "audit_ok (af_limit f) ([], 0)" using lim by (simp add: audit_ok_def)
  have v: "walk_back (fold (ring_put (af_limit f)) (matching_lines f ls) ([], 0)) = rev (lastn (af_limit f) (matching_lines f ls))"
    using walk_back_view [OF ar.ok_fold [OF ok]] ar.view_fold [OF ok] by (simp add: audit_view_def)
  have "\<not> list_ex (\<lambda>l. maxAuditLineBytes \<le> nbytes l) ls" using assms(3) by (auto simp: list_ex_iff)
  then show ?thesis using assms(1,2) v by (simp add: readAudit_def os_read_file_calm scan_fold)
qed

section \<open>Theorem\<close>


definition demo_event :: "string \<Rightarrow> jvalue" where
  "demo_event actor = JObj [(''zone'', JStr ''a.''), (''actor'', JStr actor)]"

definition audit_world :: world where
  "audit_world = \<lparr>disk = [(''/a.log'', Lines [Inr (demo_event ''x''), Inl ''torn'', Inr (demo_event ''y''), Inr (demo_event ''x'')])],
     outcomes = [], snaps = []\<rparr>"


end
