(* ===== verification/CloudflareConfig.thy ===== *)
theory CloudflareConfig
  imports Disk
begin

text \<open>
  The list of zones managed at Cloudflare (internal/cloudflare/config.go): normal form, revision, saving
  and loading.  \<open>digest\<close> is the SHA-256 of a JSON value in hexadecimal.
\<close>

record cfConfig =
  cg_zones :: "string list"
  cg_revision :: string

definition normalize_cfzone :: "string \<Rightarrow> string" where
  "normalize_cfzone zone = to_lower (trim_suffix (trim_space zone) ''.'')"

fun unique_zones :: "string list \<Rightarrow> string list \<Rightarrow> string list" where
  "unique_zones [] acc = acc"
| "unique_zones (z # zs) acc =
     (let zone = normalize_cfzone z
      in unique_zones zs (if zone \<noteq> [] \<and> zone \<notin> set acc then acc @ [zone] else acc))"

definition MakeConfig :: "(jvalue \<Rightarrow> string) \<Rightarrow> string list \<Rightarrow> cfConfig" where
  "MakeConfig digest zones =
     (let normalized = sort (unique_zones zones [])
      in \<lparr>cg_zones = normalized, cg_revision = digest (JArr (map JStr normalized))\<rparr>)"

definition enc_cfconfig :: "cfConfig \<Rightarrow> jvalue" where
  "enc_cfconfig c = JObj [(''zones'', JArr (map JStr (cg_zones c))), (''revision'', JStr (cg_revision c))]"

definition dec_cfconfig :: "jvalue \<Rightarrow> cfConfig option" where
  "dec_cfconfig j =
     (case (Option.bind (jget j ''zones'') (as_list as_str), Option.bind (jget j ''revision'') as_str) of
        (Some zs, Some r) \<Rightarrow> Some \<lparr>cg_zones = zs, cg_revision = r\<rparr>
      | _ \<Rightarrow> None)"

definition cfconfig_write :: "path \<Rightarrow> jvalue \<Rightarrow> world \<Rightarrow> bool \<times> world" where
  "cfconfig_write =
     after_mkdir (\<lambda>p v. atomic_write ''.cloudflare-zones-'' [SChmod, SWrite, SSync, SClose, SRename] p (Json v))"

definition SaveConfig :: "(jvalue \<Rightarrow> string) \<Rightarrow> path \<Rightarrow> string list \<Rightarrow> world \<Rightarrow> cfConfig option \<times> world" where
  "SaveConfig digest p zones w =
     (let config = MakeConfig digest zones
      in case cfconfig_write p (enc_cfconfig config) w of
           (True, w1) \<Rightarrow> (Some config, w1)
         | (False, w1) \<Rightarrow> (None, w1))"

definition LoadConfig :: "(jvalue \<Rightarrow> string) \<Rightarrow> path \<Rightarrow> string list \<Rightarrow> world \<Rightarrow> cfConfig option \<times> world" where
  "LoadConfig digest p fallback w =
     (case os_read_file p w of
        (Inl NotExist, w1) \<Rightarrow> (Some (MakeConfig digest fallback), w1)
      | (Inl IOFault, w1) \<Rightarrow> (None, w1)
      | (Inr (Json j), w1) \<Rightarrow>
          ((case dec_cfconfig j of None \<Rightarrow> None | Some c \<Rightarrow> Some (MakeConfig digest (cg_zones c))), w1)
      | (Inr _, w1) \<Rightarrow> (None, w1))"

section \<open>Lemmas\<close>

interpretation cw: strict_writer cfconfig_write Json
  unfolding cfconfig_write_def
  by (rule after_mkdir_strict, rule atomic_write_strict [where pat = "\<lambda>_. ''.cloudflare-zones-''" and pre = "[SChmod, SWrite, SSync, SClose]"])
    (simp add: rename_steps_def)

lemma unique_zones_set: "set (unique_zones zs acc) = set acc \<union> (normalize_cfzone ` set zs - {[]})"
  by (induction zs acc rule: unique_zones.induct) (auto simp: Let_def)

lemma unique_zones_distinct: "distinct acc \<Longrightarrow> distinct (unique_zones zs acc)"
  by (induction zs acc rule: unique_zones.induct) (auto simp: Let_def)

text \<open>A zone name that a second normalisation leaves alone.\<close>

definition stable_zone :: "string \<Rightarrow> bool" where
  "stable_zone z \<longleftrightarrow> normalize_cfzone z = z"

lemma unique_zones_stable:
  "\<forall>z\<in>set zs. stable_zone z \<and> z \<noteq> [] \<Longrightarrow> distinct (acc @ zs) \<Longrightarrow> unique_zones zs acc = acc @ zs"
  by (induction zs acc rule: unique_zones.induct) (auto simp: Let_def stable_zone_def)

lemma MakeConfig_stable:
  assumes "\<forall>z\<in>set (cg_zones (MakeConfig digest zones)). stable_zone z"
  shows "MakeConfig digest (cg_zones (MakeConfig digest zones)) = MakeConfig digest zones"
proof -
  let ?n = "sort (unique_zones zones [])"
  have "\<forall>z\<in>set ?n. stable_zone z \<and> z \<noteq> []" using assms unique_zones_set [of zones "[]"] by (auto simp: MakeConfig_def Let_def)
  moreover have "distinct ([] @ ?n)" using unique_zones_distinct [of "[]" zones] by simp
  ultimately have "unique_zones ?n [] = [] @ ?n" by (rule unique_zones_stable)
  then show ?thesis by (simp add: MakeConfig_def Let_def sorted_sort_id)
qed

text \<open>What was saved is loaded again with its revision, when its names survive a second normalisation.\<close>

lemma save_then_load_config:
  assumes "SaveConfig digest p zones w = (Some c, w')" and "\<forall>z\<in>set (cg_zones c). stable_zone z"
  shows "fst (LoadConfig digest p fallback (w'\<lparr>outcomes := []\<rparr>)) = Some c"
proof -
  have c: "c = MakeConfig digest zones" "cfconfig_write p (enc_cfconfig c) w = (True, w')"
    using assms(1) by (auto simp: SaveConfig_def Let_def split: prod.splits bool.splits)
  have "dec_cfconfig (enc_cfconfig c) = Some c"
    by (simp add: dec_cfconfig_def enc_cfconfig_def jget_def as_str_def as_list_map)
  then show ?thesis using cw.write_ok [OF c(2)] MakeConfig_stable assms(2) c(1)
    by (simp add: LoadConfig_def os_read_file_calm)
qed

text \<open>The condition matters: normalising strips one trailing dot only, so a name sent with two is stored with
  one and comes back, under another revision, with none.\<close>

lemma reload_changes_config:
  assumes "digest (JArr [JStr ''a.'']) \<noteq> digest (JArr [JStr ''a''])"
  shows "cg_zones (MakeConfig digest [''a..'']) = [''a.'']"
    "MakeConfig digest (cg_zones (MakeConfig digest [''a..''])) \<noteq> MakeConfig digest [''a..'']"
proof -
  have n: "normalize_cfzone ''a..'' = ''a.''" "normalize_cfzone ''a.'' = ''a''" by code_simp+
  then show "cg_zones (MakeConfig digest [''a..'']) = [''a.'']" by (simp add: MakeConfig_def)
  with n show "MakeConfig digest (cg_zones (MakeConfig digest [''a..''])) \<noteq> MakeConfig digest [''a..'']"
    by (simp add: MakeConfig_def)
qed

end
