(* ===== verification/ApiServer.thy ===== *)
theory ApiServer
  imports ZoneStore Blocking ApiStatus ApiAudit CloudflareApply CloudflareConfig
begin

text \<open>
  The handlers of the control API (internal/api/server.go) over the zone store, the blocklist
  configuration, the Cloudflare integration, the audit log and the health reports.

  The server's \<open>CloudflareReader\<close> is an interface in the source; here it is a record of functions over
  the state \<open>'c\<close> of the service behind it.  A reply carries the value before it is printed as
  JSON.  A request body is a JSON value whose objects name no field twice, or the message of the
  decoder (bad syntax, too large, more than one value).  A panic in a handler is recovered by
  \<open>net/http\<close>, which closes the connection: no reply, here the status 0.
\<close>

section \<open>Requests, replies and the server\<close>

record api_req =
  q_zone :: string                   \<comment> \<open>the path value\<close>
  q_query :: "string \<Rightarrow> string"       \<comment> \<open>the URL parameters\<close>
  q_body :: "string + jvalue"
  q_if_match :: string
  q_request_id :: string
  q_actor :: string
  q_remote :: string
  q_peer :: bool                     \<comment> \<open>the header of a peer's own probe\<close>
  q_now :: gotime
  q_later :: gotime
  q_probes :: probes                 \<comment> \<open>what the peer answers while the request is handled\<close>
  q_sources :: "string option list"  \<comment> \<open>what the metric sources answer\<close>

datatype payload =
    PError string
  | PAborted                         \<comment> \<open>a panic in the handler: no reply\<close>
  | PMessage string
  | PChange ChangeResult
  | PLifecycle LifecycleResult
  | PZone Zone
  | PZones "Zone list"
  | PRevisions Zone "Revision list"
  | PBlocking blConfig
  | PBlockingResult blResult
  | PRefresh RefreshRequest
  | PReport rsReport
  | PHaStatus haStatusResponse
  | PText string
  | PAudit "log_line list" nat
  | PNames "string list"
  | PCfConfig cfConfig
  | PCfRecords ZoneRecords
  | PCfPlan Plan
  | PCfResult ApplyResult

record reply =
  y_status :: nat
  y_etag :: "string option"
  y_payload :: payload

record 'c cf_reader =
  cf_list :: "string \<Rightarrow> 'c \<Rightarrow> (cferr + ZoneRecords) \<times> 'c"
  cf_plan :: "string \<Rightarrow> string \<Rightarrow> cfChange list \<Rightarrow> 'c \<Rightarrow> (cferr + Plan) \<times> 'c"
  cf_apply :: "string \<Rightarrow> ApplyRequest \<Rightarrow> world \<Rightarrow> 'c \<Rightarrow> (ApplyResult \<times> cferr option) \<times> world \<times> 'c"

record 'c api_config =
  sr_store :: store
  sr_blocking :: path
  sr_readOnly :: bool
  sr_statusDir :: path
  sr_cloudflare :: "'c cf_reader option"
  sr_cfConfigPath :: path
  sr_url :: url_parser
  sr_digest :: "jvalue \<Rightarrow> string"
  sr_ord :: "nat list"               \<comment> \<open>the order of the map iteration in \<open>blocking.Update\<close>\<close>
  sr_mtime :: "path \<Rightarrow> gotime"
  sr_ha :: ha_config
  sr_owned :: "string \<Rightarrow> bool"         \<comment> \<open>whether an address is one of this host's\<close>
  sr_auditPath :: path
  sr_nbytes :: "log_line \<Rightarrow> nat"

record 'c api_server =
  sr_seq :: nat
  sr_cfConfig :: cfConfig
  sr_cfZones :: "string list"
  sr_applies :: nat
  sr_failures :: nat
  sr_rollbacks :: nat
  sr_service :: 'c
  sr_world :: world

text \<open>The counters are \<open>atomic.Uint64\<close>.\<close>

definition bump :: "nat \<Rightarrow> nat" where
  "bump n = Suc n mod 2 ^ 64"

definition quoteETag :: "string \<Rightarrow> string" where
  "quoteETag v = [CHR 0x22] @ v @ [CHR 0x22]"

definition writeError :: "nat \<Rightarrow> string \<Rightarrow> reply" where
  "writeError status message = \<lparr>y_status = status, y_etag = None, y_payload = PError message\<rparr>"

definition writeJSON :: "nat \<Rightarrow> payload \<Rightarrow> reply" where
  "writeJSON status value = \<lparr>y_status = status, y_etag = None, y_payload = value\<rparr>"

definition with_etag :: "string \<Rightarrow> reply \<Rightarrow> reply" where
  "with_etag v r = r\<lparr>y_etag := Some (quoteETag v)\<rparr>"

definition aborted :: reply where
  "aborted = \<lparr>y_status = 0, y_etag = None, y_payload = PAborted\<rparr>"

definition readOnlyReply :: reply where
  "readOnlyReply = writeError 403 ''this RillDNS API instance is read-only''"

section \<open>Decoding requests\<close>

text \<open>\<open>DisallowUnknownFields\<close>: field names match ignoring case.\<close>

definition known_fields :: "string list \<Rightarrow> jvalue \<Rightarrow> bool" where
  "known_fields ks j =
     (case j of JObj fs \<Rightarrow> list_all (\<lambda>(k, _). list_ex (equal_fold k) ks) fs | JNull \<Rightarrow> True | _ \<Rightarrow> False)"

definition get_field :: "jvalue \<Rightarrow> string \<Rightarrow> jvalue option" where
  "get_field j k =
     (case j of
        JObj fs \<Rightarrow> Some (case filter (\<lambda>(n, _). equal_fold n k) fs of [] \<Rightarrow> JNull | ms \<Rightarrow> snd (last ms))
      | JNull \<Rightarrow> Some JNull
      | _ \<Rightarrow> None)"

definition f_str :: "jvalue \<Rightarrow> string \<Rightarrow> string option" where
  "f_str j k = Option.bind (get_field j k) as_str"

definition f_bool :: "jvalue \<Rightarrow> string \<Rightarrow> bool option" where
  "f_bool j k = Option.bind (get_field j k) as_bool"

definition f_strs :: "jvalue \<Rightarrow> string \<Rightarrow> string list option" where
  "f_strs j k = Option.bind (get_field j k) (as_list as_str)"

definition f_uint32 :: "jvalue \<Rightarrow> string \<Rightarrow> uint32 option" where
  "f_uint32 j k =
     (case Option.bind (get_field j k) as_uint64 of None \<Rightarrow> None | Some n \<Rightarrow> if n < 2 ^ 32 then Some (of_nat n) else None)"

definition dec_Change :: "jvalue \<Rightarrow> Change option" where
  "dec_Change j =
     (if \<not> known_fields [''action'', ''name'', ''type'', ''ttl'', ''records''] j then None
      else case (f_str j ''action'', f_str j ''name'', f_str j ''type'', f_uint32 j ''ttl'', f_strs j ''records'') of
             (Some a, Some n, Some t, Some ttl, Some rs) \<Rightarrow>
               Some \<lparr>ch_action = a, ch_name = n, ch_type = t, ch_ttl = ttl, ch_records = rs\<rparr>
           | _ \<Rightarrow> None)"

definition dec_ChangeRequest :: "jvalue \<Rightarrow> ChangeRequest option" where
  "dec_ChangeRequest j =
     (if \<not> known_fields [''expected_revision'', ''dry_run'', ''changes''] j then None
      else case (f_str j ''expected_revision'', f_bool j ''dry_run'', Option.bind (get_field j ''changes'') (as_list dec_Change)) of
             (Some e, Some d, Some cs) \<Rightarrow> Some \<lparr>cr_expected = e, cr_dry_run = d, cr_changes = cs\<rparr>
           | _ \<Rightarrow> None)"

definition dec_RollbackRequest :: "jvalue \<Rightarrow> RollbackRequest option" where
  "dec_RollbackRequest j =
     (if \<not> known_fields [''expected_revision'', ''target_revision'', ''dry_run''] j then None
      else case (f_str j ''expected_revision'', f_str j ''target_revision'', f_bool j ''dry_run'') of
             (Some e, Some t, Some d) \<Rightarrow> Some \<lparr>rb_expected = e, rb_target = t, rb_dry_run = d\<rparr>
           | _ \<Rightarrow> None)"

definition dec_LifecycleRequest :: "jvalue \<Rightarrow> LifecycleRequest option" where
  "dec_LifecycleRequest j =
     (if \<not> known_fields [''role'', ''zone_text'', ''expected_revision'', ''dry_run''] j then None
      else case (f_str j ''role'', f_str j ''zone_text'', f_str j ''expected_revision'', f_bool j ''dry_run'') of
             (Some r, Some t, Some e, Some d) \<Rightarrow> Some \<lparr>lr_role = r, lr_zone_text = t, lr_expected = e, lr_dry_run = d\<rparr>
           | _ \<Rightarrow> None)"

definition dec_blRequest :: "jvalue \<Rightarrow> blRequest option" where
  "dec_blRequest j =
     (if \<not> known_fields [''sources'', ''allow'', ''deny'', ''expected_revision'', ''dry_run''] j then None
      else case (f_strs j ''sources'', f_strs j ''allow'', f_strs j ''deny'', f_str j ''expected_revision'', f_bool j ''dry_run'') of
             (Some s, Some a, Some d, Some e, Some dr) \<Rightarrow>
               Some \<lparr>br_sources = s, br_allow = a, br_deny = d, br_expected = e, br_dry_run = dr\<rparr>
           | _ \<Rightarrow> None)"

record cfConfigInput =
  ci_zones :: "string list"
  ci_expected :: string
  ci_dry_run :: bool

definition dec_cfConfigInput :: "jvalue \<Rightarrow> cfConfigInput option" where
  "dec_cfConfigInput j =
     (if \<not> known_fields [''zones'', ''expected_revision'', ''dry_run''] j then None
      else case (f_strs j ''zones'', f_str j ''expected_revision'', f_bool j ''dry_run'') of
             (Some z, Some e, Some d) \<Rightarrow> Some \<lparr>ci_zones = z, ci_expected = e, ci_dry_run = d\<rparr>
           | _ \<Rightarrow> None)"

text \<open>A pointer field: null leaves it nil.\<close>

definition f_opt :: "(jvalue \<Rightarrow> 'a option) \<Rightarrow> jvalue \<Rightarrow> string \<Rightarrow> 'a option option" where
  "f_opt dec j k =
     (case get_field j k of
        None \<Rightarrow> None
      | Some JNull \<Rightarrow> Some None
      | Some v \<Rightarrow> (case dec v of None \<Rightarrow> None | Some x \<Rightarrow> Some (Some x)))"

definition dec_ProviderOptions :: "jvalue \<Rightarrow> ProviderOptions option" where
  "dec_ProviderOptions j =
     (if \<not> known_fields [''proxied'', ''comment'', ''tags''] j then None
      else case (f_opt as_bool j ''proxied'', f_opt as_str j ''comment'', f_opt (as_list as_str) j ''tags'') of
             (Some p, Some c, Some t) \<Rightarrow> Some \<lparr>po_proxied = p, po_comment = c, po_tags = t\<rparr>
           | _ \<Rightarrow> None)"

definition dec_cfChange :: "jvalue \<Rightarrow> cfChange option" where
  "dec_cfChange j =
     (if \<not> known_fields [''action'', ''name'', ''type'', ''ttl'', ''records'', ''provider''] j then None
      else case (f_str j ''action'', f_str j ''name'', f_str j ''type'', f_uint32 j ''ttl'', f_strs j ''records'',
                 Option.bind (get_field j ''provider'') dec_ProviderOptions) of
             (Some a, Some n, Some t, Some ttl, Some rs, Some p) \<Rightarrow>
               Some \<lparr>fc_action = a, fc_name = n, fc_type = t, fc_ttl = ttl, fc_records = rs, fc_provider = p\<rparr>
           | _ \<Rightarrow> None)"

definition dec_PlanRequest :: "jvalue \<Rightarrow> (string \<times> cfChange list) option" where
  "dec_PlanRequest j =
     (if \<not> known_fields [''expected_revision'', ''changes''] j then None
      else case (f_str j ''expected_revision'', Option.bind (get_field j ''changes'') (as_list dec_cfChange)) of
             (Some e, Some cs) \<Rightarrow> Some (e, cs)
           | _ \<Rightarrow> None)"

definition dec_ApplyRequest :: "jvalue \<Rightarrow> ApplyRequest option" where
  "dec_ApplyRequest j =
     (if \<not> known_fields [''expected_revision'', ''changes'', ''confirm''] j then None
      else case (f_str j ''expected_revision'', Option.bind (get_field j ''changes'') (as_list dec_cfChange), f_bool j ''confirm'') of
             (Some e, Some cs, Some c) \<Rightarrow>
               Some \<lparr>ar_expected = e, ar_changes = cs, ar_confirm = c, ar_actor = [], ar_request_id = []\<rparr>
           | _ \<Rightarrow> None)"

definition decodeJSON :: "(jvalue \<Rightarrow> 'a option) \<Rightarrow> api_req \<Rightarrow> reply + 'a" where
  "decodeJSON dec q =
     (case q_body q of
        Inl message \<Rightarrow> Inl (writeError 400 message)
      | Inr j \<Rightarrow> (case dec j of None \<Rightarrow> Inl (writeError 400 ''invalid JSON'') | Some x \<Rightarrow> Inr x))"

text \<open>\<open>strings.Trim(match, quote)\<close> and its agreement with the revision in the body.\<close>

definition trim_quotes :: "string \<Rightarrow> string" where
  "trim_quotes s = trim_by (\<lambda>c. c = CHR 0x22) s"

definition merge_if_match :: "api_req \<Rightarrow> string \<Rightarrow> reply + string" where
  "merge_if_match q expected =
     (if q_if_match q = [] then Inr expected
      else let match = trim_quotes (q_if_match q)
           in if expected \<noteq> [] \<and> expected \<noteq> match then Inl (writeError 400 ''If-Match and expected_revision disagree'')
              else Inr match)"

definition actorAndRequestID :: "api_req \<Rightarrow> 'c api_server \<Rightarrow> (string \<times> string) \<times> 'c api_server" where
  "actorAndRequestID q s =
     (let actor = (if q_actor q = [] then q_remote q else q_actor q)
      in if q_request_id q \<noteq> [] then ((actor, q_request_id q), s)
         else let n = bump (sr_seq s)
              in ((actor, nat_dec (nat (q_now q div 1000000)) @ ''-'' @ nat_dec n), s\<lparr>sr_seq := n\<rparr>))"

definition store_status :: "zerr \<Rightarrow> nat" where
  "store_status e =
     (case e of
        ErrNotFound \<Rightarrow> 404
      | ErrRevisionMismatch \<Rightarrow> 412
      | ErrAlreadyExists \<Rightarrow> 409
      | ErrReadOnlyZone \<Rightarrow> 403
      | ErrInvalidChange _ \<Rightarrow> 400
      | _ \<Rightarrow> 500)"

definition store_message :: "zerr \<Rightarrow> string" where
  "store_message e =
     (case e of
        ErrNotFound \<Rightarrow> ''zone not found''
      | ErrRevisionMismatch \<Rightarrow> ''zone revision mismatch''
      | ErrAlreadyExists \<Rightarrow> ''zone already exists''
      | ErrReadOnlyZone \<Rightarrow> ''zone is read-only''
      | ErrInvalidChange m \<Rightarrow> m | ErrParse m \<Rightarrow> m | ErrIO m \<Rightarrow> m | ErrNotPublished m \<Rightarrow> m | ErrPanic m \<Rightarrow> m
      | ErrNotExist \<Rightarrow> ''file does not exist'')"

definition writeStoreError :: "zerr \<Rightarrow> reply" where
  "writeStoreError e = (case e of ErrPanic _ \<Rightarrow> aborted | _ \<Rightarrow> writeError (store_status e) (store_message e))"

section \<open>Zones\<close>

definition changeZone :: "'c api_config \<Rightarrow> api_req \<Rightarrow> 'c api_server \<Rightarrow> reply \<times> 'c api_server" where
  "changeZone C q s =
     (if sr_readOnly C then (readOnlyReply, s)
      else case decodeJSON dec_ChangeRequest q of
        Inl r \<Rightarrow> (r, s)
      | Inr input \<Rightarrow>
          (case merge_if_match q (cr_expected input) of
             Inl r \<Rightarrow> (r, s)
           | Inr expected \<Rightarrow>
               (case actorAndRequestID q s of
                  ((actor, rid), s1) \<Rightarrow>
                    (case zoneApply (sr_store C) (q_zone q) (input\<lparr>cr_expected := expected\<rparr>) actor rid (sr_world s1) of
                       ((res, Some e), w) \<Rightarrow> (writeStoreError e, s1\<lparr>sr_world := w\<rparr>)
                     | ((res, None), w) \<Rightarrow>
                         (with_etag (cres_revision res) (writeJSON 200 (PChange res)), s1\<lparr>sr_world := w\<rparr>)))))"

definition rollbackZone :: "'c api_config \<Rightarrow> api_req \<Rightarrow> 'c api_server \<Rightarrow> reply \<times> 'c api_server" where
  "rollbackZone C q s =
     (if sr_readOnly C then (readOnlyReply, s)
      else case decodeJSON dec_RollbackRequest q of
        Inl r \<Rightarrow> (r, s)
      | Inr input \<Rightarrow>
          (case merge_if_match q (rb_expected input) of
             Inl r \<Rightarrow> (r, s)
           | Inr expected \<Rightarrow>
               (case actorAndRequestID q s of
                  ((actor, rid), s1) \<Rightarrow>
                    (case zoneRollback (sr_store C) (q_zone q) (input\<lparr>rb_expected := expected\<rparr>) actor rid (sr_world s1) of
                       ((res, Some e), w) \<Rightarrow> (writeStoreError e, s1\<lparr>sr_world := w\<rparr>)
                     | ((res, None), w) \<Rightarrow>
                         (with_etag (cres_revision res) (writeJSON 200 (PChange res)), s1\<lparr>sr_world := w\<rparr>)))))"

definition createZone :: "'c api_config \<Rightarrow> api_req \<Rightarrow> 'c api_server \<Rightarrow> reply \<times> 'c api_server" where
  "createZone C q s =
     (if sr_readOnly C then (readOnlyReply, s)
      else case decodeJSON dec_LifecycleRequest q of
        Inl r \<Rightarrow> (r, s)
      | Inr input \<Rightarrow>
          (case actorAndRequestID q s of
             ((actor, rid), s1) \<Rightarrow>
               (case zoneCreate (sr_store C) (q_zone q) input actor rid (sr_world s1) of
                  ((res, Some e), w) \<Rightarrow> (writeStoreError e, s1\<lparr>sr_world := w\<rparr>)
                | ((res, None), w) \<Rightarrow> (writeJSON 200 (PLifecycle res), s1\<lparr>sr_world := w\<rparr>))))"

definition deleteZone :: "'c api_config \<Rightarrow> api_req \<Rightarrow> 'c api_server \<Rightarrow> reply \<times> 'c api_server" where
  "deleteZone C q s =
     (if sr_readOnly C then (readOnlyReply, s)
      else case decodeJSON dec_LifecycleRequest q of
        Inl r \<Rightarrow> (r, s)
      | Inr input \<Rightarrow>
          (case merge_if_match q (lr_expected input) of
             Inl r \<Rightarrow> (r, s)
           | Inr expected \<Rightarrow>
               (case actorAndRequestID q s of
                  ((actor, rid), s1) \<Rightarrow>
                    (case zoneDelete (sr_store C) (q_zone q) (input\<lparr>lr_expected := expected\<rparr>) actor rid (sr_world s1) of
                       ((res, Some e), w) \<Rightarrow> (writeStoreError e, s1\<lparr>sr_world := w\<rparr>)
                     | ((res, None), w) \<Rightarrow> (writeJSON 200 (PLifecycle res), s1\<lparr>sr_world := w\<rparr>)))))"

definition listZones :: "'c api_config \<Rightarrow> api_req \<Rightarrow> 'c api_server \<Rightarrow> reply \<times> 'c api_server" where
  "listZones C q s =
     (case zoneList (sr_store C) (sr_world s) of
        (Inl e, w) \<Rightarrow> (writeError 500 (store_message e), s\<lparr>sr_world := w\<rparr>)
      | (Inr zs, w) \<Rightarrow> (writeJSON 200 (PZones zs), s\<lparr>sr_world := w\<rparr>))"

definition ready :: "'c api_config \<Rightarrow> api_req \<Rightarrow> 'c api_server \<Rightarrow> reply \<times> 'c api_server" where
  "ready C q s =
     (case zoneList (sr_store C) (sr_world s) of
        (Inl e, w) \<Rightarrow> (writeError 503 (store_message e), s\<lparr>sr_world := w\<rparr>)
      | (Inr _, w) \<Rightarrow> (writeJSON 200 (PMessage ''ready''), s\<lparr>sr_world := w\<rparr>))"

definition health :: "'c api_config \<Rightarrow> api_req \<Rightarrow> 'c api_server \<Rightarrow> reply \<times> 'c api_server" where
  "health C q s = (writeJSON 200 (PMessage ''ok''), s)"

definition getZone :: "'c api_config \<Rightarrow> api_req \<Rightarrow> 'c api_server \<Rightarrow> reply \<times> 'c api_server" where
  "getZone C q s =
     (case zoneGet (sr_store C) (q_zone q) (sr_world s) of
        (Inl e, w) \<Rightarrow> (writeStoreError e, s\<lparr>sr_world := w\<rparr>)
      | (Inr z, w) \<Rightarrow> (with_etag (z_revision z) (writeJSON 200 (PZone z)), s\<lparr>sr_world := w\<rparr>))"

definition listRevisions :: "'c api_config \<Rightarrow> api_req \<Rightarrow> 'c api_server \<Rightarrow> reply \<times> 'c api_server" where
  "listRevisions C q s =
     (case zoneGet (sr_store C) (q_zone q) (sr_world s) of
        (Inl e, w) \<Rightarrow> (writeStoreError e, s\<lparr>sr_world := w\<rparr>)
      | (Inr z, w) \<Rightarrow>
          (case zoneRevisions (sr_store C) (sr_mtime C) (z_name z) w of
             (Inl e, w1) \<Rightarrow> (writeStoreError e, s\<lparr>sr_world := w1\<rparr>)
           | (Inr rs, w1) \<Rightarrow> (with_etag (z_revision z) (writeJSON 200 (PRevisions z rs)), s\<lparr>sr_world := w1\<rparr>)))"

section \<open>Blocklists and refresh status\<close>

definition bl_message :: "blErr \<Rightarrow> string" where
  "bl_message e =
     (case e of
        BlRead p \<Rightarrow> ''read '' @ p
      | BlInvalid m \<Rightarrow> ''invalid blocklist configuration: '' @ m
      | BlRevisionMismatch \<Rightarrow> ''blocklist configuration revision mismatch''
      | BlWrite \<Rightarrow> ''write'')"

definition getBlocklistConfig :: "'c api_config \<Rightarrow> api_req \<Rightarrow> 'c api_server \<Rightarrow> reply \<times> 'c api_server" where
  "getBlocklistConfig C q s =
     (case blockingGet (sr_url C) (s_dns (sr_store C)) (s_sha (sr_store C)) (sr_blocking C) (sr_world s) of
        (Inl e, w) \<Rightarrow> (writeError 500 (bl_message e), s\<lparr>sr_world := w\<rparr>)
      | (Inr c, w) \<Rightarrow> (with_etag (bl_revision c) (writeJSON 200 (PBlocking c)), s\<lparr>sr_world := w\<rparr>))"

definition bl_error_status :: "blErr \<Rightarrow> nat" where
  "bl_error_status e = (case e of BlRevisionMismatch \<Rightarrow> 412 | BlInvalid _ \<Rightarrow> 400 | _ \<Rightarrow> 500)"

definition updateBlocklistConfig :: "'c api_config \<Rightarrow> api_req \<Rightarrow> 'c api_server \<Rightarrow> reply \<times> 'c api_server" where
  "updateBlocklistConfig C q s =
     (if sr_readOnly C then (readOnlyReply, s)
      else case decodeJSON dec_blRequest q of
        Inl r \<Rightarrow> (r, s)
      | Inr input \<Rightarrow>
          (case merge_if_match q (br_expected input) of
             Inl r \<Rightarrow> (r, s)
           | Inr expected \<Rightarrow>
               (case actorAndRequestID q s of
                  ((_, rid), s1) \<Rightarrow>
                    (case blockingUpdate (sr_url C) (s_dns (sr_store C)) (s_sha (sr_store C)) (sr_ord C) (sr_blocking C)
                            (input\<lparr>br_expected := expected\<rparr>) rid (sr_world s1) of
                       (Inl e, w) \<Rightarrow> (writeError (bl_error_status e) (bl_message e), s1\<lparr>sr_world := w\<rparr>)
                     | (Inr res, w) \<Rightarrow>
                         (with_etag (bl_revision (bs_config res)) (writeJSON 200 (PBlockingResult res)), s1\<lparr>sr_world := w\<rparr>)))))"

definition refreshBlocklists :: "'c api_config \<Rightarrow> api_req \<Rightarrow> 'c api_server \<Rightarrow> reply \<times> 'c api_server" where
  "refreshBlocklists C q s =
     (case actorAndRequestID q s of
        ((actor, rid), s1) \<Rightarrow>
          (case RequestRefresh (sr_blocking C) actor rid (q_now q) (sr_world s1) of
             (None, w) \<Rightarrow> (writeError 500 ''request blocklist refresh'', s1\<lparr>sr_world := w\<rparr>)
           | (Some r, w) \<Rightarrow> (writeJSON 202 (PRefresh r), s1\<lparr>sr_world := w\<rparr>)))"

definition refreshStatus :: "'c api_config \<Rightarrow> api_req \<Rightarrow> 'c api_server \<Rightarrow> reply \<times> 'c api_server" where
  "refreshStatus C q s =
     (case LoadReport (sr_statusDir C) (q_now q) (sr_world s) of
        (Inl e, w) \<Rightarrow> (writeError 503 e, s\<lparr>sr_world := w\<rparr>)
      | (Inr r, w) \<Rightarrow> (writeJSON 200 (PReport r), s\<lparr>sr_world := w\<rparr>))"

definition haStatusHandler :: "'c api_config \<Rightarrow> api_req \<Rightarrow> 'c api_server \<Rightarrow> reply \<times> 'c api_server" where
  "haStatusHandler C q s =
     (case haStatus (sr_ha C) (sr_readOnly C) (sr_statusDir C) (sr_owned C) (q_probes q) (q_now q) (q_later q) (q_peer q) (sr_world s) of
        (r, w) \<Rightarrow> (writeJSON 200 (PHaStatus r), s\<lparr>sr_world := w\<rparr>))"

definition metricsHandler :: "'c api_config \<Rightarrow> api_req \<Rightarrow> 'c api_server \<Rightarrow> reply \<times> 'c api_server" where
  "metricsHandler C q s =
     (case metrics (sr_ha C) (sr_readOnly C) (sr_statusDir C) (sr_owned C) (q_probes q)
             (sr_applies s, sr_failures s, sr_rollbacks s) (q_sources q) (q_now q) (sr_world s) of
        (Inl e, w) \<Rightarrow> (writeJSON 503 (PText e), s\<lparr>sr_world := w\<rparr>)
      | (Inr t, w) \<Rightarrow> (writeJSON 200 (PText t), s\<lparr>sr_world := w\<rparr>))"

definition listAuditHandler :: "'c api_config \<Rightarrow> api_req \<Rightarrow> 'c api_server \<Rightarrow> reply \<times> 'c api_server" where
  "listAuditHandler C q s =
     (case listAudit (sr_nbytes C) (sr_auditPath C) (q_query q ''zone'') (q_query q ''provider'') (q_query q ''actor'')
             (q_query q ''limit'') (sr_world s) of
        (AuditError status m, w) \<Rightarrow> (writeError status m, s\<lparr>sr_world := w\<rparr>)
      | (AuditOK ls skipped, w) \<Rightarrow> (writeJSON 200 (PAudit ls skipped), s\<lparr>sr_world := w\<rparr>))"

section \<open>Cloudflare\<close>

definition notConfigured :: reply where
  "notConfigured = writeError 404 ''Cloudflare integration is not configured''"

definition cloudflareZoneAllowed :: "string \<Rightarrow> 'c api_server \<Rightarrow> bool" where
  "cloudflareZoneAllowed name s = (name \<in> set (sr_cfZones s))"

definition SetCloudflare :: "(jvalue \<Rightarrow> string) \<Rightarrow> string list \<Rightarrow> 'c api_server \<Rightarrow> 'c api_server" where
  "SetCloudflare digest names s = (let c = MakeConfig digest names in s\<lparr>sr_cfConfig := c, sr_cfZones := cg_zones c\<rparr>)"

definition listCloudflareZones :: "'c api_config \<Rightarrow> api_req \<Rightarrow> 'c api_server \<Rightarrow> reply \<times> 'c api_server" where
  "listCloudflareZones C q s =
     (if sr_cloudflare C = None then (notConfigured, s) else (writeJSON 200 (PNames (sr_cfZones s)), s))"

definition getCloudflareConfig :: "'c api_config \<Rightarrow> api_req \<Rightarrow> 'c api_server \<Rightarrow> reply \<times> 'c api_server" where
  "getCloudflareConfig C q s =
     (if sr_cloudflare C = None then (notConfigured, s)
      else (with_etag (cg_revision (sr_cfConfig s)) (writeJSON 200 (PCfConfig (sr_cfConfig s))), s))"

definition cf_message :: "cferr \<Rightarrow> string" where
  "cf_message e =
     (case e of
        CfRevisionMismatch \<Rightarrow> ''revision mismatch'' | CfInvalidChange m \<Rightarrow> m | CfConfirmationRequired \<Rightarrow> ''confirmation required''
      | CfError m \<Rightarrow> m | CfPanic \<Rightarrow> [])"

definition cf_failure :: "nat \<Rightarrow> cferr \<Rightarrow> reply" where
  "cf_failure status e = (if e = CfPanic then aborted else writeError status (cf_message e))"

text \<open>The loop that lists every proposed zone once.\<close>

fun check_cfzones :: "'c cf_reader \<Rightarrow> string list \<Rightarrow> 'c \<Rightarrow> reply option \<times> 'c" where
  "check_cfzones R [] c = (None, c)"
| "check_cfzones R (z # zs) c =
     (case cf_list R z c of
        (Inl e, c1) \<Rightarrow>
          (Some (if e = CfPanic then aborted else writeError 400 (''validate Cloudflare zone '' @ z @ '': '' @ cf_message e)), c1)
      | (Inr _, c1) \<Rightarrow> check_cfzones R zs c1)"

definition updateCloudflareConfig :: "'c api_config \<Rightarrow> api_req \<Rightarrow> 'c api_server \<Rightarrow> reply \<times> 'c api_server" where
  "updateCloudflareConfig C q s =
     (if sr_readOnly C then (readOnlyReply, s)
      else case sr_cloudflare C of
        None \<Rightarrow> (notConfigured, s)
      | Some R \<Rightarrow>
          if sr_cfConfigPath C = [] then (notConfigured, s)
          else case decodeJSON dec_cfConfigInput q of
            Inl r \<Rightarrow> (r, s)
          | Inr input \<Rightarrow>
              if ci_expected input = [] \<or> ci_expected input \<noteq> cg_revision (sr_cfConfig s)
              then (writeError 412 ''Cloudflare configuration revision mismatch'', s)
              else let proposed = MakeConfig (sr_digest C) (ci_zones input)
                   in case check_cfzones R (cg_zones proposed) (sr_service s) of
                        (Some r, c) \<Rightarrow> (r, s\<lparr>sr_service := c\<rparr>)
                      | (None, c) \<Rightarrow>
                          if ci_dry_run input
                          then (with_etag (cg_revision proposed) (writeJSON 200 (PCfConfig proposed)), s\<lparr>sr_service := c\<rparr>)
                          else (case SaveConfig (sr_digest C) (sr_cfConfigPath C) (cg_zones proposed) (sr_world s) of
                                  (None, w) \<Rightarrow> (writeError 500 ''save'', s\<lparr>sr_service := c, sr_world := w\<rparr>)
                                | (Some saved, w) \<Rightarrow>
                                    (with_etag (cg_revision saved) (writeJSON 200 (PCfConfig saved)),
                                     s\<lparr>sr_service := c, sr_world := w, sr_cfConfig := saved, sr_cfZones := cg_zones saved\<rparr>)))"

definition getCloudflareRecords :: "'c api_config \<Rightarrow> api_req \<Rightarrow> 'c api_server \<Rightarrow> reply \<times> 'c api_server" where
  "getCloudflareRecords C q s =
     (case sr_cloudflare C of
        None \<Rightarrow> (notConfigured, s)
      | Some R \<Rightarrow>
          (let name = normalize_cfzone (q_zone q)
           in if \<not> cloudflareZoneAllowed name s then (writeError 404 ''Cloudflare zone is not configured'', s)
              else case cf_list R name (sr_service s) of
                     (Inl e, c) \<Rightarrow> (cf_failure 502 e, s\<lparr>sr_service := c\<rparr>)
                   | (Inr z, c) \<Rightarrow> (with_etag (zr_revision z) (writeJSON 200 (PCfRecords z)), s\<lparr>sr_service := c\<rparr>)))"

definition plan_status :: "cferr \<Rightarrow> nat" where
  "plan_status e = (case e of CfRevisionMismatch \<Rightarrow> 412 | CfInvalidChange _ \<Rightarrow> 400 | _ \<Rightarrow> 502)"

definition planCloudflareChanges :: "'c api_config \<Rightarrow> api_req \<Rightarrow> 'c api_server \<Rightarrow> reply \<times> 'c api_server" where
  "planCloudflareChanges C q s =
     (case sr_cloudflare C of
        None \<Rightarrow> (notConfigured, s)
      | Some R \<Rightarrow>
          (let name = normalize_cfzone (q_zone q)
           in if \<not> cloudflareZoneAllowed name s then (writeError 404 ''Cloudflare zone is not configured'', s)
              else case decodeJSON dec_PlanRequest q of
                     Inl r \<Rightarrow> (r, s)
                   | Inr (e, changes) \<Rightarrow>
                       (case merge_if_match q e of
                          Inl r \<Rightarrow> (r, s)
                        | Inr expected \<Rightarrow>
                            (case cf_plan R name expected changes (sr_service s) of
                               (Inl err, c) \<Rightarrow> (cf_failure (plan_status err) err, s\<lparr>sr_service := c\<rparr>)
                             | (Inr p, c) \<Rightarrow> (writeJSON 200 (PCfPlan p), s\<lparr>sr_service := c\<rparr>)))))"

definition apply_status :: "cferr \<Rightarrow> nat" where
  "apply_status e =
     (case e of CfConfirmationRequired \<Rightarrow> 400 | CfRevisionMismatch \<Rightarrow> 412 | CfInvalidChange _ \<Rightarrow> 400 | _ \<Rightarrow> 502)"

definition applyCloudflareChanges :: "'c api_config \<Rightarrow> api_req \<Rightarrow> 'c api_server \<Rightarrow> reply \<times> 'c api_server" where
  "applyCloudflareChanges C q s =
     (if sr_readOnly C then (readOnlyReply, s)
      else case sr_cloudflare C of
        None \<Rightarrow> (notConfigured, s)
      | Some R \<Rightarrow>
          (let name = normalize_cfzone (q_zone q)
           in if \<not> cloudflareZoneAllowed name s then (writeError 404 ''Cloudflare zone is not configured'', s)
              else case decodeJSON dec_ApplyRequest q of
                     Inl r \<Rightarrow> (r, s)
                   | Inr input \<Rightarrow>
                       (case merge_if_match q (ar_expected input) of
                          Inl r \<Rightarrow> (r, s)
                        | Inr expected \<Rightarrow>
                            (case actorAndRequestID q s of
                               ((actor, rid), s1) \<Rightarrow>
                                 (case cf_apply R name (input\<lparr>ar_expected := expected, ar_actor := actor, ar_request_id := rid\<rparr>)
                                         (sr_world s1) (sr_service s1) of
                                    ((res, Some err), w, c) \<Rightarrow>
                                      (cf_failure (apply_status err) err,
                                       s1\<lparr>sr_world := w, sr_service := c, sr_failures := (if err = CfPanic then sr_failures s1 else bump (sr_failures s1))\<rparr>)
                                  | ((res, None), w, c) \<Rightarrow>
                                      (with_etag (at_revision res) (writeJSON 200 (PCfResult res)),
                                       s1\<lparr>sr_world := w, sr_service := c, sr_applies := bump (sr_applies s1),
                                          sr_rollbacks := (if at_rolled_back res then bump (sr_rollbacks s1) else sr_rollbacks s1)\<rparr>))))))"

section \<open>Routes\<close>

datatype route =
    RHealth | RReady | RListZones | RListAudit | RHaStatus | RMetrics | RGetZone | RListRevisions | RChangeZone | RRollbackZone | RCreateZone | RDeleteZone
  | RGetBlocklist | RUpdateBlocklist | RRefreshBlocklists | RRefreshStatus
  | RCfZones | RCfConfig | RCfUpdateConfig | RCfRecords | RCfPlan | RCfApply

definition serve :: "'c api_config \<Rightarrow> route \<Rightarrow> api_req \<Rightarrow> 'c api_server \<Rightarrow> reply \<times> 'c api_server" where
  "serve C r =
     (case r of
        RHealth \<Rightarrow> health C | RListAudit \<Rightarrow> listAuditHandler C | RHaStatus \<Rightarrow> haStatusHandler C | RMetrics \<Rightarrow> metricsHandler C
      | RReady \<Rightarrow> ready C | RListZones \<Rightarrow> listZones C | RGetZone \<Rightarrow> getZone C
      | RListRevisions \<Rightarrow> listRevisions C | RChangeZone \<Rightarrow> changeZone C | RRollbackZone \<Rightarrow> rollbackZone C
      | RCreateZone \<Rightarrow> createZone C | RDeleteZone \<Rightarrow> deleteZone C | RGetBlocklist \<Rightarrow> getBlocklistConfig C
      | RUpdateBlocklist \<Rightarrow> updateBlocklistConfig C | RRefreshBlocklists \<Rightarrow> refreshBlocklists C
      | RRefreshStatus \<Rightarrow> refreshStatus C | RCfZones \<Rightarrow> listCloudflareZones C | RCfConfig \<Rightarrow> getCloudflareConfig C
      | RCfUpdateConfig \<Rightarrow> updateCloudflareConfig C | RCfRecords \<Rightarrow> getCloudflareRecords C
      | RCfPlan \<Rightarrow> planCloudflareChanges C | RCfApply \<Rightarrow> applyCloudflareChanges C)"

end
