(* ===== verification/BlockingTheorems.thy ===== *)
theory BlockingTheorems
  imports Blocking "HOL-Library.Code_Target_Nat"
begin

text \<open>
  Properties of the blocklist configuration: what is stored can be read back with the same revision,
  and a replacement shows every file either as it was or complete.
\<close>

section \<open>Writers of several files\<close>

context atomic_writer
begin

text \<open>At every instant every file of the list is as before or complete, and nothing else changes.\<close>

definition mixed :: "(path \<times> 'v) list \<Rightarrow> world \<Rightarrow> disk_t \<Rightarrow> bool" where
  "mixed pvs w d \<longleftrightarrow> (\<forall>p. \<not> ends_digit p \<longrightarrow> map_of d p = flookup w p \<or> (\<exists>v. (p, v) \<in> set pvs \<and> map_of d p = Some (enc v)))"

lemma write_files_within: "write_files put_file pvs w = (ok, w') \<Longrightarrow> within (mixed pvs w) w w'"
proof (induction pvs arbitrary: w)
  case Nil
  then show ?case by (simp add: within_refl mixed_def)
next
  case (Cons pv rest)
  obtain p v where pv: "pv = (p, v)" by fastforce
  obtain ok1 w1 where w1: "put_file p v w = (ok1, w1)" by fastforce
  have near: "mixed (pv # rest) w d" if "near p (enc v) w d" for d using that pv by (auto simp: mixed_def near_def)
  have first: "within (mixed (pv # rest) w) w w1" using write_within [OF w1] near by blast
  show ?case
  proof (cases ok1)
    case True
    then have r: "write_files put_file rest w1 = (ok, w')" using Cons.prems pv w1 by simp
    have "mixed (pv # rest) w d" if "mixed rest w1 d" for d
    proof -
      have "mixed (pv # rest) w (disk w1)" using within_final [OF first] .
      then show ?thesis using that by (auto simp: mixed_def) metis
    qed
    then have "within (mixed (pv # rest) w) w1 w'" using Cons.IH [OF r] by (auto simp: within_def)
    then show ?thesis using within_trans [OF first] by blast
  next
    case False
    then show ?thesis using Cons.prems pv w1 first by simp
  qed
qed

end

definition bl_text :: "string list \<Rightarrow> fdata" where
  "bl_text values = Text (join [CHR 0x0A] values @ [CHR 0x0A])"

interpretation bw: strict_writer bl_writeAtomic bl_text
proof -
  have eq: "bl_writeAtomic = (\<lambda>p v. atomic_write ((\<lambda>_. ''.blocking-'') p) [SWrite, SChmod, SClose, SRename] p (bl_text v))"
    by (simp add: fun_eq_iff bl_writeAtomic_def bl_text_def)
  have "rename_steps [SWrite, SChmod, SClose, SRename] [SWrite, SChmod, SClose] []" by (simp add: rename_steps_def)
  from atomic_write_strict [where pat = "\<lambda>_. ''.blocking-''" and enc = bl_text, OF this]
  show "strict_writer bl_writeAtomic bl_text" by (simp only: eq)
qed

section \<open>Reading back what was written\<close>

definition line_ok :: "string \<Rightarrow> bool" where
  "line_ok l \<longleftrightarrow> CHR 0x0A \<notin> set l \<and> trim_space l = l \<and> l \<noteq> [] \<and> \<not> has_prefix l ''#''"

lemma join_newline: "xs \<noteq> [] \<Longrightarrow> join [c] xs @ [c] = join [c] (xs @ [[]])"
  by (induction "[c]" xs rule: join.induct) auto

lemma lines_of_text: "\<forall>l\<in>set ls. line_ok l \<Longrightarrow> lines_of (join [CHR 0x0A] ls @ [CHR 0x0A]) = ls"
proof (cases "ls = []")
  case True
  then show ?thesis by (simp add: lines_of_def split_on_def trim_space_def trim_by_def)
next
  case False
  assume ok: "\<forall>l\<in>set ls. line_ok l"
  then have "split_on (CHR 0x0A) (join [CHR 0x0A] ls @ [CHR 0x0A]) = ls @ [[]]"
    unfolding join_newline [OF False] by (intro split_on_join) (auto simp: line_ok_def)
  moreover have "map trim_space ls = ls" using ok by (intro map_idI) (simp add: line_ok_def)
  moreover have "filter (\<lambda>l. l \<noteq> [] \<and> \<not> has_prefix l ''#'') ls = ls" using ok by (intro filter_True) (simp add: line_ok_def)
  ultimately show ?thesis by (simp add: lines_of_def trim_space_def trim_by_def)
qed

lemma unique_loop_Inr:
  "unique_loop norm vs acc = Inr rs \<Longrightarrow> distinct acc \<Longrightarrow>
     distinct rs \<and> set rs = set acc \<union> {r. \<exists>v\<in>set vs. norm v = Inr r} \<and> length rs \<le> length acc + length vs"
proof (induction vs arbitrary: acc)
  case (Cons v vs)
  then obtain r where r: "norm v = Inr r" by (auto split: sum.splits)
  then show ?case using Cons.IH [of "if r \<in> set acc then acc else acc @ [r]"] Cons.prems
    by (auto split: if_splits)
qed auto

lemma unique_loop_stable:
  "\<forall>r\<in>set rs. norm r = Inr r \<Longrightarrow> distinct (acc @ rs) \<Longrightarrow> unique_loop norm rs acc = Inr (acc @ rs)"
  by (induction rs arbitrary: acc) auto

lemma unique_values_Inr:
  assumes "unique_values norm vs = Inr rs"
  shows "sorted rs" "distinct rs" "set rs = {r. \<exists>v\<in>set vs. norm v = Inr r}" "length rs \<le> length vs" "vs \<noteq> [] \<longrightarrow> rs \<noteq> []"
proof -
  obtain us where u: "unique_loop norm vs [] = Inr us" and rs: "rs = sort us"
    using assms by (auto simp: unique_values_def split: sum.splits)
  show "sorted rs" "distinct rs" "set rs = {r. \<exists>v\<in>set vs. norm v = Inr r}" "length rs \<le> length vs"
    using unique_loop_Inr [OF u] rs by auto
  show "vs \<noteq> [] \<longrightarrow> rs \<noteq> []"
  proof (cases vs)
    case (Cons v vs')
    then obtain r where "norm v = Inr r" using u by (auto split: sum.splits)
    then have "r \<in> set rs" using unique_loop_Inr [OF u] rs Cons by auto
    then show ?thesis by auto
  qed simp
qed

lemma unique_values_stable:
  "sorted rs \<Longrightarrow> distinct rs \<Longrightarrow> \<forall>r\<in>set rs. norm r = Inr r \<Longrightarrow> unique_values norm rs = Inr rs"
  using unique_loop_stable [of rs norm "[]"] by (simp add: unique_values_def sorted_sort_id)

text \<open>
  The values that survive a reload: a URL whose printed form parses to itself and is a line of its own,
  a domain with no white space and no final dot left.
\<close>

definition stable_source :: "url_parser \<Rightarrow> string \<Rightarrow> bool" where
  "stable_source U v \<longleftrightarrow> line_ok v \<and> normalizeSource U v = Inr v"

definition plain_domain :: "string \<Rightarrow> bool" where
  "plain_domain d \<longleftrightarrow> (\<forall>c\<in>set d. \<not> is_space c) \<and> \<not> suffix ''.'' d"

definition readable :: "url_parser \<Rightarrow> blConfig \<Rightarrow> bool" where
  "readable U c \<longleftrightarrow> (\<forall>v\<in>set (bl_sources c). stable_source U v) \<and> (\<forall>d\<in>set (bl_allow c) \<union> set (bl_deny c). plain_domain d)"

lemma if_Inr_iff: "(if P then Inl a else Inr b) = Inr d \<longleftrightarrow> \<not> P \<and> b = d"
  by simp

lemma normalizeDomain_iff:
  "normalizeDomain D v = Inr d \<longleftrightarrow>
     to_lower (trim_suffix (trim_space v) ''.'') = d \<and> d \<noteq> [] \<and> d \<noteq> ''localhost'' \<and> validDomain D d"
  unfolding normalizeDomain_def Let_def if_Inr_iff by blast

lemma normalizeDomain_stable:
  assumes n: "normalizeDomain D v = Inr d" and p: "plain_domain d"
  shows "normalizeDomain D d = Inr d" "line_ok d"
proof -
  note v = n [unfolded normalizeDomain_iff]
  have low: "to_lower d = d" using v to_lower_idem by blast
  have sp: "\<not> is_space c" if "c \<in> set d" for c using that p by (simp add: plain_domain_def)
  then have t: "trim_space d = d" using v unfolding trim_space_def by (intro trim_by_id) (metis hd_in_set last_in_set)
  have "trim_suffix d ''.'' = d" using p by (intro trim_suffix_not) (simp add: plain_domain_def)
  then show "normalizeDomain D d = Inr d" unfolding normalizeDomain_iff t low using v low by metis
  have nl: "CHR 0x0A \<notin> set d" using sp [of "CHR 0x0A"] by (auto simp: is_space_def)
  have "\<not> has_prefix d ''#''"
  proof
    assume "has_prefix d ''#''"
    then have "CHR ''#'' \<in> set d" by (auto simp: has_prefix_def prefix_def)
    moreover have "\<not> contains_any d '' /:#''" using v by (simp add: validDomain_def)
    ultimately show False by (auto simp: contains_any_def list_ex_iff)
  qed
  then show "line_ok d" using t v nl by (simp add: line_ok_def)
qed

lemma normalize_bl_Inr:
  assumes "normalize_bl U D s a d = Inr c"
  shows "s \<noteq> []" "length s \<le> 32" "unique_values (normalizeSource U) s = Inr (bl_sources c)"
    "unique_values (normalizeDomain D) a = Inr (bl_allow c)" "unique_values (normalizeDomain D) d = Inr (bl_deny c)"
    "bl_revision c = []"
  using assms by (auto simp: normalize_bl_def split: sum.splits if_splits)

lemma normalize_bl_stable:
  assumes n: "normalize_bl U D s a d = Inr c" and r: "readable U c"
  shows "normalize_bl U D (bl_sources c) (bl_allow c) (bl_deny c) = Inr c"
    "\<forall>l\<in>set (bl_sources c) \<union> set (bl_allow c) \<union> set (bl_deny c). line_ok l"
proof -
  note c = normalize_bl_Inr [OF n]
  have dom: "normalizeDomain D x = Inr x \<and> line_ok x"
    if "unique_values (normalizeDomain D) xs = Inr ys" "x \<in> set ys" "plain_domain x" for xs ys x
    using unique_values_Inr(3) [OF that(1)] that(2,3) normalizeDomain_stable by blast
  have al: "\<forall>x\<in>set (bl_allow c). normalizeDomain D x = Inr x \<and> line_ok x"
    and de: "\<forall>x\<in>set (bl_deny c). normalizeDomain D x = Inr x \<and> line_ok x"
    using dom [OF c(4)] dom [OF c(5)] r by (auto simp: readable_def)
  have so: "\<forall>x\<in>set (bl_sources c). normalizeSource U x = Inr x \<and> line_ok x" using r by (simp add: readable_def stable_source_def)
  have "unique_values (normalizeSource U) (bl_sources c) = Inr (bl_sources c)"
    "unique_values (normalizeDomain D) (bl_allow c) = Inr (bl_allow c)"
    "unique_values (normalizeDomain D) (bl_deny c) = Inr (bl_deny c)"
    using unique_values_stable [OF unique_values_Inr(1,2) [OF c(3)]] unique_values_stable [OF unique_values_Inr(1,2) [OF c(4)]]
      unique_values_stable [OF unique_values_Inr(1,2) [OF c(5)]] al de so by auto
  then show "normalize_bl U D (bl_sources c) (bl_allow c) (bl_deny c) = Inr c"
    using unique_values_Inr(4,5) [OF c(3)] c(1,2,6) by (simp add: normalize_bl_def)
  show "\<forall>l\<in>set (bl_sources c) \<union> set (bl_allow c) \<union> set (bl_deny c). line_ok l" using al de so by auto
qed

lemma bl_readLines_calm:
  "calm w \<Longrightarrow> flookup w p = Some (bl_text ls) \<Longrightarrow> \<forall>l\<in>set ls. line_ok l \<Longrightarrow> bl_readLines p w = (Inr ls, w)"
  by (simp add: bl_readLines_def os_read_file_calm bl_text_def lines_of_text)

lemma bl_readLines_frame: "bl_readLines p w = (r, w') \<Longrightarrow> disk w' = disk w \<and> snaps w' = snaps w"
  by (auto simp: bl_readLines_def split: prod.splits sum.splits fdata.splits dest: os_read_file_frame)

lemma blockingGet_frame: "blockingGet U D sha dir w = (r, w') \<Longrightarrow> disk w' = disk w \<and> snaps w' = snaps w"
  by (auto simp: blockingGet_def split: prod.splits sum.splits dest!: bl_readLines_frame)

lemma bl_readLines_keeps_calm:
  assumes "calm w" shows "snd (bl_readLines p w) = w"
proof (cases "flookup w p")
  case None
  then show ?thesis using assms by (simp add: bl_readLines_def os_read_file_calm)
next
  case (Some f)
  then show ?thesis using assms by (cases f) (simp_all add: bl_readLines_def os_read_file_calm)
qed

lemma blockingGet_calm: "calm w \<Longrightarrow> snd (blockingGet U D sha dir w) = w"
proof -
  assume c: "calm w"
  have r: "\<exists>x. bl_readLines p w = (x, w)" for p using bl_readLines_keeps_calm [OF c, of p] by (metis prod.collapse)
  obtain a b d where "bl_readLines (path_join dir ''sources.txt'') w = (a, w)" "bl_readLines (path_join dir ''allow.txt'') w = (b, w)"
    "bl_readLines (path_join dir ''deny.txt'') w = (d, w)" using r by blast
  then show ?thesis by (cases a; cases b; cases d) (simp_all add: blockingGet_def split: sum.splits)
qed

lemma blockingGet_stored:
  assumes "calm w" and n: "normalize_bl U D s a d = Inr c" and r: "readable U c"
    and f: "\<forall>(p, v)\<in>set (bl_files dir c). flookup w p = Some (bl_text v)"
  shows "blockingGet U D sha dir w = (Inr (with_revision sha c), w)"
  using assms normalize_bl_stable [OF n r] by (simp add: blockingGet_def bl_readLines_calm bl_files_def)

section \<open>Replacing the configuration\<close>

lemma blockingUpdate_cases:
  assumes run: "blockingUpdate U D sha ord dir req rid w = (r, w')"
  obtains (stopped) "disk w' = disk w" "snaps w' = snaps w" "\<forall>res. r = Inr res \<longrightarrow> \<not> bs_published res"
  | (written) cur w1 c ok where "blockingGet U D sha dir w = (Inr cur, w1)" "br_expected req = bl_revision cur"
      "normalize_bl U D (br_sources req) (br_allow req) (br_deny req) = Inr c"
      "write_files bl_writeAtomic (map (\<lambda>i. bl_files dir c ! i) ord) w1 = (ok, w')"
      "r = (if ok then Inr \<lparr>bs_config = with_revision sha c, bs_previous = bl_revision cur, bs_dry_run = False,
              bs_published = True, bs_request_id = rid\<rparr> else Inl BlWrite)"
proof -
  obtain g w1 where g: "blockingGet U D sha dir w = (g, w1)" by fastforce
  note f = blockingGet_frame [OF g]
  show thesis
  proof (cases g)
    case (Inl e)
    then show thesis using stopped run g f by (auto simp: blockingUpdate_def)
  next
    case (Inr cur)
    show thesis
    proof (cases "br_expected req = [] \<or> br_expected req \<noteq> bl_revision cur")
      case True
      then show thesis using stopped run g f Inr by (auto simp: blockingUpdate_def)
    next
      case ok: False
      show thesis
      proof (cases "normalize_bl U D (br_sources req) (br_allow req) (br_deny req)")
        case (Inl e)
        then show thesis using stopped run g f Inr ok by (auto simp: blockingUpdate_def)
      next
        case n: (Inr c)
        show thesis
        proof (cases "br_dry_run req")
          case True
          then show thesis using stopped run g f Inr ok n by (auto simp: blockingUpdate_def Let_def)
        next
          case False
          obtain k w2 where w: "write_files bl_writeAtomic (map (\<lambda>i. bl_files dir c ! i) ord) w1 = (k, w2)" by fastforce
          show thesis using run g Inr ok n False w
            by (intro written [of cur w1 c k]) (auto simp: blockingUpdate_def Let_def split: bool.splits)
        qed
      qed
    qed
  qed
qed

lemma bl_files_ord: "mset ord = mset [0, 1, 2] \<Longrightarrow> mset (map (\<lambda>i. bl_files dir c ! i) ord) = mset (bl_files dir c)"
proof -
  assume "mset ord = mset [0, 1, 2::nat]"
  then have "mset (map (\<lambda>i. bl_files dir c ! i) ord) = image_mset (\<lambda>i. bl_files dir c ! i) (mset [0, 1, 2])" by simp
  then show ?thesis by (simp add: bl_files_def)
qed

lemma ends_digit_append: "q \<noteq> [] \<Longrightarrow> ends_digit (p @ q) = ends_digit q"
  by (simp add: ends_digit_def)

lemma bl_files_distinct: "distinct (map fst (bl_files dir c))" "\<forall>(p, v)\<in>set (bl_files dir c). \<not> ends_digit p"
  by (simp_all add: bl_files_def path_join_def ends_digit_def is_digit_def)

text \<open>The disks that may be seen while a replacement is under way.\<close>

definition bl_instant :: "url_parser \<Rightarrow> dnslib \<Rightarrow> (bytes \<Rightarrow> string) \<Rightarrow> path \<Rightarrow> blRequest \<Rightarrow> world \<Rightarrow> disk_t \<Rightarrow> bool" where
  "bl_instant U D sha dir req w d \<longleftrightarrow> (\<forall>p. \<not> ends_digit p \<longrightarrow> map_of d p = flookup w p \<or>
     (\<exists>cur c v. fst (blockingGet U D sha dir w) = Inr cur \<and> br_expected req = bl_revision cur \<and>
        normalize_bl U D (br_sources req) (br_allow req) (br_deny req) = Inr c \<and>
        (p, v) \<in> set (bl_files dir c) \<and> map_of d p = Some (bl_text v)))"

lemma update_instants:
  assumes run: "blockingUpdate U D sha ord dir req rid w = (r, w')" and ord: "mset ord = mset [0, 1, 2]"
  shows "within (bl_instant U D sha dir req w) w w'"
  using run
proof (cases rule: blockingUpdate_cases)
  case stopped
  then show ?thesis by (intro within_refl) (simp_all add: bl_instant_def)
next
  case (written cur w1 c ok)
  have s: "set (map (\<lambda>i. bl_files dir c ! i) ord) = set (bl_files dir c)" using bl_files_ord [OF ord] by (metis set_mset_mset)
  have f: "disk w1 = disk w" "snaps w1 = snaps w" using blockingGet_frame [OF written(1)] by simp_all
  have "bl_instant U D sha dir req w d" if "bw.mixed (map (\<lambda>i. bl_files dir c ! i) ord) w1 d" for d
    using that written(1,2,3) unfolding bl_instant_def bw.mixed_def s f by (metis fst_conv)
  then show ?thesis using bw.write_files_within [OF written(4)] f(2) unfolding within_def by metis
qed

lemma update_stored:
  assumes run: "blockingUpdate U D sha ord dir req rid w = (Inr res, w')" and ord: "mset ord = mset [0, 1, 2]"
    and pub: "bs_published res" and rd: "readable U (bs_config res)"
  shows "fst (blockingGet U D sha dir (w'\<lparr>outcomes := []\<rparr>)) = Inr (bs_config res)"
  using run
proof (cases rule: blockingUpdate_cases)
  case stopped
  then show ?thesis using pub by blast
next
  case (written cur w1 c ok)
  have ok and res: "bs_config res = with_revision sha c" using written(5) by (simp_all split: if_splits)
  have m: "mset (map (\<lambda>i. bl_files dir c ! i) ord) = mset (bl_files dir c)" by (rule bl_files_ord [OF ord])
  then have s: "set (map (\<lambda>i. bl_files dir c ! i) ord) = set (bl_files dir c)" by (metis set_mset_mset)
  have "mset (map fst (map (\<lambda>i. bl_files dir c ! i) ord)) = mset (map fst (bl_files dir c))" using m by (metis mset_map)
  then have d: "distinct (map fst (map (\<lambda>i. bl_files dir c ! i) ord))"
    using bl_files_distinct(1) [of dir c] mset_eq_imp_distinct_iff by blast
  have "write_files bl_writeAtomic (map (\<lambda>i. bl_files dir c ! i) ord) w1 = (True, w')" using written(4) \<open>ok\<close> by simp
  from bw.write_files_ok [OF this d] bl_files_distinct(2) [of dir c]
  have "\<forall>(p, v)\<in>set (bl_files dir c). flookup (w'\<lparr>outcomes := []\<rparr>) p = Some (bl_text v)" unfolding s by simp
  moreover have "readable U c" using rd res by (simp add: readable_def with_revision_def)
  ultimately show ?thesis using blockingGet_stored [OF _ written(3), of "w'\<lparr>outcomes := []\<rparr>" dir sha] res by simp
qed

lemma update_publishes:
  assumes run: "blockingUpdate U D sha ord dir req rid w = (r, w')" and "calm w"
    and "fst (blockingGet U D sha dir w) = Inr cur" "br_expected req = bl_revision cur" "br_expected req \<noteq> []"
    "normalize_bl U D (br_sources req) (br_allow req) (br_deny req) = Inr c" "\<not> br_dry_run req"
  shows "\<exists>res. r = Inr res \<and> bs_published res \<and> bs_config res = with_revision sha c"
proof -
  have g: "blockingGet U D sha dir w = (Inr cur, w)"
    using blockingGet_calm [OF assms(2), of U D sha dir] assms(3) by (metis prod.collapse)
  obtain w2 where "write_files bl_writeAtomic (map (\<lambda>i. bl_files dir c ! i) ord) w = (True, w2)"
    using bw.write_files_calm [OF assms(2)] by blast
  then have "r = Inr \<lparr>bs_config = with_revision sha c, bs_previous = bl_revision cur, bs_dry_run = False,
      bs_published = True, bs_request_id = rid\<rparr>"
    using run g assms(4-7) by (simp add: blockingUpdate_def Let_def)
  then show ?thesis by simp
qed

section \<open>The configuration of the examples\<close>

text \<open>A parser that accepts exactly the absolute HTTPS URLs without user, query and fragment.\<close>

definition demo_url :: url_parser where
  "demo_url s =
     (if has_prefix s ''https://'' \<and> \<not> contains_any s '' @?#'' \<and> 8 < length s
      then Some \<lparr>url_scheme = ''https'', url_host = takeWhile (\<lambda>c. c \<noteq> CHR ''/'') (drop 8 s), url_user = None, url_string = s\<rparr>
      else None)"

definition demo_hash :: "bytes \<Rightarrow> string" where
  "demo_hash b = nat_dec (foldl (\<lambda>n c. (n * 31 + of_char c) mod 65521) 7 b)"

definition bl_world :: world where
  "bl_world = \<lparr>disk = [(''/b/sources.txt'', bl_text [''https://h/a'']), (''/b/allow.txt'', bl_text []), (''/b/deny.txt'', bl_text [''x.y''])],
     outcomes = [], snaps = []\<rparr>"

definition bl_start :: blConfig where
  "bl_start = with_revision demo_hash \<lparr>bl_sources = [''https://h/a''], bl_allow = [], bl_deny = [''x.y''], bl_revision = []\<rparr>"

definition bl_request :: blRequest where
  "bl_request = \<lparr>br_sources = ['' https://h/b'', ''https://h/a''], br_allow = [''Ok.Z.''], br_deny = [''q.r'', ''Q.R.''],
     br_expected = bl_revision bl_start, br_dry_run = False\<rparr>"

lemma bl_world_get: "fst (blockingGet demo_url ref_dns demo_hash ''/b'' bl_world) = Inr bl_start"
proof -
  have "case fst (blockingGet demo_url ref_dns demo_hash ''/b'' bl_world) of Inl _ \<Rightarrow> False
    | Inr c \<Rightarrow> bl_sources c = bl_sources bl_start \<and> bl_allow c = bl_allow bl_start \<and> bl_deny c = bl_deny bl_start \<and>
        bl_revision c = bl_revision bl_start" by code_simp
  then show ?thesis by (auto split: sum.splits)
qed

lemma bl_request_normal:
  "\<exists>c. normalize_bl demo_url ref_dns (br_sources bl_request) (br_allow bl_request) (br_deny bl_request) = Inr c \<and>
     readable demo_url (with_revision demo_hash c) \<and> bl_deny c = [''q.r'']"
proof -
  have "case normalize_bl demo_url ref_dns (br_sources bl_request) (br_allow bl_request) (br_deny bl_request) of Inl _ \<Rightarrow> False
    | Inr c \<Rightarrow> readable demo_url (with_revision demo_hash c) \<and> bl_deny c = [''q.r'']" by code_simp
  then show ?thesis by (auto split: sum.splits)
qed

section \<open>Theorem\<close>

text \<open>
  C38. A replacement of the blocklist configuration, in whichever order the three files are written and
  whichever system calls fail: at every instant each file is as before or holds the complete new
  list, and then the request named the revision read before; after a reported publication reading
  gives the reported configuration with the reported revision, provided its values survive a reload; and
  on a healthy disk a valid request that names the current revision is published.
\<close>

theorem blocking_update_reads_back:
  assumes run: "blockingUpdate U D sha ord dir req rid w = (r, w')" and ord: "mset ord = mset [0, 1, 2]"
  shows "(\<exists>ss. snaps w' = snaps w @ ss \<and> (\<forall>d\<in>set (disk w' # ss). \<forall>p. \<not> ends_digit p \<longrightarrow>
       map_of d p = flookup w p \<or>
       (\<exists>cur c v. fst (blockingGet U D sha dir w) = Inr cur \<and> br_expected req = bl_revision cur \<and>
          normalize_bl U D (br_sources req) (br_allow req) (br_deny req) = Inr c \<and>
          (p, v) \<in> set (bl_files dir c) \<and> map_of d p = Some (bl_text v)))) \<and>
    (\<forall>res. r = Inr res \<and> bs_published res \<and> readable U (bs_config res) \<longrightarrow>
       fst (blockingGet U D sha dir (w'\<lparr>outcomes := []\<rparr>)) = Inr (bs_config res)) \<and>
    (calm w \<and> fst (blockingGet U D sha dir w) = Inr cur \<and> br_expected req = bl_revision cur \<and> br_expected req \<noteq> [] \<and>
       normalize_bl U D (br_sources req) (br_allow req) (br_deny req) = Inr c \<and> \<not> br_dry_run req \<longrightarrow>
       (\<exists>res. r = Inr res \<and> bs_published res \<and> bs_config res = with_revision sha c))"
  using update_instants [OF run ord] update_stored [OF _ ord] update_publishes [OF run] run
  unfolding within_def bl_instant_def by (intro conjI) (simp, metis, metis)

theorem blocking_update_reads_back_witness:
  "\<exists>res w'. blockingUpdate demo_url ref_dns demo_hash [2, 0, 1] ''/b'' bl_request ''id'' bl_world = (Inr res, w') \<and>
     bs_published res \<and> fst (blockingGet demo_url ref_dns demo_hash ''/b'' (w'\<lparr>outcomes := []\<rparr>)) = Inr (bs_config res) \<and>
     bl_deny (bs_config res) = [''q.r'']"
proof -
  obtain r w' where run: "blockingUpdate demo_url ref_dns demo_hash [2, 0, 1] ''/b'' bl_request ''id'' bl_world = (r, w')" by fastforce
  obtain c where c: "normalize_bl demo_url ref_dns (br_sources bl_request) (br_allow bl_request) (br_deny bl_request) = Inr c"
    and rd: "readable demo_url (with_revision demo_hash c)" and dn: "bl_deny c = [''q.r'']"
    using bl_request_normal by blast
  have pre: "calm bl_world" "fst (blockingGet demo_url ref_dns demo_hash ''/b'' bl_world) = Inr bl_start"
    "br_expected bl_request = bl_revision bl_start" "br_expected bl_request \<noteq> []" "\<not> br_dry_run bl_request"
    by (simp add: bl_world_def, rule bl_world_get, simp add: bl_request_def, code_simp, simp add: bl_request_def)
  note publish = blocking_update_reads_back [OF run, of bl_start c]
  have ord: "mset [2, 0, 1 :: nat] = mset [0, 1, 2]" by simp
  obtain res where res: "r = Inr res" "bs_published res" "bs_config res = with_revision demo_hash c"
    using publish [OF ord, THEN conjunct2, THEN conjunct2] pre c by blast
  then have "fst (blockingGet demo_url ref_dns demo_hash ''/b'' (w'\<lparr>outcomes := []\<rparr>)) = Inr (bs_config res)"
    using publish [OF ord, THEN conjunct2, THEN conjunct1] rd by simp
  moreover have "bl_deny (bs_config res) = [''q.r'']" using res(3) dn by (simp add: with_revision_def)
  ultimately show ?thesis using run res by blast
qed

end
