(* ===== verification/ApiTheorems.thy ===== *)
theory ApiTheorems
  imports ApiServer ZoneTheorems BlockingTheorems
begin

text \<open>
  What the handlers of the control API leave untouched: a read-only instance, a refused request and
  a request that only reads.  The store's own lemmas say which errors come before the first write.
\<close>

section \<open>Errors of the stores that come before any write\<close>

definition early :: "zerr \<Rightarrow> bool" where
  "early e \<longleftrightarrow> store_status e < 500"

lemma early_simps [simp]:
  "early ErrNotFound" "early ErrRevisionMismatch" "early ErrAlreadyExists" "early ErrReadOnlyZone" "early (ErrInvalidChange m)"
  "\<not> early (ErrParse m)" "\<not> early (ErrIO m)" "\<not> early (ErrNotPublished m)" "\<not> early (ErrPanic m)" "\<not> early ErrNotExist"
  by (simp_all add: early_def store_status_def)

lemma commit_early:
  assumes "commit st cur rrs cs dry rb actor rid w = ((res, Some e), w')" "early e"
  shows "same_disk w w'"
proof (cases "nextSerial (z_serial cur) (s_now st)")
  case (Inl e')
  then show ?thesis using assms(1) by (simp add: commit_def)
next
  case (Inr serial)
  then show ?thesis using assms
    by (auto simp: commit_def await_publication_def Let_def split: if_splits prod.splits bool.splits option.splits)
qed

lemma zoneApply_early:
  assumes "fqdn_law (s_dns st)" "zoneApply st n req actor rid w = ((res, Some e), w')" "early e"
  shows "same_disk w w'"
  using assms(1,2)
proof (cases rule: zoneApply_cases)
  case (committed cur p w1 rrs)
  then show ?thesis using commit_early [OF committed(10) assms(3)] by (simp add: same_disk_def)
qed (simp add: same_disk_def)

lemma zoneRollback_early:
  assumes "fqdn_law (s_dns st)" "zoneRollback st n req actor rid w = ((res, Some e), w')" "early e"
  shows "same_disk w w'"
  using assms(1,2)
proof (cases rule: zoneRollback_cases)
  case (committed cur p w1 target w2)
  then show ?thesis using commit_early [OF committed(9) assms(3)] by (simp add: same_disk_def)
qed (simp add: same_disk_def)

lemma install_zone_late: "install_zone st p z roles result actor w = ((res, Some e), w') \<Longrightarrow> \<not> early e"
  by (auto simp: install_zone_def Let_def split: prod.splits bool.splits option.splits)

lemma zoneCreate_early:
  assumes "zoneCreate st n req actor rid w = ((res, Some e), w')" "early e"
  shows "same_disk w w'"
  using assms(1)
proof (cases rule: zoneCreate_cases)
  case (installed p z role zone content roles w1)
  then show ?thesis using install_zone_late [OF installed(10)] assms(2) by simp
qed (simp add: same_disk_def)

lemma loadRoles_late: "loadRoles st w = (Inl e, w') \<Longrightarrow> \<not> early e"
  by (auto simp: loadRoles_def split: prod.splits sum.splits ioerr.splits fdata.splits option.splits)

lemma retire_zone_late: "retire_zone st p cur roles result actor w = ((res, Some e), w') \<Longrightarrow> \<not> early e"
  by (auto simp: retire_zone_def Let_def split: prod.splits bool.splits option.splits)

lemma zoneDelete_early:
  assumes "zoneDelete st n req actor rid w = ((res, Some e), w')" "early e"
  shows "same_disk w w'"
proof -
  obtain c w1 where c: "zoneGet st n w = (c, w1)" by fastforce
  have f: "same_disk w w1" using zoneGet_frame [OF c] by (simp add: same_disk_def)
  show ?thesis
  proof (cases "\<exists>cur. c = Inr cur \<and> lr_expected req = z_revision cur \<and> lr_expected req \<noteq> [] \<and> \<not> lr_dry_run req")
    case False
    then have "w' = w1" using assms c by (auto simp: zoneDelete_def Let_def split: sum.splits if_splits)
    then show ?thesis using f by simp
  next
    case True
    then have "\<not> early e" using assms(1) c
      by (auto simp: zoneDelete_def Let_def split: prod.splits bool.splits option.splits sum.splits
          dest!: loadRoles_late retire_zone_late)
    then show ?thesis using assms(2) by blast
  qed
qed

lemma blockingUpdate_early:
  assumes "blockingUpdate U D sha ord dir req rid w = (Inl e, w')" "bl_error_status e < 500"
  shows "same_disk w w'"
  using assms(1)
proof (cases rule: blockingUpdate_cases)
  case (written cur w1 c ok)
  then show ?thesis using assms(2) by (simp add: bl_error_status_def split: if_splits)
qed (simp add: same_disk_def)

section \<open>Reads\<close>

lemma os_read_dir_frame: "os_read_dir d w = (r, w') \<Longrightarrow> same_disk w w'"
  by (auto simp: os_read_dir_def same_disk_def split: prod.splits bool.splits dest: os_plain_frame)

lemma list_loop_frame: "list_loop st roles ns w = (r, w') \<Longrightarrow> same_disk w w'"
proof (induction ns arbitrary: r w w')
  case (Cons n ns)
  obtain l w1 where l: "loadPath st (path_join (s_dir st) n) w = (l, w1)" by fastforce
  have f: "same_disk w w1" using loadPath_frame [OF l] by (simp add: same_disk_def)
  obtain l2 w2 where l2: "list_loop st roles ns w1 = (l2, w2)" by fastforce
  show ?case
    using Cons.prems Cons.IH [of w] f Cons.IH [OF l2] l l2 same_disk_trans [OF f]
    by (auto split: if_splits sum.splits)
qed simp

lemma zoneList_frame: "zoneList st w = (r, w') \<Longrightarrow> same_disk w w'"
  by (auto simp: zoneList_def split: prod.splits sum.splits
      dest!: loadRoles_frame os_read_dir_frame list_loop_frame simp: same_disk_def)

lemma revisions_loop_frame: "revisions_loop st d mtime ns w = (r, w') \<Longrightarrow> same_disk w w'"
proof (induction ns arbitrary: r w w')
  case (Cons n ns)
  obtain ok w1 where o1: "os_plain w = (ok, w1)" by fastforce
  have f1: "same_disk w w1" using os_plain_frame [OF o1] by (simp add: same_disk_def)
  obtain l w2 where l: "loadPath st (path_join d n) w1 = (l, w2)" by fastforce
  have f2: "same_disk w w2" using loadPath_frame [OF l] f1 by (simp add: same_disk_def)
  obtain l3 w3 where l3: "revisions_loop st d mtime ns w2 = (l3, w3)" by fastforce
  have f3: "same_disk w w3" using same_disk_trans [OF f2 Cons.IH [OF l3]] .
  show ?case
    using Cons.prems Cons.IH [of w] f1 f3 o1 l l3
    by (auto simp: Let_def split: if_splits bool.splits sum.splits)
qed simp

lemma zoneRevisions_frame: "zoneRevisions st mtime n w = (r, w') \<Longrightarrow> same_disk w w'"
  by (auto simp: zoneRevisions_def same_disk_def split: prod.splits sum.splits ioerr.splits
      dest!: zoneGet_frame os_read_dir_frame revisions_loop_frame)

lemma read_status_frame: "read_status p w = (r, w') \<Longrightarrow> same_disk w w'"
  by (auto simp: read_status_def same_disk_def split: prod.splits sum.splits fdata.splits dest: os_read_file_frame)

lemma LoadReport_frame: "LoadReport dir now w = (r, w') \<Longrightarrow> same_disk w w'"
  by (auto simp: LoadReport_def Let_def same_disk_def split: prod.splits option.splits dest!: read_status_frame)

lemma haStatus_frame: "haStatus H ro dir owned P now later peer w = (s, w') \<Longrightarrow> same_disk w w'"
  by (auto simp: haStatus_def Let_def split: prod.splits dest: LoadReport_frame)

lemma metrics_frame: "metrics H ro dir owned P counters sources now w = (s, w') \<Longrightarrow> same_disk w w'"
  by (auto simp: metrics_def Let_def split: prod.splits sum.splits dest: LoadReport_frame)

lemma listAudit_frame: "listAudit nb p z pr a l w = (r, w') \<Longrightarrow> same_disk w w'"
  by (auto simp: listAudit_def readAudit_def Let_def same_disk_def split: prod.splits sum.splits fdata.splits if_splits option.splits
      ioerr.splits dest: os_read_file_frame)

section \<open>Handlers\<close>

text \<open>The routes that \<open>Handler\<close> guards against a read-only instance and against repeated keys.\<close>

definition mutating :: "route \<Rightarrow> bool" where
  "mutating r \<longleftrightarrow> r \<in> {RChangeZone, RRollbackZone, RCreateZone, RDeleteZone, RUpdateBlocklist, RCfUpdateConfig, RCfApply}"

text \<open>Neither the disk nor the list of managed Cloudflare zones has changed.\<close>

definition untouched :: "'c api_server \<Rightarrow> 'c api_server \<Rightarrow> bool" where
  "untouched s s' \<longleftrightarrow> same_disk (sr_world s) (sr_world s') \<and> sr_cfConfig s' = sr_cfConfig s \<and> sr_cfZones s' = sr_cfZones s"

definition refused_status :: "reply \<Rightarrow> bool" where
  "refused_status y \<longleftrightarrow> 400 \<le> y_status y \<and> y_status y < 500"

lemma reply_status [simp]:
  "y_status (writeError n m) = n" "y_status (writeJSON n v) = n" "y_status (with_etag t y) = y_status y"
  "y_status aborted = 0" "y_status readOnlyReply = 403" "y_status notConfigured = 404"
  by (simp_all add: writeError_def writeJSON_def with_etag_def aborted_def readOnlyReply_def notConfigured_def)

lemma writeStoreError_early: "refused_status (writeStoreError e) \<Longrightarrow> early e"
  by (cases e) (auto simp: refused_status_def writeStoreError_def store_status_def)

lemma untouched_simps [simp]:
  "untouched s s"
  "untouched s (s\<lparr>sr_world := w\<rparr>) \<longleftrightarrow> same_disk (sr_world s) w"
  "untouched s (s\<lparr>sr_service := c\<rparr>)"
  by (simp_all add: untouched_def)

lemma untouched_trans: "untouched s s1 \<Longrightarrow> untouched s1 s2 \<Longrightarrow> untouched s s2"
  by (auto simp: untouched_def dest: same_disk_trans)

lemma actorAndRequestID_frame:
  assumes "actorAndRequestID q s = (x, s1)"
  shows "untouched s s1"
  using assms by (auto simp: actorAndRequestID_def untouched_def Let_def split: if_splits)

lemma changeZone_refused:
  assumes law: "fqdn_law (s_dns (sr_store C))" and run: "changeZone C q s = (y, s')" and no: "refused_status y"
  shows "untouched s s'"
proof -
  obtain actor rid s1 where a: "actorAndRequestID q s = ((actor, rid), s1)" by (metis prod.collapse)
  from run no show ?thesis
    unfolding changeZone_def using a
    by (auto split: if_splits sum.splits prod.splits option.splits simp: refused_status_def
        intro!: untouched_trans [OF actorAndRequestID_frame [OF a]] zoneApply_early [OF law]
        dest: writeStoreError_early [unfolded refused_status_def, OF conjI])
qed

lemma rollbackZone_refused:
  assumes law: "fqdn_law (s_dns (sr_store C))" and run: "rollbackZone C q s = (y, s')" and no: "refused_status y"
  shows "untouched s s'"
proof -
  obtain actor rid s1 where a: "actorAndRequestID q s = ((actor, rid), s1)" by (metis prod.collapse)
  from run no show ?thesis
    unfolding rollbackZone_def using a
    by (auto split: if_splits sum.splits prod.splits option.splits simp: refused_status_def
        intro!: untouched_trans [OF actorAndRequestID_frame [OF a]] zoneRollback_early [OF law]
        dest: writeStoreError_early [unfolded refused_status_def, OF conjI])
qed

lemma createZone_refused:
  assumes run: "createZone C q s = (y, s')" and no: "refused_status y"
  shows "untouched s s'"
proof -
  obtain actor rid s1 where a: "actorAndRequestID q s = ((actor, rid), s1)" by (metis prod.collapse)
  from run no show ?thesis
    unfolding createZone_def using a
    by (auto split: if_splits sum.splits prod.splits option.splits simp: refused_status_def
        intro!: untouched_trans [OF actorAndRequestID_frame [OF a]] zoneCreate_early
        dest: writeStoreError_early [unfolded refused_status_def, OF conjI])
qed

lemma deleteZone_refused:
  assumes run: "deleteZone C q s = (y, s')" and no: "refused_status y"
  shows "untouched s s'"
proof -
  obtain actor rid s1 where a: "actorAndRequestID q s = ((actor, rid), s1)" by (metis prod.collapse)
  from run no show ?thesis
    unfolding deleteZone_def using a
    by (auto split: if_splits sum.splits prod.splits option.splits simp: refused_status_def
        intro!: untouched_trans [OF actorAndRequestID_frame [OF a]] zoneDelete_early
        dest: writeStoreError_early [unfolded refused_status_def, OF conjI])
qed

lemma updateBlocklistConfig_refused:
  assumes run: "updateBlocklistConfig C q s = (y, s')" and no: "refused_status y"
  shows "untouched s s'"
proof -
  obtain actor rid s1 where a: "actorAndRequestID q s = ((actor, rid), s1)" by (metis prod.collapse)
  from run no show ?thesis
    unfolding updateBlocklistConfig_def using a
    by (auto split: if_splits sum.splits prod.splits option.splits simp: refused_status_def
        intro!: untouched_trans [OF actorAndRequestID_frame [OF a]] blockingUpdate_early
        dest: writeStoreError_early [unfolded refused_status_def, OF conjI])
qed

lemma check_cfzones_reply: "check_cfzones R zs c = (Some y, c') \<Longrightarrow> y_status y = 0 \<or> y_status y = 400"
  by (induction R zs c rule: check_cfzones.induct) (auto split: prod.splits sum.splits if_splits)

lemma updateCloudflareConfig_refused:
  assumes run: "updateCloudflareConfig C q s = (y, s')" and no: "refused_status y"
  shows "untouched s s'"
  using run no unfolding updateCloudflareConfig_def
  by (auto split: if_splits sum.splits prod.splits option.splits simp: refused_status_def Let_def)

section \<open>Reading handlers\<close>

lemma reading_handlers:
  "health C q s = (y, s') \<Longrightarrow> untouched s s'"
  "ready C q s = (y, s') \<Longrightarrow> untouched s s'"
  "listZones C q s = (y, s') \<Longrightarrow> untouched s s'"
  "listAuditHandler C q s = (y, s') \<Longrightarrow> untouched s s'"
  "haStatusHandler C q s = (y, s') \<Longrightarrow> untouched s s'"
  "metricsHandler C q s = (y, s') \<Longrightarrow> untouched s s'"
  "refreshStatus C q s = (y, s') \<Longrightarrow> untouched s s'"
  unfolding health_def ready_def listZones_def listAuditHandler_def haStatusHandler_def metricsHandler_def refreshStatus_def
  by (auto split: prod.splits sum.splits audit_reply.splits
      dest: zoneList_frame listAudit_frame haStatus_frame metrics_frame LoadReport_frame)

lemma reading_zone_handlers:
  "getZone C q s = (y, s') \<Longrightarrow> untouched s s'"
  "listRevisions C q s = (y, s') \<Longrightarrow> untouched s s'"
  "getBlocklistConfig C q s = (y, s') \<Longrightarrow> untouched s s'"
  unfolding getZone_def listRevisions_def getBlocklistConfig_def
  by (auto split: prod.splits sum.splits simp: same_disk_def dest!: zoneGet_frame zoneRevisions_frame blockingGet_frame)

lemma reading_cloudflare_handlers:
  "listCloudflareZones C q s = (y, s') \<Longrightarrow> untouched s s'"
  "getCloudflareConfig C q s = (y, s') \<Longrightarrow> untouched s s'"
  "getCloudflareRecords C q s = (y, s') \<Longrightarrow> untouched s s'"
  "planCloudflareChanges C q s = (y, s') \<Longrightarrow> untouched s s'"
  unfolding listCloudflareZones_def getCloudflareConfig_def getCloudflareRecords_def planCloudflareChanges_def
  by (auto split: prod.splits sum.splits option.splits if_splits simp: Let_def)

lemma read_only_refuses: "sr_readOnly C \<Longrightarrow> mutating r \<Longrightarrow> serve C r q s = (readOnlyReply, s)"
  by (auto simp: mutating_def serve_def changeZone_def rollbackZone_def createZone_def deleteZone_def updateBlocklistConfig_def
      updateCloudflareConfig_def applyCloudflareChanges_def)

lemma serve_reads:
  "serve C r q s = (y, s') \<Longrightarrow> \<not> mutating r \<Longrightarrow> r \<noteq> RRefreshBlocklists \<Longrightarrow> untouched s s'"
  by (cases r) (simp_all add: serve_def mutating_def reading_handlers reading_zone_handlers reading_cloudflare_handlers)

lemma refreshBlocklists_status:
  "refreshBlocklists C q s = (y, s') \<Longrightarrow> \<not> refused_status y"
  by (auto simp: refreshBlocklists_def refused_status_def split: prod.splits option.splits)

lemma serve_refused:
  assumes "fqdn_law (s_dns (sr_store C))" "serve C r q s = (y, s')" "refused_status y" "r \<noteq> RCfApply"
  shows "untouched s s'"
proof (cases "mutating r")
  case True
  then show ?thesis using assms
    by (auto simp: mutating_def serve_def intro: changeZone_refused rollbackZone_refused createZone_refused deleteZone_refused
        updateBlocklistConfig_refused updateCloudflareConfig_refused)
next
  case False
  then show ?thesis using assms serve_reads refreshBlocklists_status [of C q s y s']
    by (cases "r = RRefreshBlocklists") (simp_all add: serve_def)
qed

section \<open>Refused requests\<close>


section \<open>Optimistic locking\<close>

text \<open>The request \<open>changeZone\<close> hands to the store: the decoded body at the revision that \<open>If-Match\<close>
  and the body agree on.\<close>

definition change_request :: "api_req \<Rightarrow> ChangeRequest option" where
  "change_request q =
     (case decodeJSON dec_ChangeRequest q of
        Inl _ \<Rightarrow> None
      | Inr input \<Rightarrow> (case merge_if_match q (cr_expected input) of Inl _ \<Rightarrow> None | Inr e \<Rightarrow> Some (input\<lparr>cr_expected := e\<rparr>)))"

lemma changeZone_runs:
  assumes "change_request q = Some req" "\<not> sr_readOnly C" "actorAndRequestID q s = ((actor, rid), s1)"
  shows "changeZone C q s =
    (case zoneApply (sr_store C) (q_zone q) req actor rid (sr_world s1) of
       ((res, Some e), w) \<Rightarrow> (writeStoreError e, s1\<lparr>sr_world := w\<rparr>)
     | ((res, None), w) \<Rightarrow> (with_etag (cres_revision res) (writeJSON 200 (PChange res)), s1\<lparr>sr_world := w\<rparr>))"
  using assms by (auto simp: changeZone_def change_request_def split: sum.splits)

lemma changeZone_published:
  assumes run: "changeZone C q s = (y, s')" and pub: "y_payload y = PChange res"
  obtains req actor rid s1 w' where "change_request q = Some req" "\<not> sr_readOnly C"
    "actorAndRequestID q s = ((actor, rid), s1)"
    "zoneApply (sr_store C) (q_zone q) req actor rid (sr_world s1) = ((res, None), w')"
    "s' = s1\<lparr>sr_world := w'\<rparr>" "y = with_etag (cres_revision res) (writeJSON 200 (PChange res))"
proof -
  have payload: "y_payload (writeStoreError e) \<noteq> PChange res" "y_payload readOnlyReply \<noteq> PChange res" for e
    by (cases e) (simp_all add: writeStoreError_def writeError_def aborted_def readOnlyReply_def)
  have ro: "\<not> sr_readOnly C" using run pub payload(2) by (auto simp: changeZone_def)
  obtain req where req: "change_request q = Some req"
    using run pub ro unfolding changeZone_def change_request_def
    by (auto simp: decodeJSON_def merge_if_match_def writeError_def Let_def split: sum.splits option.splits if_splits)
  obtain actor rid s1 where a: "actorAndRequestID q s = ((actor, rid), s1)" by (metis prod.collapse)
  obtain res' e w' where z: "zoneApply (sr_store C) (q_zone q) req actor rid (sr_world s1) = ((res', e), w')"
    by (metis prod.collapse)
  have "e = None \<and> res' = res \<and> s' = s1\<lparr>sr_world := w'\<rparr> \<and> y = with_etag (cres_revision res) (writeJSON 200 (PChange res))"
    using run changeZone_runs [OF req ro a] z pub payload(1)
    by (cases e) (auto simp: with_etag_def writeJSON_def)
  with that req ro a z show thesis by blast
qed

text \<open>The clock and the disk as a later request on a healthy disk finds them.\<close>

definition healed :: "'c api_server \<Rightarrow> 'c api_server" where
  "healed s = s\<lparr>sr_world := (sr_world s)\<lparr>outcomes := []\<rparr>\<rparr>"

text \<open>
  C7. The ETag of a published change is a lock on the new revision: the change was answered 200 with
  the new revision as ETag; a later \<open>GET\<close> of the zone is answered 200 with the same ETag and shows the
  zone as primary at the reported serial; and every later change request that names another revision,
  in the body or in \<open>If-Match\<close>, is answered 412 and leaves the disk alone, provided the DNS library
  reads the printed records back.
\<close>

theorem published_change_locks_revision:
  assumes "good_store (sr_store C)" and "parser_typed (s_dns (sr_store C))"
    and run: "changeZone C q s = (y, s')" and pub: "y_payload y = PChange res" "cres_published res"
    and lib: "\<And>req p z old rrs0 rrs. change_request q = Some req \<Longrightarrow> pathFor (sr_store C) (q_zone q) = Inr (p, z) \<Longrightarrow>
        flookup (sr_world s) p = Some (Text old) \<Longrightarrow> parse_zone (s_dns (sr_store C)) [] old = Inr rrs0 \<Longrightarrow>
        applyChanges (s_dns (sr_store C)) rrs0 z (cr_changes req) = Inr rrs \<Longrightarrow>
        print_parse (s_dns (sr_store C)) z (setSOASerial rrs (cres_serial res)) \<and>
        distinct (map (rr_key (s_dns (sr_store C))) (setSOASerial rrs (cres_serial res)))"
  shows "y_status y = 200 \<and> y_etag y = Some (quoteETag (cres_revision res)) \<and>
    (\<exists>zone. (\<forall>q'. q_zone q' = q_zone q \<longrightarrow>
        getZone C q' (healed s') = (with_etag (cres_revision res) (writeJSON 200 (PZone zone)), healed s')) \<and>
      z_serial zone = cres_serial res \<and> z_role zone = ''primary'') \<and>
    (\<forall>q' req'. q_zone q' = q_zone q \<and> change_request q' = Some req' \<and> cr_expected req' \<noteq> cres_revision res \<longrightarrow>
      fst (changeZone C q' (healed s')) = writeError 412 ''zone revision mismatch'' \<and>
      untouched (healed s') (snd (changeZone C q' (healed s'))))"
proof -
  let ?st = "sr_store C"
  from changeZone_published [OF run pub(1)] obtain req actor rid s1 w' where
    req: "change_request q = Some req" and ro: "\<not> sr_readOnly C" and a: "actorAndRequestID q s = ((actor, rid), s1)"
    and z: "zoneApply ?st (q_zone q) req actor rid (sr_world s1) = ((res, None), w')"
    and s': "s' = s1\<lparr>sr_world := w'\<rparr>" and y: "y = with_etag (cres_revision res) (writeJSON 200 (PChange res))" .
  have d: "disk (sr_world s1) = disk (sr_world s)" using actorAndRequestID_frame [OF a] by (simp add: untouched_def same_disk_def)
  obtain zone where zone: "zoneGet ?st (q_zone q) (w'\<lparr>outcomes := []\<rparr>) = (Inr zone, w'\<lparr>outcomes := []\<rparr>)"
    "z_serial zone = cres_serial res" "z_revision zone = cres_revision res" "z_role zone = ''primary''"
    using apply_then_get [OF assms(1,2) z pub(2)] lib [OF req] d by auto
  have h: "healed s' = s1\<lparr>sr_world := w'\<lparr>outcomes := []\<rparr>\<rparr>" "sr_world (healed s') = w'\<lparr>outcomes := []\<rparr>"
    by (simp_all add: healed_def s')
  have get: "getZone C q' (healed s') = (with_etag (cres_revision res) (writeJSON 200 (PZone zone)), healed s')"
    if "q_zone q' = q_zone q" for q'
    using that zone by (simp add: getZone_def h)
  have stale: "fst (changeZone C q' (healed s')) = writeError 412 ''zone revision mismatch'' \<and>
      untouched (healed s') (snd (changeZone C q' (healed s')))"
    if q': "q_zone q' = q_zone q" "change_request q' = Some req'" "cr_expected req' \<noteq> cres_revision res" for q' req'
  proof -
    obtain actor' rid' s2 where a': "actorAndRequestID q' (healed s') = ((actor', rid'), s2)" by (metis prod.collapse)
    have w2: "sr_world s2 = w'\<lparr>outcomes := []\<rparr>"
      using a' h(2) by (auto simp: actorAndRequestID_def Let_def split: if_splits)
    have "zoneApply ?st (q_zone q') req' actor' rid' (sr_world s2) = ((no_change_result, Some ErrRevisionMismatch), sr_world s2)"
      using zone q' by (simp add: zoneApply_def current_for_change_def w2)
    then show ?thesis
      using changeZone_runs [OF q'(2) ro a'] actorAndRequestID_frame [OF a']
      by (simp add: writeStoreError_def store_status_def store_message_def)
  qed
  show ?thesis using y get stale zone(2,4) by (auto simp: with_etag_def writeJSON_def)
qed

section \<open>Concrete requests\<close>

definition demo_api_config :: "bool \<Rightarrow> unit api_config" where
  "demo_api_config readOnly =
     \<lparr>sr_store = demo_store, sr_blocking = ''/b'', sr_readOnly = readOnly, sr_statusDir = ''/s'', sr_cloudflare = None,
      sr_cfConfigPath = [], sr_url = (\<lambda>_. None), sr_digest = (\<lambda>_. []), sr_ord = [0, 1, 2], sr_mtime = (\<lambda>_. 0),
      sr_ha = SetHA ''a'' [] [] [] [] [], sr_owned = (\<lambda>_. False), sr_auditPath = [], sr_nbytes = (\<lambda>_. 0)\<rparr>"

definition demo_server :: "unit api_server" where
  "demo_server = \<lparr>sr_seq = 0, sr_cfConfig = \<lparr>cg_zones = [], cg_revision = []\<rparr>, sr_cfZones = [], sr_applies = 0,
     sr_failures = 0, sr_rollbacks = 0, sr_service = (), sr_world = demo_world\<rparr>"

text \<open>A change sent with the revision in \<open>If-Match\<close>, quoted.\<close>

definition demo_call :: api_req where
  "demo_call =
     \<lparr>q_zone = ''a'', q_query = (\<lambda>_. []),
      q_body = Inr (JObj [(''Changes'', JArr [JObj [(''action'', JStr ''upsert''), (''type'', JStr ''TXT''),
                                                    (''records'', JArr [JStr ''y''])]])]),
      q_if_match = quoteETag (replicate 64 (CHR ''a'')), q_request_id = ''r1'', q_actor = ''me'', q_remote = ''192.0.2.1'',
      q_peer = False, q_now = 0, q_later = 0,
      q_probes = \<lparr>pr_health = ProbeError [], pr_status = ProbeError [], pr_started = 0, pr_ended = 0\<rparr>, q_sources = []\<rparr>"

lemma demo_call_request: "change_request demo_call = Some demo_req"
  by code_simp

lemma demo_api_config_fields [simp]: "sr_store (demo_api_config b) = demo_store" "sr_readOnly (demo_api_config b) = b"
  by (simp_all add: demo_api_config_def)

lemma demo_call_fields [simp]: "q_zone demo_call = ''a''" "sr_world demo_server = demo_world"
  "actorAndRequestID demo_call demo_server = ((''me'', ''r1''), demo_server)"
  by (simp_all add: demo_call_def demo_server_def actorAndRequestID_def)


theorem published_change_locks_revision_witness:
  "\<exists>zone s'. fst (getZone (demo_api_config False) demo_call s') = with_etag (replicate 64 (CHR ''b'')) (writeJSON 200 (PZone zone)) \<and>
     z_serial zone = 2023111400 \<and>
     fst (changeZone (demo_api_config False) demo_call s') = writeError 412 ''zone revision mismatch''"
proof -
  obtain res err w' where run: "zoneApply demo_store ''a'' demo_req ''me'' ''r1'' demo_world = ((res, err), w')"
    by (metis prod.collapse)
  have facts: "cres_published res" "cres_serial res = 2023111400" "cres_revision res = replicate 64 (CHR ''b'')" "err = None"
    using run demo_published demo_serial demo_revision by simp_all
  let ?y = "with_etag (cres_revision res) (writeJSON 200 (PChange res))"
  have c: "changeZone (demo_api_config False) demo_call demo_server = (?y, demo_server\<lparr>sr_world := w'\<rparr>)"
    using changeZone_runs [OF demo_call_request, of "demo_api_config False"] run facts(4) by simp
  have ty: "parser_typed (s_dns (sr_store (demo_api_config False)))" using tiny_typed by simp
  have g: "good_store (sr_store (demo_api_config False))" using demo_good by simp
  have pl: "y_payload ?y = PChange res" by (simp add: with_etag_def writeJSON_def)
  let ?s = "healed (demo_server\<lparr>sr_world := w'\<rparr>)"
  note thm1 = published_change_locks_revision [OF g ty c pl facts(1)]
  have "(\<exists>zone. (\<forall>q'. q_zone q' = q_zone demo_call \<longrightarrow>
        getZone (demo_api_config False) q' ?s = (with_etag (cres_revision res) (writeJSON 200 (PZone zone)), ?s)) \<and>
      z_serial zone = cres_serial res \<and> z_role zone = ''primary'') \<and>
    (\<forall>q' req'. q_zone q' = q_zone demo_call \<and> change_request q' = Some req' \<and> cr_expected req' \<noteq> cres_revision res \<longrightarrow>
      fst (changeZone (demo_api_config False) q' ?s) = writeError 412 ''zone revision mismatch'' \<and>
      untouched ?s (snd (changeZone (demo_api_config False) q' ?s)))"
    using thm1 demo_lib facts(2) demo_call_request by auto
  moreover have "cr_expected demo_req \<noteq> cres_revision res" using facts(3) by (simp add: demo_req_def)
  ultimately show ?thesis using facts(2,3) demo_call_request by (metis fst_conv)
qed

end
