(* ===== verification/Idempotency.thy ===== *)
theory Idempotency
  imports Disk "HOL-Library.Code_Target_Nat"
begin

text \<open>
  Idempotent retries (internal/api/idempotency.go): the store of recorded responses, its pruning and
  persistence, and the middleware that wraps a mutating handler.  SHA-256 in hexadecimal is an
  argument.  A handler is a function of the request, of the state behind it and of the disk, which it
  shares with the store.
\<close>

section \<open>Store\<close>

definition idempotencyTTL :: duration where "idempotencyTTL = 24 * hour"
definition idempotencyMaxEntries :: nat where "idempotencyMaxEntries = 1000"
definition idempotencyMaxKey :: nat where "idempotencyMaxKey = 255"

datatype idempotencyState = idempotencyNew | idempotencyReplay | idempotencyInFlight | idempotencyMismatch

record idempotencyEntry =
  e_fingerprint :: string
  e_status :: int
  e_body :: bytes
  e_etag :: string
  e_created :: gotime

definition no_entry :: idempotencyEntry where
  "no_entry = \<lparr>e_fingerprint = [], e_status = 0, e_body = [], e_etag = [], e_created = zero_time\<rparr>"

record IdempotencyStore =
  is_path :: path
  is_entries :: "(string, idempotencyEntry) gomap"
  is_inflight :: "(string, string) gomap"

definition entry_fresh :: "gotime \<Rightarrow> idempotencyEntry \<Rightarrow> bool" where
  "entry_fresh now e = (time_sub now (e_created e) < idempotencyTTL)"

definition pruneEntries :: "gotime \<Rightarrow> (string, idempotencyEntry) gomap \<Rightarrow> (string, idempotencyEntry) gomap" where
  "pruneEntries now es =
     (let kept = filter (\<lambda>(k, e). entry_fresh now e) es
      in if length kept \<le> idempotencyMaxEntries then kept
         else let gone = take (length kept - idempotencyMaxEntries)
                           (map fst (sort_key (\<lambda>(k, e). e_created e) kept))
              in filter (\<lambda>(k, e). k \<notin> set gone) kept)"

definition enc_entry :: "idempotencyEntry \<Rightarrow> jvalue" where
  "enc_entry e =
     JObj ([(''fingerprint'', JStr (e_fingerprint e)), (''status'', JNum (e_status e)), (''body'', JBytes (e_body e))] @
           (if e_etag e = [] then [] else [(''etag'', JStr (e_etag e))]) @
           [(''created_at'', JTime (e_created e))])"

definition as_bytes :: "jvalue \<Rightarrow> bytes option" where
  "as_bytes j = (case j of JBytes b \<Rightarrow> Some b | JNull \<Rightarrow> Some [] | _ \<Rightarrow> None)"

definition dec_entry :: "jvalue \<Rightarrow> idempotencyEntry option" where
  "dec_entry j =
     (case (Option.bind (jget j ''fingerprint'') as_str, Option.bind (jget j ''status'') as_int64,
            Option.bind (jget j ''body'') as_bytes, Option.bind (jget j ''etag'') as_str,
            Option.bind (jget j ''created_at'') as_time) of
        (Some f, Some s, Some b, Some t, Some c) \<Rightarrow>
          Some \<lparr>e_fingerprint = f, e_status = s, e_body = b, e_etag = t, e_created = c\<rparr>
      | _ \<Rightarrow> None)"

definition NewIdempotencyStore :: "gotime \<Rightarrow> path \<Rightarrow> world \<Rightarrow> (string + IdempotencyStore) \<times> world" where
  "NewIdempotencyStore now p w =
     (let store = \<lparr>is_path = p, is_entries = [], is_inflight = []\<rparr>
      in if p = [] then (Inr store, w)
         else case os_read_file p w of
           (Inl NotExist, w1) \<Rightarrow> (Inr store, w1)
         | (Inl IOFault, w1) \<Rightarrow> (Inl ''read'', w1)
         | (Inr (Json j), w1) \<Rightarrow>
             (case as_map dec_entry j of
                None \<Rightarrow> (Inl ''unmarshal'', w1)
              | Some es \<Rightarrow> (Inr (store\<lparr>is_entries := pruneEntries now es\<rparr>), w1))
         | (Inr _, w1) \<Rightarrow> (Inl ''unmarshal'', w1))"

definition begin_request :: "gotime \<Rightarrow> string \<Rightarrow> string \<Rightarrow> IdempotencyStore \<Rightarrow>
    idempotencyEntry \<times> idempotencyState \<times> IdempotencyStore" where
  "begin_request now key fingerprint s =
     (let recorded = (case map_of (is_entries s) key of
                        Some e \<Rightarrow> if entry_fresh now e then Some e else None | None \<Rightarrow> None)
      in case recorded of
           Some e \<Rightarrow> if e_fingerprint e \<noteq> fingerprint then (no_entry, idempotencyMismatch, s)
                     else (e, idempotencyReplay, s)
         | None \<Rightarrow>
             (case map_of (is_inflight s) key of
                Some pending \<Rightarrow> if pending \<noteq> fingerprint then (no_entry, idempotencyMismatch, s)
                                else (no_entry, idempotencyInFlight, s)
              | None \<Rightarrow> (no_entry, idempotencyNew, s\<lparr>is_inflight := AList.update key fingerprint (is_inflight s)\<rparr>)))"

definition idempotency_write :: "path \<Rightarrow> jvalue \<Rightarrow> world \<Rightarrow> bool \<times> world" where
  "idempotency_write p v w = atomic_write ''.idempotency-'' [SWrite, SSync, SClose, SRename] p (Json v) w"

definition saveEntries :: "IdempotencyStore \<Rightarrow> world \<Rightarrow> bool \<times> world" where
  "saveEntries s w =
     (if is_path s = [] then (True, w)
      else idempotency_write (is_path s) (of_map enc_entry (is_entries s)) w)"

definition finish_request :: "gotime \<Rightarrow> string \<Rightarrow> string \<Rightarrow> int \<Rightarrow> bytes \<Rightarrow> string \<Rightarrow> IdempotencyStore \<Rightarrow> world \<Rightarrow>
    bool \<times> IdempotencyStore \<times> world" where
  "finish_request now key fingerprint status body etag s w =
     (let s1 = s\<lparr>is_inflight := AList.delete key (is_inflight s)\<rparr>
      in if 500 \<le> status then (True, s1, w)
         else let e = \<lparr>e_fingerprint = fingerprint, e_status = status, e_body = body, e_etag = etag, e_created = now\<rparr>;
                  s2 = s1\<lparr>is_entries := pruneEntries now (AList.update key e (is_entries s1))\<rparr>
              in case saveEntries s2 w of (ok, w1) \<Rightarrow> (ok, s2, w1))"

section \<open>Middleware\<close>

definition validIdempotencyKey :: "string \<Rightarrow> bool" where
  "validIdempotencyKey key =
     (key \<noteq> [] \<and> length key \<le> idempotencyMaxKey \<and>
      list_all (\<lambda>c. 0x21 \<le> (of_char c :: nat) \<and> (of_char c :: nat) \<le> 0x7e) key)"

record request =
  rq_method :: string
  rq_path :: string
  rq_if_match :: string
  rq_key :: string
  rq_body :: "bytes option"

record response =
  rs_status :: int
  rs_body :: bytes
  rs_etag :: string
  rs_replayed :: bool

definition fingerprint_input :: "request \<Rightarrow> bytes \<Rightarrow> bytes" where
  "fingerprint_input r body =
     concat (map (\<lambda>part. part @ [CHR 0x00]) [rq_method r, rq_path r, rq_if_match r]) @ body"

text \<open>\<open>writeError\<close>; the JSON body is made by the argument.\<close>

definition error_response :: "(string \<Rightarrow> bytes) \<Rightarrow> int \<Rightarrow> string \<Rightarrow> response" where
  "error_response err_body status message = \<lparr>rs_status = status, rs_body = err_body message, rs_etag = [], rs_replayed = False\<rparr>"

record 'h api_state =
  ap_handler :: 'h
  ap_idem :: "IdempotencyStore option"
  ap_world :: world

text \<open>The wrapped handler; \<open>now\<close> and \<open>later\<close> are the clock when the request begins and when it is
  recorded.  A body that cannot be read (too large, say) is \<open>None\<close>.  A handler that panics answers
  \<open>None\<close>: \<open>net/http\<close> recovers and closes the connection, and nothing after the call runs.\<close>

type_synonym 'h handler = "request \<Rightarrow> 'h \<Rightarrow> world \<Rightarrow> response option \<times> 'h \<times> world"

definition pass_through :: "'h handler \<Rightarrow> request \<Rightarrow> 'h api_state \<Rightarrow> response option \<times> 'h api_state" where
  "pass_through handler r a =
     (case handler r (ap_handler a) (ap_world a) of
        (resp, h, w) \<Rightarrow> (resp, a\<lparr>ap_handler := h, ap_world := w\<rparr>))"

definition idempotent ::
    "(bytes \<Rightarrow> string) \<Rightarrow> (string \<Rightarrow> bytes) \<Rightarrow> 'h handler \<Rightarrow> gotime \<Rightarrow> gotime \<Rightarrow>
     request \<Rightarrow> 'h api_state \<Rightarrow> response option \<times> 'h api_state" where
  "idempotent sha err_body handler now later r a =
     (case ap_idem a of
        None \<Rightarrow> pass_through handler r a
      | Some st \<Rightarrow>
          if rq_key r = [] then pass_through handler r a
          else if \<not> validIdempotencyKey (rq_key r)
          then (Some (error_response err_body 400 ''Idempotency-Key must be 1 to 255 visible ASCII characters''), a)
          else case rq_body r of
            None \<Rightarrow> (Some (error_response err_body 400 ''read request body''), a)
          | Some body \<Rightarrow>
              (let fp = sha (fingerprint_input r body)
               in case begin_request now (rq_key r) fp st of
                    (e, idempotencyReplay, st1) \<Rightarrow>
                      (Some \<lparr>rs_status = e_status e, rs_body = e_body e, rs_etag = e_etag e, rs_replayed = True\<rparr>,
                       a\<lparr>ap_idem := Some st1\<rparr>)
                  | (_, idempotencyInFlight, st1) \<Rightarrow>
                      (Some (error_response err_body 409 ''a request with this Idempotency-Key is still being processed''),
                       a\<lparr>ap_idem := Some st1\<rparr>)
                  | (_, idempotencyMismatch, st1) \<Rightarrow>
                      (Some (error_response err_body 422 ''Idempotency-Key was already used for a different request''),
                       a\<lparr>ap_idem := Some st1\<rparr>)
                  | (_, idempotencyNew, st1) \<Rightarrow>
                      (case handler r (ap_handler a) (ap_world a) of
                         (None, h, w) \<Rightarrow> (None, \<lparr>ap_handler = h, ap_idem = Some st1, ap_world = w\<rparr>)
                       | (Some resp, h, w) \<Rightarrow>
                           (case finish_request later (rq_key r) fp (rs_status resp) (rs_body resp) (rs_etag resp) st1 w of
                              (ok, st2, w1) \<Rightarrow>
                                (Some resp, \<lparr>ap_handler = h, ap_idem = Some st2, ap_world = w1\<rparr>)))))"

section \<open>The writer\<close>

interpretation iw: strict_writer idempotency_write Json
proof -
  have "idempotency_write = (\<lambda>p v. atomic_write ((\<lambda>_. ''.idempotency-'') p) [SWrite, SSync, SClose, SRename] p (Json v))"
    by (simp add: fun_eq_iff idempotency_write_def)
  moreover have "rename_steps [SWrite, SSync, SClose, SRename] [SWrite, SSync, SClose] []" by (simp add: rename_steps_def)
  ultimately show "strict_writer idempotency_write Json"
    using atomic_write_strict [where pat = "\<lambda>_. ''.idempotency-''" and enc = Json] by metis
qed

section \<open>Pruning\<close>

lemma pruneEntries_subset: "set (pruneEntries now es) \<subseteq> set es"
  by (auto simp: pruneEntries_def Let_def)

lemma pruneEntries_fresh: "(k, e) \<in> set (pruneEntries now es) \<Longrightarrow> entry_fresh now e"
  by (auto simp: pruneEntries_def Let_def split: if_splits)

lemma pruneEntries_wf: "gomap_wf es \<Longrightarrow> gomap_wf (pruneEntries now es)"
  by (simp add: pruneEntries_def Let_def distinct_map_filter)

lemma filter_not_in_length:
  assumes "gomap_wf m" "gone \<subseteq> fst ` set m"
  shows "length (filter (\<lambda>(k, e). k \<notin> gone) m) = length m - card gone"
proof -
  have "filter (\<lambda>(k, e). k \<notin> gone) m = filter (\<lambda>x. fst x \<notin> gone) m"
    by (rule filter_cong) auto
  then have "length (filter (\<lambda>(k, e). k \<notin> gone) m) = length (filter (\<lambda>k. k \<notin> gone) (map fst m))"
    by (simp add: filter_map comp_def)
  also have "\<dots> = card (set (filter (\<lambda>k. k \<notin> gone) (map fst m)))" using assms(1) by (metis distinct_card distinct_filter)
  also have "set (filter (\<lambda>k. k \<notin> gone) (map fst m)) = set (map fst m) - gone" by auto
  also have "card (set (map fst m) - gone) = card (set (map fst m)) - card gone"
    using assms(2) by (intro card_Diff_subset) (auto intro: finite_subset)
  finally show ?thesis using distinct_card [OF assms(1)] by simp
qed

lemma pruneEntries_bounded: "gomap_wf es \<Longrightarrow> length (pruneEntries now es) \<le> idempotencyMaxEntries"
proof -
  assume wf: "gomap_wf es"
  define kept where "kept = filter (\<lambda>(k, e). entry_fresh now e) es"
  define srt where "srt = map fst (sort_key (\<lambda>(k, e). e_created e) kept)"
  define gone where "gone = take (length kept - idempotencyMaxEntries) srt"
  have kwf: "gomap_wf kept" using wf by (simp add: kept_def distinct_map_filter)
  have p: "pruneEntries now es = (if length kept \<le> idempotencyMaxEntries then kept else filter (\<lambda>(k, e). k \<notin> set gone) kept)"
    by (simp add: pruneEntries_def kept_def gone_def srt_def Let_def)
  have ms: "mset srt = mset (map fst kept)" by (simp add: srt_def)
  then have "distinct srt" using kwf by (metis mset_eq_imp_distinct_iff)
  then have d: "card (set gone) = length gone" by (simp add: gone_def distinct_card)
  have len: "length srt = length kept" by (simp add: srt_def)
  have "set gone \<subseteq> set srt" unfolding gone_def by (rule set_take_subset)
  also have "set srt = fst ` set kept" using ms by (metis list.set_map set_mset_mset)
  finally have sub: "set gone \<subseteq> fst ` set kept" .
  show ?thesis
  proof (cases "length kept \<le> idempotencyMaxEntries")
    case False
    then show ?thesis using p filter_not_in_length [OF kwf sub] d len by (simp add: gone_def)
  qed (simp add: p)
qed

text \<open>The entry with the latest creation time survives.\<close>

lemma pruneEntries_keeps_newest:
  assumes wf: "gomap_wf es" and k: "(k, e) \<in> set es" and fresh: "entry_fresh now e"
    and newest: "\<And>k' e'. (k', e') \<in> set es \<Longrightarrow> k' \<noteq> k \<Longrightarrow> e_created e' < e_created e"
  shows "(k, e) \<in> set (pruneEntries now es)"
proof -
  define kept where "kept = filter (\<lambda>(k, e). entry_fresh now e) es"
  define srt where "srt = sort_key (\<lambda>(k, e). e_created e) kept"
  define gone where "gone = take (length kept - idempotencyMaxEntries) (map fst srt)"
  have p: "pruneEntries now es = (if length kept \<le> idempotencyMaxEntries then kept else filter (\<lambda>(k, e). k \<notin> set gone) kept)"
    by (simp add: pruneEntries_def kept_def gone_def srt_def Let_def)
  have kk: "(k, e) \<in> set kept" using k fresh by (simp add: kept_def)
  have kwf: "gomap_wf kept" using wf by (simp add: kept_def distinct_map_filter)
  have "mset (map fst srt) = mset (map fst kept)" by (simp add: srt_def)
  then have dsrt: "distinct (map fst srt)" using kwf by (metis mset_eq_imp_distinct_iff)
  have "k \<notin> set gone" if big: "\<not> length kept \<le> idempotencyMaxEntries"
  proof
    assume "k \<in> set gone"
    then obtain i where i: "i < length kept - idempotencyMaxEntries" "i < length srt" "fst (srt ! i) = k"
      by (auto simp: gone_def in_set_conv_nth)
    have len: "length srt = length kept" by (simp add: srt_def)
    then have j: "Suc i < length srt" using i(1) big by (simp add: idempotencyMaxEntries_def)
    have ie: "srt ! i = (k, e)"
    proof -
      have "srt ! i \<in> set kept" using i(2) nth_mem by (metis srt_def set_sort)
      then show ?thesis using i(3) kk kwf by (metis eq_key_imp_eq_value prod.collapse)
    qed
    obtain k' e' where ne: "srt ! Suc i = (k', e')" by fastforce
    have "k' \<noteq> k" using dsrt i j ne ie by (metis Suc_n_not_n fst_conv length_map nth_eq_iff_index_eq nth_map Suc_lessD)
    moreover have "(k', e') \<in> set es"
      using j ne nth_mem [of "Suc i" srt] by (simp add: srt_def kept_def)
    ultimately have lt: "e_created e' < e_created e" using newest by blast
    have "sorted (map (\<lambda>(k, e). e_created e) srt)" unfolding srt_def by (rule sorted_sort_key)
    then have "(\<lambda>(k, e). e_created e) (srt ! i) \<le> (\<lambda>(k, e). e_created e) (srt ! Suc i)"
      using j by (simp add: sorted_iff_nth_mono [of "map _ srt"] Suc_lessD)
    then show False using ie ne lt by simp
  qed
  then show ?thesis using p kk by auto
qed

section \<open>Requests in flight\<close>

text \<open>The store with the executions that got a go-ahead and have not finished, each by its key and
  fingerprint.  Arrivals that are turned away or answered from the store change nothing.\<close>

record idem_sys =
  sy_store :: IdempotencyStore
  sy_running :: "(string \<times> string) list"
  sy_world :: world

inductive idem_reach :: "idem_sys \<Rightarrow> bool" where
  opened: "NewIdempotencyStore now p w = (Inr st, w') \<Longrightarrow>
     idem_reach \<lparr>sy_store = st, sy_running = [], sy_world = w'\<rparr>"
| arrived: "idem_reach s \<Longrightarrow> begin_request now k fp (sy_store s) = (e, idempotencyNew, st) \<Longrightarrow>
     idem_reach (s\<lparr>sy_store := st, sy_running := (k, fp) # sy_running s\<rparr>)"
| finished: "idem_reach s \<Longrightarrow> (k, fp) \<in> set (sy_running s) \<Longrightarrow>
     finish_request now k fp status body etag (sy_store s) ((sy_world s)\<lparr>outcomes := os\<rparr>) = (ok, st, w) \<Longrightarrow>
     idem_reach \<lparr>sy_store = st, sy_running = remove1 (k, fp) (sy_running s), sy_world = w\<rparr>"

definition idem_inv :: "idem_sys \<Rightarrow> bool" where
  "idem_inv s \<longleftrightarrow>
     distinct (map fst (sy_running s)) \<and>
     (\<forall>k fp. map_of (is_inflight (sy_store s)) k = Some fp \<longleftrightarrow> (k, fp) \<in> set (sy_running s)) \<and>
     gomap_wf (is_entries (sy_store s)) \<and> length (is_entries (sy_store s)) \<le> idempotencyMaxEntries"

lemma begin_new:
  assumes "begin_request now k fp st = (e, idempotencyNew, st')"
  shows "st' = st\<lparr>is_inflight := AList.update k fp (is_inflight st)\<rparr>" "map_of (is_inflight st) k = None"
  using assms by (auto simp: begin_request_def Let_def split: option.splits if_splits)

lemma begin_other: "begin_request now k fp st = (e, s, st') \<Longrightarrow> s \<noteq> idempotencyNew \<Longrightarrow> st' = st"
  by (auto simp: begin_request_def Let_def split: option.splits if_splits)

lemma finish_inflight:
  "finish_request now k fp status body etag st w = (ok, st', w') \<Longrightarrow> is_inflight st' = AList.delete k (is_inflight st)"
  by (auto simp: finish_request_def Let_def split: if_splits prod.splits)

lemma finish_entries:
  "finish_request now k fp status body etag st w = (ok, st', w') \<Longrightarrow>
   is_entries st' = (if 500 \<le> status then is_entries st
     else pruneEntries now (AList.update k \<lparr>e_fingerprint = fp, e_status = status, e_body = body, e_etag = etag,
            e_created = now\<rparr> (is_entries st)))"
  by (auto simp: finish_request_def Let_def split: if_splits prod.splits)

lemma NewIdempotencyStore_inv:
  assumes "NewIdempotencyStore now p w = (Inr st, w')"
  shows "is_inflight st = []" "gomap_wf (is_entries st)" "length (is_entries st) \<le> idempotencyMaxEntries"
  using assms pruneEntries_wf pruneEntries_bounded
  by (auto simp: NewIdempotencyStore_def Let_def split: if_splits prod.splits sum.splits ioerr.splits fdata.splits
      option.splits dest!: as_map_wf)

lemma idem_reach_inv: "idem_reach s \<Longrightarrow> idem_inv s"
proof (induction rule: idem_reach.induct)
  case (opened now p w st w')
  then show ?case using NewIdempotencyStore_inv by (auto simp: idem_inv_def)
next
  case (arrived s now k fp e st)
  note b = begin_new [OF arrived.hyps(2)]
  have "k \<notin> fst ` set (sy_running s)"
  proof
    assume "k \<in> fst ` set (sy_running s)"
    then obtain fp' where "(k, fp') \<in> set (sy_running s)" by auto
    then have "map_of (is_inflight (sy_store s)) k = Some fp'" using arrived.IH by (simp add: idem_inv_def)
    then show False using b(2) by simp
  qed
  then show ?case using arrived.IH b by (auto simp: idem_inv_def update_conv' image_iff)
next
  case (finished s k fp now status body etag os ok st w)
  note f = finish_inflight [OF finished.hyps(3)] finish_entries [OF finished.hyps(3)]
  have d: "distinct (map fst (sy_running s))" and wf: "gomap_wf (is_entries (sy_store s))"
    and inf: "\<And>k fp. map_of (is_inflight (sy_store s)) k = Some fp \<longleftrightarrow> (k, fp) \<in> set (sy_running s)"
    using finished.IH by (auto simp: idem_inv_def)
  have dr: "distinct (sy_running s)" using d by (simp add: distinct_map)
  have rest: "set (remove1 (k, fp) (sy_running s)) = {x \<in> set (sy_running s). fst x \<noteq> k}"
    using dr d finished.hyps(2) by (auto simp: set_remove1_eq) (metis eq_key_imp_eq_value)
  have "distinct (map fst (remove1 (k, fp) (sy_running s)))" using d by (simp add: distinct_map inj_on_def dr)
  moreover have "map_of (is_inflight st) k' = Some fp' \<longleftrightarrow> (k', fp') \<in> set (remove1 (k, fp) (sy_running s))" for k' fp'
    using inf rest f(1) by (auto simp: delete_conv')
  moreover have "gomap_wf (is_entries st)" "length (is_entries st) \<le> idempotencyMaxEntries"
    using f(2) wf finished.IH pruneEntries_wf pruneEntries_bounded
    by (auto simp: idem_inv_def distinct_update)
  ultimately show ?case by (simp add: idem_inv_def)
qed

section \<open>Replay\<close>

lemma finish_then_begin:
  assumes wf: "gomap_wf (is_entries st)" and old: "\<And>k' e'. (k', e') \<in> set (is_entries st) \<Longrightarrow> k' \<noteq> k \<Longrightarrow> e_created e' < t"
    and fin: "finish_request t k fp status body etag st w = (ok, st', w')" and status: "status < 500"
    and t2: "t2 - t < idempotencyTTL"
  shows "begin_request t2 k fp st' =
     (\<lparr>e_fingerprint = fp, e_status = status, e_body = body, e_etag = etag, e_created = t\<rparr>, idempotencyReplay, st')"
proof -
  let ?e = "\<lparr>e_fingerprint = fp, e_status = status, e_body = body, e_etag = etag, e_created = t\<rparr>"
  let ?es = "AList.update k ?e (is_entries st)"
  have ttl: "0 < idempotencyTTL" "idempotencyTTL \<le> max_duration"
    by (simp_all add: idempotencyTTL_def hour_def minute_def second_def max_duration_def)
  have fresh: "entry_fresh t ?e" "entry_fresh t2 ?e"
    using t2 ttl by (simp_all add: entry_fresh_def time_sub_less)
  have es: "is_entries st' = pruneEntries t ?es" using finish_entries [OF fin] status by simp
  have uwf: "gomap_wf ?es" using wf by (rule distinct_update)
  note set_upd = set_update_wf [OF wf, of _ k ?e]
  have "map_of ?es k = Some ?e" by (simp add: update_conv')
  then have "(k, ?e) \<in> set ?es" by (rule map_of_SomeD)
  then have "(k, ?e) \<in> set (is_entries st')"
    unfolding es
  proof (rule pruneEntries_keeps_newest [OF uwf])
    fix k' e' assume "(k', e') \<in> set ?es" "k' \<noteq> k"
    then have "(k', e') \<in> set (is_entries st)" using set_upd [of "(k', e')"] by auto
    then show "e_created e' < e_created ?e" using old \<open>k' \<noteq> k\<close> by simp
  qed (rule fresh(1))
  then have "map_of (is_entries st') k = Some ?e" using es pruneEntries_wf [OF uwf] by simp
  then show ?thesis using fresh(2) by (simp add: begin_request_def Let_def)
qed

section \<open>Restart\<close>

lemma dec_enc_entry: "- (2 ^ 63) \<le> e_status e \<Longrightarrow> e_status e < 2 ^ 63 \<Longrightarrow> dec_entry (enc_entry e) = Some e"
  by (simp add: dec_entry_def enc_entry_def jget_def as_str_def as_int64_def as_bytes_def as_time_def)

lemma entry_fresh_antimono: "t \<le> t' \<Longrightarrow> entry_fresh t' e \<Longrightarrow> entry_fresh t e"
  by (auto simp: entry_fresh_def time_sub_def)

lemma saveEntries_on_disk:
  assumes "saveEntries st w = (True, w')" "is_path st \<noteq> []"
  shows "flookup w' (is_path st) = Some (Json (of_map enc_entry (is_entries st)))"
  using assms iw.write_ok by (simp add: saveEntries_def)

lemma restored_entries:
  assumes d: "flookup w p = Some (Json (of_map enc_entry es))" and p: "p \<noteq> []" and w: "calm w"
    and wf: "gomap_wf es" and len: "length es \<le> idempotencyMaxEntries"
    and st: "\<And>k e. (k, e) \<in> set es \<Longrightarrow> - (2 ^ 63) \<le> e_status e \<and> e_status e < 2 ^ 63"
  obtains st where "NewIdempotencyStore now p w = (Inr st, w)" "is_path st = p" "is_inflight st = []"
    "\<And>k. map_of (is_entries st) k = (case map_of es k of Some e \<Rightarrow> if entry_fresh now e then Some e else None | None \<Rightarrow> None)"
proof -
  let ?es = "sort_key fst es"
  let ?st = "\<lparr>is_path = p, is_entries = pruneEntries now ?es, is_inflight = []\<rparr>"
  have swf: "gomap_wf ?es" using wf by (metis mset_eq_imp_distinct_iff mset_map mset_sort)
  have "as_map dec_entry (of_map enc_entry es) = Some ?es"
    using st wf by (intro as_map_of_map) (auto intro: dec_enc_entry)
  then have new: "NewIdempotencyStore now p w = (Inr ?st, w)"
    using d p w by (simp add: NewIdempotencyStore_def os_read_file_def syscall_def)
  have "length (filter (\<lambda>(k, e). entry_fresh now e) ?es) \<le> idempotencyMaxEntries"
    using len length_filter_le [of "\<lambda>(k, e). entry_fresh now e" ?es] by simp
  then have "pruneEntries now ?es = filter (\<lambda>(k, e). entry_fresh now e) ?es"
    by (simp add: pruneEntries_def Let_def)
  then have "map_of (is_entries ?st) k = (case map_of es k of Some e \<Rightarrow> if entry_fresh now e then Some e else None | None \<Rightarrow> None)" for k
    using map_of_filter_wf [OF swf, of "entry_fresh now" k] map_of_sort_key [OF wf] by simp
  with new show thesis by (intro that [of ?st]) simp_all
qed

lemma begin_restored:
  assumes look: "map_of (is_entries st') k = (case map_of (is_entries st) k of Some e \<Rightarrow> if entry_fresh t e then Some e else None | None \<Rightarrow> None)"
    and idle: "map_of (is_inflight st') k = None" "map_of (is_inflight st) k = None" and later: "t \<le> t'"
  shows "fst (begin_request t' k fp st') = fst (begin_request t' k fp st) \<and>
    fst (snd (begin_request t' k fp st')) = fst (snd (begin_request t' k fp st))"
proof (cases "map_of (is_entries st) k")
  case None
  then show ?thesis using look idle by (simp add: begin_request_def)
next
  case (Some e)
  show ?thesis
  proof (cases "entry_fresh t' e")
    case True
    then show ?thesis using Some look entry_fresh_antimono [OF later True] by (simp add: begin_request_def)
  next
    case False
    then show ?thesis using Some look idle by (cases "entry_fresh t e") (simp_all add: begin_request_def)
  qed
qed

lemma finish_saved:
  assumes "finish_request now k fp status body etag st w = (ok, st', w')" "status < 500"
  shows "is_path st' = is_path st" "saveEntries st' w = (ok, w')"
  using assms by (auto simp: finish_request_def Let_def split: prod.splits)

section \<open>Properties\<close>

definition idem_demo_sys :: idem_sys where
  "idem_demo_sys =
     \<lparr>sy_store = \<lparr>is_path = [], is_entries = [], is_inflight = [(''k1'', ''fp'')]\<rparr>,
      sy_running = [(''k1'', ''fp'')], sy_world = \<lparr>disk = [], outcomes = [], snaps = []\<rparr>\<rparr>"

text \<open>
  C22. At most one request per Idempotency-Key executes at any time: in every state that opening the
  store, arriving requests and finishing requests can lead to, the executions in progress have
  different keys, a request whose key is executing is not given a go-ahead whatever its content,
  and the store never holds more than 1000 recorded responses.
\<close>

theorem one_execution_per_key:
  assumes "idem_reach s"
  shows "distinct (map fst (sy_running s)) \<and>
    (\<forall>k\<in>fst ` set (sy_running s). \<forall>now fp. fst (snd (begin_request now k fp (sy_store s))) \<noteq> idempotencyNew) \<and>
    length (is_entries (sy_store s)) \<le> 1000"
proof -
  have inv: "idem_inv s" using assms by (rule idem_reach_inv)
  have "fst (snd (begin_request now k fp (sy_store s))) \<noteq> idempotencyNew" if "k \<in> fst ` set (sy_running s)" for k now fp
  proof
    assume "fst (snd (begin_request now k fp (sy_store s))) = idempotencyNew"
    then obtain e st where "begin_request now k fp (sy_store s) = (e, idempotencyNew, st)" by (metis prod.collapse)
    then have "map_of (is_inflight (sy_store s)) k = None" by (rule begin_new)
    moreover from that obtain fp' where "(k, fp') \<in> set (sy_running s)" by auto
    then have "map_of (is_inflight (sy_store s)) k = Some fp'" using inv by (simp add: idem_inv_def)
    ultimately show False by simp
  qed
  then show ?thesis using inv by (simp add: idem_inv_def idempotencyMaxEntries_def)
qed

lemma idem_demo_reach: "idem_reach idem_demo_sys"
proof -
  let ?w = "\<lparr>disk = [], outcomes = [], snaps = []\<rparr> :: world"
  have "idem_reach \<lparr>sy_store = \<lparr>is_path = [], is_entries = [], is_inflight = []\<rparr>, sy_running = [], sy_world = ?w\<rparr>"
    by (rule idem_reach.opened [of 0 "[]" ?w]) (simp add: NewIdempotencyStore_def)
  from idem_reach.arrived [OF this, of 0 "''k1''" "''fp''" no_entry "sy_store idem_demo_sys"]
  show ?thesis by (simp add: begin_request_def idem_demo_sys_def)
qed

theorem one_execution_per_key_witness:
  "distinct (map fst (sy_running idem_demo_sys)) \<and>
   fst (snd (begin_request 7 ''k1'' ''other'' (sy_store idem_demo_sys))) = idempotencyMismatch"
proof -
  have "distinct (map fst (sy_running idem_demo_sys))"
    using one_execution_per_key [OF idem_demo_reach] by blast
  then show ?thesis by (simp add: idem_demo_sys_def begin_request_def)
qed

definition demo_request :: request where
  "demo_request = \<lparr>rq_method = ''PUT'', rq_path = ''/zones/a'', rq_if_match = ''r1'', rq_key = ''k1'', rq_body = Some ''{}''\<rparr>"

definition demo_api :: "nat api_state" where
  "demo_api =
     \<lparr>ap_handler = 0, ap_idem = Some \<lparr>is_path = ''/s/idem'', is_entries = [], is_inflight = []\<rparr>,
      ap_world = \<lparr>disk = [], outcomes = [], snaps = []\<rparr>\<rparr>"

definition demo_handler :: "nat handler" where
  "demo_handler r h w = (Some \<lparr>rs_status = 200, rs_body = rq_path r, rs_etag = ''r2'', rs_replayed = False\<rparr>, Suc h, w)"

lemma idempotent_executes:
  assumes "ap_idem a = Some st" "rq_key r \<noteq> []" "validIdempotencyKey (rq_key r)" "rq_body r = Some body"
    and "begin_request now (rq_key r) (sha (fingerprint_input r body)) st = (e, idempotencyNew, st1)"
  shows "idempotent sha eb handler now later r a =
    (case handler r (ap_handler a) (ap_world a) of
       (None, h, w) \<Rightarrow> (None, \<lparr>ap_handler = h, ap_idem = Some st1, ap_world = w\<rparr>)
     | (Some resp, h, w) \<Rightarrow>
         (case finish_request later (rq_key r) (sha (fingerprint_input r body)) (rs_status resp) (rs_body resp) (rs_etag resp)
                 st1 w of
            (ok, st2, w1) \<Rightarrow> (Some resp, \<lparr>ap_handler = h, ap_idem = Some st2, ap_world = w1\<rparr>)))"
  using assms by (simp add: idempotent_def Let_def)

text \<open>A handler that panics leaves its key in flight: no later request with that key runs, however much
  time has passed.\<close>

lemma panicked_key_is_blocked:
  assumes st: "ap_idem a = Some st" and key: "validIdempotencyKey (rq_key r)" and body: "rq_body r = Some body"
    and new: "begin_request now (rq_key r) (sha (fingerprint_input r body)) st = (e, idempotencyNew, st1)"
    and gone: "\<not> (\<exists>e. map_of (is_entries st) (rq_key r) = Some e \<and> entry_fresh t2 e)"
    and panic: "idempotent sha eb handler now later r a = (None, a')"
  shows "idempotent sha eb handler' t2 t3 r a' =
    (Some (error_response eb 409 ''a request with this Idempotency-Key is still being processed''), a')"
proof -
  have ne: "rq_key r \<noteq> []" using key by (simp add: validIdempotencyKey_def)
  obtain o1 h w where h: "handler r (ap_handler a) (ap_world a) = (o1, h, w)" by (metis prod.collapse)
  then have a': "a' = \<lparr>ap_handler = h, ap_idem = Some st1, ap_world = w\<rparr>"
    using panic idempotent_executes [where sha = sha, OF st ne key body new]
    by (cases o1) (auto split: prod.splits)
  have "begin_request t2 (rq_key r) (sha (fingerprint_input r body)) st1 = (no_entry, idempotencyInFlight, st1)"
    using gone begin_new [OF new] by (auto simp: begin_request_def update_conv' split: option.splits)
  then show ?thesis using a' ne key body by (simp add: idempotent_def Let_def)
qed



text \<open>
  C24. A restart is invisible to retries: when recording a response reported success, a store
  reopened at any later time (from a readable disk) gives every request whose key was not in flight
  the same answer as the running store would have, as long as status codes fit Go's \<open>int\<close>.
\<close>

theorem restart_keeps_answers:
  assumes reach: "idem_reach s" and run: "(k, fp) \<in> set (sy_running s)"
    and fin: "finish_request now k fp status body etag (sy_store s) ((sy_world s)\<lparr>outcomes := os\<rparr>) = (True, st, w)"
    and status: "status < 500" and path: "is_path (sy_store s) \<noteq> []" and calm: "calm w"
    and range: "\<And>k e. (k, e) \<in> set (is_entries st) \<Longrightarrow> - (2 ^ 63) \<le> e_status e \<and> e_status e < 2 ^ 63"
    and idle: "map_of (is_inflight st) k' = None" and later: "t \<le> t'"
  shows "\<exists>st'. NewIdempotencyStore t (is_path st) w = (Inr st', w) \<and>
    fst (begin_request t' k' fp' st') = fst (begin_request t' k' fp' st) \<and>
    fst (snd (begin_request t' k' fp' st')) = fst (snd (begin_request t' k' fp' st))"
proof -
  from idem_reach_inv [OF idem_reach.finished [OF reach run fin]]
  have wf: "gomap_wf (is_entries st)" and len: "length (is_entries st) \<le> idempotencyMaxEntries"
    by (simp_all add: idem_inv_def)
  note same = finish_saved(1) [OF fin status] and saved = finish_saved(2) [OF fin status]
  have ne: "is_path st \<noteq> []" using path same by simp
  note on_disk = saveEntries_on_disk [OF saved ne]
  obtain st' where st': "NewIdempotencyStore t (is_path st) w = (Inr st', w)" "is_inflight st' = []"
    and look: "\<And>k. map_of (is_entries st') k = (case map_of (is_entries st) k of Some e \<Rightarrow> if entry_fresh t e then Some e else None | None \<Rightarrow> None)"
  proof (rule restored_entries [OF on_disk ne calm wf len, of t])
    fix k e assume "(k, e) \<in> set (is_entries st)"
    then show "- (2 ^ 63) \<le> e_status e \<and> e_status e < 2 ^ 63" by (rule range)
  next
    fix x assume "NewIdempotencyStore t (is_path st) w = (Inr x, w)" "is_inflight x = []"
      "\<And>k. map_of (is_entries x) k = (case map_of (is_entries st) k of Some e \<Rightarrow> if entry_fresh t e then Some e else None | None \<Rightarrow> None)"
    then show thesis by (rule that)
  qed
  have "fst (begin_request t' k' fp' st') = fst (begin_request t' k' fp' st)"
    "fst (snd (begin_request t' k' fp' st')) = fst (snd (begin_request t' k' fp' st))"
    using begin_restored [OF look [of k'] _ idle later, of fp'] st'(2) by simp_all
  with st'(1) show ?thesis by blast
qed

definition demo_disk_store :: IdempotencyStore where
  "demo_disk_store = \<lparr>is_path = ''/s/idem'', is_entries = [], is_inflight = []\<rparr>"

lemma finish_calm:
  assumes "calm w"
  shows "\<exists>st' w'. finish_request now k fp status body etag st w = (True, st', w') \<and> calm w'"
proof -
  have "\<exists>w'. saveEntries st' w = (True, w') \<and> calm w'" for st'
    using iw.write_calm [OF assms] assms by (simp add: saveEntries_def)
  then show ?thesis using assms by (simp add: finish_request_def Let_def split: prod.splits) (metis prod.inject)
qed

theorem restart_keeps_answers_witness:
  "\<exists>st st' w. fst (snd (begin_request 20 ''k1'' ''fp'' st)) = idempotencyReplay \<and>
     NewIdempotencyStore 10 ''/s/idem'' w = (Inr st', w) \<and>
     fst (snd (begin_request 20 ''k1'' ''fp'' st')) = idempotencyReplay"
proof -
  let ?w = "\<lparr>disk = [], outcomes = [], snaps = []\<rparr> :: world"
  let ?s = "\<lparr>sy_store = demo_disk_store\<lparr>is_inflight := [(''k1'', ''fp'')]\<rparr>, sy_running = [(''k1'', ''fp'')], sy_world = ?w\<rparr>"
  have "idem_reach \<lparr>sy_store = demo_disk_store, sy_running = [], sy_world = ?w\<rparr>"
    by (rule idem_reach.opened [of 0 "''/s/idem''" ?w])
      (simp add: NewIdempotencyStore_def os_read_file_def syscall_def demo_disk_store_def)
  from idem_reach.arrived [OF this, of 0 "''k1''" "''fp''" no_entry "sy_store ?s"]
  have reach: "idem_reach ?s" by (simp add: begin_request_def demo_disk_store_def)
  obtain st w where fin: "finish_request 5 ''k1'' ''fp'' 200 ''b'' [] (sy_store ?s) ((sy_world ?s)\<lparr>outcomes := []\<rparr>) = (True, st, w)"
    and calm: "calm w" using finish_calm [of "(sy_world ?s)\<lparr>outcomes := []\<rparr>"] by force
  have st: "st = demo_disk_store\<lparr>is_entries := [(''k1'', \<lparr>e_fingerprint = ''fp'', e_status = 200, e_body = ''b'', e_etag = [], e_created = 5\<rparr>)]\<rparr>"
    using fin by (auto simp: finish_request_def Let_def demo_disk_store_def pruneEntries_def entry_fresh_def time_sub_def
        idempotencyTTL_def hour_def minute_def second_def max_duration_def min_duration_def idempotencyMaxEntries_def
        split: prod.splits)
  have new: "fst (snd (begin_request 20 ''k1'' ''fp'' st)) = idempotencyReplay"
    by (simp add: st begin_request_def entry_fresh_def time_sub_def idempotencyTTL_def hour_def minute_def second_def
        max_duration_def min_duration_def)
  have "\<exists>st'. NewIdempotencyStore 10 (is_path st) w = (Inr st', w) \<and>
    fst (begin_request 20 ''k1'' ''fp'' st') = fst (begin_request 20 ''k1'' ''fp'' st) \<and>
    fst (snd (begin_request 20 ''k1'' ''fp'' st')) = fst (snd (begin_request 20 ''k1'' ''fp'' st))"
    by (rule restart_keeps_answers [OF reach _ fin _ _ calm]) (simp_all add: st demo_disk_store_def)
  then obtain st' where "NewIdempotencyStore 10 (is_path st) w = (Inr st', w)"
    "fst (snd (begin_request 20 ''k1'' ''fp'' st')) = fst (snd (begin_request 20 ''k1'' ''fp'' st))"
    by blast
  with new show ?thesis by (auto simp: st demo_disk_store_def)
qed

lemma nul_prefix_inj:
  "CHR 0x00 \<notin> set a \<Longrightarrow> CHR 0x00 \<notin> set b \<Longrightarrow> a @ CHR 0x00 # x = b @ CHR 0x00 # y \<Longrightarrow> a = b \<and> x = y"
proof (induction a arbitrary: b)
  case Nil
  then show ?case by (cases b) auto
next
  case (Cons c a)
  then show ?case by (cases b) auto
qed

definition nul_free :: "request \<Rightarrow> bool" where
  "nul_free r = (CHR 0x00 \<notin> set (rq_method r) \<union> set (rq_path r) \<union> set (rq_if_match r))"

lemma fingerprint_input_inj:
  assumes "nul_free r" "nul_free r'" "fingerprint_input r b = fingerprint_input r' b'"
  shows "rq_method r = rq_method r' \<and> rq_path r = rq_path r' \<and> rq_if_match r = rq_if_match r' \<and> b = b'"
proof -
  have n: "CHR 0x00 \<notin> set (rq_method r)" "CHR 0x00 \<notin> set (rq_path r)" "CHR 0x00 \<notin> set (rq_if_match r)"
    "CHR 0x00 \<notin> set (rq_method r')" "CHR 0x00 \<notin> set (rq_path r')" "CHR 0x00 \<notin> set (rq_if_match r')"
    using assms(1,2) by (simp_all add: nul_free_def)
  have unfold_input: "fingerprint_input q x = rq_method q @ CHR 0x00 # rq_path q @ CHR 0x00 # rq_if_match q @ CHR 0x00 # x" for q x
    by (simp add: fingerprint_input_def)
  note m = nul_prefix_inj [OF n(1,4) assms(3) [unfolded unfold_input]]
  note p = nul_prefix_inj [OF n(2,5) m [THEN conjunct2]]
  note i = nul_prefix_inj [OF n(3,6) p [THEN conjunct2]]
  show ?thesis using m p i by blast
qed

text \<open>
  A key is bound to its request: when the key's recorded response is still valid, or its
  request is still executing, a request with the same key but another method, path, If-Match or body
  is answered 422 and changes nothing, provided the hash separates the two inputs; and the hash
  input separates any two different requests whose method, path and If-Match hold no NUL byte.
\<close>

lemma key_bound_to_request:
  assumes st: "ap_idem a = Some st" and key: "validIdempotencyKey (rq_key r')" and body: "rq_body r' = Some b'"
    and bound: "(\<exists>e. map_of (is_entries st) (rq_key r') = Some e \<and> entry_fresh now e \<and> e_fingerprint e = sha (fingerprint_input r b)) \<or>
      (map_of (is_entries st) (rq_key r') = None \<and> map_of (is_inflight st) (rq_key r') = Some (sha (fingerprint_input r b)))"
    and nul: "nul_free r" "nul_free r'"
    and differ: "(rq_method r, rq_path r, rq_if_match r, b) \<noteq> (rq_method r', rq_path r', rq_if_match r', b')"
    and hash: "fingerprint_input r b \<noteq> fingerprint_input r' b' \<Longrightarrow> sha (fingerprint_input r b) \<noteq> sha (fingerprint_input r' b')"
  shows "idempotent sha eb handler now later r' a =
    (Some (error_response eb 422 ''Idempotency-Key was already used for a different request''), a)"
proof -
  have "fingerprint_input r b \<noteq> fingerprint_input r' b'" using fingerprint_input_inj [OF nul] differ by auto
  then have "sha (fingerprint_input r b) \<noteq> sha (fingerprint_input r' b')" by (rule hash)
  then have "begin_request now (rq_key r') (sha (fingerprint_input r' b')) st = (no_entry, idempotencyMismatch, st)"
    using bound by (auto simp: begin_request_def Let_def)
  moreover have "rq_key r' \<noteq> []" using key by (simp add: validIdempotencyKey_def)
  ultimately show ?thesis using st key body by (simp add: idempotent_def Let_def)
qed

lemma key_bound_to_request_example:
  "idempotent id id demo_handler 1 2 (demo_request\<lparr>rq_path := ''/zones/b''\<rparr>)
     (demo_api\<lparr>ap_idem := Some (demo_disk_store\<lparr>is_inflight := [(''k1'', fingerprint_input demo_request ''{}'')]\<rparr>)\<rparr>) =
   (Some (error_response id 422 ''Idempotency-Key was already used for a different request''),
    demo_api\<lparr>ap_idem := Some (demo_disk_store\<lparr>is_inflight := [(''k1'', fingerprint_input demo_request ''{}'')]\<rparr>)\<rparr>)"
  by (rule key_bound_to_request [where r = demo_request and b = "''{}''" and b' = "''{}''"
        and st = "demo_disk_store\<lparr>is_inflight := [(''k1'', fingerprint_input demo_request ''{}'')]\<rparr>"])
    (simp_all add: demo_request_def demo_disk_store_def nul_free_def validIdempotencyKey_def idempotencyMaxKey_def)

end
