(* ===== verification/ApiHandler.thy ===== *)
theory ApiHandler
  imports ApiTheorems Idempotency
begin

text \<open>
  The multiplexer of the control API (\<open>Handler\<close> in internal/api/server.go): the handlers behind the
  routes, the mutating ones behind the idempotency middleware.  The text of JSON values and SHA-256 are
  arguments.  Not routed here: the two endpoints that forward to Prometheus and to the telemetry
  service.
\<close>

record wire =
  wr_parse :: "bytes \<Rightarrow> string + jvalue"
  wr_print :: "payload \<Rightarrow> bytes"
  wr_sha :: "bytes \<Rightarrow> string"

text \<open>What the client gets: nothing if the handler panicked.\<close>

definition respond :: "wire \<Rightarrow> reply \<Rightarrow> response option" where
  "respond W y =
     (if y_payload y = PAborted then None
      else Some \<lparr>rs_status = int (y_status y), rs_body = wr_print W (y_payload y),
                 rs_etag = (case y_etag y of None \<Rightarrow> [] | Some t \<Rightarrow> t), rs_replayed = False\<rparr>)"

text \<open>A handler over the request line, the two headers and the body that the middleware also reads.\<close>

definition http_handler :: "wire \<Rightarrow> 'c api_config \<Rightarrow> route \<Rightarrow> api_req \<Rightarrow> 'c api_server handler" where
  "http_handler W C route q r s w =
     (let q' = q\<lparr>q_if_match := rq_if_match r,
                 q_body := (case rq_body r of None \<Rightarrow> Inl ''invalid JSON: http: request body too large'' | Some b \<Rightarrow> wr_parse W b)\<rparr>
      in case serve C route q' (s\<lparr>sr_world := w\<rparr>) of
           (y, s') \<Rightarrow> (respond W y, s', sr_world s'))"

definition Handler :: "wire \<Rightarrow> 'c api_config \<Rightarrow> route \<Rightarrow> api_req \<Rightarrow> gotime \<Rightarrow> gotime \<Rightarrow> request \<Rightarrow>
    'c api_server api_state \<Rightarrow> response option \<times> 'c api_server api_state" where
  "Handler W C route q now later r a =
     (if mutating route
      then idempotent (wr_sha W) (\<lambda>m. wr_print W (PError m)) (http_handler W C route q) now later r a
      else pass_through (http_handler W C route q) r a)"

section \<open>A refused request through the middleware\<close>

text \<open>Without a key a refused request leaves the disk alone; with one, the middleware at most records
  the answer in its own state file, so no other file changes.\<close>

lemma http_handler_refused:
  assumes law: "fqdn_law (s_dns (sr_store C))" and route: "route \<noteq> RCfApply"
    and run: "http_handler W C route q r s w = (Some resp, s', w')" and no: "400 \<le> rs_status resp" "rs_status resp < 500"
  shows "same_disk w w'"
proof -
  let ?q = "q\<lparr>q_if_match := rq_if_match r,
      q_body := (case rq_body r of None \<Rightarrow> Inl ''invalid JSON: http: request body too large'' | Some b \<Rightarrow> wr_parse W b)\<rparr>"
  obtain y t where y: "serve C route ?q (s\<lparr>sr_world := w\<rparr>) = (y, t)" by fastforce
  then have resp: "respond W y = Some resp" and w': "w' = sr_world t"
    using run by (auto simp: http_handler_def Let_def)
  have "refused_status y" using resp no by (auto simp: respond_def refused_status_def split: if_splits)
  from serve_refused [OF law y this route] show ?thesis by (simp add: untouched_def w')
qed

lemma begin_path: "begin_request now k fp st = (e, x, st') \<Longrightarrow> is_path st' = is_path st"
  by (auto simp: begin_request_def Let_def split: option.splits if_splits)

lemma finish_frame:
  assumes "finish_request t k fp status body etag st w = (ok, st', w')" "p \<noteq> is_path st" "\<not> ends_digit p"
  shows "flookup w' p = flookup w p"
  using assms iw.write_other [of "is_path st"]
  by (auto simp: finish_request_def saveEntries_def Let_def split: if_splits prod.splits)

lemma Handler_refused:
  assumes law: "fqdn_law (s_dns (sr_store C))" and route: "route \<noteq> RCfApply"
    and run: "Handler W C route q now later r a = (Some resp, a')" and no: "400 \<le> rs_status resp" "rs_status resp < 500"
    and p: "\<And>st. ap_idem a = Some st \<Longrightarrow> p \<noteq> is_path st" "\<not> ends_digit p"
  shows "flookup (ap_world a') p = flookup (ap_world a) p"
proof -
  let ?h = "http_handler W C route q"
  obtain o1 s1 w1 where h: "?h r (ap_handler a) (ap_world a) = (o1, s1, w1)" by (metis prod.collapse)
  have through: "pass_through ?h r a = (o1, a\<lparr>ap_handler := s1, ap_world := w1\<rparr>)" by (simp add: pass_through_def h)
  have d: "o1 = Some resp \<Longrightarrow> flookup w1 p = flookup (ap_world a) p"
    using http_handler_refused [OF law route, of W q r] h no by (auto simp: same_disk_def)
  consider "pass_through ?h r a = (Some resp, a')" | "ap_world a' = ap_world a"
    | st fp ok st1 st2 w2 where "ap_idem a = Some st" "is_path st1 = is_path st" "o1 = Some resp"
        "finish_request later (rq_key r) fp (rs_status resp) (rs_body resp) (rs_etag resp) st1 w1 = (ok, st2, w2)" "ap_world a' = w2"
    using run h unfolding Handler_def idempotent_def
    by (auto simp: Let_def split: if_splits option.splits prod.splits idempotencyState.splits) (blast dest: begin_path)
  then show ?thesis
  proof cases
    case 1
    then show ?thesis using d through by auto
  next
    case (3 st fp ok st1 st2 w2)
    then show ?thesis using d finish_frame [OF 3(4)] p by simp
  qed simp
qed

end
