(* ===== verification/DiffTool.thy ===== *)
theory DiffTool
  imports DnsLib RefreshStatus "HOL-Library.Multiset"
begin

text \<open>
  The comparison of two DNS servers (cmd/rill-diff/main.go): zone transfers, the multiset comparison of
  their records, probe queries over UDP and TCP, the report and the status document the health
  reports rest on.

  What the servers answer is an argument: the envelopes of a transfer, each with the flag that the
  deadline has passed when it is read, and the answer to each query.
\<close>

section \<open>Data\<close>

record dProbe =
  dp_name :: string
  dp_type :: nat

record QueryMismatch =
  qm_name :: string
  qm_type :: string
  qm_transport :: string
  qm_source :: string
  qm_target :: string

record ZoneResult =
  dz_zone :: string
  dz_equal :: bool
  dz_source_soa :: uint32
  dz_target_soa :: uint32
  dz_source_rrs :: nat
  dz_target_rrs :: nat
  dz_only_source :: "string list"
  dz_only_target :: "string list"
  dz_queries :: nat
  dz_mismatches :: "QueryMismatch list"
  dz_error :: string

record DiffReport =
  dr_source :: string
  dr_target :: string
  dr_checked_at :: gotime
  dr_equal :: bool
  dr_mismatches :: nat
  dr_zones :: "ZoneResult list"

record dmsg =
  dm_rcode :: nat
  dm_authoritative :: bool
  dm_truncated :: bool
  dm_answer :: "rr list"
  dm_ns :: "rr list"
  dm_extra :: "rr list"

datatype envelope = EnvError string | EnvRRs "rr list"

text \<open>The two servers.  A side that cannot even be dialled gives \<open>Inl\<close>.\<close>

record diff_env =
  de_lib :: dnslib
  de_rcode :: "nat \<Rightarrow> string"
  de_addr_ok :: "string \<Rightarrow> bool"
  de_axfr :: "string \<Rightarrow> string \<Rightarrow> string + (bool \<times> envelope) list"   \<comment> \<open>address, zone\<close>
  de_ask :: "string \<Rightarrow> dProbe \<Rightarrow> string \<Rightarrow> string + dmsg"                 \<comment> \<open>address, probe, network\<close>

section \<open>Transfers and zone files\<close>

fun collect_envelopes :: "(bool \<times> envelope) list \<Rightarrow> string + rr list" where
  "collect_envelopes [] = Inr []"
| "collect_envelopes ((expired, e) # es) =
     (if expired then Inl ''context deadline exceeded''
      else case e of
             EnvError m \<Rightarrow> Inl m
           | EnvRRs rs \<Rightarrow> (case collect_envelopes es of Inl m \<Rightarrow> Inl m | Inr more_rs \<Rightarrow> Inr (rs @ more_rs)))"

definition diff_transfer :: "diff_env \<Rightarrow> string \<Rightarrow> string \<Rightarrow> string + rr list" where
  "diff_transfer E zone address =
     (if \<not> de_addr_ok E address then Inl ''invalid address''
      else case de_axfr E address zone of
             Inl m \<Rightarrow> Inl m
           | Inr es \<Rightarrow>
               (case collect_envelopes es of
                  Inl m \<Rightarrow> Inl m
                | Inr records \<Rightarrow>
                    if length records < 2 then Inl ''incomplete AXFR''
                    else if rrtype (hd records) = TypeSOA \<and> rrtype (last records) = TypeSOA then Inr (butlast records)
                    else Inr records))"

definition diff_loadZone :: "diff_env \<Rightarrow> path \<Rightarrow> world \<Rightarrow> (string + rr list) \<times> world" where
  "diff_loadZone E p w =
     (case os_read_file p w of
        (Inr (Text s), w1) \<Rightarrow> (parse_zone (de_lib E) [] s, w1)
      | (_, w1) \<Rightarrow> (Inl ''open'', w1))"

definition leading_serial :: "rr list \<Rightarrow> uint32" where
  "leading_serial rrs = (case List.find is_soa rrs of None \<Rightarrow> 0 | Some r \<Rightarrow> (case soa_serial r of Some s \<Rightarrow> s | None \<Rightarrow> 0))"

text \<open>\<open>multiset\<close>: how often each record text occurs, ignoring case.\<close>

definition rr_text :: "dnslib \<Rightarrow> rr \<Rightarrow> string" where
  "rr_text D r = to_lower (rr_string D r)"

definition count_texts :: "dnslib \<Rightarrow> rr list \<Rightarrow> (string, nat) gomap" where
  "count_texts D rrs = fold (\<lambda>r m. AList.update (rr_text D r) (gomap_get 0 m (rr_text D r) + 1) m) rrs []"

text \<open>The records that occur more often on the left, as often as they do; sorted.\<close>

definition only_in :: "(string, nat) gomap \<Rightarrow> (string, nat) gomap \<Rightarrow> string list" where
  "only_in left right = sort (concat (map (\<lambda>(k, n). replicate (n - gomap_get 0 right k) k) left))"

section \<open>Probes\<close>

definition probe_key :: "dProbe \<Rightarrow> string" where
  "probe_key p = to_lower (dp_name p) @ ''/'' @ nat_dec (dp_type p)"

definition add_probe :: "dnslib \<Rightarrow> string \<Rightarrow> nat \<Rightarrow> (string, dProbe) gomap \<Rightarrow> (string, dProbe) gomap" where
  "add_probe D name qtype seen =
     (let p = \<lparr>dp_name = fqdn D name, dp_type = qtype\<rparr> in AList.update (probe_key p) p seen)"

definition record_probes :: "dnslib \<Rightarrow> string \<Rightarrow> rr \<Rightarrow> (string, dProbe) gomap \<Rightarrow> (string, dProbe) gomap" where
  "record_probes D zone r seen =
     (if rrtype r = TypeRRSIG \<or> rrtype r = TypeNSEC then seen
      else let seen1 = add_probe D (rname r) (rrtype r) seen;
               labels = split_domain_name D (rname r);
               seen2 = (if labels \<noteq> [] \<and> hd labels = ''*''
                        then add_probe D (''rilldns-wildcard-probe.'' @ join ''.'' (tl labels)) (rrtype r) seen1 else seen1)
           in if rrtype r = TypeNS \<and> \<not> equal_fold (fqdn D (rname r)) zone
              then add_probe D (''rilldns-delegation-probe.'' @ fqdn D (rname r)) TypeA seen2 else seen2)"

definition all_probes :: "dnslib \<Rightarrow> string \<Rightarrow> rr list \<Rightarrow> dProbe list" where
  "all_probes D zone records =
     (let seen = add_probe D zone TypeNS (add_probe D zone TypeSOA []);
          seen1 = fold (record_probes D zone) records seen;
          seen2 = add_probe D zone TypeAAAA (add_probe D (''rilldns-nxdomain-probe.'' @ zone) TypeA seen1)
      in map snd (sort_key fst seen2))"

section \<open>Answers\<close>

definition rr_strings :: "dnslib \<Rightarrow> rr list \<Rightarrow> string list" where
  "rr_strings D rrs = sort (map (rr_text D) rrs)"

definition behavioral :: "dnslib \<Rightarrow> rr list \<Rightarrow> string list" where
  "behavioral D rrs = rr_strings D (map (\<lambda>r. r\<lparr>rttl := 0\<rparr>) rrs)"

definition behavioral_of_types :: "dnslib \<Rightarrow> rr list \<Rightarrow> nat list \<Rightarrow> string list" where
  "behavioral_of_types D rrs types = behavioral D (filter (\<lambda>r. rrtype r \<in> set types) rrs)"

definition bool_text :: "bool \<Rightarrow> string" where
  "bool_text b = (if b then ''true'' else ''false'')"

definition normalizeResponse :: "diff_env \<Rightarrow> dmsg \<Rightarrow> string" where
  "normalizeResponse E m =
     ''rcode='' @ de_rcode E (dm_rcode m) @ '' aa='' @ bool_text (dm_authoritative m) @ '' tc='' @ bool_text (dm_truncated m) @
     '' answer=['' @ join ''|'' (behavioral (de_lib E) (dm_answer m)) @ '']'' @
     (if dm_rcode m = 0 \<and> \<not> dm_authoritative m \<and> dm_answer m = []
      then '' authority=['' @ join ''|'' (behavioral_of_types (de_lib E) (dm_ns m) [TypeNS]) @
           ''] glue=['' @ join ''|'' (behavioral_of_types (de_lib E) (dm_extra m) [TypeA, TypeAAAA]) @ '']''
      else [])"

definition diff_query :: "diff_env \<Rightarrow> string \<Rightarrow> dProbe \<Rightarrow> string \<Rightarrow> string + string" where
  "diff_query E address p network = (case de_ask E address p network of Inl e \<Rightarrow> Inl e | Inr m \<Rightarrow> Inr (normalizeResponse E m))"

definition responseText :: "string + string \<Rightarrow> string" where
  "responseText a = (case a of Inl e \<Rightarrow> ''error: '' @ e | Inr s \<Rightarrow> s)"

definition query_mismatch :: "diff_env \<Rightarrow> string \<Rightarrow> string \<Rightarrow> dProbe \<times> string \<Rightarrow> QueryMismatch option" where
  "query_mismatch E source target pn =
     (case pn of (p, network) \<Rightarrow>
        let left = diff_query E source p network; right = diff_query E target p network
        in if isl left \<or> isl right \<or> left \<noteq> right
           then Some \<lparr>qm_name = dp_name p, qm_type = type_to_string (de_lib E) (dp_type p), qm_transport = network,
                      qm_source = responseText left, qm_target = responseText right\<rparr>
           else None)"

section \<open>Comparing a zone\<close>

definition empty_result :: "string \<Rightarrow> ZoneResult" where
  "empty_result zone = \<lparr>dz_zone = zone, dz_equal = False, dz_source_soa = 0, dz_target_soa = 0, dz_source_rrs = 0, dz_target_rrs = 0,
     dz_only_source = [], dz_only_target = [], dz_queries = 0, dz_mismatches = [], dz_error = []\<rparr>"

definition compare_records :: "diff_env \<Rightarrow> string \<Rightarrow> string \<Rightarrow> string \<Rightarrow> rr list \<Rightarrow> rr list \<Rightarrow> ZoneResult" where
  "compare_records E zone source target left right =
     (let lm = count_texts (de_lib E) left; rm = count_texts (de_lib E) right;
          asked = concat (map (\<lambda>p. [(p, ''udp''), (p, ''tcp'')]) (all_probes (de_lib E) zone left));
          os = only_in lm rm; ot = only_in rm lm;
          qm = List.map_filter (query_mismatch E source target) asked
      in (empty_result zone)\<lparr>dz_source_soa := leading_serial left, dz_target_soa := leading_serial right,
           dz_source_rrs := length left, dz_target_rrs := length right, dz_only_source := os, dz_only_target := ot,
           dz_queries := length asked, dz_mismatches := qm,
           dz_equal := (os = [] \<and> ot = [] \<and> leading_serial left = leading_serial right \<and> qm = [])\<rparr>)"

definition diff_compare :: "diff_env \<Rightarrow> string \<Rightarrow> string \<Rightarrow> string \<Rightarrow> path \<Rightarrow> world \<Rightarrow> ZoneResult \<times> world" where
  "diff_compare E zone source target targetZoneDir w =
     (let zone = fqdn (de_lib E) zone
      in case diff_transfer E zone source of
           Inl m \<Rightarrow> ((empty_result zone)\<lparr>dz_error := ''source: '' @ m\<rparr>, w)
         | Inr left \<Rightarrow>
             (case (if targetZoneDir = [] then (diff_transfer E zone target, w)
                    else diff_loadZone E (path_join targetZoneDir (trim_suffix zone ''.'' @ ''.zone'')) w) of
                (Inl m, w1) \<Rightarrow> ((empty_result zone)\<lparr>dz_error := ''target: '' @ m\<rparr>, w1)
              | (Inr right, w1) \<Rightarrow> (compare_records E zone source target left right, w1)))"

section \<open>The run\<close>

text \<open>The loop of \<open>main\<close> over the zones.\<close>

definition zone_mismatches :: "ZoneResult \<Rightarrow> nat" where
  "zone_mismatches r =
     (if dz_equal r then 0
      else length (dz_only_source r) + length (dz_only_target r) + length (dz_mismatches r) +
           (if dz_error r \<noteq> [] then 1 else 0))"

definition add_result :: "DiffReport \<Rightarrow> ZoneResult \<Rightarrow> DiffReport" where
  "add_result rep r =
     rep\<lparr>dr_zones := dr_zones rep @ [r], dr_equal := dr_equal rep \<and> dz_equal r,
         dr_mismatches := dr_mismatches rep + zone_mismatches r\<rparr>"

fun compare_zones :: "diff_env \<Rightarrow> string \<Rightarrow> string \<Rightarrow> path \<Rightarrow> string list \<Rightarrow> DiffReport \<Rightarrow> world \<Rightarrow> DiffReport \<times> world" where
  "compare_zones E source target dir [] rep w = (rep, w)"
| "compare_zones E source target dir (z # zs) rep w =
     (case diff_compare E z source target dir w of
        (r, w1) \<Rightarrow> compare_zones E source target dir zs (add_result rep r) w1)"

definition enc_mismatch :: "QueryMismatch \<Rightarrow> jvalue" where
  "enc_mismatch q =
     JObj [(''name'', JStr (qm_name q)), (''type'', JStr (qm_type q)), (''transport'', JStr (qm_transport q)),
           (''source'', JStr (qm_source q)), (''target'', JStr (qm_target q))]"

definition opt_list :: "string \<Rightarrow> jvalue list \<Rightarrow> (string \<times> jvalue) list" where
  "opt_list k xs = (if xs = [] then [] else [(k, JArr xs)])"

definition enc_zone_result :: "ZoneResult \<Rightarrow> jvalue" where
  "enc_zone_result r =
     JObj ([(''zone'', JStr (dz_zone r)), (''equal'', JBool (dz_equal r)),
            (''source_serial'', JNum (uint (dz_source_soa r))), (''target_serial'', JNum (uint (dz_target_soa r))),
            (''source_records'', JNum (int (dz_source_rrs r))), (''target_records'', JNum (int (dz_target_rrs r)))] @
       opt_list ''only_source'' (map JStr (dz_only_source r)) @ opt_list ''only_target'' (map JStr (dz_only_target r)) @
       [(''queries'', JNum (int (dz_queries r)))] @ opt_list ''query_mismatches'' (map enc_mismatch (dz_mismatches r)) @
       opt_str ''error'' (dz_error r))"

definition enc_report :: "DiffReport \<Rightarrow> jvalue" where
  "enc_report r =
     JObj [(''source'', JStr (dr_source r)), (''target'', JStr (dr_target r)), (''checked_at'', JTime (dr_checked_at r)),
           (''equal'', JBool (dr_equal r)), (''mismatches'', JNum (int (dr_mismatches r))),
           (''zones'', JArr (map enc_zone_result (dr_zones r)))]"

definition loadPreviousStatus :: "path \<Rightarrow> world \<Rightarrow> rsStatus \<times> world" where
  "loadPreviousStatus p w =
     (case read_status p w of (None, w1) \<Rightarrow> (zero_status, w1) | (Some s, w1) \<Rightarrow> (s, w1))"

definition differentialStatus :: "DiffReport \<Rightarrow> nat \<Rightarrow> rsStatus \<Rightarrow> rsStatus" where
  "differentialStatus rep queries previous =
     (let s = zero_status\<lparr>rs_kind := ''differential'', rs_success := dr_equal rep, rs_last_attempt := dr_checked_at rep,
            rs_last_success := rs_last_success previous, rs_checked_zones := int (length (dr_zones rep)),
            rs_queries := int queries, rs_mismatches := int (dr_mismatches rep)\<rparr>
      in if dr_equal rep then s
         else s\<lparr>rs_error := ''RillDNS primary and secondary differ'',
                rs_consecutive := sint (word_of_int (rs_consecutive previous + 1) :: 64 word)\<rparr>)"

text \<open>\<open>main\<close> after flags and credentials: the exit code, the report and the world.  Without a report file the
  report goes to the standard output.\<close>

definition diff_main :: "diff_env \<Rightarrow> string \<Rightarrow> string \<Rightarrow> path \<Rightarrow> string list \<Rightarrow> path \<Rightarrow> path \<Rightarrow> gotime \<Rightarrow> gotime \<Rightarrow> world \<Rightarrow>
    nat \<times> DiffReport \<times> world" where
  "diff_main E source target dir zones reportFile statusFile checked now w =
     (case compare_zones E source target dir zones
             \<lparr>dr_source = source, dr_target = target, dr_checked_at = checked, dr_equal = True, dr_mismatches = 0, dr_zones = []\<rparr> w of
        (rep, w1) \<Rightarrow>
          (case (if reportFile = [] then (True, w1)
                 else case statusfile_WriteJSON reportFile (enc_report rep) w1 of
                        (False, w2) \<Rightarrow> (False, w2)
                      | (True, w2) \<Rightarrow> if dr_equal rep then (True, w2)
                                    else statusfile_WriteJSON (reportFile @ ''.failed'') (enc_report rep) w2) of
             (False, w2) \<Rightarrow> (1, rep, w2)
           | (True, w2) \<Rightarrow>
               if statusFile = [] then ((if dr_equal rep then 0 else 1), rep, w2)
               else (case loadPreviousStatus statusFile w2 of
                       (previous, w3) \<Rightarrow>
                         let s = differentialStatus rep (sum_list (map dz_queries (dr_zones rep))) previous;
                             s1 = (if dr_equal rep then s\<lparr>rs_last_success := now\<rparr> else s)
                         in case statusfile_WriteJSON statusFile (enc_rsstatus s1) w3 of
                              (ok, w4) \<Rightarrow> ((if ok then 0 else 1), rep, w4))))"

text \<open>\<open>loadTSIG\<close>: the key name in canonical form and the trimmed secret; nothing when neither is given.\<close>

definition loadTSIG :: "dnslib \<Rightarrow> string \<Rightarrow> path \<Rightarrow> world \<Rightarrow> (string + (string \<times> string) option) \<times> world" where
  "loadTSIG D name secretFile w =
     (if name = [] \<and> secretFile = [] then (Inr None, w)
      else if name = [] \<or> secretFile = [] then (Inl ''target TSIG name and secret file must be specified together'', w)
      else case os_read_file secretFile w of
             (Inr (Text s), w1) \<Rightarrow> (Inr (Some (to_lower (fqdn D name), trim_space s)), w1)
           | (_, w1) \<Rightarrow> (Inl ''read TSIG secret'', w1))"

end
