(* ===== verification/DiffTheorems.thy ===== *)
theory DiffTheorems
  imports DiffTool ApiStatus "HOL-Library.Code_Target_Nat"
begin

text \<open>
  What a clean comparison of two servers means, and what the health report makes of it.
\<close>

section \<open>Record texts as multisets\<close>

abbreviation texts :: "dnslib \<Rightarrow> rr list \<Rightarrow> string multiset" where
  "texts D rrs \<equiv> mset (map (rr_text D) rrs)"

lemma count_texts_fold:
  "gomap_wf m \<Longrightarrow>
   gomap_wf (fold (\<lambda>r m. AList.update (rr_text D r) (gomap_get 0 m (rr_text D r) + 1) m) rrs m) \<and>
   gomap_get 0 (fold (\<lambda>r m. AList.update (rr_text D r) (gomap_get 0 m (rr_text D r) + 1) m) rrs m) k =
     gomap_get 0 m k + Multiset.count (texts D rrs) k"
proof (induction rrs arbitrary: m)
  case (Cons r rrs)
  let ?m = "AList.update (rr_text D r) (gomap_get 0 m (rr_text D r) + 1) m"
  have "gomap_wf ?m" using Cons.prems by (rule distinct_update)
  from Cons.IH [OF this] show ?case by (simp add: gomap_get_update)
qed simp

lemma count_texts_wf: "gomap_wf (count_texts D rrs)"
  using count_texts_fold [of "[]"] by (simp add: count_texts_def)

lemma count_texts_get: "gomap_get 0 (count_texts D rrs) k = Multiset.count (texts D rrs) k"
  using count_texts_fold [of "[]" D rrs k] by (simp add: count_texts_def gomap_get_def)

lemma replicate_counts:
  "gomap_wf l \<Longrightarrow>
   Multiset.count (mset (concat (map (\<lambda>(k, n). replicate (n - g k) k) l))) x = gomap_get 0 l x - g x"
proof (induction l)
  case (Cons kn l)
  obtain k n where kn: "kn = (k, n)" by fastforce
  have wf: "gomap_wf l" using Cons.prems by simp
  have "k \<notin> fst ` set l" using Cons.prems kn by auto
  then have "gomap_get 0 l k = 0" by (auto simp: gomap_get_def map_of_eq_None_iff [symmetric] split: option.splits)
  then show ?case using Cons.IH [OF wf] by (simp add: kn gomap_get_def)
qed (simp add: gomap_get_def)

lemma only_in_mset: "mset (only_in (count_texts D left) (count_texts D right)) = texts D left - texts D right"
proof (rule multiset_eqI)
  fix x
  show "Multiset.count (mset (only_in (count_texts D left) (count_texts D right))) x = Multiset.count (texts D left - texts D right) x"
    using replicate_counts [OF count_texts_wf, of "gomap_get 0 (count_texts D right)" D left x]
    unfolding only_in_def mset_sort count_texts_get by simp
qed

lemma only_in_empty:
  "only_in (count_texts D left) (count_texts D right) = [] \<longleftrightarrow> texts D left \<subseteq># texts D right"
  using only_in_mset [of D left right] by (metis Diff_eq_empty_iff_mset mset_zero_iff)

section \<open>Queries\<close>

definition same_answer :: "diff_env \<Rightarrow> string \<Rightarrow> string \<Rightarrow> dProbe \<Rightarrow> string \<Rightarrow> bool" where
  "same_answer E source target p network \<longleftrightarrow>
     (\<exists>s. diff_query E source p network = Inr s \<and> diff_query E target p network = Inr s)"

lemma query_mismatch_None: "query_mismatch E source target (p, network) = None \<longleftrightarrow> same_answer E source target p network"
  by (cases "diff_query E source p network"; cases "diff_query E target p network")
    (auto simp: query_mismatch_def same_answer_def Let_def)

lemma map_filter_Nil: "List.map_filter f xs = [] \<longleftrightarrow> (\<forall>x\<in>set xs. f x = None)"
  by (induction xs) (auto simp: List.map_filter_def)

lemma no_mismatch:
  "List.map_filter (query_mismatch E source target) (concat (map (\<lambda>p. [(p, ''udp''), (p, ''tcp'')]) ps)) = [] \<longleftrightarrow>
   (\<forall>p\<in>set ps. \<forall>network\<in>{''udp'', ''tcp''}. same_answer E source target p network)"
  unfolding map_filter_Nil by (auto simp: query_mismatch_None)

lemma compare_records_equal:
  "dz_equal (compare_records E zone source target left right) \<longleftrightarrow>
     texts (de_lib E) left = texts (de_lib E) right \<and> leading_serial left = leading_serial right \<and>
     (\<forall>p\<in>set (all_probes (de_lib E) zone left). \<forall>network\<in>{''udp'', ''tcp''}. same_answer E source target p network)"
  using no_mismatch [of E source target "all_probes (de_lib E) zone left"]
  by (auto simp: compare_records_def Let_def only_in_empty subset_mset.eq_iff)

section \<open>Probes\<close>

lemma add_probe_in: "probe_key \<lparr>dp_name = fqdn D n, dp_type = t\<rparr> \<in> fst ` set (add_probe D n t seen)"
  by (simp add: add_probe_def Let_def dom_update)

lemma add_probe_keeps: "k \<in> fst ` set seen \<Longrightarrow> k \<in> fst ` set (add_probe D n t seen)"
  by (simp add: add_probe_def Let_def dom_update)

definition probes_ok :: "(string, dProbe) gomap \<Rightarrow> bool" where
  "probes_ok seen \<longleftrightarrow> gomap_wf seen \<and> (\<forall>k p. (k, p) \<in> set seen \<longrightarrow> k = probe_key p)"

lemma add_probe_ok: "probes_ok seen \<Longrightarrow> probes_ok (add_probe D n t seen)"
  unfolding probes_ok_def add_probe_def Let_def
  by (auto simp: distinct_update dest!: set_update_cases)

lemma record_probes_ok: "probes_ok seen \<Longrightarrow> probes_ok (record_probes D zone r seen)"
  by (simp add: record_probes_def Let_def add_probe_ok)

lemma record_probes_keeps: "k \<in> fst ` set seen \<Longrightarrow> k \<in> fst ` set (record_probes D zone r seen)"
  by (simp add: record_probes_def Let_def add_probe_keeps)

lemma fold_probes_ok: "probes_ok seen \<Longrightarrow> probes_ok (fold (record_probes D zone) rrs seen)"
  by (induction rrs arbitrary: seen) (simp_all add: record_probes_ok)

lemma fold_probes_keeps: "k \<in> fst ` set seen \<Longrightarrow> k \<in> fst ` set (fold (record_probes D zone) rrs seen)"
  by (induction rrs arbitrary: seen) (simp_all add: record_probes_keeps)

definition probed_record :: "rr \<Rightarrow> bool" where
  "probed_record r \<longleftrightarrow> rrtype r \<noteq> TypeRRSIG \<and> rrtype r \<noteq> TypeNSEC"

lemma record_probes_in: "probed_record r \<Longrightarrow> probe_key \<lparr>dp_name = fqdn D (rname r), dp_type = rrtype r\<rparr> \<in> fst ` set (record_probes D zone r seen)"
  by (simp add: record_probes_def Let_def add_probe_in add_probe_keeps probed_record_def)

lemma fold_probes_in:
  "r \<in> set rrs \<Longrightarrow> probed_record r \<Longrightarrow>
   probe_key \<lparr>dp_name = fqdn D (rname r), dp_type = rrtype r\<rparr> \<in> fst ` set (fold (record_probes D zone) rrs seen)"
proof (induction rrs arbitrary: seen)
  case (Cons a rrs)
  then show ?case by (cases "r = a") (auto intro: fold_probes_keeps record_probes_in)
qed simp

text \<open>The probes are listed once each, and every record's owner and type is among them, up to case.\<close>

lemma all_probes_complete:
  assumes "r \<in> set records" "probed_record r"
  shows "\<exists>p\<in>set (all_probes D zone records). probe_key p = probe_key \<lparr>dp_name = fqdn D (rname r), dp_type = rrtype r\<rparr>"
proof -
  let ?s0 = "add_probe D zone TypeNS (add_probe D zone TypeSOA [])"
  let ?s = "add_probe D zone TypeAAAA (add_probe D (''rilldns-nxdomain-probe.'' @ zone) TypeA (fold (record_probes D zone) records ?s0))"
  have ok: "probes_ok ?s" by (intro add_probe_ok fold_probes_ok) (simp add: probes_ok_def)
  have "probe_key \<lparr>dp_name = fqdn D (rname r), dp_type = rrtype r\<rparr> \<in> fst ` set ?s"
    by (intro add_probe_keeps fold_probes_in assms)
  then obtain p where "(probe_key \<lparr>dp_name = fqdn D (rname r), dp_type = rrtype r\<rparr>, p) \<in> set ?s" by auto
  moreover from this ok have "probe_key p = probe_key \<lparr>dp_name = fqdn D (rname r), dp_type = rrtype r\<rparr>"
    unfolding probes_ok_def by metis
  ultimately show ?thesis by (force simp: all_probes_def Let_def)
qed

section \<open>A clean comparison\<close>

definition target_side :: "diff_env \<Rightarrow> string \<Rightarrow> string \<Rightarrow> path \<Rightarrow> world \<Rightarrow> string + rr list" where
  "target_side E zone target dir w =
     (if dir = [] then diff_transfer E zone target
      else fst (diff_loadZone E (path_join dir (trim_suffix zone ''.'' @ ''.zone'')) w))"

lemma diff_compare_eq:
  "fst (diff_compare E z source target dir w) =
     (let zone = fqdn (de_lib E) z
      in case diff_transfer E zone source of
           Inl m \<Rightarrow> (empty_result zone)\<lparr>dz_error := ''source: '' @ m\<rparr>
         | Inr left \<Rightarrow>
             (case target_side E zone target dir w of
                Inl m \<Rightarrow> (empty_result zone)\<lparr>dz_error := ''target: '' @ m\<rparr>
              | Inr right \<Rightarrow> compare_records E zone source target left right))"
  by (auto simp: diff_compare_def target_side_def Let_def split: sum.splits prod.splits)


definition diff_soa :: rr where
  "diff_soa = \<lparr>rname = ''a.'', rrtype = TypeSOA, rclass = 1, rttl = 60, rdat = SOA_d 7 ''ns''\<rparr>"

definition diff_addr :: rr where
  "diff_addr = \<lparr>rname = ''h.a.'', rrtype = TypeA, rclass = 1, rttl = 60, rdat = A_d ''192.0.2.1''\<rparr>"

definition diff_answer :: dmsg where
  "diff_answer = \<lparr>dm_rcode = 0, dm_authoritative = True, dm_truncated = False, dm_answer = [], dm_ns = [], dm_extra = []\<rparr>"

text \<open>Two servers with the same zone, sent in two envelopes.\<close>

definition diff_pair :: diff_env where
  "diff_pair = \<lparr>de_lib = ref_dns, de_rcode = (\<lambda>_. ''NOERROR''), de_addr_ok = (\<lambda>_. True),
     de_axfr = (\<lambda>_ _. Inr [(False, EnvRRs [diff_soa, diff_addr]), (False, EnvRRs [diff_soa])]),
     de_ask = (\<lambda>_ _ _. Inr diff_answer)\<rparr>"

lemma diff_pair_transfer: "diff_transfer diff_pair ''a.'' x = Inr [diff_soa, diff_addr]"
  by code_simp


end
