(* ===== verification/HaTool.thy ===== *)
theory HaTool
  imports ApiStatus
begin

text \<open>
  The failover check (cmd/rill-ha/main.go): it reads the health reports of both nodes and decides whether
  the standby could take over.
\<close>

record haZone =
  hz_name :: string
  hz_serial :: uint32

record haNode =
  hn_node :: string
  hn_role :: string
  hn_writable :: bool
  hn_healthy :: bool
  hn_replication :: bool
  hn_peer_reachable :: bool
  hn_zones_last :: gotime
  hn_zones :: "haZone list"

record haResult =
  hr_ready :: bool
  hr_active :: string
  hr_standby :: string
  hr_reasons :: "string list"

definition no_node :: haNode where
  "no_node = \<lparr>hn_node = [], hn_role = [], hn_writable = False, hn_healthy = False, hn_replication = False,
     hn_peer_reachable = False, hn_zones_last = zero_time, hn_zones = []\<rparr>"

definition dec_hazone :: "jvalue \<Rightarrow> haZone option" where
  "dec_hazone j =
     (case (jstr j ''name'', Option.bind (jget j ''serial'') as_uint64) of
        (Some n, Some v) \<Rightarrow> if v < 2 ^ 32 then Some \<lparr>hz_name = n, hz_serial = of_nat v\<rparr> else None
      | _ \<Rightarrow> None)"

definition dec_hanode :: "jvalue \<Rightarrow> haNode option" where
  "dec_hanode j =
     do {
       node \<leftarrow> jstr j ''node'';
       role \<leftarrow> jstr j ''role'';
       writable \<leftarrow> jbool j ''writable'';
       healthy \<leftarrow> jbool j ''healthy'';
       replication \<leftarrow> jbool j ''replication_healthy'';
       reachable \<leftarrow> Option.bind (jget j ''peer'') (\<lambda>p. jbool p ''reachable'');
       last \<leftarrow> Option.bind (jget j ''zones'') (\<lambda>z. Option.bind (jget z ''last_success'') as_time);
       zones \<leftarrow> Option.bind (jget j ''zones'') (\<lambda>z. Option.bind (jget z ''zones'') (as_list dec_hazone));
       Some \<lparr>hn_node = node, hn_role = role, hn_writable = writable, hn_healthy = healthy, hn_replication = replication,
         hn_peer_reachable = reachable, hn_zones_last = last, hn_zones = zones\<rparr>
     }"

text \<open>The answer of a node's status endpoint, read to the first JSON value.\<close>

definition readStatus :: "string \<Rightarrow> probe_answer \<Rightarrow> string + haNode" where
  "readStatus endpoint a =
     (case a of
        ProbeError e \<Rightarrow> Inl e
      | ProbeAnswer code line v \<Rightarrow>
          if code \<noteq> 200 then Inl (endpoint @ '' returned '' @ line)
          else case v of
                 None \<Rightarrow> Inl ''invalid JSON''
               | Some j \<Rightarrow> (case dec_hanode j of None \<Rightarrow> Inl ''invalid JSON'' | Some n \<Rightarrow> Inr n))"

definition zoneSerials :: "haZone list \<Rightarrow> (string, uint32) gomap" where
  "zoneSerials zs = fold (\<lambda>z m. AList.update (trim_suffix (to_lower (hz_name z)) ''.'') (hz_serial z) m) zs []"

definition node_of :: "string + haNode \<Rightarrow> haNode" where
  "node_of r = (case r of Inl _ \<Rightarrow> no_node | Inr n \<Rightarrow> n)"

definition failed :: "string + haNode \<Rightarrow> bool" where
  "failed r = (case r of Inl _ \<Rightarrow> True | Inr _ \<Rightarrow> False)"

definition zone_reasons :: "(string, uint32) gomap \<Rightarrow> (string, uint32) gomap \<Rightarrow> string list" where
  "zone_reasons active standby =
     map (\<lambda>(name, serial). ''zone '' @ name @ '' serial differs: active='' @ nat_dec (unat serial) @ '' standby='' @
            nat_dec (unat (gomap_get 0 standby name)))
         (filter (\<lambda>(name, serial). gomap_get 0 standby name \<noteq> serial) active) @
     map (\<lambda>(name, _). ''standby has unexpected zone '' @ name) (filter (\<lambda>(name, _). \<not> gomap_has active name) standby)"

definition evaluate :: "string + haNode \<Rightarrow> string + haNode \<Rightarrow> duration \<Rightarrow> gotime \<Rightarrow> haResult" where
  "evaluate active standby maxAge now =
     (let a = node_of active; b = node_of standby;
          reasons =
            (case active of Inl e \<Rightarrow> [''active status unavailable: '' @ e] | Inr _ \<Rightarrow> []) @
            (case standby of Inl e \<Rightarrow> [''standby status unavailable: '' @ e] | Inr _ \<Rightarrow> []) @
            (if \<not> failed active \<and> (hn_role a \<noteq> ''active'' \<or> \<not> hn_writable a)
             then [''source is not the writable active node''] else []) @
            (if \<not> failed standby \<and> (hn_role b \<noteq> ''standby'' \<or> hn_writable b)
             then [''target is not a read-only standby''] else []) @
            (if \<not> failed standby \<and> (\<not> hn_healthy b \<or> \<not> hn_replication b \<or> \<not> hn_peer_reachable b)
             then [''standby health, replication, or peer check is not clean''] else []) @
            (if \<not> failed standby \<and> (is_zero (hn_zones_last b) \<or> maxAge < time_sub now (hn_zones_last b))
             then [''standby zone snapshot is stale''] else []) @
            (if \<not> failed active \<and> \<not> failed standby
             then zone_reasons (zoneSerials (hn_zones a)) (zoneSerials (hn_zones b)) else [])
      in \<lparr>hr_ready = (reasons = []), hr_active = hn_node a, hr_standby = hn_node b, hr_reasons = sort reasons\<rparr>)"

text \<open>\<open>main\<close> after flags: the exit code and the printed result.\<close>

definition ha_main :: "string \<Rightarrow> string \<Rightarrow> probe_answer \<Rightarrow> probe_answer \<Rightarrow> duration \<Rightarrow> gotime \<Rightarrow> nat \<times> haResult" where
  "ha_main activeURL standbyURL a b maxAge now =
     (let r = evaluate (readStatus activeURL a) (readStatus standbyURL b) maxAge now
      in (if hr_ready r then 0 else 1, r))"

section \<open>When a pair is ready\<close>

lemma zone_reasons_Nil:
  assumes "gomap_wf active" "gomap_wf standby"
  shows "zone_reasons active standby = [] \<longleftrightarrow>
    (\<forall>name serial. map_of active name = Some serial \<longrightarrow> gomap_get 0 standby name = serial) \<and>
    dom (map_of standby) \<subseteq> dom (map_of active)"
proof -
  have "filter (\<lambda>(name, serial). gomap_get 0 standby name \<noteq> serial) active = [] \<longleftrightarrow>
      (\<forall>name serial. map_of active name = Some serial \<longrightarrow> gomap_get 0 standby name = serial)"
    using assms(1) by (auto simp: filter_empty_conv)
  moreover have "filter (\<lambda>(name, _). \<not> gomap_has active name) standby = [] \<longleftrightarrow> dom (map_of standby) \<subseteq> dom (map_of active)"
    by (force simp: filter_empty_conv dom_map_of_conv_image_fst map_of_eq_None_iff)
  ultimately show ?thesis by (simp add: zone_reasons_def)
qed

lemma zoneSerials_wf: "gomap_wf (zoneSerials zs)"
proof -
  have "gomap_wf m \<Longrightarrow> gomap_wf (fold (\<lambda>z m. AList.update (trim_suffix (to_lower (hz_name z)) ''.'') (hz_serial z) m) zs m)" for m
    by (induction zs arbitrary: m) (simp_all add: distinct_update)
  from this [of "[]"] show ?thesis by (simp add: zoneSerials_def)
qed

lemma evaluate_ready:
  "hr_ready (evaluate active standby maxAge now) \<longleftrightarrow>
     (\<exists>a b. active = Inr a \<and> standby = Inr b \<and> hn_role a = ''active'' \<and> hn_writable a \<and>
        hn_role b = ''standby'' \<and> \<not> hn_writable b \<and> hn_healthy b \<and> hn_replication b \<and> hn_peer_reachable b \<and>
        \<not> is_zero (hn_zones_last b) \<and> time_sub now (hn_zones_last b) \<le> maxAge \<and>
        (\<forall>name serial. map_of (zoneSerials (hn_zones a)) name = Some serial \<longrightarrow>
           gomap_get 0 (zoneSerials (hn_zones b)) name = serial) \<and>
        dom (map_of (zoneSerials (hn_zones b))) \<subseteq> dom (map_of (zoneSerials (hn_zones a))))"
  using zone_reasons_Nil [OF zoneSerials_wf zoneSerials_wf]
  by (cases active; cases standby) (auto simp: evaluate_def Let_def failed_def node_of_def not_less)

text \<open>A zone the standby does not have at all counts as in step if its serial on the active node is 0.\<close>

lemma missing_zone_with_serial_0:
  assumes "hr_ready (evaluate (Inr a) (Inr b) maxAge now)" and "\<not> gomap_has (zoneSerials (hn_zones a)) name'"
    and name: "trim_suffix (to_lower name) ''.'' = name'"
  shows "hr_ready (evaluate (Inr (a\<lparr>hn_zones := hn_zones a @ [\<lparr>hz_name = name, hz_serial = 0\<rparr>]\<rparr>)) (Inr b) maxAge now)"
proof -
  have zs: "zoneSerials (hn_zones a @ [\<lparr>hz_name = name, hz_serial = 0\<rparr>]) = AList.update name' 0 (zoneSerials (hn_zones a))"
    by (simp add: zoneSerials_def name)
  have "map_of (zoneSerials (hn_zones a)) name' = None" using assms(2) by simp
  then have "map_of (zoneSerials (hn_zones b)) name' = None" using assms(1) unfolding evaluate_ready by auto
  then show ?thesis using assms(1) unfolding evaluate_ready
    by (auto simp: zs update_conv' gomap_get_def)
qed

end
