(* ===== verification/HaTheorems.thy ===== *)
theory HaTheorems
  imports DiffTheorems HaTool
begin

text \<open>
  From the comparison of two servers to the decision that a standby may take over: rill-diff writes its
  status document, the control API reports it, rill-ha decides.
\<close>

section \<open>The report of a run\<close>

lemma compare_zones_report:
  assumes "compare_zones E source target dir zs rep w = (rep', w')"
  shows "\<exists>rs. dr_zones rep' = dr_zones rep @ rs \<and> map dz_zone rs = map (fqdn (de_lib E)) zs \<and>
    (dr_equal rep' \<longleftrightarrow> dr_equal rep \<and> (\<forall>r\<in>set rs. dz_equal r))"
  using assms
proof (induction zs arbitrary: rep w)
  case (Cons z zs)
  obtain r w1 where r: "diff_compare E z source target dir w = (r, w1)" by fastforce
  have name: "dz_zone (fst (diff_compare E z source target dir w)) = fqdn (de_lib E) z"
    unfolding diff_compare_eq by (simp add: Let_def compare_records_def empty_result_def split: sum.splits)
  have "compare_zones E source target dir zs (add_result rep r) w1 = (rep', w')" using Cons.prems r by simp
  from Cons.IH [OF this] obtain rs where rs: "dr_zones rep' = dr_zones (add_result rep r) @ rs"
    "map dz_zone rs = map (fqdn (de_lib E)) zs" "dr_equal rep' \<longleftrightarrow> dr_equal (add_result rep r) \<and> (\<forall>r\<in>set rs. dz_equal r)"
    by blast
  have "dr_zones rep' = dr_zones rep @ (r # rs) \<and> map dz_zone (r # rs) = map (fqdn (de_lib E)) (z # zs) \<and>
    (dr_equal rep' \<longleftrightarrow> dr_equal rep \<and> (\<forall>r\<in>set (r # rs). dz_equal r))"
    using rs name r by (auto simp: add_result_def)
  then show ?case by blast
qed simp

text \<open>The status document a run with exit code 0 leaves behind.\<close>

definition run_status :: "DiffReport \<Rightarrow> rsStatus \<Rightarrow> gotime \<Rightarrow> rsStatus" where
  "run_status rep previous now =
     (let s = differentialStatus rep (sum_list (map dz_queries (dr_zones rep))) previous
      in if dr_equal rep then s\<lparr>rs_last_success := now\<rparr> else s)"

lemma diff_main_status:
  assumes "diff_main E source target dir zs reportFile statusFile checked now w = (0, rep, w')" and "statusFile \<noteq> []"
  obtains previous where "flookup w' statusFile = Some (Json (enc_rsstatus (run_status rep previous now)))"
    "map dz_zone (dr_zones rep) = map (fqdn (de_lib E)) zs" "dr_equal rep \<longleftrightarrow> (\<forall>r\<in>set (dr_zones rep). dz_equal r)"
proof -
  let ?rep0 = "\<lparr>dr_source = source, dr_target = target, dr_checked_at = checked, dr_equal = True, dr_mismatches = 0, dr_zones = []\<rparr>"
  obtain r w1 where c: "compare_zones E source target dir zs ?rep0 w = (r, w1)" by fastforce
  let ?files = "if reportFile = [] then (True, w1)
       else case statusfile_WriteJSON reportFile (enc_report r) w1 of
              (False, w2) \<Rightarrow> (False, w2)
            | (True, w2) \<Rightarrow> if dr_equal r then (True, w2)
                          else statusfile_WriteJSON (reportFile @ ''.failed'') (enc_report r) w2"
  obtain ok w2 where f: "?files = (ok, w2)" by fastforce
  obtain previous w3 where pr: "loadPreviousStatus statusFile w2 = (previous, w3)" by fastforce
  obtain ok4 w4 where wr: "statusfile_WriteJSON statusFile (enc_rsstatus (run_status r previous now)) w3 = (ok4, w4)" by fastforce
  have "diff_main E source target dir zs reportFile statusFile checked now w =
      (if ok then (if ok4 then 0 else 1, r, w4) else (1, r, w2))"
    using assms(2) wr pr by (simp add: diff_main_def c f run_status_def Let_def split: bool.splits)
  then have "r = rep" "ok4" "w4 = w'" using assms(1) by (auto split: if_splits)
  with sf.write_ok [of statusFile "enc_rsstatus (run_status r previous now)" w3 w'] wr that [of previous]
    compare_zones_report [OF c] show thesis by auto
qed

section \<open>The health report\<close>

lemma LoadReport_differential:
  assumes "LoadReport dir now w = (Inr r, w')"
  obtains j where "flookup w (path_join dir ''differential.json'') = Some (Json j)" "dec_rsstatus j = Some (rp_differential r)"
proof -
  have frame: "same_disk v v'" if "read_status p v = (s, v')" for p v s v'
    using that by (auto simp: read_status_def same_disk_def split: prod.splits sum.splits fdata.splits dest: os_read_file_frame)
  obtain w1 w2 where "same_disk w w2" "read_status (path_join dir ''differential.json'') w2 = (Some (rp_differential r), w')"
    using assms frame same_disk_trans by (auto simp: LoadReport_def Let_def split: prod.splits option.splits) blast
  then show thesis using that
    by (auto simp: read_status_def same_disk_def split: prod.splits sum.splits fdata.splits dest!: os_read_file_Inr)
qed

text \<open>What rill-ha reads of a health report is what the node put there.\<close>

definition node_view :: "haStatusResponse \<Rightarrow> haNode" where
  "node_view s = \<lparr>hn_node = hs_node s, hn_role = hs_role s, hn_writable = hs_writable s, hn_healthy = hs_healthy s,
     hn_replication = hs_replication_healthy s, hn_peer_reachable = hp_reachable (hs_peer s),
     hn_zones_last = rs_last_success (hs_zones s),
     hn_zones = map (\<lambda>z. \<lparr>hz_name = rz_name z, hz_serial = rz_serial z\<rparr>) (rs_zones (hs_zones s))\<rparr>"

lemma dec_hazone_view:
  "dec_hazone (enc_rszone z) = Some \<lparr>hz_name = rz_name z, hz_serial = rz_serial z\<rparr>"
proof -
  have b: "uint (rz_serial z) < 2 ^ 32" "0 \<le> uint (rz_serial z)" using uint_lt2p [of "rz_serial z"] by simp_all
  then have "as_uint64 (JNum (uint (rz_serial z))) = Some (unat (rz_serial z))" by (simp add: as_uint64_def)
  moreover have "unat (rz_serial z) < 2 ^ 32" using b by (simp add: nat_less_iff flip: nat_uint_eq)
  ultimately show ?thesis by (simp add: dec_hazone_def enc_rszone_def jget_def jstr_def as_str_def)
qed

lemma dec_hazones:
  "as_list dec_hazone (JArr (map enc_rszone zs)) = Some (map (\<lambda>z. \<lparr>hz_name = rz_name z, hz_serial = rz_serial z\<rparr>) zs)"
  by (induction zs) (simp_all add: as_list_def dec_hazone_view)

lemma hanode_zones:
  "Option.bind (jget (enc_rsstatus s) ''last_success'') as_time = Some (rs_last_success s)"
  "Option.bind (jget (enc_rsstatus s) ''zones'') (as_list dec_hazone) =
     Some (map (\<lambda>z. \<lparr>hz_name = rz_name z, hz_serial = rz_serial z\<rparr>) (rs_zones s))"
proof -
  have "jget (enc_rsstatus s) ''zones'' = Some (if rs_zones s = [] then JNull else JArr (map enc_rszone (rs_zones s)))"
    by (simp add: status_get)
  then show "Option.bind (jget (enc_rsstatus s) ''zones'') (as_list dec_hazone) =
     Some (map (\<lambda>z. \<lparr>hz_name = rz_name z, hz_serial = rz_serial z\<rparr>) (rs_zones s))"
    using dec_hazones [of "rs_zones s"] by (simp add: as_list_def)
qed (rule enc_rsstatus_rest(3))

lemma hastatus_get:
  "jstr (enc_hastatus s) ''node'' = Some (hs_node s)" "jstr (enc_hastatus s) ''role'' = Some (hs_role s)"
  "jbool (enc_hastatus s) ''writable'' = Some (hs_writable s)" "jbool (enc_hastatus s) ''healthy'' = Some (hs_healthy s)"
  "jbool (enc_hastatus s) ''replication_healthy'' = Some (hs_replication_healthy s)"
  "jget (enc_hastatus s) ''peer'' = Some (enc_peer (hs_peer s))"
  "jget (enc_hastatus s) ''zones'' = Some (enc_rsstatus (hs_zones s))"
  "jbool (enc_peer p) ''reachable'' = Some (hp_reachable p)"
  by (simp_all add: enc_hastatus_def enc_peer_def jget_def jstr_def jbool_def map_add_def map_of_opt_str map_of_opt_num
      as_str_def as_bool_def)

lemma dec_hanode_view: "dec_hanode (enc_hastatus s) = Some (node_view s)"
  by (simp add: dec_hanode_def hastatus_get hanode_zones node_view_def)

section \<open>A pair that is ready\<close>

text \<open>
  C21. Readiness rests on a clean comparison: if a run of rill-diff on the standby ended with exit code 0,
  the standby's health report is drawn up from a disk that still holds that run's status document,
  and rill-ha finds the pair ready on this report, then every zone named in the run compared equal
  and the run is less than two hours old; the active node is writable and the standby is not; and
  both list the same zones at the same serials, except that a zone at serial 0 may be missing.
\<close>

theorem ready_pair_was_compared:
  assumes run: "diff_main E source target dir zs reportFile (path_join sdir ''differential.json'') checked now w = (0, rep, w1)"
    and fits: "\<And>previous. status_fits (run_status rep previous now)"
    and kept: "flookup w2 (path_join sdir ''differential.json'') = flookup w1 (path_join sdir ''differential.json'')"
    and report: "haStatus H readOnly sdir owned P t1 t2 False w2 = (s, w3)"
    and ready: "hr_ready (evaluate active (readStatus url (ProbeAnswer 200 line (Some (enc_hastatus s)))) maxAge t3)"
  shows "map dz_zone (dr_zones rep) = map (fqdn (de_lib E)) zs \<and> (\<forall>r\<in>set (dr_zones rep). dz_equal r) \<and>
    time_sub t2 now \<le> 2 * hour \<and> readOnly \<and>
    (\<exists>a. active = Inr a \<and> hn_role a = ''active'' \<and> hn_writable a \<and>
      (\<forall>name. gomap_get 0 (zoneSerials (hn_zones a)) name = gomap_get 0 (zoneSerials (hn_zones (node_view s))) name))"
proof -
  have ne: "path_join sdir ''differential.json'' \<noteq> []" by (simp add: path_join_def)
  from diff_main_status [OF run ne] obtain previous where
    st: "flookup w1 (path_join sdir ''differential.json'') = Some (Json (enc_rsstatus (run_status rep previous now)))"
    and zs: "map dz_zone (dr_zones rep) = map (fqdn (de_lib E)) zs" and eq: "dr_equal rep \<longleftrightarrow> (\<forall>r\<in>set (dr_zones rep). dz_equal r)" .
  have "readStatus url (ProbeAnswer 200 line (Some (enc_hastatus s))) = Inr (node_view s)"
    by (simp add: readStatus_def dec_hanode_view)
  with ready obtain a where a: "active = Inr a" "hn_role a = ''active''" "hn_writable a"
    and b: "\<not> hn_writable (node_view s)" "hn_healthy (node_view s)"
    and zones: "\<forall>name serial. map_of (zoneSerials (hn_zones a)) name = Some serial \<longrightarrow>
        gomap_get 0 (zoneSerials (hn_zones (node_view s))) name = serial"
      "dom (map_of (zoneSerials (hn_zones (node_view s)))) \<subseteq> dom (map_of (zoneSerials (hn_zones a)))"
    unfolding evaluate_ready by auto
  have healthy: "hs_healthy s" and ro: "readOnly" using b report by (auto simp: node_view_def haStatus_def Let_def split: prod.splits)
  from haStatus_healthy [OF report healthy] obtain r where r: "fst (LoadReport sdir t1 w2) = Inr r" "rs_success (rp_differential r)"
    "time_sub t2 (rs_last_success (rp_differential r)) \<le> 2 * hour" by metis
  then obtain w4 where l: "LoadReport sdir t1 w2 = (Inr r, w4)" by (metis prod.collapse)
  from LoadReport_differential [OF l] have "dec_rsstatus (enc_rsstatus (run_status rep previous now)) = Some (rp_differential r)"
    using st kept by auto
  then have d: "rp_differential r = run_status rep previous now" using dec_enc_rsstatus [OF fits] by simp
  have e: "dr_equal rep" using r(2) d by (auto simp: run_status_def differentialStatus_def zero_status_def Let_def split: if_splits)
  then have "time_sub t2 now \<le> 2 * hour" using r(3) d by (simp add: run_status_def Let_def)
  moreover have "gomap_get 0 (zoneSerials (hn_zones a)) name = gomap_get 0 (zoneSerials (hn_zones (node_view s))) name" for name
    using zones by (cases "map_of (zoneSerials (hn_zones a)) name") (auto simp: gomap_get_def split: option.splits)
  ultimately show ?thesis using zs eq e ro a by blast
qed

text \<open>A standby whose zone matches the primary's: the run, its health report and the decision.\<close>

definition ha_docs :: world where
  "ha_docs = \<lparr>disk =
     [(''/s/zones.json'', Json (enc_rsstatus (zero_status\<lparr>rs_success := True, rs_last_success := 5,
          rs_zones := [\<lparr>rz_name = ''a.'', rz_serial = 7, rz_records = 2\<rparr>]\<rparr>))),
      (''/s/blocklists.json'', Json (enc_rsstatus (zero_status\<lparr>rs_success := True, rs_last_success := 5\<rparr>)))],
     outcomes = [], snaps = []\<rparr>"

definition ha_run :: "nat \<times> DiffReport \<times> world" where
  "ha_run = diff_main diff_pair ''p'' ''s'' [] [''a''] [] (path_join ''/s'' ''differential.json'') 5 6 ha_docs"

definition ha_health :: "haStatusResponse \<times> world" where
  "ha_health = haStatus (SetHA ''b'' ''standby'' ''a'' ''http://a'' [] []) True ''/s'' (\<lambda>_. False)
     \<lparr>pr_health = ProbeAnswer 200 [] None, pr_status = ProbeError [], pr_started = 0, pr_ended = 0\<rparr> 7 8 False (snd (snd ha_run))"

definition ha_active :: haNode where
  "ha_active = \<lparr>hn_node = ''a'', hn_role = ''active'', hn_writable = True, hn_healthy = True, hn_replication = True,
     hn_peer_reachable = True, hn_zones_last = 5, hn_zones = [\<lparr>hz_name = ''a.'', hz_serial = 7\<rparr>]\<rparr>"

lemma ha_run_facts:
  "fst ha_run = 0 \<and> dr_equal (fst (snd ha_run)) \<and> length (dr_zones (fst (snd ha_run))) = 1 \<and>
   dr_mismatches (fst (snd ha_run)) = 0 \<and> sum_list (map dz_queries (dr_zones (fst (snd ha_run)))) < 100"
  by code_simp

lemma ha_ready:
  "hr_ready (evaluate (Inr ha_active) (readStatus ''u'' (ProbeAnswer 200 [] (Some (enc_hastatus (fst ha_health))))) (2 * hour) 9)"
  by code_simp

theorem ready_pair_was_compared_witness:
  "list_all dz_equal (dr_zones (fst (snd ha_run))) \<and> length (dr_zones (fst (snd ha_run))) = 1"
proof -
  obtain rep w1 where r: "ha_run = (0, rep, w1)" using ha_run_facts by (metis prod.collapse)
  obtain s w3 where h: "ha_health = (s, w3)" by fastforce
  note facts = ha_run_facts [unfolded r fst_conv snd_conv]
  then have "sum_list (map dz_queries (dr_zones rep)) < 100" by blast
  then have "int (sum_list (map dz_queries (dr_zones rep))) < int 100" by (simp only: of_nat_less_iff)
  then have q: "int (sum_list (map dz_queries (dr_zones rep))) < 2 ^ 63" by (rule less_trans) simp
  then have fits: "status_fits (run_status rep previous 6)" for previous
    using facts q
    by (simp add: run_status_def differentialStatus_def status_fits_def zero_status_def int64_def Let_def)
  have "\<forall>r\<in>set (dr_zones rep). dz_equal r"
    using ready_pair_was_compared [OF r [unfolded ha_run_def] fits refl h [unfolded ha_health_def r, simplified] ha_ready [unfolded h, simplified]]
    by blast
  then show ?thesis using facts unfolding r fst_conv snd_conv list_all_iff by blast
qed

end
