(* ===== verification/Reconcile.thy ===== *)
theory Reconcile
  imports DnsLib BlocklistMerge
begin

text \<open>
  The reconciliation of forward and reverse zones (cmd/rill-reconcile/main.go): PTR records are proposed
  for addresses that have none, everything doubtful becomes a finding.

  IPv4 addresses are kept as their dotted text, as the source does; an IPv6 text that embeds an IPv4
  address counts as no address.
\<close>

section \<open>Addresses and subnets\<close>

definition quad_value :: "string \<Rightarrow> nat option" where
  "quad_value s = (if parse_ipv4 s then Some (foldl (\<lambda>n f. 256 * n + dec_value f) 0 (split_on (CHR ''.'') s)) else None)"

text \<open>\<open>net.ParseCIDR\<close>: an IPv4 network by its address and prefix length, or an IPv6 network, in which no
  IPv4 address lies.\<close>

datatype subnet = V4 nat nat | V6

definition mask_bits :: "string \<Rightarrow> nat \<Rightarrow> nat option" where
  "mask_bits s most = (if s \<noteq> [] \<and> all_digits s \<and> dec_value s \<le> most then Some (dec_value s) else None)"

definition parse_cidr :: "string \<Rightarrow> subnet option" where
  "parse_cidr s =
     (if CHR ''/'' \<notin> set s then None
      else let addr = takeWhile (\<lambda>c. c \<noteq> CHR ''/'') s; mask = tl (dropWhile (\<lambda>c. c \<noteq> CHR ''/'') s)
           in case quad_value addr of
                Some v \<Rightarrow> map_option (V4 v) (mask_bits mask 32)
              | None \<Rightarrow> if parse_ip addr then map_option (\<lambda>_. V6) (mask_bits mask 128) else None)"

definition subnet_contains :: "subnet \<Rightarrow> string \<Rightarrow> bool" where
  "subnet_contains net ip =
     (case (net, quad_value ip) of
        (V4 v n, Some a) \<Rightarrow> a div 2 ^ (32 - n) = v div 2 ^ (32 - n)
      | _ \<Rightarrow> False)"

section \<open>Data\<close>

record Proposal =
  pp_action :: string
  pp_ip :: string
  pp_name :: string
  pp_reason :: string

record Finding =
  fg_kind :: string
  fg_ip :: string
  fg_ptr :: "string list"
  fg_forward :: "string list"
  fg_resolution :: string

record ReconcileReport =
  rc_subnet :: string
  rc_forward :: nat
  rc_reverse :: nat
  rc_aligned :: nat
  rc_proposals :: "Proposal list"
  rc_findings :: "Finding list"

record Policy =
  po_excluded :: "string list"
  po_allowed :: "string list"

text \<open>The flag type \<open>stringList\<close>.\<close>

definition stringList_set :: "dnslib \<Rightarrow> string \<Rightarrow> string list \<Rightarrow> string list" where
  "stringList_set D v vs = vs @ [to_lower (fqdn D (trim_space v))]"

definition policy_allowed :: "dnslib \<Rightarrow> Policy \<Rightarrow> string \<Rightarrow> bool" where
  "policy_allowed D P name =
     (let n = to_lower (fqdn D name)
      in n \<in> set (po_allowed P) \<or> \<not> list_ex (\<lambda>s. has_suffix n (to_lower (fqdn D s))) (po_excluded P))"

definition policy_filter :: "dnslib \<Rightarrow> Policy \<Rightarrow> string list \<Rightarrow> string list" where
  "policy_filter D P names = filter (policy_allowed D P) names"

definition single_name :: "string list \<Rightarrow> string" where
  "single_name names = (case names of [n] \<Rightarrow> n | _ \<Rightarrow> [])"

section \<open>Zones\<close>

definition reconcile_parseZone :: "dnslib \<Rightarrow> path \<Rightarrow> world \<Rightarrow> (string + rr list) \<times> world" where
  "reconcile_parseZone D p w =
     (case os_read_file p w of
        (Inr (Text s), w1) \<Rightarrow>
          ((case parse_zone D [] s of Inl e \<Rightarrow> Inl (''parse '' @ p @ '': '' @ e) | Inr rrs \<Rightarrow> Inr rrs), w1)
      | (_, w1) \<Rightarrow> (Inl (''open '' @ p), w1))"

definition reverseIPv4 :: "dnslib \<Rightarrow> string \<Rightarrow> string" where
  "reverseIPv4 D name =
     (case split_domain_name D (to_lower name) of
        [d, c, b, a, i, r] \<Rightarrow> if i = ''in-addr'' \<and> r = ''arpa'' then join ''.'' [a, b, c, d] else []
      | _ \<Rightarrow> [])"

text \<open>A Go map whose values are sets, here lists without repetition.\<close>

type_synonym setmap = "(string, string list) gomap"

definition set_add :: "string \<Rightarrow> string \<Rightarrow> setmap \<Rightarrow> setmap" where
  "set_add k v m = AList.update k (List.insert v (gomap_get [] m k)) m"

definition setValues :: "string list \<Rightarrow> string list" where
  "setValues vs = sort vs"

text \<open>Keys in the order of their address bytes.\<close>

definition sortedKeys :: "string list \<Rightarrow> string list" where
  "sortedKeys ks = sort_key (\<lambda>k. case quad_value k of None \<Rightarrow> 0 | Some n \<Rightarrow> n) ks"

text \<open>The forward maps: names by address and addresses by name.\<close>

definition add_forward :: "subnet \<Rightarrow> rr \<Rightarrow> setmap \<times> setmap \<Rightarrow> setmap \<times> setmap" where
  "add_forward net r m =
     (case rdat r of
        A_d ip \<Rightarrow> if subnet_contains net ip
                  then (set_add ip (to_lower (rname r)) (fst m), set_add (to_lower (rname r)) ip (snd m)) else m
      | _ \<Rightarrow> m)"

fun read_forward :: "dnslib \<Rightarrow> subnet \<Rightarrow> path list \<Rightarrow> setmap \<times> setmap \<Rightarrow> world \<Rightarrow> (string + setmap \<times> setmap) \<times> world" where
  "read_forward D net [] m w = (Inr m, w)"
| "read_forward D net (p # ps) m w =
     (case reconcile_parseZone D p w of
        (Inl e, w1) \<Rightarrow> (Inl e, w1)
      | (Inr rrs, w1) \<Rightarrow> read_forward D net ps (fold (add_forward net) rrs m) w1)"

definition add_reverse :: "dnslib \<Rightarrow> subnet \<Rightarrow> rr \<Rightarrow> setmap \<Rightarrow> setmap" where
  "add_reverse D net r m =
     (case rdat r of
        PTR_d t \<Rightarrow>
          (let ip = reverseIPv4 D (rname r)
           in if ip = [] \<or> \<not> subnet_contains net ip then m else set_add ip (to_lower t) m)
      | _ \<Rightarrow> m)"

section \<open>The report\<close>

definition add_proposal :: "ReconcileReport \<Rightarrow> Proposal \<Rightarrow> ReconcileReport" where
  "add_proposal rep p = rep\<lparr>rc_proposals := rc_proposals rep @ [p]\<rparr>"

definition add_finding :: "ReconcileReport \<Rightarrow> Finding \<Rightarrow> ReconcileReport" where
  "add_finding rep f = rep\<lparr>rc_findings := rc_findings rep @ [f]\<rparr>"

text \<open>An address without PTR record.\<close>

definition missing_ptr :: "dnslib \<Rightarrow> Policy \<Rightarrow> setmap \<Rightarrow> string \<Rightarrow> string list \<Rightarrow> ReconcileReport \<Rightarrow> ReconcileReport" where
  "missing_ptr D P forwardIPs ip names rep =
     (let eligible = policy_filter D P names; candidate = single_name eligible
      in if candidate \<noteq> []
         then (if length (gomap_get [] forwardIPs candidate) = 1
               then add_proposal rep \<lparr>pp_action = ''upsert_ptr'', pp_ip = ip, pp_name = candidate,
                      pp_reason = ''missing PTR with one unambiguous canonical forward name''\<rparr>
               else add_finding rep \<lparr>fg_kind = ''missing_ptr_shared_name'', fg_ip = ip, fg_ptr = [], fg_forward = names,
                      fg_resolution = ''the candidate name has multiple A addresses; choose a node-specific PTR target''\<rparr>)
         else if eligible = []
         then add_finding rep \<lparr>fg_kind = ''missing_ptr_no_allowed_name'', fg_ip = ip, fg_ptr = [], fg_forward = names,
                fg_resolution = ''create or select a canonical name permitted by PTR policy''\<rparr>
         else add_finding rep \<lparr>fg_kind = ''missing_ptr_ambiguous'', fg_ip = ip, fg_ptr = [], fg_forward = names,
                fg_resolution = ''choose one canonical PTR target''\<rparr>)"

text \<open>One PTR target of an address that has forward names; the flag is \<open>aligned\<close>.\<close>

definition check_ptr :: "dnslib \<Rightarrow> Policy \<Rightarrow> setmap \<Rightarrow> string \<Rightarrow> string list \<Rightarrow> string \<Rightarrow> ReconcileReport \<times> bool \<Rightarrow> ReconcileReport \<times> bool" where
  "check_ptr D P forwardIPs ip names ptr s =
     (case s of (rep, aligned) \<Rightarrow>
        if \<not> policy_allowed D P ptr
        then (add_finding rep \<lparr>fg_kind = ''disallowed_ptr_target'', fg_ip = ip, fg_ptr = [ptr], fg_forward = names,
                fg_resolution = ''replace with a canonical name permitted by PTR policy''\<rparr>, aligned)
        else if ip \<in> set (gomap_get [] forwardIPs ptr) then (rep, True)
        else (add_finding rep
                \<lparr>fg_kind = (if gomap_get [] forwardIPs ptr \<noteq> [] then ''ptr_a_mismatch'' else ''ptr_without_a''),
                 fg_ip = ip, fg_ptr = [ptr], fg_forward = names, fg_resolution = ''review or replace the PTR target''\<rparr>, aligned))"

definition forward_step :: "dnslib \<Rightarrow> Policy \<Rightarrow> setmap \<times> setmap \<Rightarrow> setmap \<Rightarrow> string \<Rightarrow> ReconcileReport \<Rightarrow> ReconcileReport" where
  "forward_step D P fwd ptrByIP ip rep =
     (let names = setValues (gomap_get [] (fst fwd) ip); ptrs = setValues (gomap_get [] ptrByIP ip)
      in if ptrs = [] then missing_ptr D P (snd fwd) ip names rep
         else case fold (check_ptr D P (snd fwd) ip names) ptrs (rep, False) of
           (rep1, aligned) \<Rightarrow>
             let rep2 = (if aligned then rep1\<lparr>rc_aligned := rc_aligned rep1 + 1\<rparr> else rep1)
             in if 1 < length ptrs
                then add_finding rep2 \<lparr>fg_kind = ''multiple_ptr'', fg_ip = ip, fg_ptr = ptrs, fg_forward = names,
                       fg_resolution = ''confirm whether multiple PTR records are intentional''\<rparr>
                else rep2)"

text \<open>An address with PTR records but no forward name; the first target that has other addresses decides.\<close>

definition reverse_step :: "setmap \<times> setmap \<Rightarrow> setmap \<Rightarrow> string \<Rightarrow> ReconcileReport \<Rightarrow> ReconcileReport" where
  "reverse_step fwd ptrByIP ip rep =
     (if gomap_has (fst fwd) ip then rep
      else let ptrs = setValues (gomap_get [] ptrByIP ip)
           in case List.find (\<lambda>ptr. gomap_get [] (snd fwd) ptr \<noteq> []) ptrs of
                None \<Rightarrow>
                  add_finding rep \<lparr>fg_kind = ''ptr_without_forward_address'', fg_ip = ip, fg_ptr = ptrs, fg_forward = [],
                    fg_resolution = ''confirm the address is still in use''\<rparr>
              | Some ptr \<Rightarrow>
                  add_finding rep \<lparr>fg_kind = ''ptr_a_mismatch'', fg_ip = ip, fg_ptr = ptrs, fg_forward = [],
                    fg_resolution = ''PTR target resolves to '' @ join '','' (sortedKeys (gomap_get [] (snd fwd) ptr)) @
                      ''; choose the canonical target for this address''\<rparr>)"

definition reconcile_maps :: "dnslib \<Rightarrow> Policy \<Rightarrow> string \<Rightarrow> setmap \<times> setmap \<Rightarrow> setmap \<Rightarrow> ReconcileReport" where
  "reconcile_maps D P cidr fwd ptrByIP =
     fold (reverse_step fwd ptrByIP) (sortedKeys (map fst ptrByIP))
       (fold (forward_step D P fwd ptrByIP) (sortedKeys (map fst (fst fwd)))
          \<lparr>rc_subnet = cidr, rc_forward = length (fst fwd), rc_reverse = length ptrByIP, rc_aligned = 0,
           rc_proposals = [], rc_findings = []\<rparr>)"

definition reconcile :: "dnslib \<Rightarrow> path list \<Rightarrow> path \<Rightarrow> string \<Rightarrow> Policy \<Rightarrow> world \<Rightarrow> (string + ReconcileReport) \<times> world" where
  "reconcile D forwardPaths reversePath cidr P w =
     (case parse_cidr cidr of
        None \<Rightarrow> (Inl ''parse subnet'', w)
      | Some net \<Rightarrow>
          (case read_forward D net forwardPaths ([], []) w of
             (Inl e, w1) \<Rightarrow> (Inl e, w1)
           | (Inr fwd, w1) \<Rightarrow>
               (case reconcile_parseZone D reversePath w1 of
                  (Inl e, w2) \<Rightarrow> (Inl e, w2)
                | (Inr rrs, w2) \<Rightarrow> (Inr (reconcile_maps D P cidr fwd (fold (add_reverse D net) rrs [])), w2))))"

section \<open>The maps\<close>

definition has_pair :: "setmap \<Rightarrow> string \<Rightarrow> string \<Rightarrow> bool" where
  "has_pair m k v \<longleftrightarrow> v \<in> set (gomap_get [] m k)"

definition setmap_ok :: "setmap \<Rightarrow> bool" where
  "setmap_ok m \<longleftrightarrow> gomap_wf m \<and> (\<forall>k vs. (k, vs) \<in> set m \<longrightarrow> vs \<noteq> [] \<and> distinct vs)"

lemma setmap_ok_get: "setmap_ok m \<Longrightarrow> distinct (gomap_get [] m k)"
  by (auto simp: setmap_ok_def gomap_get_def split: option.splits dest: map_of_SomeD)

lemma set_add_ok: "setmap_ok m \<Longrightarrow> setmap_ok (set_add k v m)"
  using setmap_ok_get [of m k]
  by (auto simp: setmap_ok_def set_add_def distinct_update List.insert_def dest!: set_update_cases)

lemma set_add_pair: "has_pair (set_add k v m) k' v' \<longleftrightarrow> (k' = k \<and> v' = v) \<or> has_pair m k' v'"
  by (auto simp: has_pair_def set_add_def gomap_get_update)

lemma setmap_keys:
  assumes "setmap_ok m"
  shows "k \<in> set (map fst m) \<longleftrightarrow> (\<exists>v. has_pair m k v)"
proof (cases "map_of m k")
  case None
  then have "k \<notin> set (map fst m)" by (simp add: map_of_eq_None_iff)
  then show ?thesis using None by (simp add: has_pair_def gomap_get_def)
next
  case (Some vs)
  then have "k \<in> set (map fst m)" by (metis map_of_eq_None_iff option.distinct(1) image_set)
  moreover have "vs \<noteq> []" using assms Some by (auto simp: setmap_ok_def dest: map_of_SomeD)
  then have "hd vs \<in> set vs" by simp
  then have "\<exists>v. has_pair m k v" using Some by (auto simp: has_pair_def gomap_get_def)
  ultimately show ?thesis by blast
qed

definition forward_pair :: "subnet \<Rightarrow> rr list \<Rightarrow> string \<Rightarrow> string \<Rightarrow> bool" where
  "forward_pair net rrs ip name \<longleftrightarrow> (\<exists>r\<in>set rrs. rdat r = A_d ip \<and> subnet_contains net ip \<and> to_lower (rname r) = name)"

definition reverse_pair :: "dnslib \<Rightarrow> subnet \<Rightarrow> rr list \<Rightarrow> string \<Rightarrow> string \<Rightarrow> bool" where
  "reverse_pair D net rrs ip name \<longleftrightarrow>
     (\<exists>r\<in>set rrs. \<exists>t. rdat r = PTR_d t \<and> ip = reverseIPv4 D (rname r) \<and> ip \<noteq> [] \<and> subnet_contains net ip \<and> name = to_lower t)"

lemma add_forward_fold:
  "setmap_ok (fst m) \<Longrightarrow> setmap_ok (snd m) \<Longrightarrow>
   setmap_ok (fst (fold (add_forward net) rrs m)) \<and> setmap_ok (snd (fold (add_forward net) rrs m)) \<and>
   (\<forall>ip name. has_pair (fst (fold (add_forward net) rrs m)) ip name \<longleftrightarrow> has_pair (fst m) ip name \<or> forward_pair net rrs ip name) \<and>
   (\<forall>ip name. has_pair (snd (fold (add_forward net) rrs m)) name ip \<longleftrightarrow> has_pair (snd m) name ip \<or> forward_pair net rrs ip name)"
proof (induction rrs arbitrary: m)
  case (Cons r rrs)
  have ok: "setmap_ok (fst (add_forward net r m))" "setmap_ok (snd (add_forward net r m))"
    using Cons.prems by (auto simp: add_forward_def set_add_ok split: rdata.splits)
  have p: "has_pair (fst (add_forward net r m)) ip name \<longleftrightarrow> has_pair (fst m) ip name \<or> forward_pair net [r] ip name"
    "has_pair (snd (add_forward net r m)) name ip \<longleftrightarrow> has_pair (snd m) name ip \<or> forward_pair net [r] ip name" for ip name
    by (auto simp: add_forward_def set_add_pair forward_pair_def split: rdata.splits)
  show ?case using Cons.IH [OF ok] p by (auto simp: forward_pair_def)
qed (simp add: forward_pair_def)

lemma add_reverse_fold:
  "setmap_ok m \<Longrightarrow> setmap_ok (fold (add_reverse D net) rrs m) \<and>
   (\<forall>ip name. has_pair (fold (add_reverse D net) rrs m) ip name \<longleftrightarrow> has_pair m ip name \<or> reverse_pair D net rrs ip name)"
proof (induction rrs arbitrary: m)
  case (Cons r rrs)
  have ok: "setmap_ok (add_reverse D net r m)"
    using Cons.prems by (auto simp: add_reverse_def set_add_ok Let_def split: rdata.splits)
  have p: "has_pair (add_reverse D net r m) ip name \<longleftrightarrow> has_pair m ip name \<or> reverse_pair D net [r] ip name" for ip name
    by (auto simp: add_reverse_def set_add_pair reverse_pair_def Let_def split: rdata.splits)
  show ?case using Cons.IH [OF ok] p by (auto simp: reverse_pair_def)
qed (simp add: reverse_pair_def)

section \<open>The proposals\<close>

definition proposal_for :: "dnslib \<Rightarrow> Policy \<Rightarrow> setmap \<times> setmap \<Rightarrow> setmap \<Rightarrow> string \<Rightarrow> Proposal list" where
  "proposal_for D P fwd ptrByIP ip =
     (let candidate = single_name (policy_filter D P (setValues (gomap_get [] (fst fwd) ip)))
      in if gomap_get [] ptrByIP ip = [] \<and> candidate \<noteq> [] \<and> length (gomap_get [] (snd fwd) candidate) = 1
         then [\<lparr>pp_action = ''upsert_ptr'', pp_ip = ip, pp_name = candidate,
                pp_reason = ''missing PTR with one unambiguous canonical forward name''\<rparr>]
         else [])"

lemma check_ptr_proposals: "rc_proposals (fst (fold (check_ptr D P m ip names) ptrs s)) = rc_proposals (fst s)"
  by (induction ptrs arbitrary: s) (auto simp: check_ptr_def add_finding_def split: prod.splits)

lemma setValues_Nil [simp]: "setValues vs = [] \<longleftrightarrow> vs = []"
  by (simp add: setValues_def flip: length_0_conv)

lemma forward_step_proposals:
  "rc_proposals (forward_step D P fwd ptrByIP ip rep) = rc_proposals rep @ proposal_for D P fwd ptrByIP ip"
proof (cases "gomap_get [] ptrByIP ip = []")
  case True
  then show ?thesis
    by (simp add: forward_step_def missing_ptr_def proposal_for_def add_proposal_def add_finding_def Let_def)
next
  case False
  let ?f = "fold (check_ptr D P (snd fwd) ip (setValues (gomap_get [] (fst fwd) ip))) (setValues (gomap_get [] ptrByIP ip)) (rep, False)"
  obtain rep1 al where f: "?f = (rep1, al)" by fastforce
  then have "rc_proposals rep1 = rc_proposals rep" using check_ptr_proposals [of D P "snd fwd" ip _ _ "(rep, False)"] by (metis fst_conv)
  then show ?thesis using False f by (simp add: forward_step_def proposal_for_def add_finding_def Let_def)
qed

lemma forward_fold_proposals:
  "rc_proposals (fold (forward_step D P fwd ptrByIP) ips rep) = rc_proposals rep @ concat (map (proposal_for D P fwd ptrByIP) ips)"
  by (induction ips arbitrary: rep) (simp_all add: forward_step_proposals)

lemma reverse_fold_proposals: "rc_proposals (fold (reverse_step fwd ptrByIP) ips rep) = rc_proposals rep"
  by (induction ips arbitrary: rep) (simp_all add: reverse_step_def add_finding_def Let_def split: option.splits)

lemma reconcile_maps_proposals:
  "rc_proposals (reconcile_maps D P cidr fwd ptrByIP) = concat (map (proposal_for D P fwd ptrByIP) (sortedKeys (map fst (fst fwd))))"
  by (simp add: reconcile_maps_def reverse_fold_proposals forward_fold_proposals)

lemma filter_single:
  assumes "distinct xs"
  shows "filter p xs = [x] \<longleftrightarrow> x \<in> set xs \<and> p x \<and> (\<forall>y\<in>set xs. p y \<longrightarrow> y = x)"
proof
  assume "filter p xs = [x]"
  then have "set (filter p xs) = {x}" by simp
  then show "x \<in> set xs \<and> p x \<and> (\<forall>y\<in>set xs. p y \<longrightarrow> y = x)" by auto
next
  assume "x \<in> set xs \<and> p x \<and> (\<forall>y\<in>set xs. p y \<longrightarrow> y = x)"
  then have "set (filter p xs) = {x}" by auto
  moreover have "distinct (filter p xs)" using assms by simp
  ultimately show "filter p xs = [x]" by (cases "filter p xs"; cases "tl (filter p xs)") auto
qed

lemma single_name_iff: "n \<noteq> [] \<Longrightarrow> single_name names = n \<longleftrightarrow> names = [n]"
  by (auto simp: single_name_def split: list.splits)

lemma length_one_iff:
  assumes "distinct xs" "x \<in> set xs"
  shows "length xs = 1 \<longleftrightarrow> (\<forall>y\<in>set xs. y = x)"
proof -
  have "length xs = card (set xs)" using assms(1) by (simp add: distinct_card)
  moreover have "card (set xs) = 1 \<longleftrightarrow> set xs = {x}" using assms(2) by (auto simp: card_1_singleton_iff)
  ultimately show ?thesis using assms(2) by auto
qed

lemma proposal_for_iff:
  assumes ok: "setmap_ok (fst fwd)" "setmap_ok (snd fwd)"
    and inv: "\<And>ip name. has_pair (snd fwd) name ip \<longleftrightarrow> has_pair (fst fwd) ip name"
  shows "(\<exists>p\<in>set (proposal_for D P fwd ptrByIP ip'). pp_ip p = ip \<and> pp_name p = name) \<longleftrightarrow>
    ip' = ip \<and> name \<noteq> [] \<and> has_pair (fst fwd) ip name \<and> policy_allowed D P name \<and> (\<forall>t. \<not> has_pair ptrByIP ip t) \<and>
    (\<forall>n. has_pair (fst fwd) ip n \<and> policy_allowed D P n \<longrightarrow> n = name) \<and>
    (\<forall>i. has_pair (fst fwd) i name \<longrightarrow> i = ip)" (is "?L \<longleftrightarrow> ?R")
proof -
  let ?ns = "setValues (gomap_get [] (fst fwd) ip)"
  have d: "distinct ?ns" using setmap_ok_get [OF ok(1)] by (simp add: setValues_def)
  have s: "n \<in> set ?ns \<longleftrightarrow> has_pair (fst fwd) ip n" for n by (simp add: setValues_def has_pair_def)
  have "?L \<longleftrightarrow> ip' = ip \<and> gomap_get [] ptrByIP ip = [] \<and> name \<noteq> [] \<and>
      single_name (policy_filter D P ?ns) = name \<and> length (gomap_get [] (snd fwd) name) = 1"
    by (auto simp: proposal_for_def Let_def)
  also have "\<dots> \<longleftrightarrow> ip' = ip \<and> gomap_get [] ptrByIP ip = [] \<and> name \<noteq> [] \<and>
      filter (policy_allowed D P) ?ns = [name] \<and> length (gomap_get [] (snd fwd) name) = 1"
    by (cases "name = []") (simp_all add: single_name_iff policy_filter_def)
  also have "\<dots> \<longleftrightarrow> ip' = ip \<and> gomap_get [] ptrByIP ip = [] \<and> name \<noteq> [] \<and>
      (has_pair (fst fwd) ip name \<and> policy_allowed D P name \<and> (\<forall>n. has_pair (fst fwd) ip n \<and> policy_allowed D P n \<longrightarrow> n = name)) \<and>
      length (gomap_get [] (snd fwd) name) = 1"
    by (auto simp: filter_single [OF d] s Ball_def)
  also have "\<dots> \<longleftrightarrow> ?R"
  proof -
    have "length (gomap_get [] (snd fwd) name) = 1 \<longleftrightarrow> (\<forall>i. has_pair (fst fwd) i name \<longrightarrow> i = ip)"
      if "has_pair (fst fwd) ip name"
      using length_one_iff [OF setmap_ok_get [OF ok(2)], of ip name] that inv by (auto simp: has_pair_def)
    moreover have "gomap_get [] ptrByIP ip = [] \<longleftrightarrow> (\<forall>t. \<not> has_pair ptrByIP ip t)"
      by (cases "gomap_get [] ptrByIP ip") (auto simp: has_pair_def)
    ultimately show ?thesis by blast
  qed
  finally show ?thesis .
qed

section \<open>Files\<close>

definition zone_of_file :: "dnslib \<Rightarrow> world \<Rightarrow> path \<Rightarrow> rr list \<Rightarrow> bool" where
  "zone_of_file D w p rrs \<longleftrightarrow> (\<exists>s. flookup w p = Some (Text s) \<and> parse_zone D [] s = Inr rrs)"

lemma reconcile_parseZone_frame: "reconcile_parseZone D p w = (r, w') \<Longrightarrow> same_disk w w'"
  by (auto simp: reconcile_parseZone_def same_disk_def split: prod.splits sum.splits fdata.splits dest: os_read_file_frame)

lemma reconcile_parseZone_Inr: "reconcile_parseZone D p w = (Inr rrs, w') \<Longrightarrow> zone_of_file D w p rrs"
  by (auto simp: reconcile_parseZone_def zone_of_file_def split: prod.splits sum.splits fdata.splits dest: os_read_file_Inr)

lemma zone_of_file_disk: "same_disk w w' \<Longrightarrow> zone_of_file D w' p rrs \<longleftrightarrow> zone_of_file D w p rrs"
  by (simp add: zone_of_file_def same_disk_def)

lemma read_forward_frame: "read_forward D net ps m w = (r, w') \<Longrightarrow> same_disk w w'"
proof (induction ps arbitrary: m w)
  case (Cons p ps)
  obtain z w1 where z: "reconcile_parseZone D p w = (z, w1)" by fastforce
  have f: "same_disk w w1" by (rule reconcile_parseZone_frame [OF z])
  show ?case
  proof (cases z)
    case (Inl e)
    then show ?thesis using Cons.prems z f by simp
  next
    case (Inr rrs)
    then have "read_forward D net ps (fold (add_forward net) rrs m) w1 = (r, w')" using Cons.prems z by simp
    then show ?thesis using same_disk_trans [OF f] Cons.IH by blast
  qed
qed simp

lemma read_forward_Inr:
  "read_forward D net ps m w = (Inr m', w') \<Longrightarrow>
   \<exists>rrss. list_all2 (zone_of_file D w) ps rrss \<and> m' = fold (add_forward net) (concat rrss) m"
proof (induction ps arbitrary: m w)
  case (Cons p ps)
  obtain z w1 where z: "reconcile_parseZone D p w = (z, w1)" by fastforce
  then obtain rrs where rrs: "z = Inr rrs" using Cons.prems by (cases z) auto
  have f: "same_disk w w1" by (rule reconcile_parseZone_frame [OF z])
  have "read_forward D net ps (fold (add_forward net) rrs m) w1 = (Inr m', w')" using Cons.prems z rrs by simp
  from Cons.IH [OF this] obtain rrss where r: "list_all2 (zone_of_file D w1) ps rrss"
    "m' = fold (add_forward net) (concat rrss) (fold (add_forward net) rrs m)" by blast
  have "list_all2 (zone_of_file D w) ps rrss"
    using r(1) by (rule list_all2_mono) (simp add: zone_of_file_disk [OF f])
  then have "list_all2 (zone_of_file D w) (p # ps) (rrs # rrss)"
    using reconcile_parseZone_Inr [OF z [unfolded rrs]] by simp
  then show ?case using r(2) by (intro exI [of _ "rrs # rrss"]) simp
qed simp


text \<open>A zone with one name for a free address, a name with an excluded suffix for the same address, and an
  address that has its PTR record.\<close>

definition rc_rr :: "char \<Rightarrow> rr" where
  "rc_rr c =
     (if c = CHR ''f'' then \<lparr>rname = ''Host.example.'', rrtype = 1, rclass = 1, rttl = 0, rdat = A_d ''192.0.2.7''\<rparr>
      else if c = CHR ''s'' then \<lparr>rname = ''svc.alias.'', rrtype = 1, rclass = 1, rttl = 0, rdat = A_d ''192.0.2.7''\<rparr>
      else if c = CHR ''g'' then \<lparr>rname = ''old.example.'', rrtype = 1, rclass = 1, rttl = 0, rdat = A_d ''192.0.2.5''\<rparr>
      else \<lparr>rname = ''5.2.0.192.in-addr.arpa.'', rrtype = 12, rclass = 1, rttl = 0, rdat = PTR_d ''old.example.''\<rparr>)"

definition rc_dns :: dnslib where
  "rc_dns = ref_dns\<lparr>parse_zone := (\<lambda>_ s. Inr (map rc_rr s))\<rparr>"

definition rc_world :: world where
  "rc_world = \<lparr>disk = [(''/f'', Text ''fsg''), (''/r'', Text ''p'')], outcomes = [], snaps = []\<rparr>"

definition rc_policy :: Policy where
  "rc_policy = \<lparr>po_excluded = [''.alias''], po_allowed = []\<rparr>"

definition rc_report :: ReconcileReport where
  "rc_report = \<lparr>rc_subnet = ''192.0.2.0/24'', rc_forward = 2, rc_reverse = 1, rc_aligned = 1,
     rc_proposals = [\<lparr>pp_action = ''upsert_ptr'', pp_ip = ''192.0.2.7'', pp_name = ''host.example.'',
       pp_reason = ''missing PTR with one unambiguous canonical forward name''\<rparr>], rc_findings = []\<rparr>"

definition rc_forward_maps :: "setmap \<times> setmap" where
  "rc_forward_maps =
     ([(''192.0.2.7'', [''svc.alias.'', ''host.example.'']), (''192.0.2.5'', [''old.example.''])],
      [(''host.example.'', [''192.0.2.7'']), (''svc.alias.'', [''192.0.2.7'']), (''old.example.'', [''192.0.2.5''])])"

lemma rc_subnet_value: "parse_cidr ''192.0.2.0/24'' = Some (V4 3221225984 24)"
  by code_simp

lemma rc_forward_value: "read_forward rc_dns (V4 3221225984 24) [''/f''] ([], []) rc_world = (Inr rc_forward_maps, rc_world)"
  by code_simp

lemma rc_reverse_value: "reconcile_parseZone rc_dns ''/r'' rc_world = (Inr [rc_rr (CHR ''p'')], rc_world)"
  by code_simp

lemma rc_reverse_map: "fold (add_reverse rc_dns (V4 3221225984 24)) [rc_rr (CHR ''p'')] [] = [(''192.0.2.5'', [''old.example.''])]"
  by code_simp

lemma rc_report_value:
  "reconcile_maps rc_dns rc_policy ''192.0.2.0/24'' rc_forward_maps [(''192.0.2.5'', [''old.example.''])] = rc_report"
  by code_simp

lemma rc_run: "reconcile rc_dns [''/f''] ''/r'' ''192.0.2.0/24'' rc_policy rc_world = (Inr rc_report, rc_world)"
  unfolding reconcile_def rc_subnet_value option.case rc_forward_value prod.case sum.case rc_reverse_value
    rc_reverse_map rc_report_value by (rule refl)


end
