(* ===== verification/Verifier.thy ===== *)
theory Verifier
  imports ZoneProofs BlocklistMerge
begin

text \<open>
  The DNS verifier (internal/zones/verifier.go), the zone store's eyes on the DNS server, and the
  command rill-notify that uses it on its own (cmd/rill-notify/main.go).

  What the servers answer is an argument: to each attempt of a polling loop an exchange, on a given state of the
  disk.  The context of a wait is done after some attempt, which is an argument as well; a wait whose context
  is never done and that is never satisfied does not return.
\<close>

section \<open>Exchanges\<close>

record dns_answer =
  da_records :: "rr list"
  da_authoritative :: bool
  da_rcode :: nat

datatype exchange = ExFailed string | ExAnswer dns_answer

record dns_net =
  net_soa :: "string \<Rightarrow> string \<Rightarrow> nat \<Rightarrow> exchange"                    \<comment> \<open>address, name, attempt\<close>
  net_notify :: "string \<Rightarrow> string \<Rightarrow> string \<Rightarrow> string \<Rightarrow> exchange"    \<comment> \<open>address, name, key name, secret\<close>
  net_done :: "nat \<Rightarrow> bool"                                           \<comment> \<open>the context is done after this attempt\<close>
  net_reason :: string                                               \<comment> \<open>\<open>ctx.Err()\<close>\<close>
  net_rcode :: "nat \<Rightarrow> string"                                        \<comment> \<open>\<open>dns.RcodeToString\<close>\<close>

record DNSVerifier =
  vf_address :: string
  vf_notify_address :: string
  vf_tsig_name :: string
  vf_tsig_secret :: string

definition VerifySuccess :: nat where "VerifySuccess = 0"
definition VerifyNameError :: nat where "VerifyNameError = 3"

section \<open>Waiting\<close>

definition bool_name :: "bool \<Rightarrow> string" where
  "bool_name b = (if b then ''true'' else ''false'')"

text \<open>The text of the last attempt for the error message.\<close>

definition describe :: "dns_net \<Rightarrow> dns_answer \<Rightarrow> string" where
  "describe N a =
     fold (\<lambda>r t. case rdat r of SOA_d s _ \<Rightarrow> ''served serial '' @ nat_dec (unat s) | _ \<Rightarrow> t) (da_records a)
       (''rcode '' @ net_rcode N (da_rcode a) @ '', authoritative '' @ bool_name (da_authoritative a))"

definition attempt_text :: "dns_net \<Rightarrow> exchange \<Rightarrow> string" where
  "attempt_text N x = (case x of ExFailed e \<Rightarrow> e | ExAnswer a \<Rightarrow> describe N a)"

definition satisfied :: "(dns_answer \<Rightarrow> bool) \<Rightarrow> exchange \<Rightarrow> bool" where
  "satisfied accepted x = (case x of ExFailed _ \<Rightarrow> False | ExAnswer a \<Rightarrow> accepted a)"

text \<open>The loop of \<open>wait\<close> from attempt \<open>i\<close> on; the inner \<open>None\<close> is the nil error.\<close>

partial_function (option) wait_from ::
    "dns_net \<Rightarrow> (nat \<Rightarrow> exchange) \<Rightarrow> (dns_answer \<Rightarrow> bool) \<Rightarrow> string \<Rightarrow> nat \<Rightarrow> string option option" where
  "wait_from N ask accepted wanted i =
     (if satisfied accepted (ask i) then Some None
      else if net_done N i
      then Some (Some (''verification timeout waiting for '' @ wanted @ '' ('' @ attempt_text N (ask i) @ ''): '' @ net_reason N))
      else wait_from N ask accepted wanted (Suc i))"

declare wait_from.simps [code]

definition wait :: "dnslib \<Rightarrow> dns_net \<Rightarrow> DNSVerifier \<Rightarrow> string \<Rightarrow> (dns_answer \<Rightarrow> bool) \<Rightarrow> string \<Rightarrow> string option option" where
  "wait D N v zone accepted wanted = wait_from N (net_soa N (vf_address v) (fqdn D zone)) accepted wanted 0"

definition serves_serial :: "uint32 \<Rightarrow> dns_answer \<Rightarrow> bool" where
  "serves_serial serial a = list_ex (\<lambda>r. soa_serial r = Some serial) (da_records a)"

definition serves_absence :: "dns_answer \<Rightarrow> bool" where
  "serves_absence a = (da_authoritative a \<and> da_rcode a = VerifyNameError)"

definition WaitForSerial :: "dnslib \<Rightarrow> dns_net \<Rightarrow> DNSVerifier \<Rightarrow> string \<Rightarrow> uint32 \<Rightarrow> string option option" where
  "WaitForSerial D N v zone serial = wait D N v zone (serves_serial serial) (''serial '' @ nat_dec (unat serial))"

definition WaitForAbsence :: "dnslib \<Rightarrow> dns_net \<Rightarrow> DNSVerifier \<Rightarrow> string \<Rightarrow> string option option" where
  "WaitForAbsence D N v zone = wait D N v zone serves_absence ''authoritative NXDOMAIN''"

definition Notify :: "dnslib \<Rightarrow> dns_net \<Rightarrow> DNSVerifier \<Rightarrow> string \<Rightarrow> string option" where
  "Notify D N v zone =
     (if vf_notify_address v = [] then None
      else if vf_tsig_name v = [] \<or> vf_tsig_secret v = [] then Some ''NOTIFY requires a TSIG name and secret''
      else case net_notify N (vf_notify_address v) (fqdn D zone) (fqdn D (to_lower (vf_tsig_name v))) (vf_tsig_secret v) of
             ExFailed e \<Rightarrow> Some e
           | ExAnswer a \<Rightarrow>
               if da_rcode a \<noteq> VerifySuccess then Some (''NOTIFY returned '' @ net_rcode N (da_rcode a)) else None)"

section \<open>rill-notify\<close>

text \<open>\<open>strconv.ParseUint(s, 10, 32)\<close>.\<close>

definition parse_uint32_text :: "string \<Rightarrow> uint32 option" where
  "parse_uint32_text s =
     (if s \<noteq> [] \<and> all_digits s \<and> dec_value s < 2 ^ 32 then Some (of_nat (dec_value s)) else None)"

text \<open>The exit code, \<open>None\<close> if the command does not end.\<close>

definition notify_main :: "dnslib \<Rightarrow> dns_net \<Rightarrow> string \<Rightarrow> string \<Rightarrow> string list \<Rightarrow> nat option" where
  "notify_main D N dnsAddress notifyAddress args =
     (case args of
        [zone, text] \<Rightarrow>
          if notifyAddress = [] then Some 2
          else (case parse_uint32_text text of
                  None \<Rightarrow> Some 2
                | Some serial \<Rightarrow>
                    let v = \<lparr>vf_address = dnsAddress, vf_notify_address = notifyAddress, vf_tsig_name = [], vf_tsig_secret = []\<rparr>
                    in case WaitForSerial D N v zone serial of
                         None \<Rightarrow> None
                       | Some (Some e) \<Rightarrow> Some 1
                       | Some None \<Rightarrow> (case Notify D N v zone of None \<Rightarrow> Some 0 | Some e \<Rightarrow> Some 1))
      | _ \<Rightarrow> Some 2)"

section \<open>The verifier of a zone store\<close>

text \<open>
  The store waits under a context of its own that ends after a minute, so its waits return; the
  case of a wait that does not is left to an error.
\<close>

definition waited :: "string option option \<Rightarrow> string option" where
  "waited r = (case r of None \<Rightarrow> Some ''no deadline'' | Some x \<Rightarrow> x)"

definition dns_verifier :: "dnslib \<Rightarrow> (disk_t \<Rightarrow> dns_net) \<Rightarrow> DNSVerifier \<Rightarrow> verifier" where
  "dns_verifier D N v =
     \<lparr>v_serial = (\<lambda>zone serial d. waited (WaitForSerial D (N d) v zone serial)),
      v_absence = (\<lambda>zone d. waited (WaitForAbsence D (N d) v zone)),
      v_notify = (\<lambda>zone d. Notify D (N d) v zone)\<rparr>"

section \<open>The loop\<close>

lemma wait_from_runs:
  assumes "wait_from N ask accepted wanted i = Some r"
  shows "\<exists>k\<ge>i. (\<forall>j. i \<le> j \<and> j < k \<longrightarrow> \<not> net_done N j) \<and>
     (if r = None then satisfied accepted (ask k) else net_done N k \<and> \<not> satisfied accepted (ask k))"
proof (induction rule: wait_from.raw_induct [OF _ assms, of "\<lambda>N ask accepted wanted i r.
    \<exists>k\<ge>i. (\<forall>j. i \<le> j \<and> j < k \<longrightarrow> \<not> net_done N j) \<and>
      (if r = None then satisfied accepted (ask k) else net_done N k \<and> \<not> satisfied accepted (ask k))", case_names step])
  case (step loop N ask accepted wanted i r)
  show ?case
  proof (cases "satisfied accepted (ask i) \<or> net_done N i")
    case True
    then show ?thesis using step(2) by (intro exI [of _ i]) (auto split: if_splits)
  next
    case False
    then have "loop N ask accepted wanted (Suc i) = Some r" using step(2) by simp
    from step(1) [OF this] obtain k where k: "Suc i \<le> k" "\<forall>j. Suc i \<le> j \<and> j < k \<longrightarrow> \<not> net_done N j"
      "if r = None then satisfied accepted (ask k) else net_done N k \<and> \<not> satisfied accepted (ask k)" by blast
    then have "\<forall>j. i \<le> j \<and> j < k \<longrightarrow> \<not> net_done N j" using False by (metis Suc_leI le_neq_implies_less)
    then show ?thesis using k by (intro exI [of _ k]) simp
  qed
qed

lemma wait_from_returns:
  assumes "satisfied accepted (ask (i + n)) \<or> net_done N (i + n)"
  shows "\<exists>r. wait_from N ask accepted wanted i = Some r \<and>
     (satisfied accepted (ask (i + n)) \<and> (\<forall>j. i \<le> j \<and> j < i + n \<longrightarrow> \<not> net_done N j) \<longrightarrow> r = None)"
  using assms
proof (induction n arbitrary: i)
  case 0
  then show ?case by (subst wait_from.simps) auto
next
  case (Suc n)
  from Suc.prems have n: "satisfied accepted (ask (Suc i + n)) \<or> net_done N (Suc i + n)" by simp
  obtain r where r: "wait_from N ask accepted wanted (Suc i) = Some r"
    "satisfied accepted (ask (Suc i + n)) \<and> (\<forall>j. Suc i \<le> j \<and> j < Suc i + n \<longrightarrow> \<not> net_done N j) \<longrightarrow> r = None"
    using Suc.IH [OF n] by blast
  show ?case
  proof (cases "satisfied accepted (ask i)")
    case True
    then show ?thesis by (subst wait_from.simps) simp
  next
    case False
    show ?thesis
    proof (cases "net_done N i")
      case True
      then show ?thesis using False by (subst wait_from.simps) (auto intro!: exI [of _ i])
    next
      case go: False
      then have "wait_from N ask accepted wanted i = Some r" using False r(1) by (subst wait_from.simps) simp
      then show ?thesis using r(2) by (intro exI [of _ r]) simp
    qed
  qed
qed

text \<open>A wait that has a deadline returns, and it succeeds exactly if an attempt before the deadline
  was accepted.\<close>

lemma wait_from_exact:
  assumes "\<exists>k. net_done N k"
  shows "\<exists>r. wait_from N ask accepted wanted 0 = Some r \<and>
    (r = None \<longleftrightarrow> (\<exists>k. satisfied accepted (ask k) \<and> (\<forall>j<k. \<not> net_done N j)))"
proof -
  obtain m where "net_done N m" using assms by blast
  then obtain r where r: "wait_from N ask accepted wanted 0 = Some r"
    using wait_from_returns [of accepted ask 0 m N wanted] by auto
  have "r = None" if "satisfied accepted (ask k)" "\<forall>j<k. \<not> net_done N j" for k
    using wait_from_returns [of accepted ask 0 k N wanted] that r by auto
  moreover have "\<exists>k. satisfied accepted (ask k) \<and> (\<forall>j<k. \<not> net_done N j)" if "r = None"
    using wait_from_runs [OF r] that by auto
  ultimately show ?thesis using r by blast
qed

section \<open>The command cannot succeed\<close>

lemma notify_without_key: "vf_notify_address v \<noteq> [] \<Longrightarrow> vf_tsig_name v = [] \<Longrightarrow>
    Notify D N v zone = Some ''NOTIFY requires a TSIG name and secret''"
  by (simp add: Notify_def)

text \<open>
  rill-notify never reports success and never sends its NOTIFY: it builds a verifier without key, which
  the verifier refuses to notify with.  It ends with 2 for wrong arguments, and with 1 in every other case,
  the zone served or not.
\<close>

lemma rill_notify_never_succeeds: "notify_main D N dnsAddress notifyAddress args \<noteq> Some 0"
  by (auto simp: notify_main_def notify_without_key Let_def split: list.splits option.splits)

lemma rill_notify_fails_when_served:
  assumes "notifyAddress \<noteq> []" and "parse_uint32_text text = Some serial"
    and "satisfied (serves_serial serial) (net_soa N dnsAddress (fqdn D zone) 0)"
  shows "notify_main D N dnsAddress notifyAddress [zone, text] = Some 1"
proof -
  have "wait_from N (net_soa N dnsAddress (fqdn D zone)) (serves_serial serial) wanted 0 = Some None" for wanted
    using assms(3) by (subst wait_from.simps) simp
  then show ?thesis
    using assms(1,2) by (simp add: notify_main_def WaitForSerial_def wait_def notify_without_key Let_def)
qed

end
