(* ===== verification/VerifierTheorems.thy ===== *)
theory VerifierTheorems
  imports Verifier ZoneTheorems
begin

text \<open>
  The DNS verifier behind the zone store: a change that is reported as published was served.
\<close>

lemma waited_ok: "waited r = None \<longleftrightarrow> r = Some None"
  by (cases r) (auto simp: waited_def)

lemma commit_awaited:
  assumes pub: "cres_published res" and run: "commit st cur rrs changes dry to actor rid w = ((res, err), w')"
  obtains w2 where "wait_for_serial st (z_name cur) (cres_serial res) w2 = None" "cres_zone res = z_name cur"
    "flookup w2 (zone_path st (z_name cur)) = Some (Text (render (s_dns st) (z_name cur) (setSOASerial rrs (cres_serial res))))"
proof -
  have npub: "res \<noteq> no_change_result" using pub by (auto simp: no_change_result_def)
  have dry: "\<not> dry" using pub commit_dry [of st cur rrs changes to actor rid w] run by auto
  obtain serial where s: "nextSerial (z_serial cur) (s_now st) = Inr serial"
    using run npub by (cases "nextSerial (z_serial cur) (s_now st)") (auto simp: commit_def)
  let ?c = "render (s_dns st) (z_name cur) (setSOASerial rrs serial)"
  let ?res = "commit_result st cur ?c serial changes False to rid"
  obtain w1 where w1: "saveHistory st cur w = (True, w1)"
    using run npub s dry by (auto simp: commit_def Let_def split: prod.splits bool.splits)
  obtain w2 where w2: "zones_writeAtomic (zone_path st (z_name cur)) (Text ?c) w1 = (True, w2)"
    and aw: "await_publication st cur (zone_path st (z_name cur)) ?res actor w2 = ((res, err), w')"
    using run npub s w1 dry by (auto simp: commit_def Let_def split: prod.splits bool.splits)
  have "wait_for_serial st (z_name cur) (cres_serial ?res) w2 = None \<and> cres_serial res = serial \<and> cres_zone res = z_name cur"
    using aw npub by (auto simp: await_publication_def commit_result_def Let_def split: option.splits prod.splits bool.splits)
  then show thesis using that [of w2] zw.write_ok [OF w2] by (simp add: commit_result_def)
qed

text \<open>
  C18. A change is reported as published only after the server answered for the zone with the new
  serial, before the deadline and while the zone file held the published version.
\<close>

theorem published_change_was_served:
  assumes g: "good_store st" and v: "s_verifier st = Some (dns_verifier (s_dns st) N V)"
    and run: "zoneApply st n req actor rid w = ((res, err), w')" and pub: "cres_published res"
  shows "\<exists>p d content k. pathFor st n = Inr (p, cres_zone res) \<and> map_of d p = Some (Text content) \<and>
     s_sha st content = cres_revision res \<and>
     satisfied (serves_serial (cres_serial res)) (net_soa (N d) (vf_address V) (fqdn (s_dns st) (cres_zone res)) k) \<and>
     (\<forall>j<k. \<not> net_done (N d) j)"
proof -
  have law: "fqdn_law (s_dns st)" using g by (simp add: good_store_def)
  from published_apply [OF g run pub] obtain p z rrs where p: "pathFor st n = Inr (p, z)"
    and rv: "cres_revision res = s_sha st (render (s_dns st) z (setSOASerial rrs (cres_serial res)))" by blast
  show ?thesis
    using law run
  proof (cases rule: zoneApply_cases)
    case rejected
    then show ?thesis using pub by (auto simp: no_change_result_def)
  next
    case (committed cur p' w1 rrs')
    from commit_awaited [OF pub committed(10)] obtain w2
      where w2: "wait_for_serial st (z_name cur) (cres_serial res) w2 = None" "cres_zone res = z_name cur"
        "flookup w2 (zone_path st (z_name cur)) = Some (Text (render (s_dns st) (z_name cur) (setSOASerial rrs' (cres_serial res))))"
      by blast
    have dry: "\<not> cr_dry_run req"
      using pub commit_dry [of st cur rrs' "cr_changes req" "[]" actor rid w1] committed(10) by auto
    have l: "loaded st (disk w1) cur p'" using committed(2,6) by simp
    have "commit st cur rrs' (cr_changes req) False [] actor rid w1 = ((res, err), w')" using committed(10) dry by simp
    from commit_published [OF g l this pub] obtain serial where
      "cres_revision res = s_sha st (render (s_dns st) (z_name cur) (setSOASerial rrs' serial))" "cres_serial res = serial" by metis
    moreover have "zone_path st (z_name cur) = p'" using zone_path_canonical [OF law committed(7)] .
    moreover have "WaitForSerial (s_dns st) (N (disk w2)) V (z_name cur) (cres_serial res) = Some None"
      using w2(1) v by (simp add: wait_for_serial_def dns_verifier_def waited_ok)
    then obtain k where "satisfied (serves_serial (cres_serial res))
        (net_soa (N (disk w2)) (vf_address V) (fqdn (s_dns st) (z_name cur)) k)" "\<forall>j<k. \<not> net_done (N (disk w2)) j"
      using wait_from_runs unfolding WaitForSerial_def wait_def by fastforce
    ultimately show ?thesis using w2 committed(7) by (intro exI conjI) auto
  qed
qed

text \<open>A server that answers with the new serial at the second attempt.\<close>

definition served_net :: "disk_t \<Rightarrow> dns_net" where
  "served_net d =
     \<lparr>net_soa = (\<lambda>_ _ i. if i = 0 then ExFailed ''timeout''
         else ExAnswer \<lparr>da_records = [\<lparr>rname = ''a.'', rrtype = 6, rclass = 1, rttl = 0, rdat = SOA_d 2023111400 []\<rparr>],
                        da_authoritative = True, da_rcode = 0\<rparr>),
      net_notify = (\<lambda>_ _ _ _. ExFailed ''timeout''), net_done = (\<lambda>i. i = 5), net_reason = ''deadline'', net_rcode = nat_dec\<rparr>"

definition served_verifier :: DNSVerifier where
  "served_verifier = \<lparr>vf_address = ''s'', vf_notify_address = [], vf_tsig_name = [], vf_tsig_secret = []\<rparr>"

definition served_store :: store where
  "served_store = demo_store\<lparr>s_verifier := Some (dns_verifier tiny_dns served_net served_verifier)\<rparr>"

lemma served_published: "cres_published (fst (fst (zoneApply served_store ''a'' demo_req ''me'' ''r1'' demo_world)))"
  by code_simp

lemma served_serial: "cres_serial (fst (fst (zoneApply served_store ''a'' demo_req ''me'' ''r1'' demo_world))) = 2023111400"
  by code_simp

lemma served_zone: "cres_zone (fst (fst (zoneApply served_store ''a'' demo_req ''me'' ''r1'' demo_world))) = ''a.''"
  by code_simp

lemma served_fields:
  "pathFor served_store ''a'' = Inr (''/z/a.zone'', ''a.'')" "fqdn (s_dns served_store) ''a.'' = ''a.''"
  "vf_address served_verifier = ''s''"
  by code_simp+

lemma served_good: "good_store served_store" "s_verifier served_store = Some (dns_verifier (s_dns served_store) served_net served_verifier)"
  using demo_good by (simp_all add: served_store_def good_store_def store_layout_def hist_dir_def roles_path_def sha_law_def)

theorem published_change_was_served_witness:
  "\<exists>d k. map_of d ''/z/a.zone'' \<noteq> None \<and> satisfied (serves_serial 2023111400) (net_soa (served_net d) ''s'' ''a.'' k)"
proof -
  obtain res err w' where run: "zoneApply served_store ''a'' demo_req ''me'' ''r1'' demo_world = ((res, err), w')"
    by (metis prod.collapse)
  have pub: "cres_published res" using served_published run by simp
  have r: "cres_serial res = 2023111400" "cres_zone res = ''a.''"
    using served_serial served_zone unfolding run fst_conv by auto
  obtain p d content k where "pathFor served_store ''a'' = Inr (p, ''a.'')" "map_of d p = Some (Text content)"
    "satisfied (serves_serial 2023111400) (net_soa (served_net d) ''s'' ''a.'' k)"
    using published_change_was_served [OF served_good run pub] unfolding r served_fields by blast
  then show ?thesis unfolding served_fields by (intro exI [of _ d] exI [of _ k]) auto
qed

end
