(* ===== verification/ControlClient.thy ===== *)
theory ControlClient
  imports ApiServer
begin

text \<open>
  The client of the control API (internal/controlclient/client.go), the library under the MCP server.

  A call is what \<open>requestWithHeaders\<close> hands to \<open>net/http\<close>, its body before it is printed as JSON and
  its query as decoded pairs; the transport is an argument: it takes a call and the state of whatever is behind it to a
  response, with the body as bytes and, if they are JSON, as a value.  Redirects are not followed, so they come
  back as responses.
\<close>

section \<open>Calls and responses\<close>

record http_call =
  hc_base :: string
  hc_method :: string
  hc_path :: string
  hc_query :: "(string \<times> string) list"
  hc_body :: "jvalue option"
  hc_actor :: "string option"

record http_response =
  hr_status :: nat
  hr_text :: string
  hr_data :: bytes
  hr_json :: "jvalue option"
  hr_close :: "string option"       \<comment> \<open>the error of closing the body\<close>

datatype call_answer =
    NoAnswer string                 \<comment> \<open>\<open>Do\<close> fails\<close>
  | BrokenBody string               \<comment> \<open>reading the body fails\<close>
  | Answer http_response

type_synonym 'e transport = "http_call \<Rightarrow> 'e \<Rightarrow> call_answer \<times> 'e"

definition maxResponseBytes :: nat where "maxResponseBytes = 8388608"

section \<open>Path segments\<close>

text \<open>\<open>url.PathEscape\<close>: \<open>shouldEscape\<close> in the mode of a path segment.\<close>

definition path_plain :: "char \<Rightarrow> bool" where
  "path_plain c = (is_digit c \<or> (65 \<le> (of_char c :: nat) \<and> (of_char c :: nat) \<le> 90) \<or>
     (97 \<le> (of_char c :: nat) \<and> (of_char c :: nat) \<le> 122) \<or> c \<in> set ''-_.~$&+:=@'')"

definition hex_digit :: "nat \<Rightarrow> char" where
  "hex_digit n = (if n < 10 then char_of (48 + n) else char_of (55 + n))"

definition escape_char :: "char \<Rightarrow> string" where
  "escape_char c = (if path_plain c then [c] else [CHR ''%'', hex_digit (of_char c div 16), hex_digit (of_char c mod 16)])"

definition path_escape :: "string \<Rightarrow> string" where
  "path_escape s = concat (map escape_char s)"

section \<open>Requests\<close>

definition error_message :: "jvalue \<Rightarrow> string option" where
  "error_message j = Option.bind (get_field j ''error'') (\<lambda>e. f_str e ''message'')"

definition response_error :: "http_response \<Rightarrow> string" where
  "response_error r =
     ''RillDNS API returned '' @ hr_text r @ '': '' @
     (case Option.bind (hr_json r) error_message of
        Some m \<Rightarrow> if m \<noteq> [] then m else trim_space (hr_data r)
      | None \<Rightarrow> trim_space (hr_data r))"

definition read_response :: "(jvalue \<Rightarrow> 'a option) \<Rightarrow> http_response \<Rightarrow> string + 'a" where
  "read_response dec r =
     (if maxResponseBytes < length (hr_data r) then Inl ''RillDNS API response exceeds 8388608 bytes''
      else if hr_status r < 200 \<or> 300 \<le> hr_status r then Inl (response_error r)
      else case Option.bind (hr_json r) dec of
             None \<Rightarrow> Inl ''decode RillDNS API response''
           | Some x \<Rightarrow> Inr x)"

text \<open>\<open>closeWithError\<close> joins the errors.\<close>

definition close_response :: "string option \<Rightarrow> string + 'a \<Rightarrow> string + 'a" where
  "close_response e r =
     (case e of
        None \<Rightarrow> r
      | Some m \<Rightarrow> Inl ((case r of Inl m0 \<Rightarrow> m0 @ [CHR 0x0A] | Inr _ \<Rightarrow> []) @ ''close response body: '' @ m))"

definition requestWithHeaders :: "'e transport \<Rightarrow> (jvalue \<Rightarrow> 'a option) \<Rightarrow> http_call \<Rightarrow> 'e \<Rightarrow> (string + 'a) \<times> 'e" where
  "requestWithHeaders T dec call e =
     (case T call e of
        (NoAnswer m, e1) \<Rightarrow> (Inl (''RillDNS API request failed: '' @ m), e1)
      | (BrokenBody m, e1) \<Rightarrow> (Inl m, e1)
      | (Answer r, e1) \<Rightarrow> (close_response (hr_close r) (read_response dec r), e1))"

definition get_call :: "string \<Rightarrow> string \<Rightarrow> http_call" where
  "get_call base p = \<lparr>hc_base = base, hc_method = ''GET'', hc_path = p, hc_query = [], hc_body = None, hc_actor = None\<rparr>"

definition send_call :: "string \<Rightarrow> string \<Rightarrow> string \<Rightarrow> jvalue \<Rightarrow> string \<Rightarrow> http_call" where
  "send_call base meth p body actor =
     \<lparr>hc_base = base, hc_method = meth, hc_path = p, hc_query = [], hc_body = Some body, hc_actor = Some actor\<rparr>"

text \<open>\<open>New\<close>: the base URL.\<close>

definition new_client :: "url_parser \<Rightarrow> string \<Rightarrow> string + string" where
  "new_client U baseURL =
     (case U (rev (dropWhile (\<lambda>c. c = CHR ''/'') (rev baseURL))) of
        None \<Rightarrow> Inl (''invalid API URL '' @ baseURL)
      | Some u \<Rightarrow>
          if url_scheme u = [] \<or> url_host u = [] then Inl (''invalid API URL '' @ baseURL)
          else if url_scheme u \<noteq> ''http'' \<and> url_scheme u \<noteq> ''https'' then Inl (''unsupported API URL scheme '' @ url_scheme u)
          else Inr (url_string u))"

definition zone_url :: "string \<Rightarrow> string" where
  "zone_url zone = ''/v1/zones/'' @ path_escape (trim_suffix zone ''.'')"

definition cf_zone_url :: "string \<Rightarrow> string" where
  "cf_zone_url zone = ''/v1/providers/cloudflare/zones/'' @ path_escape (trim_suffix zone ''.'')"

section \<open>Request bodies\<close>

definition enc_ChangeRequest :: "ChangeRequest \<Rightarrow> jvalue" where
  "enc_ChangeRequest r =
     JObj [(''expected_revision'', JStr (cr_expected r)), (''dry_run'', JBool (cr_dry_run r)),
           (''changes'', JArr (map enc_change (cr_changes r)))]"

definition enc_RollbackRequest :: "RollbackRequest \<Rightarrow> jvalue" where
  "enc_RollbackRequest r =
     JObj [(''expected_revision'', JStr (rb_expected r)), (''target_revision'', JStr (rb_target r)), (''dry_run'', JBool (rb_dry_run r))]"

definition opt_text :: "string \<Rightarrow> string \<Rightarrow> (string \<times> jvalue) list" where
  "opt_text k s = (if s = [] then [] else [(k, JStr s)])"

definition enc_LifecycleRequest :: "LifecycleRequest \<Rightarrow> jvalue" where
  "enc_LifecycleRequest r =
     JObj (opt_text ''role'' (lr_role r) @ opt_text ''zone_text'' (lr_zone_text r) @ opt_text ''expected_revision'' (lr_expected r) @
           [(''dry_run'', JBool (lr_dry_run r))])"

definition enc_blRequest :: "blRequest \<Rightarrow> jvalue" where
  "enc_blRequest r =
     JObj [(''sources'', JArr (map JStr (br_sources r))), (''allow'', JArr (map JStr (br_allow r))),
           (''deny'', JArr (map JStr (br_deny r))), (''expected_revision'', JStr (br_expected r)),
           (''dry_run'', JBool (br_dry_run r))]"

definition enc_PlanRequest :: "string \<Rightarrow> cfChange list \<Rightarrow> jvalue" where
  "enc_PlanRequest expected changes =
     JObj [(''expected_revision'', JStr expected), (''changes'', JArr (map enc_cfchange changes))]"

definition enc_ApplyRequest :: "ApplyRequest \<Rightarrow> jvalue" where
  "enc_ApplyRequest r =
     JObj [(''expected_revision'', JStr (ar_expected r)), (''changes'', JArr (map enc_cfchange (ar_changes r))),
           (''confirm'', JBool (ar_confirm r))]"

section \<open>Response bodies\<close>

definition f_list :: "(jvalue \<Rightarrow> 'a option) \<Rightarrow> jvalue \<Rightarrow> string \<Rightarrow> 'a list option" where
  "f_list dec j k = Option.bind (get_field j k) (as_list dec)"

definition f_int :: "jvalue \<Rightarrow> string \<Rightarrow> int option" where
  "f_int j k = Option.bind (get_field j k) as_int64"

definition f_time :: "jvalue \<Rightarrow> string \<Rightarrow> gotime option" where
  "f_time j k = Option.bind (get_field j k) as_time"

definition read_RRset :: "jvalue \<Rightarrow> RRset option" where
  "read_RRset j =
     do { name \<leftarrow> f_str j ''name''; ty \<leftarrow> f_str j ''type''; ttl \<leftarrow> f_uint32 j ''ttl''; records \<leftarrow> f_strs j ''records'';
          Some \<lparr>rs_name = name, rs_type = ty, rs_ttl = ttl, rs_records = records\<rparr> }"

definition read_Zone :: "jvalue \<Rightarrow> Zone option" where
  "read_Zone j =
     do { name \<leftarrow> f_str j ''name''; role \<leftarrow> f_str j ''role''; serial \<leftarrow> f_uint32 j ''serial''; rv \<leftarrow> f_str j ''revision'';
          sets \<leftarrow> f_list read_RRset j ''rrsets'';
          Some \<lparr>z_name = name, z_role = role, z_serial = serial, z_revision = rv, z_rrsets = sets, z_rrs = [], z_content = []\<rparr> }"

definition read_zones :: "jvalue \<Rightarrow> Zone list option" where
  "read_zones j = f_list read_Zone j ''zones''"

definition read_Change :: "jvalue \<Rightarrow> Change option" where
  "read_Change j =
     do { action \<leftarrow> f_str j ''action''; name \<leftarrow> f_str j ''name''; ty \<leftarrow> f_str j ''type''; ttl \<leftarrow> f_uint32 j ''ttl'';
          records \<leftarrow> f_strs j ''records'';
          Some \<lparr>ch_action = action, ch_name = name, ch_type = ty, ch_ttl = ttl, ch_records = records\<rparr> }"

definition read_ChangeResult :: "jvalue \<Rightarrow> ChangeResult option" where
  "read_ChangeResult j =
     do { zone \<leftarrow> f_str j ''zone''; to \<leftarrow> f_str j ''rollback_to''; dry \<leftarrow> f_bool j ''dry_run''; prev \<leftarrow> f_str j ''previous_revision'';
          rv \<leftarrow> f_str j ''revision''; pserial \<leftarrow> f_uint32 j ''previous_serial''; serial \<leftarrow> f_uint32 j ''serial'';
          changes \<leftarrow> f_list read_Change j ''changes''; published \<leftarrow> f_bool j ''published''; rid \<leftarrow> f_str j ''request_id'';
          warning \<leftarrow> f_str j ''warning'';
          Some \<lparr>cres_zone = zone, cres_rollback_to = to, cres_dry_run = dry, cres_previous_revision = prev, cres_revision = rv,
            cres_previous_serial = pserial, cres_serial = serial, cres_changes = changes, cres_published = published,
            cres_request_id = rid, cres_warning = warning\<rparr> }"

definition read_LifecycleResult :: "jvalue \<Rightarrow> LifecycleResult option" where
  "read_LifecycleResult j =
     do { action \<leftarrow> f_str j ''action''; zone \<leftarrow> f_str j ''zone''; role \<leftarrow> f_str j ''role''; rv \<leftarrow> f_str j ''revision'';
          serial \<leftarrow> f_uint32 j ''serial''; dry \<leftarrow> f_bool j ''dry_run''; published \<leftarrow> f_bool j ''published'';
          rid \<leftarrow> f_str j ''request_id''; warning \<leftarrow> f_str j ''warning'';
          Some \<lparr>lres_action = action, lres_zone = zone, lres_role = role, lres_revision = rv, lres_serial = serial,
            lres_dry_run = dry, lres_published = published, lres_request_id = rid, lres_warning = warning\<rparr> }"

record ZoneRevisions =
  vr_zone :: string
  vr_current_revision :: string
  vr_current_serial :: uint32
  vr_revisions :: "Revision list"

definition read_Revision :: "jvalue \<Rightarrow> Revision option" where
  "read_Revision j =
     do { rv \<leftarrow> f_str j ''revision''; serial \<leftarrow> f_uint32 j ''serial''; records \<leftarrow> f_int j ''records''; at \<leftarrow> f_time j ''saved_at'';
          Some \<lparr>rev_revision = rv, rev_serial = serial, rev_records = nat records, rev_saved_at = at\<rparr> }"

definition read_ZoneRevisions :: "jvalue \<Rightarrow> ZoneRevisions option" where
  "read_ZoneRevisions j =
     do { zone \<leftarrow> f_str j ''zone''; rv \<leftarrow> f_str j ''current_revision''; serial \<leftarrow> f_uint32 j ''current_serial'';
          rs \<leftarrow> f_list read_Revision j ''revisions'';
          Some \<lparr>vr_zone = zone, vr_current_revision = rv, vr_current_serial = serial, vr_revisions = rs\<rparr> }"

definition read_blConfig :: "jvalue \<Rightarrow> blConfig option" where
  "read_blConfig j =
     do { sources \<leftarrow> f_strs j ''sources''; allow \<leftarrow> f_strs j ''allow''; deny \<leftarrow> f_strs j ''deny''; rv \<leftarrow> f_str j ''revision'';
          Some \<lparr>bl_sources = sources, bl_allow = allow, bl_deny = deny, bl_revision = rv\<rparr> }"

definition read_blResult :: "jvalue \<Rightarrow> blResult option" where
  "read_blResult j =
     do { config \<leftarrow> Option.bind (get_field j ''config'') read_blConfig; prev \<leftarrow> f_str j ''previous_revision'';
          dry \<leftarrow> f_bool j ''dry_run''; published \<leftarrow> f_bool j ''published''; rid \<leftarrow> f_str j ''request_id'';
          Some \<lparr>bs_config = config, bs_previous = prev, bs_dry_run = dry, bs_published = published, bs_request_id = rid\<rparr> }"

definition read_RefreshRequest :: "jvalue \<Rightarrow> RefreshRequest option" where
  "read_RefreshRequest j =
     do { at \<leftarrow> f_time j ''requested_at''; actor \<leftarrow> f_str j ''actor''; rid \<leftarrow> f_str j ''request_id'';
          Some \<lparr>rq_requested_at = at, rq_actor = actor, rq_request_id = rid\<rparr> }"

definition read_report :: "jvalue \<Rightarrow> rsReport option" where
  "read_report j =
     do { healthy \<leftarrow> f_bool j ''healthy''; reason \<leftarrow> f_str j ''reason''; zones \<leftarrow> Option.bind (get_field j ''zones'') dec_rsstatus;
          lists \<leftarrow> Option.bind (get_field j ''blocklists'') dec_rsstatus;
          diff \<leftarrow> Option.bind (get_field j ''differential'') dec_rsstatus;
          Some \<lparr>rp_healthy = healthy, rp_reason = reason, rp_zones = zones, rp_blocklists = lists, rp_differential = diff\<rparr> }"

record AuditEvents =
  ae_events :: "(string \<times> jvalue) list list"
  ae_skipped :: int

definition as_object :: "jvalue \<Rightarrow> (string \<times> jvalue) list option" where
  "as_object j = (case j of JObj fs \<Rightarrow> Some fs | JNull \<Rightarrow> Some [] | _ \<Rightarrow> None)"

definition read_audit :: "jvalue \<Rightarrow> AuditEvents option" where
  "read_audit j =
     do { events \<leftarrow> f_list as_object j ''events''; skipped \<leftarrow> f_int j ''skipped_lines'';
          Some \<lparr>ae_events = events, ae_skipped = skipped\<rparr> }"

record CloudflareZone =
  cn_name :: string
  cn_backend :: string

definition read_CloudflareZone :: "jvalue \<Rightarrow> CloudflareZone option" where
  "read_CloudflareZone j =
     do { name \<leftarrow> f_str j ''name''; backend \<leftarrow> f_str j ''backend''; Some \<lparr>cn_name = name, cn_backend = backend\<rparr> }"

definition read_ZoneRecords :: "jvalue \<Rightarrow> ZoneRecords option" where
  "read_ZoneRecords j =
     do { zone \<leftarrow> f_str j ''zone''; rv \<leftarrow> f_str j ''revision''; records \<leftarrow> f_list dec_record j ''records'';
          Some \<lparr>zr_zoneid = [], zr_zone = zone, zr_revision = rv, zr_records = records\<rparr> }"

definition read_ProviderOptions :: "jvalue \<Rightarrow> ProviderOptions option" where
  "read_ProviderOptions j =
     do { proxied \<leftarrow> f_opt as_bool j ''proxied''; comment \<leftarrow> f_opt as_str j ''comment''; tags \<leftarrow> f_opt (as_list as_str) j ''tags'';
          Some \<lparr>po_proxied = proxied, po_comment = comment, po_tags = tags\<rparr> }"

definition read_cfChange :: "jvalue \<Rightarrow> cfChange option" where
  "read_cfChange j =
     do { action \<leftarrow> f_str j ''action''; name \<leftarrow> f_str j ''name''; ty \<leftarrow> f_str j ''type''; ttl \<leftarrow> f_uint32 j ''ttl'';
          records \<leftarrow> f_strs j ''records''; provider \<leftarrow> Option.bind (get_field j ''provider'') read_ProviderOptions;
          Some \<lparr>fc_action = action, fc_name = name, fc_type = ty, fc_ttl = ttl, fc_records = records, fc_provider = provider\<rparr> }"

definition read_ApplyResult :: "jvalue \<Rightarrow> ApplyResult option" where
  "read_ApplyResult j =
     do { zone \<leftarrow> f_str j ''zone''; prev \<leftarrow> f_str j ''previous_revision''; rv \<leftarrow> f_str j ''revision'';
          changes \<leftarrow> f_list read_cfChange j ''changes''; accepted \<leftarrow> f_bool j ''accepted''; api \<leftarrow> f_bool j ''api_verified'';
          dns \<leftarrow> f_bool j ''dns_verified''; back \<leftarrow> f_bool j ''rolled_back''; rid \<leftarrow> f_str j ''request_id''; warning \<leftarrow> f_str j ''warning'';
          Some \<lparr>at_zone = zone, at_previous = prev, at_revision = rv, at_changes = changes, at_accepted = accepted,
            at_api_verified = api, at_dns_verified = dns, at_rolled_back = back, at_request_id = rid, at_warning = warning\<rparr> }"

definition read_DeleteOperation :: "jvalue \<Rightarrow> DeleteOperation option" where
  "read_DeleteOperation j =
     do { i \<leftarrow> f_str j ''id''; name \<leftarrow> f_str j ''name''; ty \<leftarrow> f_str j ''type''; content \<leftarrow> f_str j ''content'';
          Some \<lparr>do_id = i, do_name = name, do_type = ty, do_content = content\<rparr> }"

definition as_uint16 :: "jvalue \<Rightarrow> nat option" where
  "as_uint16 j = as_uint 16 j"

text \<open>\<open>Data\<close> is a map of any values: an object or null.\<close>

definition as_data :: "jvalue \<Rightarrow> jvalue option option" where
  "as_data j = (case j of JObj fs \<Rightarrow> Some (Some (JObj fs)) | JNull \<Rightarrow> Some None | _ \<Rightarrow> None)"

definition read_CreateOperation :: "jvalue \<Rightarrow> CreateOperation option" where
  "read_CreateOperation j =
     do { name \<leftarrow> f_str j ''name''; ty \<leftarrow> f_str j ''type''; content \<leftarrow> f_str j ''content''; ttl \<leftarrow> f_uint32 j ''ttl'';
          proxied \<leftarrow> f_opt as_bool j ''proxied''; priority \<leftarrow> f_opt as_uint16 j ''priority''; comment \<leftarrow> f_str j ''comment'';
          tags \<leftarrow> f_opt (as_list as_str) j ''tags''; content_data \<leftarrow> Option.bind (get_field j ''data'') as_data;
          Some \<lparr>co_name = name, co_type = ty, co_content = content, co_ttl = ttl, co_proxied = proxied, co_priority = priority,
            co_comment = comment, co_tags = tags, co_data = content_data\<rparr> }"

definition read_PatchOperation :: "jvalue \<Rightarrow> PatchOperation option" where
  "read_PatchOperation j = do { i \<leftarrow> f_str j ''id''; c \<leftarrow> read_CreateOperation j; Some (i, c) }"

definition read_Plan :: "jvalue \<Rightarrow> Plan option" where
  "read_Plan j =
     do { zone \<leftarrow> f_str j ''zone''; dry \<leftarrow> f_bool j ''dry_run''; prev \<leftarrow> f_str j ''previous_revision'';
          changes \<leftarrow> f_list read_cfChange j ''changes''; deletes \<leftarrow> f_list read_DeleteOperation j ''deletes'';
          patches \<leftarrow> f_list read_PatchOperation j ''patches''; creates \<leftarrow> f_list read_CreateOperation j ''creates'';
          expected \<leftarrow> f_list read_CreateOperation j ''expected'';
          Some \<lparr>pl_zone = zone, pl_dry_run = dry, pl_previous = prev, pl_changes = changes, pl_deletes = deletes,
            pl_patches = patches, pl_creates = creates, pl_expected = expected\<rparr> }"

section \<open>The operations\<close>

definition cc_GetBlocklistConfig :: "'e transport \<Rightarrow> string \<Rightarrow> 'e \<Rightarrow> (string + blConfig) \<times> 'e" where
  "cc_GetBlocklistConfig T base = requestWithHeaders T read_blConfig (get_call base ''/v1/blocklists/config'')"

definition cc_UpdateBlocklistConfig :: "'e transport \<Rightarrow> string \<Rightarrow> blRequest \<Rightarrow> string \<Rightarrow> 'e \<Rightarrow> (string + blResult) \<times> 'e" where
  "cc_UpdateBlocklistConfig T base req actor =
     requestWithHeaders T read_blResult (send_call base ''PUT'' ''/v1/blocklists/config'' (enc_blRequest req) actor)"

definition cc_RefreshBlocklists :: "'e transport \<Rightarrow> string \<Rightarrow> string \<Rightarrow> 'e \<Rightarrow> (string + RefreshRequest) \<times> 'e" where
  "cc_RefreshBlocklists T base actor =
     requestWithHeaders T read_RefreshRequest (send_call base ''POST'' ''/v1/blocklists/refresh'' (JObj []) actor)"

record AuditQuery =
  aq_zone :: string
  aq_provider :: string
  aq_actor :: string
  aq_limit :: int

text \<open>\<open>values.Encode\<close> sorts the parameters by name.\<close>

definition audit_query :: "AuditQuery \<Rightarrow> (string \<times> string) list" where
  "audit_query q =
     (if aq_actor q = [] then [] else [(''actor'', aq_actor q)]) @
     (if 0 < aq_limit q then [(''limit'', nat_dec (nat (aq_limit q)))] else []) @
     (if aq_provider q = [] then [] else [(''provider'', aq_provider q)]) @
     (if aq_zone q = [] then [] else [(''zone'', aq_zone q)])"

definition cc_ListAudit :: "'e transport \<Rightarrow> string \<Rightarrow> AuditQuery \<Rightarrow> 'e \<Rightarrow> (string + AuditEvents) \<times> 'e" where
  "cc_ListAudit T base q = requestWithHeaders T read_audit ((get_call base ''/v1/audit'')\<lparr>hc_query := audit_query q\<rparr>)"

definition cc_RefreshStatus :: "'e transport \<Rightarrow> string \<Rightarrow> 'e \<Rightarrow> (string + rsReport) \<times> 'e" where
  "cc_RefreshStatus T base = requestWithHeaders T read_report (get_call base ''/v1/status/refresh'')"

definition cc_ListZones :: "'e transport \<Rightarrow> string \<Rightarrow> 'e \<Rightarrow> (string + Zone list) \<times> 'e" where
  "cc_ListZones T base = requestWithHeaders T read_zones (get_call base ''/v1/zones'')"

definition cc_ListCloudflareZones :: "'e transport \<Rightarrow> string \<Rightarrow> 'e \<Rightarrow> (string + CloudflareZone list) \<times> 'e" where
  "cc_ListCloudflareZones T base =
     requestWithHeaders T (\<lambda>j. f_list read_CloudflareZone j ''zones'') (get_call base ''/v1/providers/cloudflare/zones'')"

definition cc_GetCloudflareRecords :: "'e transport \<Rightarrow> string \<Rightarrow> string \<Rightarrow> 'e \<Rightarrow> (string + ZoneRecords) \<times> 'e" where
  "cc_GetCloudflareRecords T base zone = requestWithHeaders T read_ZoneRecords (get_call base (cf_zone_url zone @ ''/records''))"

text \<open>Planning posts a body but sets no actor.\<close>

definition cc_PlanCloudflareChanges :: "'e transport \<Rightarrow> string \<Rightarrow> string \<Rightarrow> string \<Rightarrow> cfChange list \<Rightarrow> 'e \<Rightarrow> (string + Plan) \<times> 'e" where
  "cc_PlanCloudflareChanges T base zone expected changes =
     requestWithHeaders T read_Plan
       ((send_call base ''POST'' (cf_zone_url zone @ ''/plans'') (enc_PlanRequest expected changes) [])\<lparr>hc_actor := None\<rparr>)"

definition cc_ApplyCloudflareChanges :: "'e transport \<Rightarrow> string \<Rightarrow> string \<Rightarrow> ApplyRequest \<Rightarrow> string \<Rightarrow> 'e \<Rightarrow> (string + ApplyResult) \<times> 'e" where
  "cc_ApplyCloudflareChanges T base zone req actor =
     requestWithHeaders T read_ApplyResult (send_call base ''POST'' (cf_zone_url zone @ ''/changes'') (enc_ApplyRequest req) actor)"

definition cc_GetZone :: "'e transport \<Rightarrow> string \<Rightarrow> string \<Rightarrow> 'e \<Rightarrow> (string + Zone) \<times> 'e" where
  "cc_GetZone T base zone = requestWithHeaders T read_Zone (get_call base (zone_url zone @ ''/rrsets''))"

definition cc_Apply :: "'e transport \<Rightarrow> string \<Rightarrow> string \<Rightarrow> ChangeRequest \<Rightarrow> string \<Rightarrow> 'e \<Rightarrow> (string + ChangeResult) \<times> 'e" where
  "cc_Apply T base zone req actor =
     requestWithHeaders T read_ChangeResult (send_call base ''POST'' (zone_url zone @ ''/changes'') (enc_ChangeRequest req) actor)"

definition cc_ListRevisions :: "'e transport \<Rightarrow> string \<Rightarrow> string \<Rightarrow> 'e \<Rightarrow> (string + ZoneRevisions) \<times> 'e" where
  "cc_ListRevisions T base zone = requestWithHeaders T read_ZoneRevisions (get_call base (zone_url zone @ ''/revisions''))"

definition cc_Rollback :: "'e transport \<Rightarrow> string \<Rightarrow> string \<Rightarrow> RollbackRequest \<Rightarrow> string \<Rightarrow> 'e \<Rightarrow> (string + ChangeResult) \<times> 'e" where
  "cc_Rollback T base zone req actor =
     requestWithHeaders T read_ChangeResult (send_call base ''POST'' (zone_url zone @ ''/rollback'') (enc_RollbackRequest req) actor)"

definition cc_CreateZone :: "'e transport \<Rightarrow> string \<Rightarrow> string \<Rightarrow> LifecycleRequest \<Rightarrow> string \<Rightarrow> 'e \<Rightarrow> (string + LifecycleResult) \<times> 'e" where
  "cc_CreateZone T base zone req actor =
     requestWithHeaders T read_LifecycleResult (send_call base ''PUT'' (zone_url zone) (enc_LifecycleRequest req) actor)"

definition cc_DeleteZone :: "'e transport \<Rightarrow> string \<Rightarrow> string \<Rightarrow> LifecycleRequest \<Rightarrow> string \<Rightarrow> 'e \<Rightarrow> (string + LifecycleResult) \<times> 'e" where
  "cc_DeleteZone T base zone req actor =
     requestWithHeaders T read_LifecycleResult (send_call base ''DELETE'' (zone_url zone) (enc_LifecycleRequest req) actor)"

end
