(* ===== verification/McpServer.thy ===== *)
theory McpServer
  imports ControlClient Verifier
begin

text \<open>
  The tools of the MCP server (internal/mcpserver/server.go): each checks its input and makes one call of the
  control client, or one DNS query.  The descriptions of the tools and the protocol are the SDK's business.
\<close>

section \<open>The hosted endpoint\<close>

text \<open>\<open>Hosted\<close> runs the handler only for the configured bearer token; an empty one admits nobody.\<close>

definition hosted :: "string \<Rightarrow> ('r \<Rightarrow> string) \<Rightarrow> 'y \<Rightarrow> ('r \<Rightarrow> 's \<Rightarrow> 'y \<times> 's) \<Rightarrow> 'r \<Rightarrow> 's \<Rightarrow> 'y \<times> 's" where
  "hosted token authorization unauthorized handler r s =
     (let expected = ''Bearer '' @ token; provided = authorization r
      in if length expected = length ''Bearer '' \<or> length provided \<noteq> length expected \<or> provided \<noteq> expected
         then (unauthorized, s) else handler r s)"

section \<open>Tools\<close>

record mcp_server =
  ms_base :: string
  ms_dns_address :: string
  ms_dns :: dnslib
  ms_query :: "string \<Rightarrow> string \<Rightarrow> nat \<Rightarrow> exchange"   \<comment> \<open>server, name and type\<close>
  ms_rcode :: "nat \<Rightarrow> string"

definition blank :: "string \<Rightarrow> bool" where
  "blank s = (trim_space s = [])"

definition mcp_updateBlocklistConfig ::
    "mcp_server \<Rightarrow> 'e transport \<Rightarrow> string list \<Rightarrow> string list \<Rightarrow> string list \<Rightarrow> string \<Rightarrow> bool \<Rightarrow> 'e \<Rightarrow> (string + blResult) \<times> 'e" where
  "mcp_updateBlocklistConfig M T sources allow deny expected confirm e =
     (if blank expected then (Inl ''expected_revision is required'', e)
      else cc_UpdateBlocklistConfig T (ms_base M)
             \<lparr>br_sources = sources, br_allow = allow, br_deny = deny, br_expected = expected, br_dry_run = \<not> confirm\<rparr>
             ''mcp:blocklist-config'' e)"

definition mcp_refreshBlocklists :: "mcp_server \<Rightarrow> 'e transport \<Rightarrow> 'e \<Rightarrow> (string + RefreshRequest) \<times> 'e" where
  "mcp_refreshBlocklists M T = cc_RefreshBlocklists T (ms_base M) ''mcp:blocklist-refresh''"

definition mcp_createZone :: "mcp_server \<Rightarrow> 'e transport \<Rightarrow> string \<Rightarrow> string \<Rightarrow> string \<Rightarrow> bool \<Rightarrow> 'e \<Rightarrow> (string + LifecycleResult) \<times> 'e" where
  "mcp_createZone M T zone role text confirm e =
     (if blank zone \<or> blank text then (Inl ''zone and zone_text are required'', e)
      else cc_CreateZone T (ms_base M) zone
             \<lparr>lr_role = role, lr_zone_text = text, lr_expected = [], lr_dry_run = \<not> confirm\<rparr> ''mcp:create-zone'' e)"

definition mcp_deleteZone :: "mcp_server \<Rightarrow> 'e transport \<Rightarrow> string \<Rightarrow> string \<Rightarrow> bool \<Rightarrow> 'e \<Rightarrow> (string + LifecycleResult) \<times> 'e" where
  "mcp_deleteZone M T zone expected confirm e =
     (if blank zone \<or> blank expected then (Inl ''zone and expected_revision are required'', e)
      else cc_DeleteZone T (ms_base M) zone
             \<lparr>lr_role = [], lr_zone_text = [], lr_expected = expected, lr_dry_run = \<not> confirm\<rparr> ''mcp:delete-zone'' e)"

definition mcp_listCloudflareRecords :: "mcp_server \<Rightarrow> 'e transport \<Rightarrow> string \<Rightarrow> 'e \<Rightarrow> (string + ZoneRecords) \<times> 'e" where
  "mcp_listCloudflareRecords M T zone e =
     (if blank zone then (Inl ''zone is required'', e) else cc_GetCloudflareRecords T (ms_base M) zone e)"

definition mcp_planCloudflareChanges ::
    "mcp_server \<Rightarrow> 'e transport \<Rightarrow> string \<Rightarrow> string \<Rightarrow> cfChange list \<Rightarrow> 'e \<Rightarrow> (string + Plan) \<times> 'e" where
  "mcp_planCloudflareChanges M T zone expected changes e =
     (if blank zone then (Inl ''zone is required'', e)
      else if blank expected then (Inl ''expected_revision is required'', e)
      else if changes = [] then (Inl ''at least one change is required'', e)
      else if 100 < length changes then (Inl ''a single MCP call is limited to 100 RRset changes'', e)
      else cc_PlanCloudflareChanges T (ms_base M) zone expected changes e)"

definition mcp_applyCloudflareChanges ::
    "mcp_server \<Rightarrow> 'e transport \<Rightarrow> string \<Rightarrow> string \<Rightarrow> cfChange list \<Rightarrow> bool \<Rightarrow> 'e \<Rightarrow> (string + ApplyResult) \<times> 'e" where
  "mcp_applyCloudflareChanges M T zone expected changes confirm e =
     (if \<not> confirm then (Inl ''confirm must be true to commit Cloudflare DNS changes; use dns_cloudflare_plan_changes first'', e)
      else if blank zone \<or> blank expected then (Inl ''zone and expected_revision are required'', e)
      else if changes = [] \<or> 100 < length changes then (Inl ''between 1 and 100 RRset changes are required'', e)
      else cc_ApplyCloudflareChanges T (ms_base M) zone
             \<lparr>ar_expected = expected, ar_changes = changes, ar_confirm = True, ar_actor = [], ar_request_id = []\<rparr> ''mcp:cloudflare-apply'' e)"

definition mcp_listRecords :: "mcp_server \<Rightarrow> 'e transport \<Rightarrow> string \<Rightarrow> 'e \<Rightarrow> (string + Zone) \<times> 'e" where
  "mcp_listRecords M T zone e = (if blank zone then (Inl ''zone is required'', e) else cc_GetZone T (ms_base M) zone e)"

definition validateChangeInput :: "string \<Rightarrow> string \<Rightarrow> Change list \<Rightarrow> string option" where
  "validateChangeInput zone rv changes =
     (if blank zone then Some ''zone is required''
      else if blank rv then Some ''expected_revision is required''
      else if changes = [] then Some ''at least one change is required''
      else if 100 < length changes then Some ''a single MCP call is limited to 100 RRset changes''
      else None)"

definition mcp_planChanges :: "mcp_server \<Rightarrow> 'e transport \<Rightarrow> string \<Rightarrow> string \<Rightarrow> Change list \<Rightarrow> 'e \<Rightarrow> (string + ChangeResult) \<times> 'e" where
  "mcp_planChanges M T zone expected changes e =
     (case validateChangeInput zone expected changes of
        Some m \<Rightarrow> (Inl m, e)
      | None \<Rightarrow> cc_Apply T (ms_base M) zone \<lparr>cr_expected = expected, cr_dry_run = True, cr_changes = changes\<rparr> ''mcp:plan'' e)"

definition mcp_applyChanges ::
    "mcp_server \<Rightarrow> 'e transport \<Rightarrow> string \<Rightarrow> string \<Rightarrow> Change list \<Rightarrow> bool \<Rightarrow> 'e \<Rightarrow> (string + ChangeResult) \<times> 'e" where
  "mcp_applyChanges M T zone expected changes confirm e =
     (if \<not> confirm then (Inl ''confirm must be true to commit DNS changes; use dns_plan_changes first'', e)
      else case validateChangeInput zone expected changes of
        Some m \<Rightarrow> (Inl m, e)
      | None \<Rightarrow> cc_Apply T (ms_base M) zone \<lparr>cr_expected = expected, cr_dry_run = False, cr_changes = changes\<rparr> ''mcp:apply'' e)"

definition mcp_listRevisions :: "mcp_server \<Rightarrow> 'e transport \<Rightarrow> string \<Rightarrow> 'e \<Rightarrow> (string + ZoneRevisions) \<times> 'e" where
  "mcp_listRevisions M T zone e = (if blank zone then (Inl ''zone is required'', e) else cc_ListRevisions T (ms_base M) zone e)"

definition mcp_rollbackZone ::
    "mcp_server \<Rightarrow> 'e transport \<Rightarrow> string \<Rightarrow> string \<Rightarrow> string \<Rightarrow> bool \<Rightarrow> 'e \<Rightarrow> (string + ChangeResult) \<times> 'e" where
  "mcp_rollbackZone M T zone expected target confirm e =
     (if blank zone \<or> blank expected \<or> blank target then (Inl ''zone, expected_revision, and target_revision are required'', e)
      else cc_Rollback T (ms_base M) zone \<lparr>rb_expected = expected, rb_target = target, rb_dry_run = \<not> confirm\<rparr> ''mcp:rollback'' e)"

record ResolveOutput =
  ro_name :: string
  ro_type :: string
  ro_server :: string
  ro_rcode :: string
  ro_answers :: "string list"

definition mcp_testResolution :: "mcp_server \<Rightarrow> string \<Rightarrow> string \<Rightarrow> string + ResolveOutput" where
  "mcp_testResolution M input_name input_type =
     (let D = ms_dns M; name = fqdn D (trim_space input_name)
      in if \<not> is_domain_name D name then Inl (''invalid DNS name '' @ input_name)
         else let t = to_upper (trim_space input_type); type_name = (if t = [] then ''A'' else t)
              in case string_to_type D type_name of
                   None \<Rightarrow> Inl (''unsupported query type '' @ type_name)
                 | Some code \<Rightarrow>
                     if code = TypeAXFR \<or> code = TypeIXFR \<or> code = TypeANY then Inl (''unsupported query type '' @ type_name)
                     else case ms_query M (ms_dns_address M) name code of
                            ExFailed m \<Rightarrow> Inl m
                          | ExAnswer a \<Rightarrow>
                              Inr \<lparr>ro_name = name, ro_type = type_name, ro_server = ms_dns_address M,
                                   ro_rcode = ms_rcode M (da_rcode a), ro_answers = map (rr_string D) (da_records a)\<rparr>)"

section \<open>A call of a tool\<close>

datatype tool_call =
    GetBlocklistConfigTool
  | UpdateBlocklistConfigTool "string list" "string list" "string list" string bool
  | RefreshBlocklistsTool
  | CreateZoneTool string string string bool
  | DeleteZoneTool string string bool
  | ListAuditTool AuditQuery
  | ListZonesTool
  | ListCloudflareZonesTool
  | ListCloudflareRecordsTool string
  | PlanCloudflareTool string string "cfChange list"
  | ApplyCloudflareTool string string "cfChange list" bool
  | RefreshStatusTool
  | ListRecordsTool string
  | PlanChangesTool string string "Change list"
  | ApplyChangesTool string string "Change list" bool
  | ListRevisionsTool string
  | RollbackZoneTool string string string bool
  | TestResolutionTool string string

datatype tool_output =
    BlocklistOutput blConfig
  | BlocklistUpdateOutput blResult
  | RefreshOutput RefreshRequest
  | LifecycleOutput LifecycleResult
  | AuditOutput AuditEvents
  | ZonesOutput "Zone list"
  | CloudflareZonesOutput "CloudflareZone list"
  | CloudflareRecordsOutput ZoneRecords
  | CloudflarePlanOutput Plan
  | CloudflareApplyOutput ApplyResult
  | RefreshStatusOutput rsReport
  | ZoneOutput Zone
  | ChangeOutput ChangeResult
  | RevisionsOutput ZoneRevisions
  | ResolutionOutput ResolveOutput

definition tool_result :: "('a \<Rightarrow> tool_output) \<Rightarrow> (string + 'a) \<times> 'e \<Rightarrow> (string + tool_output) \<times> 'e" where
  "tool_result f r = (case r of (Inl m, e) \<Rightarrow> (Inl m, e) | (Inr x, e) \<Rightarrow> (Inr (f x), e))"

definition run_tool :: "mcp_server \<Rightarrow> 'e transport \<Rightarrow> tool_call \<Rightarrow> 'e \<Rightarrow> (string + tool_output) \<times> 'e" where
  "run_tool M T t e =
     (case t of
        GetBlocklistConfigTool \<Rightarrow> tool_result BlocklistOutput (cc_GetBlocklistConfig T (ms_base M) e)
      | UpdateBlocklistConfigTool sources allow deny expected confirm \<Rightarrow>
          tool_result BlocklistUpdateOutput (mcp_updateBlocklistConfig M T sources allow deny expected confirm e)
      | RefreshBlocklistsTool \<Rightarrow> tool_result RefreshOutput (mcp_refreshBlocklists M T e)
      | CreateZoneTool zone role text confirm \<Rightarrow> tool_result LifecycleOutput (mcp_createZone M T zone role text confirm e)
      | DeleteZoneTool zone expected confirm \<Rightarrow> tool_result LifecycleOutput (mcp_deleteZone M T zone expected confirm e)
      | ListAuditTool q \<Rightarrow> tool_result AuditOutput (cc_ListAudit T (ms_base M) q e)
      | ListZonesTool \<Rightarrow> tool_result ZonesOutput (cc_ListZones T (ms_base M) e)
      | ListCloudflareZonesTool \<Rightarrow> tool_result CloudflareZonesOutput (cc_ListCloudflareZones T (ms_base M) e)
      | ListCloudflareRecordsTool zone \<Rightarrow> tool_result CloudflareRecordsOutput (mcp_listCloudflareRecords M T zone e)
      | PlanCloudflareTool zone expected changes \<Rightarrow> tool_result CloudflarePlanOutput (mcp_planCloudflareChanges M T zone expected changes e)
      | ApplyCloudflareTool zone expected changes confirm \<Rightarrow>
          tool_result CloudflareApplyOutput (mcp_applyCloudflareChanges M T zone expected changes confirm e)
      | RefreshStatusTool \<Rightarrow> tool_result RefreshStatusOutput (cc_RefreshStatus T (ms_base M) e)
      | ListRecordsTool zone \<Rightarrow> tool_result ZoneOutput (mcp_listRecords M T zone e)
      | PlanChangesTool zone expected changes \<Rightarrow> tool_result ChangeOutput (mcp_planChanges M T zone expected changes e)
      | ApplyChangesTool zone expected changes confirm \<Rightarrow> tool_result ChangeOutput (mcp_applyChanges M T zone expected changes confirm e)
      | ListRevisionsTool zone \<Rightarrow> tool_result RevisionsOutput (mcp_listRevisions M T zone e)
      | RollbackZoneTool zone expected target confirm \<Rightarrow> tool_result ChangeOutput (mcp_rollbackZone M T zone expected target confirm e)
      | TestResolutionTool name ty \<Rightarrow>
          ((case mcp_testResolution M name ty of Inl m \<Rightarrow> Inl m | Inr x \<Rightarrow> Inr (ResolutionOutput x)), e))"

end
