(* ===== verification/ApiMux.thy ===== *)
theory ApiMux
  imports ApiHandler ControlClient
begin

text \<open>
  The route table of the control API (\<open>Handler\<close> in internal/api/server.go) over escaped paths, and the
  API as a transport of the control client.
\<close>

section \<open>The multiplexer\<close>

definition unhex :: "char \<Rightarrow> nat option" where
  "unhex c =
     (let n = (of_char c :: nat)
      in if 48 \<le> n \<and> n \<le> 57 then Some (n - 48)
         else if 97 \<le> n \<and> n \<le> 102 then Some (n - 87)
         else if 65 \<le> n \<and> n \<le> 70 then Some (n - 55) else None)"

text \<open>\<open>url.PathUnescape\<close>; the multiplexer keeps a segment that is not properly escaped as it is.\<close>

fun path_unescape :: "string \<Rightarrow> string option" where
  "path_unescape [] = Some []"
| "path_unescape (c # cs) =
     (if c = CHR ''%''
      then (case cs of
              a # b # rest \<Rightarrow>
                (case (unhex a, unhex b) of
                   (Some x, Some y) \<Rightarrow> map_option ((#) (char_of (16 * x + y))) (path_unescape rest)
                 | _ \<Rightarrow> None)
            | _ \<Rightarrow> None)
      else map_option ((#) c) (path_unescape cs))"

definition segment_value :: "string \<Rightarrow> string" where
  "segment_value s = (case path_unescape s of None \<Rightarrow> s | Some u \<Rightarrow> u)"

text \<open>A wildcard does not match the segment that stands for a trailing slash.\<close>

definition wild :: "route \<Rightarrow> string \<Rightarrow> (route \<times> string) option" where
  "wild r z = (if z = ''/'' then None else Some (r, z))"

text \<open>Where the unescaped segments of a clean path lead; the two endpoints that forward to other services have no handler here.\<close>

definition mux_segments :: "string \<Rightarrow> string list \<Rightarrow> (route \<times> string) option" where
  "mux_segments meth segs =
     (case segs of
        [a] \<Rightarrow>
          if meth = ''GET'' \<and> a = ''healthz'' then Some (RHealth, [])
          else if meth = ''GET'' \<and> a = ''readyz'' then Some (RReady, [])
          else if meth = ''GET'' \<and> a = ''metrics'' then Some (RMetrics, [])
          else None
      | [v, a] \<Rightarrow>
          if v \<noteq> ''v1'' \<or> meth \<noteq> ''GET'' then None
          else if a = ''zones'' then Some (RListZones, [])
          else if a = ''audit'' then Some (RListAudit, [])
          else None
      | [v, a, b] \<Rightarrow>
          if v \<noteq> ''v1'' then None
          else if a = ''zones''
          then (if meth = ''PUT'' then wild RCreateZone b
                else if meth = ''DELETE'' then wild RDeleteZone b else None)
          else if a = ''status'' \<and> meth = ''GET''
          then (if b = ''refresh'' then Some (RRefreshStatus, []) else if b = ''ha'' then Some (RHaStatus, []) else None)
          else if a = ''blocklists''
          then (if b = ''config'' \<and> meth = ''GET'' then Some (RGetBlocklist, [])
                else if b = ''config'' \<and> meth = ''PUT'' then Some (RUpdateBlocklist, [])
                else if b = ''refresh'' \<and> meth = ''POST'' then Some (RRefreshBlocklists, []) else None)
          else None
      | [v, a, b, c] \<Rightarrow>
          if v \<noteq> ''v1'' then None
          else if a = ''zones''
          then (if meth = ''GET'' \<and> c = ''rrsets'' then wild RGetZone b
                else if meth = ''GET'' \<and> c = ''revisions'' then wild RListRevisions b
                else if meth = ''POST'' \<and> c = ''changes'' then wild RChangeZone b
                else if meth = ''POST'' \<and> c = ''rollback'' then wild RRollbackZone b else None)
          else if a = ''providers'' \<and> b = ''cloudflare''
          then (if c = ''zones'' \<and> meth = ''GET'' then Some (RCfZones, [])
                else if c = ''config'' \<and> meth = ''GET'' then Some (RCfConfig, [])
                else if c = ''config'' \<and> meth = ''PUT'' then Some (RCfUpdateConfig, []) else None)
          else None
      | [v, a, b, c, z, d] \<Rightarrow>
          if v \<noteq> ''v1'' \<or> a \<noteq> ''providers'' \<or> b \<noteq> ''cloudflare'' \<or> c \<noteq> ''zones'' then None
          else if meth = ''GET'' \<and> d = ''records'' then wild RCfRecords z
          else if meth = ''POST'' \<and> d = ''plans'' then wild RCfPlan z
          else if meth = ''POST'' \<and> d = ''changes'' then wild RCfApply z
          else None
      | _ \<Rightarrow> None)"

text \<open>
  A path that \<open>cleanPath\<close> would change is answered with a redirect, not by a handler.  GET patterns
  also match HEAD.
\<close>

definition clean_segment :: "string \<Rightarrow> bool" where
  "clean_segment s = (s \<noteq> [] \<and> s \<noteq> ''.'' \<and> s \<noteq> ''..'')"

datatype routed = Routed route string | Redirected | Unrouted

definition mux_route :: "string \<Rightarrow> string \<Rightarrow> routed" where
  "mux_route meth p =
     (case split_on (CHR ''/'') p of
        [] # segs \<Rightarrow>
          if segs \<noteq> [] \<and> list_all clean_segment segs
          then (case mux_segments (if meth = ''HEAD'' then ''GET'' else meth) (map segment_value segs) of None \<Rightarrow> Unrouted | Some (r, z) \<Rightarrow> Routed r z)
          else if segs \<noteq> [] \<and> list_all clean_segment (butlast segs) \<and> last segs = [] then Unrouted
          else Redirected
      | _ \<Rightarrow> Redirected)"

section \<open>Escaping\<close>

lemma hex_digit_unhex: "n < 16 \<Longrightarrow> unhex (hex_digit n) = Some n"
  by (auto simp: unhex_def hex_digit_def Let_def)

lemma unescape_escape_char: "path_unescape (escape_char c @ s) = map_option ((#) c) (path_unescape s)"
proof (cases "path_plain c")
  case True
  then have "c \<noteq> CHR ''%''" by (auto simp: path_plain_def is_digit_def)
  then show ?thesis using True by (simp add: escape_char_def)
next
  case False
  define n where "n = (of_char c :: nat)"
  have b: "n < 256" unfolding n_def by (rule nat_of_char_less_256)
  have "n div 16 < 16" using b by (simp add: less_mult_imp_div_less)
  then have h: "unhex (hex_digit (n div 16)) = Some (n div 16)" "unhex (hex_digit (n mod 16)) = Some (n mod 16)"
    by (simp_all add: hex_digit_unhex)
  have e: "escape_char c = [CHR ''%'', hex_digit (n div 16), hex_digit (n mod 16)]"
    using False by (simp add: escape_char_def n_def)
  have m: "16 * (n div 16) + n mod 16 = n" by simp
  have "char_of n = c" by (simp add: n_def)
  then show ?thesis unfolding e by (simp only: append_Cons append_Nil path_unescape.simps if_True list.case h option.case prod.case m refl) 
qed

lemma unescape_escape: "path_unescape (path_escape s) = Some s"
  by (induction s) (simp_all add: path_escape_def unescape_escape_char)

lemma segment_value_escape [simp]: "segment_value (path_escape s) = s"
  by (simp add: segment_value_def unescape_escape)

lemma hex_digit_no_slash: "n < 16 \<Longrightarrow> hex_digit n \<noteq> CHR ''/''"
  using hex_digit_unhex [of n] by (auto simp: unhex_def)

lemma escape_char_no_slash: "x \<in> set (escape_char c) \<Longrightarrow> x \<noteq> CHR ''/''"
proof (cases "path_plain c")
  case True
  moreover assume "x \<in> set (escape_char c)"
  ultimately have "path_plain x" by (simp add: escape_char_def)
  then show ?thesis by (auto simp: path_plain_def is_digit_def)
next
  case False
  moreover assume "x \<in> set (escape_char c)"
  ultimately have "x = CHR ''%'' \<or> x = hex_digit (of_char c div 16) \<or> x = hex_digit (of_char c mod 16)"
    by (simp add: escape_char_def)
  moreover have "of_char c div 16 < (16::nat)" "of_char c mod 16 < (16::nat)"
    using nat_of_char_less_256 [of c] by (simp_all add: less_mult_imp_div_less)
  then have "hex_digit (of_char c div 16) \<noteq> CHR ''/''" "hex_digit (of_char c mod 16) \<noteq> CHR ''/''"
    by (simp_all add: hex_digit_no_slash)
  ultimately show ?thesis by (elim disjE) simp_all
qed

lemma escape_no_slash: "CHR ''/'' \<notin> set (path_escape s)"
  unfolding path_escape_def using escape_char_no_slash by auto

lemma path_escape_inj: "path_escape s = path_escape t \<longleftrightarrow> s = t"
  using unescape_escape by (metis option.inject)

lemma escape_dots: "path_escape [] = []" "path_escape ''.'' = ''.''" "path_escape ''..'' = ''..''"
  by (simp_all add: path_escape_def escape_char_def path_plain_def)

lemma clean_escape: "clean_segment (path_escape s) \<longleftrightarrow> clean_segment s"
  unfolding clean_segment_def using path_escape_inj [of s "[]"] path_escape_inj [of s "''.''"] path_escape_inj [of s "''..''"]
  unfolding escape_dots by simp

section \<open>The API as a transport\<close>

record 'c api_end =
  te_config :: "'c api_config"
  te_request :: api_req             \<comment> \<open>clock, addresses and what the surroundings answer\<close>
  te_print :: "payload \<Rightarrow> bytes"
  te_value :: "payload \<Rightarrow> jvalue option"
  te_text :: "nat \<Rightarrow> string"
  te_page :: "nat \<Rightarrow> bytes"          \<comment> \<open>the body of an answer by the multiplexer itself\<close>

definition call_request :: "api_req \<Rightarrow> http_call \<Rightarrow> string \<Rightarrow> api_req" where
  "call_request q call zone =
     q\<lparr>q_zone := zone,
       q_query := (\<lambda>k. case map_of (hc_query call) k of None \<Rightarrow> [] | Some v \<Rightarrow> v),
       q_body := (case hc_body call of None \<Rightarrow> Inl ''invalid JSON: EOF'' | Some j \<Rightarrow> Inr j),
       q_if_match := [], q_request_id := [], q_peer := False,
       q_actor := (case hc_actor call of None \<Rightarrow> [] | Some a \<Rightarrow> a)\<rparr>"

definition mux_answer :: "'c api_end \<Rightarrow> nat \<Rightarrow> call_answer" where
  "mux_answer E n = Answer \<lparr>hr_status = n, hr_text = te_text E n, hr_data = te_page E n, hr_json = None, hr_close = None\<rparr>"

text \<open>A path another method is registered for is answered with 405, otherwise with 404.\<close>

definition unrouted_status :: "string \<Rightarrow> nat" where
  "unrouted_status p =
     (if list_ex (\<lambda>m. case mux_route m p of Routed _ _ \<Rightarrow> True | _ \<Rightarrow> False) [''GET'', ''PUT'', ''POST'', ''DELETE''] then 405 else 404)"

definition api_transport :: "'c api_end \<Rightarrow> 'c api_server transport" where
  "api_transport E call s =
     (case mux_route (hc_method call) (hc_path call) of
        Redirected \<Rightarrow> (mux_answer E 301, s)
      | Unrouted \<Rightarrow> (mux_answer E (unrouted_status (hc_path call)), s)
      | Routed r zone \<Rightarrow>
          (case serve (te_config E) r (call_request (te_request E) call zone) s of
             (y, s1) \<Rightarrow>
               (if y_payload y = PAborted then NoAnswer ''EOF''
                else Answer \<lparr>hr_status = y_status y, hr_text = te_text E (y_status y), hr_data = te_print E (y_payload y),
                             hr_json = te_value E (y_payload y), hr_close = None\<rparr>,
                s1)))"

text \<open>The client sends no idempotency key, so the middleware is not in the way.\<close>

lemma no_key_passes: "rq_key r = [] \<Longrightarrow> Handler W C route q now later r a = pass_through (http_handler W C route q) r a"
  by (simp add: Handler_def idempotent_def split: option.splits)

section \<open>Routes of the client\<close>

lemma mux_route_join:
  assumes "\<forall>x\<in>set segs. clean_segment x \<and> CHR ''/'' \<notin> set x" "segs \<noteq> []" "meth \<noteq> ''HEAD''"
  shows "mux_route meth (CHR ''/'' # join ''/'' segs) =
    (case mux_segments meth (map segment_value segs) of None \<Rightarrow> Unrouted | Some (r, z) \<Rightarrow> Routed r z)"
proof -
  have "CHR ''/'' # join ''/'' segs = join ''/'' ([] # segs)" using assms(2) by (cases segs) simp_all
  then have "split_on (CHR ''/'') (CHR ''/'' # join ''/'' segs) = [] # segs"
    using split_on_join [of "[] # segs" "CHR ''/''"] assms(1) by simp
  then show ?thesis using assms by (simp add: mux_route_def list_all_iff)
qed

end
