(* ===== verification/ClientTheorems.thy ===== *)
theory ClientTheorems
  imports ApiMux "HOL-Library.Code_Target_Nat"
begin

text \<open>
  Client and server agree: the server decodes a request of the client to the request it was made from,
  and the path of a call leads to the operation it is for.
\<close>

section \<open>Decoding what was encoded\<close>

lemma those_map_roundtrip: "(\<And>x. x \<in> set xs \<Longrightarrow> f (g x) = Some x) \<Longrightarrow> those (map (f \<circ> g) xs) = Some xs"
  by (induction xs) simp_all

lemma as_list_roundtrip: "(\<And>x. x \<in> set xs \<Longrightarrow> f (g x) = Some x) \<Longrightarrow> as_list f (JArr (map g xs)) = Some xs"
  by (simp add: as_list_def those_map_roundtrip)

lemma as_list_strings [simp]: "as_list as_str (JArr (map JStr xs)) = Some xs"
  by (rule as_list_roundtrip) (simp add: as_str_def)

definition field_names :: "string list" where
  "field_names = [''action'', ''name'', ''type'', ''ttl'', ''records'', ''provider'', ''proxied'', ''comment'', ''tags'',
     ''expected_revision'', ''target_revision'', ''dry_run'', ''changes'', ''role'', ''zone_text'', ''sources'', ''allow'', ''deny'', ''confirm'']"

lemma field_names_distinct: "list_all (\<lambda>a. list_all (\<lambda>b. equal_fold a b = (a = b)) field_names) field_names"
  by code_simp

lemma field_equal: "a \<in> set field_names \<Longrightarrow> b \<in> set field_names \<Longrightarrow> equal_fold a b = (a = b)"
  using field_names_distinct by (simp add: list_all_iff)

lemma as_null [simp]: "as_list f JNull = Some []" "as_str JNull = Some []" "as_bool JNull = Some False" "as_uint64 JNull = Some 0"
  by (simp_all add: as_list_def as_str_def as_bool_def as_uint64_def)

lemma as_values [simp]: "as_str (JStr s) = Some s" "as_bool (JBool b) = Some b"
  by (simp_all add: as_str_def as_bool_def)

lemma u32_number [simp]: "as_uint64 (JNum (uint (x :: uint32))) = Some (unat x)"
proof -
  have "uint x < 2 ^ 32" using uint_lt2p [of x] by simp
  then have "uint x < 2 ^ 64" by simp
  then show ?thesis by (simp add: as_uint64_def)
qed

lemma u32_bound [simp]: "unat (x :: uint32) < 4294967296"
  using unsigned_less [of x, where 'a = nat] by simp

lemmas request_fields = known_fields_def get_field_def f_str_def f_strs_def f_bool_def f_uint32_def f_opt_def field_equal field_names_def
  opt_text_def omit_none_def omit_list_def

lemma dec_enc_Change: "dec_Change (enc_change c) = Some c"
  by (cases c) (simp add: dec_Change_def enc_change_def request_fields)

lemma dec_enc_ChangeRequest: "dec_ChangeRequest (enc_ChangeRequest r) = Some r"
  by (cases r) (simp add: dec_ChangeRequest_def enc_ChangeRequest_def request_fields as_list_roundtrip dec_enc_Change)

lemma dec_enc_RollbackRequest: "dec_RollbackRequest (enc_RollbackRequest r) = Some r"
  by (cases r) (simp add: dec_RollbackRequest_def enc_RollbackRequest_def request_fields)

lemma dec_enc_LifecycleRequest: "dec_LifecycleRequest (enc_LifecycleRequest r) = Some r"
  by (cases r) (simp add: dec_LifecycleRequest_def enc_LifecycleRequest_def request_fields)

lemma dec_enc_blRequest: "dec_blRequest (enc_blRequest r) = Some r"
  by (cases r) (simp add: dec_blRequest_def enc_blRequest_def request_fields)

lemma dec_enc_provider:
  "dec_ProviderOptions (JObj (omit_none ''proxied'' JBool (po_proxied p) @ omit_none ''comment'' JStr (po_comment p) @
     omit_none ''tags'' (\<lambda>t. JArr (map JStr t)) (po_tags p))) = Some p"
  by (cases p) (simp add: dec_ProviderOptions_def request_fields split: option.split)

lemma dec_enc_cfChange: "dec_cfChange (enc_cfchange c) = Some c"
  by (cases c) (simp add: dec_cfChange_def enc_cfchange_def request_fields dec_enc_provider [unfolded omit_none_def])

lemma dec_enc_PlanRequest: "dec_PlanRequest (enc_PlanRequest e cs) = Some (e, cs)"
  by (simp add: dec_PlanRequest_def enc_PlanRequest_def request_fields as_list_roundtrip dec_enc_cfChange)

text \<open>The actor and the request ID are not part of the body.\<close>

lemma dec_enc_ApplyRequest: "dec_ApplyRequest (enc_ApplyRequest r) = Some (r\<lparr>ar_actor := [], ar_request_id := []\<rparr>)"
  by (cases r) (simp add: dec_ApplyRequest_def enc_ApplyRequest_def request_fields as_list_roundtrip dec_enc_cfChange)

section \<open>Routes\<close>

lemma path_text:
  "zone_url z = CHR ''/'' # join ''/'' [''v1'', ''zones'', path_escape (trim_suffix z ''.'')]"
  "zone_url z @ ''/rrsets'' = CHR ''/'' # join ''/'' [''v1'', ''zones'', path_escape (trim_suffix z ''.''), ''rrsets'']"
  "zone_url z @ ''/revisions'' = CHR ''/'' # join ''/'' [''v1'', ''zones'', path_escape (trim_suffix z ''.''), ''revisions'']"
  "zone_url z @ ''/changes'' = CHR ''/'' # join ''/'' [''v1'', ''zones'', path_escape (trim_suffix z ''.''), ''changes'']"
  "zone_url z @ ''/rollback'' = CHR ''/'' # join ''/'' [''v1'', ''zones'', path_escape (trim_suffix z ''.''), ''rollback'']"
  "cf_zone_url z @ ''/records'' =
     CHR ''/'' # join ''/'' [''v1'', ''providers'', ''cloudflare'', ''zones'', path_escape (trim_suffix z ''.''), ''records'']"
  "cf_zone_url z @ ''/plans'' =
     CHR ''/'' # join ''/'' [''v1'', ''providers'', ''cloudflare'', ''zones'', path_escape (trim_suffix z ''.''), ''plans'']"
  "cf_zone_url z @ ''/changes'' =
     CHR ''/'' # join ''/'' [''v1'', ''providers'', ''cloudflare'', ''zones'', path_escape (trim_suffix z ''.''), ''changes'']"
  by (simp_all add: zone_url_def cf_zone_url_def)

definition addressable :: "string \<Rightarrow> bool" where
  "addressable zone \<longleftrightarrow> clean_segment (trim_suffix zone ''.'') \<and> trim_suffix zone ''.'' \<noteq> ''/''"

lemma fixed_segments:
  "list_all (\<lambda>x. clean_segment x \<and> CHR ''/'' \<notin> set x \<and> segment_value x = x)
     [''v1'', ''zones'', ''rrsets'', ''revisions'', ''changes'', ''rollback'', ''providers'', ''cloudflare'', ''records'', ''plans'']"
  by code_simp

lemmas segment_facts = fixed_segments [simplified]

lemma zone_routes:
  assumes "addressable zone"
  shows "mux_route ''PUT'' (zone_url zone) = Routed RCreateZone (trim_suffix zone ''.'')"
    "mux_route ''DELETE'' (zone_url zone) = Routed RDeleteZone (trim_suffix zone ''.'')"
  using assms unfolding path_text(1)
  by (subst mux_route_join;
      simp add: addressable_def clean_escape escape_no_slash segment_facts mux_segments_def wild_def del: join.simps)+

lemma zone_part_routes:
  assumes "addressable zone"
  shows "mux_route ''GET'' (zone_url zone @ ''/rrsets'') = Routed RGetZone (trim_suffix zone ''.'')"
    "mux_route ''GET'' (zone_url zone @ ''/revisions'') = Routed RListRevisions (trim_suffix zone ''.'')"
    "mux_route ''POST'' (zone_url zone @ ''/changes'') = Routed RChangeZone (trim_suffix zone ''.'')"
    "mux_route ''POST'' (zone_url zone @ ''/rollback'') = Routed RRollbackZone (trim_suffix zone ''.'')"
  using assms unfolding path_text(2-5)
  by (subst mux_route_join;
      simp add: addressable_def clean_escape escape_no_slash segment_facts mux_segments_def wild_def del: join.simps)+

lemma cf_routes:
  assumes "addressable zone"
  shows "mux_route ''GET'' (cf_zone_url zone @ ''/records'') = Routed RCfRecords (trim_suffix zone ''.'')"
    "mux_route ''POST'' (cf_zone_url zone @ ''/plans'') = Routed RCfPlan (trim_suffix zone ''.'')"
    "mux_route ''POST'' (cf_zone_url zone @ ''/changes'') = Routed RCfApply (trim_suffix zone ''.'')"
  using assms unfolding path_text(6-8)
  by (subst mux_route_join;
      simp add: addressable_def clean_escape escape_no_slash segment_facts mux_segments_def wild_def del: join.simps)+

lemma fixed_routes:
  "mux_route ''GET'' ''/v1/zones'' = Routed RListZones []" "mux_route ''GET'' ''/v1/audit'' = Routed RListAudit []"
  "mux_route ''GET'' ''/v1/status/refresh'' = Routed RRefreshStatus []"
  "mux_route ''GET'' ''/v1/blocklists/config'' = Routed RGetBlocklist []"
  "mux_route ''PUT'' ''/v1/blocklists/config'' = Routed RUpdateBlocklist []"
  "mux_route ''POST'' ''/v1/blocklists/refresh'' = Routed RRefreshBlocklists []"
  "mux_route ''GET'' ''/v1/providers/cloudflare/zones'' = Routed RCfZones []"
  by code_simp+

section \<open>Calls\<close>

text \<open>What the client makes of a reply of the server.\<close>

definition received :: "'c api_end \<Rightarrow> (jvalue \<Rightarrow> 'a option) \<Rightarrow> reply \<Rightarrow> string + 'a" where
  "received E dec y =
     (if y_payload y = PAborted then Inl (''RillDNS API request failed: '' @ ''EOF'')
      else read_response dec \<lparr>hr_status = y_status y, hr_text = te_text E (y_status y), hr_data = te_print E (y_payload y),
             hr_json = te_value E (y_payload y), hr_close = None\<rparr>)"

definition arrives :: "'c api_end \<Rightarrow> http_call \<Rightarrow> route \<Rightarrow> string \<Rightarrow> (jvalue \<Rightarrow> 'a option) \<Rightarrow> 'c api_server \<Rightarrow> (string + 'a) \<times> 'c api_server" where
  "arrives E call r zone dec s =
     (case serve (te_config E) r (call_request (te_request E) call zone) s of (y, s1) \<Rightarrow> (received E dec y, s1))"

lemma call_arrives:
  assumes "mux_route (hc_method call) (hc_path call) = Routed r zone"
  shows "requestWithHeaders (api_transport E) dec call s = arrives E call r zone dec s"
  using assms by (simp add: requestWithHeaders_def api_transport_def arrives_def received_def close_response_def split: prod.split)

lemma send_call_fields [simp]:
  "hc_method (send_call base meth p body actor) = meth" "hc_path (send_call base meth p body actor) = p"
  "hc_method (get_call base p) = ''GET''" "hc_path (get_call base p) = p"
  by (simp_all add: send_call_def get_call_def)

lemma call_request_fields [simp]:
  "q_zone (call_request q (send_call base meth p body actor) zone) = zone"
  "q_actor (call_request q (send_call base meth p body actor) zone) = actor"
  "q_if_match (call_request q (send_call base meth p body actor) zone) = []"
  "q_body (call_request q (send_call base meth p body actor) zone) = Inr body"
  by (simp_all add: call_request_def send_call_def)

lemma sent_request:
  assumes "mux_route meth p = Routed r zone" and "dec_body body = Some x"
  shows "\<exists>q. q_zone q = zone \<and> q_actor q = actor \<and> q_if_match q = [] \<and> decodeJSON dec_body q = Inr x \<and>
    requestWithHeaders (api_transport E) dec (send_call base meth p body actor) s =
      (case serve (te_config E) r q s of (y, s1) \<Rightarrow> (received E dec y, s1))"
proof (intro exI conjI)
  let ?q = "call_request (te_request E) (send_call base meth p body actor) zone"
  show "q_zone ?q = zone" "q_actor ?q = actor" "q_if_match ?q = []" by simp_all
  show "decodeJSON dec_body ?q = Inr x" using assms(2) by (simp add: decodeJSON_def)
  show "requestWithHeaders (api_transport E) dec (send_call base meth p body actor) s =
      (case serve (te_config E) r ?q s of (y, s1) \<Rightarrow> (received E dec y, s1))"
    using call_arrives [of "send_call base meth p body actor" r zone E dec s] assms(1) by (simp add: arrives_def)
qed


definition demo_end :: "unit api_end" where
  "demo_end = \<lparr>te_config = demo_api_config False, te_request = demo_call, te_print = (\<lambda>_. []), te_value = (\<lambda>_. None),
     te_text = nat_dec, te_page = (\<lambda>_. [])\<rparr>"


end
