(* ===== verification/McpTheorems.thy ===== *)
theory McpTheorems
  imports McpServer ClientTheorems
begin

text \<open>
  The MCP server in front of the control API: a tool that is not confirmed changes nothing.
\<close>

section \<open>Dry runs\<close>

lemma commit_dry_frame: "commit st cur rrs cs True to actor rid w = (r, w') \<Longrightarrow> w' = w"
  by (auto simp: commit_def Let_def split: sum.splits)

lemma zoneApply_dry:
  assumes "fqdn_law (s_dns st)" "zoneApply st n req actor rid w = (r, w')" "cr_dry_run req"
  shows "same_disk w w'"
  using assms(1,2)
proof (cases rule: zoneApply_cases)
  case (committed cur p w1 rrs)
  then show ?thesis using assms(3) by (auto simp: same_disk_def dest: commit_dry_frame)
qed (simp add: same_disk_def)

lemma zoneRollback_dry:
  assumes "fqdn_law (s_dns st)" "zoneRollback st n req actor rid w = (r, w')" "rb_dry_run req"
  shows "same_disk w w'"
  using assms(1,2)
proof (cases rule: zoneRollback_cases)
  case (committed cur p w1 target w2)
  then show ?thesis using assms(3) by (auto simp: same_disk_def dest: commit_dry_frame)
qed (simp add: same_disk_def)

lemma zoneCreate_dry:
  assumes "zoneCreate st n req actor rid w = (r, w')" "lr_dry_run req"
  shows "same_disk w w'"
  using assms(1)
proof (cases rule: zoneCreate_cases)
  case (installed p z role zone content roles w1)
  then show ?thesis using assms(2) by simp
qed (simp add: same_disk_def)

lemma zoneDelete_dry:
  assumes "zoneDelete st n req actor rid w = (r, w')" "lr_dry_run req"
  shows "same_disk w w'"
proof -
  obtain c w1 where c: "zoneGet st n w = (c, w1)" by fastforce
  then have "w' = w1" using assms by (auto simp: zoneDelete_def Let_def split: sum.splits if_splits)
  then show ?thesis using zoneGet_frame [OF c] by (simp add: same_disk_def)
qed

lemma blockingUpdate_dry:
  assumes "blockingUpdate U D sha ord dir req rid w = (r, w')" "br_dry_run req"
  shows "same_disk w w'"
proof -
  obtain g w1 where g: "blockingGet U D sha dir w = (g, w1)" by fastforce
  then have "w' = w1" using assms by (auto simp: blockingUpdate_def Let_def split: sum.splits if_splits)
  then show ?thesis using blockingGet_frame [OF g] by (simp add: same_disk_def)
qed

section \<open>Dry runs through the handlers\<close>

lemma changeZone_dry:
  assumes law: "fqdn_law (s_dns (sr_store C))" and run: "changeZone C q s = (y, s')"
    and dry: "decodeJSON dec_ChangeRequest q = Inr r" "cr_dry_run r"
  shows "untouched s s'"
proof -
  obtain actor rid s1 where a: "actorAndRequestID q s = ((actor, rid), s1)" by (metis prod.collapse)
  from run dry show ?thesis
    unfolding changeZone_def using a
    by (auto split: if_splits sum.splits prod.splits option.splits
        intro!: untouched_trans [OF actorAndRequestID_frame [OF a]] zoneApply_dry [OF law])
qed

lemma rollbackZone_dry:
  assumes law: "fqdn_law (s_dns (sr_store C))" and run: "rollbackZone C q s = (y, s')"
    and dry: "decodeJSON dec_RollbackRequest q = Inr r" "rb_dry_run r"
  shows "untouched s s'"
proof -
  obtain actor rid s1 where a: "actorAndRequestID q s = ((actor, rid), s1)" by (metis prod.collapse)
  from run dry show ?thesis
    unfolding rollbackZone_def using a
    by (auto split: if_splits sum.splits prod.splits option.splits
        intro!: untouched_trans [OF actorAndRequestID_frame [OF a]] zoneRollback_dry [OF law])
qed

lemma createZone_dry:
  assumes run: "createZone C q s = (y, s')" and dry: "decodeJSON dec_LifecycleRequest q = Inr r" "lr_dry_run r"
  shows "untouched s s'"
proof -
  obtain actor rid s1 where a: "actorAndRequestID q s = ((actor, rid), s1)" by (metis prod.collapse)
  from run dry show ?thesis
    unfolding createZone_def using a
    by (auto split: if_splits sum.splits prod.splits option.splits
        intro!: untouched_trans [OF actorAndRequestID_frame [OF a]] zoneCreate_dry)
qed

lemma deleteZone_dry:
  assumes run: "deleteZone C q s = (y, s')" and dry: "decodeJSON dec_LifecycleRequest q = Inr r" "lr_dry_run r"
  shows "untouched s s'"
proof -
  obtain actor rid s1 where a: "actorAndRequestID q s = ((actor, rid), s1)" by (metis prod.collapse)
  from run dry show ?thesis
    unfolding deleteZone_def using a
    by (auto split: if_splits sum.splits prod.splits option.splits
        intro!: untouched_trans [OF actorAndRequestID_frame [OF a]] zoneDelete_dry)
qed

lemma updateBlocklistConfig_dry:
  assumes run: "updateBlocklistConfig C q s = (y, s')" and dry: "decodeJSON dec_blRequest q = Inr r" "br_dry_run r"
  shows "untouched s s'"
proof -
  obtain x s1 where a: "actorAndRequestID q s = (x, s1)" by (metis prod.collapse)
  from run dry show ?thesis
    unfolding updateBlocklistConfig_def using a
    by (auto split: if_splits sum.splits prod.splits option.splits
        intro!: untouched_trans [OF actorAndRequestID_frame [OF a]] blockingUpdate_dry)
qed

section \<open>Where calls go\<close>

lemma mux_route_some:
  assumes "mux_route meth (CHR ''/'' # join ''/'' segs) = Routed r z" "\<forall>x\<in>set segs. CHR ''/'' \<notin> set x" "segs \<noteq> []"
  shows "mux_segments (if meth = ''HEAD'' then ''GET'' else meth) (map segment_value segs) = Some (r, z)"
proof -
  have "CHR ''/'' # join ''/'' segs = join ''/'' ([] # segs)" using assms(3) by (cases segs) simp_all
  then have "split_on (CHR ''/'') (CHR ''/'' # join ''/'' segs) = [] # segs"
    using split_on_join [of "[] # segs" "CHR ''/''"] assms(2) by simp
  then show ?thesis using assms(1) by (auto simp: mux_route_def split: if_splits option.splits)
qed

lemma wild_Some: "wild r x = Some (r', z) \<longleftrightarrow> x \<noteq> ''/'' \<and> r' = r \<and> z = x"
  by (auto simp: wild_def)

lemma routed_to:
  "mux_route ''PUT'' (zone_url zone) = Routed r z \<Longrightarrow> r = RCreateZone"
  "mux_route ''DELETE'' (zone_url zone) = Routed r z \<Longrightarrow> r = RDeleteZone"
  unfolding path_text(1)
  by (drule mux_route_some; simp add: escape_no_slash segment_facts mux_segments_def wild_Some del: join.simps)+

lemma routed_part_to:
  "mux_route ''POST'' (zone_url zone @ ''/changes'') = Routed r z \<Longrightarrow> r = RChangeZone"
  "mux_route ''POST'' (zone_url zone @ ''/rollback'') = Routed r z \<Longrightarrow> r = RRollbackZone"
  "mux_route ''POST'' (cf_zone_url zone @ ''/plans'') = Routed r z \<Longrightarrow> r = RCfPlan"
  unfolding path_text(2-8)
  by (drule mux_route_some; simp add: escape_no_slash segment_facts mux_segments_def wild_Some del: join.simps)+

lemma get_segments: "mux_segments ''GET'' segs = Some (r, z) \<Longrightarrow> \<not> mutating r \<and> r \<noteq> RRefreshBlocklists"
  by (auto simp: mux_segments_def wild_Some mutating_def split: list.splits if_splits)

lemma get_routed: "mux_route ''GET'' p = Routed r z \<Longrightarrow> \<not> mutating r \<and> r \<noteq> RRefreshBlocklists"
  using get_segments by (auto simp: mux_route_def split: if_splits option.splits list.splits prod.splits)

lemma call_untouched:
  assumes run: "requestWithHeaders (api_transport E) dec call s = (r, s')"
    and ok: "\<And>route zone y s1. mux_route (hc_method call) (hc_path call) = Routed route zone \<Longrightarrow>
      serve (te_config E) route (call_request (te_request E) call zone) s = (y, s1) \<Longrightarrow> untouched s s1"
  shows "untouched s s'"
proof (cases "mux_route (hc_method call) (hc_path call)")
  case (Routed route zone)
  obtain y s1 where y: "serve (te_config E) route (call_request (te_request E) call zone) s = (y, s1)" by fastforce
  have "s' = s1" using run call_arrives [OF Routed, of E dec s] y by (simp add: arrives_def)
  then show ?thesis using ok [OF Routed y] by simp
qed (use run in \<open>auto simp: requestWithHeaders_def api_transport_def mux_answer_def\<close>)

lemma get_call_untouched:
  assumes "requestWithHeaders (api_transport E) dec call s = (r, s')" "hc_method call = ''GET''"
  shows "untouched s s'"
  using assms(1)
proof (rule call_untouched)
  fix route zone y s1
  assume "mux_route (hc_method call) (hc_path call) = Routed route zone"
    and y: "serve (te_config E) route (call_request (te_request E) call zone) s = (y, s1)"
  then have "\<not> mutating route" "route \<noteq> RRefreshBlocklists" using get_routed assms(2) by auto
  then show "untouched s s1" by (rule serve_reads [OF y])
qed

lemma send_call_untouched:
  assumes run: "requestWithHeaders (api_transport E) dec (send_call base meth p body actor) s = (r, s')"
    and to: "\<And>r z. mux_route meth p = Routed r z \<Longrightarrow> r = route"
    and ok: "\<And>q y s1. decodeJSON dec_body q = Inr x \<Longrightarrow> serve (te_config E) route q s = (y, s1) \<Longrightarrow> untouched s s1"
    and dec: "dec_body body = Some x"
  shows "untouched s s'"
  using run
proof (rule call_untouched)
  fix r z y s1
  assume "mux_route (hc_method (send_call base meth p body actor)) (hc_path (send_call base meth p body actor)) = Routed r z"
    and y: "serve (te_config E) r (call_request (te_request E) (send_call base meth p body actor) z) s = (y, s1)"
  then have "r = route" using to by simp
  then show "untouched s s1"
    using ok [OF _ y [unfolded \<open>r = route\<close>]] dec by (simp add: decodeJSON_def)
qed

section \<open>Unconfirmed tools\<close>

text \<open>The tools that may change something: the ones that are confirmed, and the request for a blocklist refresh.\<close>

definition acts :: "tool_call \<Rightarrow> bool" where
  "acts t =
     (case t of
        UpdateBlocklistConfigTool _ _ _ _ confirm \<Rightarrow> confirm
      | RefreshBlocklistsTool \<Rightarrow> True
      | CreateZoneTool _ _ _ confirm \<Rightarrow> confirm
      | DeleteZoneTool _ _ confirm \<Rightarrow> confirm
      | ApplyCloudflareTool _ _ _ confirm \<Rightarrow> confirm
      | ApplyChangesTool _ _ _ confirm \<Rightarrow> confirm
      | RollbackZoneTool _ _ _ confirm \<Rightarrow> confirm
      | _ \<Rightarrow> False)"

lemma tool_result_state: "tool_result f x = (r, e) \<Longrightarrow> e = snd x"
  by (auto simp: tool_result_def split: prod.splits sum.splits)

lemma reading_calls:
  "snd (cc_GetBlocklistConfig (api_transport E) b s) = s' \<Longrightarrow> untouched s s'"
  "snd (cc_ListAudit (api_transport E) b aq s) = s' \<Longrightarrow> untouched s s'"
  "snd (cc_ListZones (api_transport E) b s) = s' \<Longrightarrow> untouched s s'"
  "snd (cc_ListCloudflareZones (api_transport E) b s) = s' \<Longrightarrow> untouched s s'"
  "snd (cc_RefreshStatus (api_transport E) b s) = s' \<Longrightarrow> untouched s s'"
  "snd (mcp_listCloudflareRecords M (api_transport E) zone s) = s' \<Longrightarrow> untouched s s'"
  "snd (mcp_listRecords M (api_transport E) zone s) = s' \<Longrightarrow> untouched s s'"
  "snd (mcp_listRevisions M (api_transport E) zone s) = s' \<Longrightarrow> untouched s s'"
  unfolding cc_GetBlocklistConfig_def cc_ListAudit_def cc_ListZones_def cc_ListCloudflareZones_def cc_RefreshStatus_def
    mcp_listCloudflareRecords_def mcp_listRecords_def mcp_listRevisions_def
    cc_GetCloudflareRecords_def cc_GetZone_def cc_ListRevisions_def
  by (auto split: if_splits intro: get_call_untouched [OF surjective_pairing] simp: get_call_def)

lemma plan_call:
  assumes "snd (mcp_planCloudflareChanges M (api_transport E) zone expected changes s) = s'"
  shows "untouched s s'"
proof -
  have "untouched s (snd (cc_PlanCloudflareChanges (api_transport E) b zone expected changes s))" for b
    unfolding cc_PlanCloudflareChanges_def
  proof (rule call_untouched [OF surjective_pairing])
    fix route z y s1
    let ?call = "(send_call b ''POST'' (cf_zone_url zone @ ''/plans'') (enc_PlanRequest expected changes) [])\<lparr>hc_actor := None\<rparr>"
    assume "mux_route (hc_method ?call) (hc_path ?call) = Routed route z"
      and y: "serve (te_config E) route (call_request (te_request E) ?call z) s = (y, s1)"
    then have "route = RCfPlan" using routed_part_to(3) by (simp add: send_call_def)
    then show "untouched s s1" using serve_reads [OF y] by (simp add: mutating_def)
  qed
  then show ?thesis using assms by (auto simp: mcp_planCloudflareChanges_def split: if_splits)
qed

lemma apply_dry_call:
  assumes law: "fqdn_law (s_dns (sr_store (te_config E)))" and dry: "cr_dry_run req"
  shows "untouched s (snd (cc_Apply (api_transport E) b zone req actor s))"
  unfolding cc_Apply_def
  by (rule send_call_untouched [where route = RChangeZone and dec_body = dec_ChangeRequest and x = req, OF surjective_pairing])
    (auto simp: routed_part_to dec_enc_ChangeRequest serve_def dry intro: changeZone_dry [OF law])

lemma rollback_dry_call:
  assumes law: "fqdn_law (s_dns (sr_store (te_config E)))" and dry: "rb_dry_run req"
  shows "untouched s (snd (cc_Rollback (api_transport E) b zone req actor s))"
  unfolding cc_Rollback_def
  by (rule send_call_untouched [where route = RRollbackZone and dec_body = dec_RollbackRequest and x = req, OF surjective_pairing])
    (auto simp: routed_part_to dec_enc_RollbackRequest serve_def dry intro: rollbackZone_dry [OF law])

lemma create_dry_call:
  assumes dry: "lr_dry_run req"
  shows "untouched s (snd (cc_CreateZone (api_transport E) b zone req actor s))"
  unfolding cc_CreateZone_def
  by (rule send_call_untouched [where route = RCreateZone and dec_body = dec_LifecycleRequest and x = req, OF surjective_pairing])
    (auto simp: routed_to dec_enc_LifecycleRequest serve_def dry intro: createZone_dry)

lemma delete_dry_call:
  assumes dry: "lr_dry_run req"
  shows "untouched s (snd (cc_DeleteZone (api_transport E) b zone req actor s))"
  unfolding cc_DeleteZone_def
  by (rule send_call_untouched [where route = RDeleteZone and dec_body = dec_LifecycleRequest and x = req, OF surjective_pairing])
    (auto simp: routed_to dec_enc_LifecycleRequest serve_def dry intro: deleteZone_dry)

lemma blocklist_dry_call:
  assumes dry: "br_dry_run req"
  shows "untouched s (snd (cc_UpdateBlocklistConfig (api_transport E) b req actor s))"
  unfolding cc_UpdateBlocklistConfig_def
  by (rule send_call_untouched [where route = RUpdateBlocklist and dec_body = dec_blRequest and x = req, OF surjective_pairing])
    (auto simp: fixed_routes dec_enc_blRequest serve_def dry intro: updateBlocklistConfig_dry)

lemma changing_tools_dry:
  assumes law: "fqdn_law (s_dns (sr_store (te_config E)))"
  shows "untouched s (snd (mcp_updateBlocklistConfig M (api_transport E) sources allow deny expected False s))"
    "untouched s (snd (mcp_createZone M (api_transport E) zone role text False s))"
    "untouched s (snd (mcp_deleteZone M (api_transport E) zone expected False s))"
    "untouched s (snd (mcp_applyCloudflareChanges M (api_transport E) zone expected cs False s))"
    "untouched s (snd (mcp_planChanges M (api_transport E) zone expected changes s))"
    "untouched s (snd (mcp_applyChanges M (api_transport E) zone expected changes False s))"
    "untouched s (snd (mcp_rollbackZone M (api_transport E) zone expected target False s))"
  unfolding mcp_updateBlocklistConfig_def mcp_createZone_def mcp_deleteZone_def mcp_applyCloudflareChanges_def
    mcp_planChanges_def mcp_applyChanges_def mcp_rollbackZone_def
  by (auto split: option.splits
      intro: blocklist_dry_call create_dry_call delete_dry_call apply_dry_call [OF law] rollback_dry_call [OF law])


definition demo_mcp :: mcp_server where
  "demo_mcp = \<lparr>ms_base = [], ms_dns_address = [], ms_dns = tiny_dns, ms_query = (\<lambda>_ _ _. ExFailed []), ms_rcode = nat_dec\<rparr>"

definition demo_plan :: tool_call where
  "demo_plan = PlanChangesTool ''a.'' (cr_expected demo_req) (cr_changes demo_req)"

text \<open>The same change, planned and then applied: the plan leaves the zone file alone, the confirmed call replaces it.\<close>

lemma demo_confirmed:
  "map_of (disk (sr_world (snd (run_tool demo_mcp (api_transport demo_end)
     (ApplyChangesTool ''a.'' (cr_expected demo_req) (cr_changes demo_req) True) demo_server)))) ''/z/a.zone'' \<noteq> Some (Text demo_text)"
  by code_simp


end
