(* ===== verification/WebUi.thy ===== *)
theory WebUi
  imports ApiMux "HOL-Library.Code_Target_Nat"
begin

text \<open>
  The web interface in front of the control API (internal/webui): its configuration checks, the sealed session
  cookie, the same-origin check and the routes.

  AES-GCM and base64 are a record of functions; so is the OpenID Connect library oidcrp, which is not part of the
  repository: its guard \<open>Require\<close>, and its two pages, of which the callback may issue a session.  Static
  files are not modelled beyond being static.
\<close>

section \<open>Libraries\<close>

record session_codec =
  sc_encode :: "bytes \<Rightarrow> string"                                    \<comment> \<open>\<open>RawURLEncoding\<close>\<close>
  sc_decode :: "string \<Rightarrow> bytes option"
  sc_seal :: "bytes \<Rightarrow> bytes \<Rightarrow> bytes \<Rightarrow> bytes \<Rightarrow> bytes"            \<comment> \<open>key, nonce, plain text, additional data\<close>
  sc_open :: "bytes \<Rightarrow> bytes \<Rightarrow> bytes \<Rightarrow> bytes \<Rightarrow> bytes option"
  sc_print :: "jvalue \<Rightarrow> bytes"
  sc_parse :: "bytes \<Rightarrow> jvalue option"

definition nonceSize :: nat where "nonceSize = 12"

text \<open>What the documentation of the packages promises.\<close>

definition codec_law :: "session_codec \<Rightarrow> bool" where
  "codec_law K \<longleftrightarrow>
     (\<forall>b. sc_decode K (sc_encode K b) = Some b) \<and>
     (\<forall>key nonce plain ad. sc_open K key nonce (sc_seal K key nonce plain ad) ad = Some plain) \<and>
     (\<forall>j. sc_parse K (sc_print K j) = Some j)"

section \<open>Configuration\<close>

record OIDCConfig =
  oc_issuer :: string
  oc_client_id :: string
  oc_client_secret :: string
  oc_redirect :: string
  oc_scopes :: "string list"
  oc_subjects :: "string list"
  oc_emails :: "string list"
  oc_groups :: "string list"
  oc_session_key :: string
  oc_max_age :: duration

text \<open>\<open>url.URL.Hostname\<close>: the host without its port and without brackets.\<close>

definition after_last_colon :: "string \<Rightarrow> string" where
  "after_last_colon s = rev (takeWhile (\<lambda>c. c \<noteq> CHR '':'') (rev s))"

definition strip_port :: "string \<Rightarrow> string" where
  "strip_port s =
     (if CHR '':'' \<in> set s \<and> list_all is_digit (after_last_colon s)
      then take (length s - length (after_last_colon s) - 1) s else s)"

definition hostname :: "url \<Rightarrow> string" where
  "hostname u =
     (let h = strip_port (url_host u)
      in if has_prefix h ''['' \<and> has_suffix h '']'' then butlast (tl h) else h)"

definition validateOIDC :: "url_parser \<Rightarrow> OIDCConfig \<Rightarrow> string option" where
  "validateOIDC U c =
     (if trim_space (oc_issuer c) = [] \<or> trim_space (oc_client_id c) = [] \<or> trim_space (oc_redirect c) = []
      then Some ''OIDC issuer, client ID, and redirect URL are required when the UI listener is enabled''
      else case U (oc_redirect c) of
        None \<Rightarrow> Some ''OIDC redirect URL must be an absolute URL''
      | Some u \<Rightarrow>
          if hostname u = [] then Some ''OIDC redirect URL must be an absolute URL''
          else if url_scheme u \<noteq> ''https'' \<and>
                  \<not> (url_scheme u = ''http'' \<and> hostname u \<in> {''localhost'', ''127.0.0.1'', ''::1''})
          then Some ''OIDC redirect URL must use HTTPS (HTTP is allowed only for loopback development)''
          else if oc_subjects c = [] \<and> oc_emails c = [] \<and> oc_groups c = []
          then Some ''at least one OIDC subject, email, or group allowlist entry is required''
          else if oc_emails c \<noteq> []
          then Some ''OIDC email allowlists are not supported because the provider's email_verified claim cannot be enforced; use subject or group allowlists''
          else None)"

record authService =
  as_key :: bytes
  as_secure :: bool
  as_max_age :: duration

definition newAuth :: "session_codec \<Rightarrow> OIDCConfig \<Rightarrow> string + authService" where
  "newAuth K c =
     (case sc_decode K (trim_space (oc_session_key c)) of
        None \<Rightarrow> Inl ''RILLDNS_SESSION_KEY must be 32 random bytes encoded with base64url without padding''
      | Some key \<Rightarrow>
          if length key \<noteq> 32 then Inl ''RILLDNS_SESSION_KEY must be 32 random bytes encoded with base64url without padding''
          else Inr \<lparr>as_key = key, as_secure = has_prefix (to_lower (oc_redirect c)) ''https://'',
                    as_max_age = (if oc_max_age c \<le> 0 then 12 * hour else oc_max_age c)\<rparr>)"

section \<open>Sessions\<close>

record sessionClaims =
  cl_subject :: string
  cl_email :: string
  cl_expires :: int

definition enc_claims :: "sessionClaims \<Rightarrow> jvalue" where
  "enc_claims c =
     JObj ([(''sub'', JStr (cl_subject c))] @ (if cl_email c = [] then [] else [(''email'', JStr (cl_email c))]) @
           [(''exp'', JNum (cl_expires c))])"

definition dec_claims :: "jvalue \<Rightarrow> sessionClaims option" where
  "dec_claims j =
     do { s \<leftarrow> f_str j ''sub''; e \<leftarrow> f_str j ''email''; x \<leftarrow> Option.bind (get_field j ''exp'') as_int64;
          Some \<lparr>cl_subject = s, cl_email = e, cl_expires = x\<rparr> }"

definition sessionCookieName :: string where "sessionCookieName = ''rilldns_session''"

record cookie =
  ck_value :: string
  ck_max_age :: int
  ck_http_only :: bool
  ck_secure :: bool

text \<open>\<open>time.Time.Unix\<close> counts from 1970.\<close>

definition Issue :: "session_codec \<Rightarrow> authService \<Rightarrow> string \<Rightarrow> string \<Rightarrow> bytes \<Rightarrow> gotime \<Rightarrow> cookie" where
  "Issue K a subject email nonce now =
     (let claims = \<lparr>cl_subject = subject, cl_email = email, cl_expires = unix_seconds (now + as_max_age a)\<rparr>;
          sealed = nonce @ sc_seal K (as_key a) nonce (sc_print K (enc_claims claims)) sessionCookieName
      in \<lparr>ck_value = sc_encode K sealed, ck_max_age = as_max_age a div second, ck_http_only = True, ck_secure = as_secure a\<rparr>)"

definition ClearSession :: "authService \<Rightarrow> cookie" where
  "ClearSession a = \<lparr>ck_value = [], ck_max_age = -1, ck_http_only = True, ck_secure = as_secure a\<rparr>"

definition identity :: "session_codec \<Rightarrow> authService \<Rightarrow> string option \<Rightarrow> gotime \<Rightarrow> sessionClaims option" where
  "identity K a session now =
     (case session of
        None \<Rightarrow> None
      | Some v \<Rightarrow>
          (case sc_decode K v of
             None \<Rightarrow> None
           | Some sealed \<Rightarrow>
               if length sealed < nonceSize then None
               else case sc_open K (as_key a) (take nonceSize sealed) (drop nonceSize sealed) sessionCookieName of
                 None \<Rightarrow> None
               | Some plain \<Rightarrow>
                   (case Option.bind (sc_parse K plain) dec_claims of
                      None \<Rightarrow> None
                    | Some c \<Rightarrow> if cl_subject c = [] \<or> cl_expires c \<le> unix_seconds now then None else Some c)))"

definition session_valid :: "session_codec \<Rightarrow> authService \<Rightarrow> string option \<Rightarrow> gotime \<Rightarrow> bool" where
  "session_valid K a session now = (identity K a session now \<noteq> None)"

definition session_actor :: "session_codec \<Rightarrow> authService \<Rightarrow> string option \<Rightarrow> gotime \<Rightarrow> string" where
  "session_actor K a session now =
     (case identity K a session now of
        None \<Rightarrow> ''oidc:unknown''
      | Some c \<Rightarrow> ''oidc:'' @ (if cl_email c \<noteq> [] then cl_email c else cl_subject c))"

section \<open>Routes\<close>

record 'q ui_req =
  ur_method :: string
  ur_path :: string
  ur_origin :: string
  ur_session :: "string option"
  ur_actor :: string
  ur_rest :: 'q

datatype 'y ui_body = UiStatic string | UiRedirect string | UiHealth | UiForbidden | UiUnrouted | UiOidc string | UiApi 'y

record 'y ui_reply =
  uy_headers :: "(string \<times> string) list"
  uy_cookie :: "cookie option"
  uy_body :: "'y ui_body"

text \<open>The library's \<open>Service\<close>: the guard is told whether the request has a valid session.\<close>

record ('q, 'y, 's) oidc =
  od_require :: "bool \<Rightarrow> 'q ui_req \<Rightarrow> ('q ui_req \<Rightarrow> 's \<Rightarrow> 'y ui_reply \<times> 's) \<Rightarrow> 's \<Rightarrow> 'y ui_reply \<times> 's"
  od_login_start :: "'q ui_req \<Rightarrow> string"
  od_callback :: "'q ui_req \<Rightarrow> (string \<times> string) option \<times> string"   \<comment> \<open>whom a session is issued to\<close>

text \<open>\<open>Require\<close> hands on requests with a valid session and answers the others itself.\<close>

definition require_law :: "('q, 'y, 's) oidc \<Rightarrow> bool" where
  "require_law S \<longleftrightarrow>
     (\<forall>r handler s. od_require S True r handler s = handler r s) \<and>
     (\<forall>r handler s. snd (od_require S False r handler s) = s)"

record ui_clock =
  uc_now :: gotime
  uc_nonce :: bytes

definition plain_reply :: "'y ui_body \<Rightarrow> 'y ui_reply" where
  "plain_reply b = \<lparr>uy_headers = [], uy_cookie = None, uy_body = b\<rparr>"

definition ui_clean :: "string \<Rightarrow> bool" where
  "ui_clean p =
     (case split_on (CHR ''/'') p of
        [] # segs \<Rightarrow> segs \<noteq> [] \<and> list_all clean_segment (butlast segs) \<and> (last segs = [] \<or> clean_segment (last segs))
      | _ \<Rightarrow> False)"

definition ui_mux :: "session_codec \<Rightarrow> authService \<Rightarrow> ('q, 'y, 's) oidc \<Rightarrow> ui_clock \<Rightarrow>
    ('q ui_req \<Rightarrow> 's \<Rightarrow> 'y \<times> 's) \<Rightarrow> 'q ui_req \<Rightarrow> 's \<Rightarrow> 'y ui_reply \<times> 's" where
  "ui_mux K a S clk api r s =
     (let now = uc_now clk; p = ur_path r; valid = session_valid K a (ur_session r) now;
          reads = (ur_method r = ''GET'' \<or> ur_method r = ''HEAD'')
      in if \<not> ui_clean p then (plain_reply (UiRedirect p), s)
         else if p = ''/v1'' \<or> (reads \<and> p = ''/static'') then (plain_reply (UiRedirect (p @ ''/'')), s)
         else if has_prefix p ''/v1/''
         then od_require S valid r
                (\<lambda>r s. case api (r\<lparr>ur_actor := session_actor K a (ur_session r) now\<rparr>) s of (y, s1) \<Rightarrow> (plain_reply (UiApi y), s1)) s
         else if reads \<and> has_prefix p ''/static/'' then (plain_reply (UiStatic (drop 8 p)), s)
         else if reads \<and> p = ''/login''
         then (plain_reply (if valid then UiRedirect ''/'' else UiStatic ''login.html''), s)
         else if reads \<and> p = ''/api/auth/login/start'' then (plain_reply (UiOidc (od_login_start S r)), s)
         else if reads \<and> p = ''/api/auth/callback''
         then (case od_callback S r of
                 (None, b) \<Rightarrow> (plain_reply (UiOidc b), s)
               | (Some (subject, email), b) \<Rightarrow>
                   ((plain_reply (UiOidc b))\<lparr>uy_cookie := Some (Issue K a subject email (uc_nonce clk) now)\<rparr>, s))
         else if ur_method r = ''POST'' \<and> p = ''/api/auth/logout''
         then ((plain_reply (UiRedirect ''/login''))\<lparr>uy_cookie := Some (ClearSession a)\<rparr>, s)
         else if reads \<and> p = ''/healthz'' then (plain_reply UiHealth, s)
         else if reads \<and> p = ''/'' then od_require S valid r (\<lambda>r s. (plain_reply (UiStatic ''index.html''), s)) s
         else (plain_reply UiUnrouted, s))"

definition requireSameOrigin :: "string \<Rightarrow> ('q ui_req \<Rightarrow> 's \<Rightarrow> 'y ui_reply \<times> 's) \<Rightarrow> 'q ui_req \<Rightarrow> 's \<Rightarrow> 'y ui_reply \<times> 's" where
  "requireSameOrigin origin handler r s =
     (if ur_method r \<noteq> ''GET'' \<and> ur_method r \<noteq> ''HEAD'' \<and> ur_method r \<noteq> ''OPTIONS'' \<and> ur_origin r \<noteq> origin
      then (plain_reply UiForbidden, s) else handler r s)"

definition src_of :: "string \<Rightarrow> string \<Rightarrow> string" where
  "src_of what source = what @ '' '' @ [CHR 0x27] @ source @ [CHR 0x27]"

definition security_headers :: "(string \<times> string) list" where
  "security_headers =
     [(''Content-Security-Policy'',
       join ''; '' [src_of ''default-src'' ''self'', src_of ''style-src'' ''self'', src_of ''script-src'' ''self'',
         src_of ''connect-src'' ''self'', src_of ''frame-ancestors'' ''none'', src_of ''base-uri'' ''none'', src_of ''form-action'' ''self'']),
      (''Referrer-Policy'', ''no-referrer''), (''X-Content-Type-Options'', ''nosniff''), (''X-Frame-Options'', ''DENY''),
      (''Strict-Transport-Security'', ''max-age=31536000; includeSubDomains'')]"

definition securityHeaders :: "('q ui_req \<Rightarrow> 's \<Rightarrow> 'y ui_reply \<times> 's) \<Rightarrow> 'q ui_req \<Rightarrow> 's \<Rightarrow> 'y ui_reply \<times> 's" where
  "securityHeaders handler r s = (case handler r s of (y, s1) \<Rightarrow> (y\<lparr>uy_headers := security_headers @ uy_headers y\<rparr>, s1))"

definition ui_origin :: "url_parser \<Rightarrow> OIDCConfig \<Rightarrow> string" where
  "ui_origin U c = (case U (oc_redirect c) of None \<Rightarrow> [] | Some u \<Rightarrow> url_scheme u @ ''://'' @ url_host u)"

definition new_ui :: "url_parser \<Rightarrow> session_codec \<Rightarrow> OIDCConfig \<Rightarrow> ('q, 'y, 's) oidc \<Rightarrow> ('q ui_req \<Rightarrow> 's \<Rightarrow> 'y \<times> 's) \<Rightarrow>
    string + (ui_clock \<Rightarrow> 'q ui_req \<Rightarrow> 's \<Rightarrow> 'y ui_reply \<times> 's)" where
  "new_ui U K c S api =
     (case validateOIDC U c of
        Some e \<Rightarrow> Inl e
      | None \<Rightarrow>
          (case newAuth K c of
             Inl e \<Rightarrow> Inl e
           | Inr a \<Rightarrow> Inr (\<lambda>clk. securityHeaders (requireSameOrigin (ui_origin U c) (ui_mux K a S clk api)))))"

section \<open>Sessions\<close>

text \<open>A cookie that was issued is valid until it expires, whatever the subject's text, and names the
  subject.\<close>

lemma claims_fields: "dec_claims (enc_claims c) = (if - (2 ^ 63) \<le> cl_expires c \<and> cl_expires c < 2 ^ 63 then Some c else None)"
proof -
  have e: "equal_fold ''sub'' ''sub''" "equal_fold ''email'' ''email''" "equal_fold ''exp'' ''exp''"
    "\<not> equal_fold ''sub'' ''email''" "\<not> equal_fold ''sub'' ''exp''" "\<not> equal_fold ''email'' ''sub''" "\<not> equal_fold ''email'' ''exp''"
    "\<not> equal_fold ''exp'' ''sub''" "\<not> equal_fold ''exp'' ''email''"
    by code_simp+
  show ?thesis
    by (cases c) (simp add: dec_claims_def enc_claims_def f_str_def get_field_def e as_str_def as_int64_def)
qed

lemma issued_session:
  assumes law: "codec_law K" and nonce: "length nonce = nonceSize" and subject: "subject \<noteq> []"
    and bound: "- (2 ^ 63) \<le> unix_seconds (now + as_max_age a)" "unix_seconds (now + as_max_age a) < 2 ^ 63"
  shows "identity K a (Some (ck_value (Issue K a subject email nonce now))) later =
    (if unix_seconds (now + as_max_age a) \<le> unix_seconds later then None
     else Some \<lparr>cl_subject = subject, cl_email = email, cl_expires = unix_seconds (now + as_max_age a)\<rparr>)"
  using assms by (simp add: identity_def Issue_def codec_law_def claims_fields)

section \<open>What reaches the API\<close>

lemma new_ui_Inr:
  assumes "new_ui U K c S api = Inr h"
  obtains a where "newAuth K c = Inr a" "h = (\<lambda>clk. securityHeaders (requireSameOrigin (ui_origin U c) (ui_mux K a S clk api)))"
  using assms by (auto simp: new_ui_def split: option.splits sum.splits)

lemma ui_mux_changes:
  assumes law: "require_law S" and run: "ui_mux K a S clk api r s = (y, s')" and ch: "s' \<noteq> s"
  shows "session_valid K a (ur_session r) (uc_now clk) \<and> has_prefix (ur_path r) ''/v1/'' \<and>
    s' = snd (api (r\<lparr>ur_actor := session_actor K a (ur_session r) (uc_now clk)\<rparr>) s)"
proof (cases "session_valid K a (ur_session r) (uc_now clk)")
  case True
  then show ?thesis using law run ch
    by (auto simp: ui_mux_def require_law_def Let_def split: if_splits prod.splits option.splits)
next
  case False
  have "snd (od_require S False r h s) = s" for h using law by (simp add: require_law_def)
  then have "s' = s"
    using run False by (auto simp: ui_mux_def Let_def split: if_splits prod.splits option.splits dest: arg_cong [of _ _ snd])
  then show ?thesis using ch by simp
qed

text \<open>
  C4. Nothing behind the web interface changes without a session: if a request to the configured interface changes the
  state of the API, it carries a cookie that opens under the session key to claims with a subject that have not
  expired, it is for a path of the API and, unless its method only reads, comes from the interface's own origin; and the change
  is exactly the one the API makes for the same request in the name of the session's user, whatever actor the
  request claimed.
\<close>

theorem changes_need_a_session:
  assumes law: "require_law S" and ui: "new_ui U K c S api = Inr h"
    and run: "h clk r s = (y, s')" and changed: "s' \<noteq> s"
  shows "\<exists>key claims v sealed plain. sc_decode K (trim_space (oc_session_key c)) = Some key \<and> length key = 32 \<and>
     ur_session r = Some v \<and> sc_decode K v = Some sealed \<and>
     sc_open K key (take nonceSize sealed) (drop nonceSize sealed) sessionCookieName = Some plain \<and>
     Option.bind (sc_parse K plain) dec_claims = Some claims \<and>
     cl_subject claims \<noteq> [] \<and> unix_seconds (uc_now clk) < cl_expires claims \<and>
     has_prefix (ur_path r) ''/v1/'' \<and>
     (ur_method r \<in> {''GET'', ''HEAD'', ''OPTIONS''} \<or> ur_origin r = ui_origin U c) \<and>
     s' = snd (api (r\<lparr>ur_actor := ''oidc:'' @ (if cl_email claims \<noteq> [] then cl_email claims else cl_subject claims)\<rparr>) s)"
proof -
  obtain a where a: "newAuth K c = Inr a" "h = (\<lambda>clk. securityHeaders (requireSameOrigin (ui_origin U c) (ui_mux K a S clk api)))"
    using new_ui_Inr [OF ui] by blast
  obtain y1 where y1: "requireSameOrigin (ui_origin U c) (ui_mux K a S clk api) r s = (y1, s')"
    using run a(2) by (auto simp: securityHeaders_def split: prod.splits)
  then have origin: "ur_method r \<in> {''GET'', ''HEAD'', ''OPTIONS''} \<or> ur_origin r = ui_origin U c"
    and mux: "ui_mux K a S clk api r s = (y1, s')"
    using changed by (auto simp: requireSameOrigin_def split: if_splits)
  note m = ui_mux_changes [OF law mux changed]
  obtain claims where claims: "identity K a (ur_session r) (uc_now clk) = Some claims"
    using m by (auto simp: session_valid_def)
  have key: "sc_decode K (trim_space (oc_session_key c)) = Some (as_key a) \<and> length (as_key a) = 32"
    using a(1) by (auto simp: newAuth_def split: option.splits if_splits)
  obtain v sealed plain where session: "ur_session r = Some v" "sc_decode K v = Some sealed"
    "sc_open K (as_key a) (take nonceSize sealed) (drop nonceSize sealed) sessionCookieName = Some plain"
    "Option.bind (sc_parse K plain) dec_claims = Some claims" "cl_subject claims \<noteq> []" "unix_seconds (uc_now clk) < cl_expires claims"
    using claims by (auto simp: identity_def split: option.splits if_splits)
  have "s' = snd (api (r\<lparr>ur_actor := ''oidc:'' @ (if cl_email claims \<noteq> [] then cl_email claims else cl_subject claims)\<rparr>) s)"
    using m claims by (simp add: session_actor_def)
  then show ?thesis using key session m origin by blast
qed

text \<open>A logged-in user against an API that records who acted; the request claims another actor.\<close>

definition ui_codec :: session_codec where
  "ui_codec = \<lparr>sc_encode = (\<lambda>b. b), sc_decode = Some, sc_seal = (\<lambda>_ _ plain _. plain), sc_open = (\<lambda>_ _ sealed _. Some sealed),
     sc_print = (\<lambda>_. []), sc_parse = (\<lambda>_. Some (enc_claims \<lparr>cl_subject = ''me'', cl_email = [], cl_expires = 100\<rparr>))\<rparr>"

definition ui_config :: OIDCConfig where
  "ui_config = \<lparr>oc_issuer = ''i'', oc_client_id = ''c'', oc_client_secret = ''x'', oc_redirect = ''https://h/cb'', oc_scopes = [], oc_subjects = [''me''], oc_emails = [],
     oc_groups = [], oc_session_key = replicate 32 (CHR ''k''), oc_max_age = 0\<rparr>"

definition ui_url :: url_parser where
  "ui_url s = Some \<lparr>url_scheme = ''https'', url_host = ''h:443'', url_user = None, url_string = s\<rparr>"

definition ui_oidc :: "(unit, unit, string list) oidc" where
  "ui_oidc = \<lparr>od_require = (\<lambda>valid r handler s. if valid then handler r s else (plain_reply UiForbidden, s)),
     od_login_start = (\<lambda>_. []), od_callback = (\<lambda>_. (None, []))\<rparr>"

definition ui_api :: "unit ui_req \<Rightarrow> string list \<Rightarrow> unit \<times> string list" where
  "ui_api r s = ((), s @ [ur_actor r])"

definition ui_request :: "unit ui_req" where
  "ui_request = \<lparr>ur_method = ''POST'', ur_path = ''/v1/zones/a/changes'', ur_origin = ''https://h:443'',
     ur_session = Some (replicate 12 (CHR ''n'')), ur_actor = ''root'', ur_rest = ()\<rparr>"

definition ui_now :: ui_clock where
  "ui_now = \<lparr>uc_now = 5, uc_nonce = replicate 12 (CHR ''n'')\<rparr>"

lemma ui_runs:
  "(case new_ui ui_url ui_codec ui_config ui_oidc ui_api of
      Inl e \<Rightarrow> False
    | Inr h \<Rightarrow> snd (h ui_now ui_request []) = [''oidc:me''] \<and> snd (h ui_now (ui_request\<lparr>ur_origin := []\<rparr>) []) = [] \<and>
        snd (h ui_now (ui_request\<lparr>ur_session := None\<rparr>) []) = [])"
  by code_simp

theorem changes_need_a_session_witness:
  "ui_origin ui_url ui_config = ''https://h:443'' \<and> ur_origin ui_request = ui_origin ui_url ui_config"
proof -
  obtain h where h: "new_ui ui_url ui_codec ui_config ui_oidc ui_api = Inr h" and s: "snd (h ui_now ui_request []) = [''oidc:me'']"
    using ui_runs by (auto split: sum.splits)
  have law: "require_law ui_oidc" by (simp add: require_law_def ui_oidc_def)
  have m: "ur_method ui_request = ''POST''" by (simp add: ui_request_def)
  have "ur_method ui_request \<in> {''GET'', ''HEAD'', ''OPTIONS''} \<or> ur_origin ui_request = ui_origin ui_url ui_config"
    using changes_need_a_session [OF law h surjective_pairing, of ui_now ui_request "[]"] s by auto
  then have "ur_origin ui_request = ui_origin ui_url ui_config" unfolding m by simp
  then show ?thesis by (simp add: ui_request_def)
qed

end
