(* ===== verification/ZoneTools.thy ===== *)
theory ZoneTools
  imports ZoneProofs RefreshStatus
begin

text \<open>
  Two commands over the zone directory: the cache exclusions of CoreDNS (internal/cachezones and
  cmd/rill-cache-zones/main.go) and the status document of the zone files (cmd/rill-zone-status/main.go).
\<close>

section \<open>Zone files of a directory\<close>

text \<open>\<open>filepath.Glob\<close> with a name pattern: sorted, and without an error if the directory cannot be read.\<close>

definition glob_zones :: "path \<Rightarrow> world \<Rightarrow> path list \<times> world" where
  "glob_zones dir w =
     (case os_read_dir dir w of
        (Inl _, w1) \<Rightarrow> ([], w1)
      | (Inr names, w1) \<Rightarrow> (map (path_join dir) (filter (\<lambda>n. has_suffix n ''.zone'') names), w1))"

section \<open>Cache exclusions\<close>

text \<open>The loop over the records: the origin so far, the inner \<open>None\<close> before the first SOA.\<close>

fun soa_origin :: "dnslib \<Rightarrow> rr list \<Rightarrow> string option \<Rightarrow> string option option" where
  "soa_origin D [] origin = Some origin"
| "soa_origin D (r # rs) origin =
     (if \<not> is_soa r then soa_origin D rs origin
      else if origin \<noteq> None then None
      else soa_origin D rs (Some (to_lower (fqdn D (rname r)))))"

definition zoneOrigin :: "dnslib \<Rightarrow> path \<Rightarrow> world \<Rightarrow> (string + string) \<times> world" where
  "zoneOrigin D p w =
     (case os_read_file p w of
        (Inr (Text s), w1) \<Rightarrow>
          ((case parse_zone D [] s of
              Inl e \<Rightarrow> Inl (''parse '' @ p @ '': '' @ e)
            | Inr rrs \<Rightarrow>
                (case soa_origin D rrs None of
                   None \<Rightarrow> Inl (''parse '' @ p @ '': multiple SOA records'')
                 | Some None \<Rightarrow> Inl (''parse '' @ p @ '': missing SOA record'')
                 | Some (Some z) \<Rightarrow> Inr z)), w1)
      | (_, w1) \<Rightarrow> (Inl (''open '' @ p), w1))"

fun zone_origins :: "dnslib \<Rightarrow> path list \<Rightarrow> world \<Rightarrow> (string + string list) \<times> world" where
  "zone_origins D [] w = (Inr [], w)"
| "zone_origins D (p # ps) w =
     (case zoneOrigin D p w of
        (Inl e, w1) \<Rightarrow> (Inl e, w1)
      | (Inr z, w1) \<Rightarrow>
          (case zone_origins D ps w1 of
             (Inl e, w2) \<Rightarrow> (Inl e, w2)
           | (Inr zs, w2) \<Rightarrow> (Inr (z # zs), w2)))"

definition cache_fragment :: "string list \<Rightarrow> bytes" where
  "cache_fragment ordered =
     ''# Generated by rill-cache-zones; do not edit.'' @ [CHR 0x0A] @
     (if ordered = [] then []
      else ''disable success '' @ join '' '' ordered @ [CHR 0x0A] @ ''disable denial '' @ join '' '' ordered @ [CHR 0x0A])"

definition Render :: "dnslib \<Rightarrow> path \<Rightarrow> world \<Rightarrow> (string + bytes) \<times> world" where
  "Render D dir w =
     (case glob_zones dir w of
        (ps, w1) \<Rightarrow>
          (case zone_origins D ps w1 of
             (Inl e, w2) \<Rightarrow> (Inl e, w2)
           | (Inr zs, w2) \<Rightarrow> (Inr (cache_fragment (sort (remdups zs))), w2)))"

definition cache_write :: "path \<Rightarrow> bytes \<Rightarrow> world \<Rightarrow> bool \<times> world" where
  "cache_write = after_mkdir (\<lambda>p v. atomic_write ''.cache-zones-'' [SChmod, SWrite, SSync, SClose, SRename] p (Text v))"

text \<open>The exit code.\<close>

definition cache_zones_main :: "dnslib \<Rightarrow> path \<Rightarrow> path \<Rightarrow> world \<Rightarrow> nat \<times> world" where
  "cache_zones_main D dir target w =
     (case Render D dir w of
        (Inl e, w1) \<Rightarrow> (1, w1)
      | (Inr content, w1) \<Rightarrow> (case cache_write target content w1 of (ok, w2) \<Rightarrow> (if ok then 0 else 1, w2)))"

section \<open>The status of the zone files\<close>

definition inspect_zone :: "dnslib \<Rightarrow> path \<Rightarrow> string \<Rightarrow> world \<Rightarrow> (string + rsZone) \<times> world" where
  "inspect_zone D p name w =
     (case os_read_file p w of
        (Inr (Text s), w1) \<Rightarrow>
          ((case parse_zone D name s of
              Inl e \<Rightarrow> Inl (name @ '': '' @ e)
            | Inr rrs \<Rightarrow>
                (let serials = List.map_filter soa_serial rrs
                 in if length serials \<noteq> 1 \<or> length rrs < 2
                    then Inl (name @ '': expected one SOA and at least two records (got '' @ nat_dec (length serials) @ ''/'' @
                           nat_dec (length rrs) @ '')'')
                    else Inr \<lparr>rz_name = name, rz_serial = last serials, rz_records = int (length rrs)\<rparr>)), w1)
      | (_, w1) \<Rightarrow> (Inl (''open '' @ p), w1))"

fun inspect_zones :: "dnslib \<Rightarrow> path \<Rightarrow> string list \<Rightarrow> rsZone list \<Rightarrow> world \<Rightarrow> (string option \<times> rsZone list) \<times> world" where
  "inspect_zones D dir [] acc w = ((None, acc), w)"
| "inspect_zones D dir (z # zs) acc w =
     (case inspect_zone D (path_join dir (trim_suffix z ''.'' @ ''.zone'')) (fqdn D z) w of
        (Inl e, w1) \<Rightarrow> ((Some e, acc), w1)
      | (Inr r, w1) \<Rightarrow> inspect_zones D dir zs (acc @ [r]) w1)"

definition zone_status_main ::
    "dnslib \<Rightarrow> path \<Rightarrow> path \<Rightarrow> string \<Rightarrow> string list \<Rightarrow> gotime \<Rightarrow> gotime \<Rightarrow> world \<Rightarrow> nat \<times> world" where
  "zone_status_main D dir status source args started ended w =
     (case (if args \<noteq> [] then (args, w)
            else (case glob_zones dir w of (ps, w1) \<Rightarrow> (map (\<lambda>p. trim_suffix (path_base p) ''.zone'') ps, w1))) of
        (zones, w1) \<Rightarrow>
          if zones = [] then (1, w1)
          else let result = zero_status\<lparr>rs_kind := ''zones'', rs_last_attempt := started, rs_source := source\<rparr>
               in case inspect_zones D dir zones [] w1 of
                    ((Some e, rs), w2) \<Rightarrow> (1, snd (statusfile_WriteJSON status (enc_rsstatus (result\<lparr>rs_zones := rs, rs_error := e\<rparr>)) w2))
                  | ((None, rs), w2) \<Rightarrow>
                      (case statusfile_WriteJSON status (enc_rsstatus (result\<lparr>rs_zones := rs, rs_success := True, rs_last_success := ended\<rparr>)) w2 of
                         (ok, w3) \<Rightarrow> (if ok then 0 else 1, w3)))"

section \<open>Reading\<close>

lemma zoneOrigin_frame: "zoneOrigin D p w = (r, w') \<Longrightarrow> same_disk w w'"
  by (auto simp: zoneOrigin_def same_disk_def split: prod.splits sum.splits fdata.splits dest: os_read_file_frame)

lemma zone_origins_frame: "zone_origins D ps w = (r, w') \<Longrightarrow> same_disk w w'"
proof (induction ps arbitrary: w r w')
  case (Cons p ps)
  obtain z w1 where z: "zoneOrigin D p w = (z, w1)" by fastforce
  obtain zs w2 where zs: "zone_origins D ps w1 = (zs, w2)" by fastforce
  have f: "same_disk w w1" "same_disk w1 w2" using zoneOrigin_frame [OF z] Cons.IH [OF zs] .
  have "w' = w1 \<or> w' = w2" using Cons.prems z zs by (auto split: sum.splits)
  then show ?case using f same_disk_trans [OF f] by blast
qed simp

definition origin_of :: "dnslib \<Rightarrow> world \<Rightarrow> path \<Rightarrow> string \<Rightarrow> bool" where
  "origin_of D w p z \<longleftrightarrow>
     (\<exists>s rrs pre r post. flookup w p = Some (Text s) \<and> parse_zone D [] s = Inr rrs \<and> rrs = pre @ r # post \<and> is_soa r \<and>
        \<not> list_ex (\<lambda>r. is_soa r) (pre @ post) \<and> z = to_lower (fqdn D (rname r)))"

lemma origin_of_disk: "same_disk w w1 \<Longrightarrow> origin_of D w1 = origin_of D w"
  by (simp add: origin_of_def same_disk_def fun_eq_iff)

lemma soa_origin_rest: "soa_origin D rs (Some z) = Some x \<Longrightarrow> x = Some z \<and> \<not> list_ex (\<lambda>r. is_soa r) rs"
  by (induction rs) (auto split: if_splits)

lemma soa_origin_exact:
  "soa_origin D rs None = Some (Some z) \<Longrightarrow>
   \<exists>pre r post. rs = pre @ r # post \<and> is_soa r \<and> \<not> list_ex (\<lambda>r. is_soa r) (pre @ post) \<and> z = to_lower (fqdn D (rname r))"
proof (induction rs)
  case (Cons r rs)
  show ?case
  proof (cases "is_soa r")
    case True
    then have "soa_origin D rs (Some (to_lower (fqdn D (rname r)))) = Some (Some z)" using Cons.prems by simp
    from soa_origin_rest [OF this] show ?thesis using True by (intro exI [of _ "[]"] exI [of _ r] exI [of _ rs]) simp
  next
    case False
    then obtain pre q post where "rs = pre @ q # post" "is_soa q" "\<not> list_ex (\<lambda>r. is_soa r) (pre @ post)"
      "z = to_lower (fqdn D (rname q))" using Cons by auto
    then show ?thesis using False by (intro exI [of _ "r # pre"] exI [of _ q] exI [of _ post]) simp
  qed
qed simp

lemma zoneOrigin_Inr:
  assumes "zoneOrigin D p w = (Inr z, w')" shows "origin_of D w p z"
proof -
  obtain s w1 where s: "os_read_file p w = (Inr (Text s), w1)"
    using assms by (auto simp: zoneOrigin_def split: prod.splits sum.splits fdata.splits)
  then obtain rrs where "parse_zone D [] s = Inr rrs" "soa_origin D rrs None = Some (Some z)"
    using assms by (auto simp: zoneOrigin_def split: sum.splits option.splits)
  then show ?thesis using soa_origin_exact os_read_file_Inr [OF s] unfolding origin_of_def by metis
qed

lemma zone_origins_Inr: "zone_origins D ps w = (Inr zs, w') \<Longrightarrow> list_all2 (origin_of D w) ps zs"
proof (induction ps arbitrary: w zs w')
  case (Cons p ps)
  obtain z w1 where z: "zoneOrigin D p w = (z, w1)" by fastforce
  then obtain y ys w2 where y: "z = Inr y" "zone_origins D ps w1 = (Inr ys, w2)" "zs = y # ys"
    using Cons.prems by (auto split: sum.splits prod.splits)
  have "list_all2 (origin_of D w) ps ys" using Cons.IH [OF y(2)] unfolding origin_of_disk [OF zoneOrigin_frame [OF z]] .
  then show ?case using zoneOrigin_Inr [OF z [unfolded y(1)]] y(3) by simp
qed simp

text \<open>
  The fragment lists, sorted and once each, exactly the origins of the zone files the listing found; each file holds one
  SOA, at that origin.
\<close>

lemma Render_exact:
  assumes run: "Render D dir w = (Inr content, w')"
  shows "same_disk w w' \<and> (\<exists>zs. list_all2 (origin_of D w) (fst (glob_zones dir w)) zs \<and>
     content = cache_fragment (sorted_list_of_set (set zs)))"
proof -
  obtain ps w1 where g: "glob_zones dir w = (ps, w1)" by fastforce
  obtain zs where zs: "zone_origins D ps w1 = (Inr zs, w')" "content = cache_fragment (sort (remdups zs))"
    using run g by (auto simp: Render_def split: prod.splits sum.splits)
  have f: "same_disk w w1" using g by (auto simp: glob_zones_def os_read_dir_def same_disk_def split: prod.splits sum.splits bool.splits dest: os_plain_frame)
  have "list_all2 (origin_of D w) ps zs" using zone_origins_Inr [OF zs(1)] unfolding origin_of_disk [OF f] .
  moreover have "sort (remdups zs) = sorted_list_of_set (set zs)" by (simp add: sorted_list_of_set_sort_remdups)
  ultimately show ?thesis using same_disk_trans [OF f zone_origins_frame [OF zs(1)]] zs(2) g by auto
qed

text \<open>A zone directory that cannot be listed gives a fragment without exclusions, and the command succeeds.\<close>

lemma unreadable_directory_excludes_nothing:
  assumes "os_read_dir dir w = (Inl e, w1)"
  shows "Render D dir w = (Inr (cache_fragment []), w1)"
  using assms by (simp add: Render_def glob_zones_def)

interpretation cz: strict_writer cache_write Text
  unfolding cache_write_def
  by (rule after_mkdir_strict, rule atomic_write_strict [where pat = "\<lambda>_. ''.cache-zones-''" and pre = "[SChmod, SWrite, SSync, SClose]"])
    (simp add: rename_steps_def)

text \<open>The published fragment is the old one or the complete new one.\<close>

lemma cache_zones_main_result:
  assumes run: "cache_zones_main D dir target w = (0, w')"
  shows "\<exists>content w1. Render D dir w = (Inr content, w1) \<and> flookup w' target = Some (Text content)"
proof -
  obtain r w1 where r: "Render D dir w = (r, w1)" by fastforce
  then obtain content where c: "r = Inr content" using run by (cases r) (auto simp: cache_zones_main_def)
  obtain ok w2 where w: "cache_write target content w1 = (ok, w2)" by fastforce
  then have "ok" "w2 = w'" using run r c by (auto simp: cache_zones_main_def split: if_splits)
  then show ?thesis using r c w cz.write_ok [of target content w1 w'] by simp
qed

end
