(* ===== verification/Spec2Isabelle.thy ===== *)
theory Spec2Isabelle
  imports ZoneTheorems Collector CloudflareTheorems SecondaryTheorems BlocklistTheorems ApiHandler HaTheorems Reconcile VerifierTheorems McpTheorems WebUi ZoneTools
begin

text \<open>
  RillDNS is a set of services around an authoritative DNS server.  The zone store
  (internal/zones) keeps zone files, a role manifest, a history of prior versions and an audit log.

  Theories: Prelude (Go's strings, maps and time), Disk (the file system and the replacement of a
  file through a temporary one), Contracts (optimistic concurrency), DnsLib (the DNS library as a
  parameter), ZoneRecords, ZoneStore, ZoneProofs and ZoneTheorems (internal/zones/store.go).
\<close>

end
